(* ===== verification/Prelude.thy ===== *)
theory Prelude
  imports Main "HOL-Library.AList" "HOL-Library.Multiset" "HOL-Library.Word" "HOL-Library.Sublist"
begin

text \<open>
  Shared vocabulary of the development: actions on a state that may fail (the shape of every
  \<open>&mut self\<close> method returning \<open>Result\<close>), the loops over collections the code uses,
  association lists standing for \<open>HashMap\<close> (the list order is the arbitrary iteration order),
  and the collections of rules the component proofs use.
\<close>

section \<open>Fallible actions on a state\<close>

text \<open>
  A Rust method \<open>fn f(&mut self) -> Result<T, E>\<close> returns a value or an error, and in both cases
  leaves the state as mutated so far: an early return through \<open>?\<close> does not undo anything.
\<close>

type_synonym ('s, 'e, 'a) action = "'s \<Rightarrow> ('e + 'a) \<times> 's"

definition ok :: "'a \<Rightarrow> ('s, 'e, 'a) action" where
  "ok x s = (Inr x, s)"

definition fail :: "'e \<Rightarrow> ('s, 'e, 'a) action" where
  "fail e s = (Inl e, s)"

definition update_state :: "('s \<Rightarrow> 's) \<Rightarrow> ('s, 'e, unit) action" where
  "update_state f s = (Inr (), f s)"

definition read_state :: "('s \<Rightarrow> 'a) \<Rightarrow> ('s, 'e, 'a) action" where
  "read_state f s = (Inr (f s), s)"

text \<open>\<open>let x = m?; k(x)\<close>\<close>

definition try_then :: "('s, 'e, 'a) action \<Rightarrow> ('a \<Rightarrow> ('s, 'e, 'b) action) \<Rightarrow> ('s, 'e, 'b) action" where
  "try_then m k s = (case m s of (Inl e, t) \<Rightarrow> (Inl e, t) | (Inr x, t) \<Rightarrow> k x t)"

text \<open>\<open>match m { Err(e) => h(e), Ok(x) => k(x) }\<close>\<close>

definition match_result ::
  "('s, 'e, 'a) action \<Rightarrow> ('e \<Rightarrow> ('s, 'f, 'b) action) \<Rightarrow> ('a \<Rightarrow> ('s, 'f, 'b) action) \<Rightarrow> ('s, 'f, 'b) action" where
  "match_result m h k s = (case m s of (Inl e, t) \<Rightarrow> h e t | (Inr x, t) \<Rightarrow> k x t)"

text \<open>\<open>let _ = m;\<close>: the result is dropped, the effect stays.\<close>

definition ignore_result :: "('s, 'e, 'a) action \<Rightarrow> ('s, 'f, unit) action" where
  "ignore_result m s = (Inr (), snd (m s))"

text \<open>\<open>for x in xs { f(x)?; }\<close>\<close>

primrec for_each :: "('a \<Rightarrow> ('s, 'e, unit) action) \<Rightarrow> 'a list \<Rightarrow> ('s, 'e, unit) action" where
  "for_each f [] = ok ()"
| "for_each f (x # xs) = try_then (f x) (\<lambda>_. for_each f xs)"

lemmas action_defs = ok_def fail_def update_state_def read_state_def try_then_def
  match_result_def ignore_result_def

lemma ok_apply [simp]: "ok x s = (Inr x, s)"
  by (simp add: ok_def)

lemma fail_apply [simp]: "fail e s = (Inl e, s)"
  by (simp add: fail_def)

lemma update_state_apply [simp]: "update_state f s = (Inr (), f s)"
  by (simp add: update_state_def)

lemma read_state_apply [simp]: "read_state f s = (Inr (f s), s)"
  by (simp add: read_state_def)

lemma ignore_result_apply [simp]: "ignore_result m s = (Inr (), snd (m s))"
  by (simp add: ignore_result_def)

lemma try_then_ok [simp]: "try_then (ok x) k = k x"
  by (rule ext) (simp add: try_then_def)

lemma try_then_fail [simp]: "try_then (fail e) k = fail e"
  by (rule ext) (simp add: try_then_def)

lemma try_then_ok_right: "try_then m ok = m"
  by (rule ext) (simp add: try_then_def split: prod.split sum.split)

lemma try_then_assoc: "try_then (try_then m k) l = try_then m (\<lambda>x. try_then (k x) l)"
  by (rule ext) (simp add: try_then_def split: prod.split sum.split)

lemma try_then_Inr_iff:
  "try_then m k s = (Inr y, u) \<longleftrightarrow> (\<exists>x t. m s = (Inr x, t) \<and> k x t = (Inr y, u))"
  by (simp add: try_then_def split: prod.split sum.split)

lemma try_then_InrE:
  assumes "try_then m k s = (Inr y, u)"
  obtains x t where "m s = (Inr x, t)" and "k x t = (Inr y, u)"
  using assms by (auto simp: try_then_Inr_iff)

text \<open>A sequence of calls with \<open>?\<close>, an action that first looks at the state, and \<open>map_err\<close>.\<close>

definition steps :: "('s, 'e, unit) action list \<Rightarrow> ('s, 'e, unit) action" where
  "steps ms = foldr (\<lambda>m k. try_then m (\<lambda>_. k)) ms (ok ())"

definition with_state :: "('s \<Rightarrow> ('s, 'e, 'a) action) \<Rightarrow> ('s, 'e, 'a) action" where
  "with_state m s = m s s"

definition map_error :: "('e \<Rightarrow> 'f) \<Rightarrow> ('s, 'e, 'a) action \<Rightarrow> ('s, 'f, 'a) action" where
  "map_error f m s = (case m s of (Inl e, t) \<Rightarrow> (Inl (f e), t) | (Inr x, t) \<Rightarrow> (Inr x, t))"

lemma steps_simps [simp]:
  "steps [] = ok ()" "steps (m # ms) = try_then m (\<lambda>_. steps ms)"
  by (simp_all add: steps_def)

lemma with_state_apply [simp]: "with_state m s = m s s"
  by (simp add: with_state_def)

lemma snd_map_error [simp]: "snd (map_error f m s) = snd (m s)"
  by (simp add: map_error_def split: prod.split sum.split)

lemma map_error_Inr_iff [simp]: "map_error f m s = (Inr x, t) \<longleftrightarrow> m s = (Inr x, t)"
  by (simp add: map_error_def split: prod.split sum.split)

lemma map_error_Inl_iff: "map_error f m s = (Inl e, t) \<longleftrightarrow> (\<exists>e'. m s = (Inl e', t) \<and> e = f e')"
  by (auto simp: map_error_def split: prod.split sum.split)

lemma try_then_Inl_iff:
  "try_then m k s = (Inl e, u) \<longleftrightarrow> m s = (Inl e, u) \<or> (\<exists>x t. m s = (Inr x, t) \<and> k x t = (Inl e, u))"
  by (auto simp: try_then_def split: prod.split sum.split)

section \<open>Results without a state\<close>

text \<open>\<open>let x = r?; k(x)\<close> and \<open>ensure!(b, e)\<close> for functions that only return a \<open>Result\<close>.\<close>

definition and_then :: "'e + 'a \<Rightarrow> ('a \<Rightarrow> 'e + 'b) \<Rightarrow> 'e + 'b" where
  "and_then r k = (case r of Inl e \<Rightarrow> Inl e | Inr x \<Rightarrow> k x)"

definition ensure :: "bool \<Rightarrow> 'e \<Rightarrow> 'e + unit" where
  "ensure b e = (if b then Inr () else Inl e)"

lemma and_then_simps [simp]: "and_then (Inl e) k = Inl e" "and_then (Inr x) k = k x"
  by (simp_all add: and_then_def)

lemma and_then_Inr_iff: "and_then r k = Inr y \<longleftrightarrow> (\<exists>x. r = Inr x \<and> k x = Inr y)"
  by (cases r) simp_all

lemma and_then_ensure_Inr_iff [simp]:
  "and_then (ensure b e) k = Inr y \<longleftrightarrow> b \<and> k () = Inr y"
  by (simp add: ensure_def)

lemma ensure_Inr_iff [simp]: "ensure b e = Inr u \<longleftrightarrow> b"
  by (simp add: ensure_def)

text \<open>A fallible loop without a state: the first failing element decides the error.\<close>

primrec check_all :: "('a \<Rightarrow> 'e + unit) \<Rightarrow> 'a list \<Rightarrow> 'e + unit" where
  "check_all f [] = Inr ()"
| "check_all f (x # xs) = and_then (f x) (\<lambda>_. check_all f xs)"

lemma check_all_Inr_iff [simp]: "check_all f xs = Inr u \<longleftrightarrow> (\<forall>x\<in>set xs. f x = Inr ())"
  by (induction xs) (auto simp: and_then_Inr_iff)

section \<open>Invariants of actions\<close>

text \<open>
  \<open>keeps I m\<close>: the action keeps \<open>I\<close> whether it succeeds or fails.
  The rules of \<open>keeps_rules\<close> follow the structure of an action, so an operation's invariant
  proof is \<open>intro keeps_rules\<close> and the proofs of its primitive updates.
\<close>

definition keeps :: "('s \<Rightarrow> bool) \<Rightarrow> ('s, 'e, 'a) action \<Rightarrow> bool" where
  "keeps I m \<longleftrightarrow> (\<forall>s. I s \<longrightarrow> I (snd (m s)))"

named_theorems keeps_rules "structural rules for invariants of actions"

lemma keepsI: "(\<And>s. I s \<Longrightarrow> I (snd (m s))) \<Longrightarrow> keeps I m"
  by (simp add: keeps_def)

lemma keepsD: "keeps I m \<Longrightarrow> I s \<Longrightarrow> I (snd (m s))"
  by (simp add: keeps_def)

lemma keepsD_eq: "keeps I m \<Longrightarrow> I s \<Longrightarrow> m s = (r, t) \<Longrightarrow> I t"
  by (auto simp: keeps_def dest: spec [of _ s])

lemma keeps_ok [keeps_rules]: "keeps I (ok x)"
  by (simp add: keeps_def)

lemma keeps_fail [keeps_rules]: "keeps I (fail e)"
  by (simp add: keeps_def)

lemma keeps_read [keeps_rules]: "keeps I (read_state f)"
  by (simp add: keeps_def)

lemma keeps_update [keeps_rules]: "(\<And>s. I s \<Longrightarrow> I (f s)) \<Longrightarrow> keeps I (update_state f)"
  by (simp add: keeps_def)

lemma keeps_try_then [keeps_rules]:
  assumes "keeps I m" and "\<And>x. keeps I (k x)"
  shows "keeps I (try_then m k)"
proof (rule keepsI)
  fix s assume "I s"
  obtain r t where m: "m s = (r, t)" by (cases "m s")
  with assms(1) \<open>I s\<close> have "I t" by (blast intro: keepsD_eq)
  then show "I (snd (try_then m k s))"
    using assms(2) by (cases r) (auto simp: try_then_def m keeps_def)
qed

text \<open>Two steps that keep an invariant together, before the rest.\<close>

lemma keeps_pair:
  "keeps I (try_then a (\<lambda>_. b)) \<Longrightarrow> (\<And>x. keeps I (k x)) \<Longrightarrow> keeps I (try_then a (\<lambda>_. try_then b k))"
  using keeps_try_then [of I "try_then a (\<lambda>_. b)" k] by (simp add: try_then_assoc)

lemma keeps_match_result [keeps_rules]:
  assumes "keeps I m" and "\<And>e. keeps I (h e)" and "\<And>x. keeps I (k x)"
  shows "keeps I (match_result m h k)"
proof (rule keepsI)
  fix s assume "I s"
  obtain r t where m: "m s = (r, t)" by (cases "m s")
  with assms(1) \<open>I s\<close> have "I t" by (blast intro: keepsD_eq)
  then show "I (snd (match_result m h k s))"
    using assms(2,3) by (cases r) (auto simp: match_result_def m keeps_def)
qed

lemma keeps_ignore_result [keeps_rules]: "keeps I m \<Longrightarrow> keeps I (ignore_result m)"
  by (simp add: keeps_def)

lemma keeps_if [keeps_rules]: "keeps I m \<Longrightarrow> keeps I n \<Longrightarrow> keeps I (if b then m else n)"
  by simp

lemma keeps_case_option [keeps_rules]:
  "keeps I m \<Longrightarrow> (\<And>x. keeps I (k x)) \<Longrightarrow> keeps I (case opt of None \<Rightarrow> m | Some x \<Rightarrow> k x)"
  by (cases opt) simp_all

lemma keeps_for_each [keeps_rules]: "(\<And>x. keeps I (f x)) \<Longrightarrow> keeps I (for_each f xs)"
  by (induction xs) (auto intro: keeps_ok keeps_try_then)

lemma keeps_steps [keeps_rules]: "(\<And>m. m \<in> set ms \<Longrightarrow> keeps I m) \<Longrightarrow> keeps I (steps ms)"
  by (induction ms) (auto intro: keeps_ok keeps_try_then)

lemma keeps_with_state [keeps_rules]: "(\<And>v. keeps I (m v)) \<Longrightarrow> keeps I (with_state m)"
  by (simp add: keeps_def)

lemma keeps_with_state_inv: "(\<And>v. I v \<Longrightarrow> keeps I (m v)) \<Longrightarrow> keeps I (with_state m)"
  by (simp add: keeps_def)

lemma keeps_case_sum [keeps_rules]:
  "(\<And>e. keeps I (k e)) \<Longrightarrow> (\<And>x. keeps I (l x)) \<Longrightarrow> keeps I (case r of Inl e \<Rightarrow> k e | Inr x \<Rightarrow> l x)"
  by (cases r) simp_all

lemma keeps_map_error [keeps_rules]: "keeps I m \<Longrightarrow> keeps I (map_error f m)"
  by (simp add: keeps_def)

lemma keeps_diag: "(\<And>v. keeps I (m v)) \<Longrightarrow> keeps I (\<lambda>s. m s s)"
  by (simp add: keeps_def)

lemma keeps_conj: "keeps I m \<Longrightarrow> keeps J m \<Longrightarrow> keeps (\<lambda>s. I s \<and> J s) m"
  by (simp add: keeps_def)

text \<open>\<open>fails_only P m\<close>: every error the action returns satisfies \<open>P\<close>.\<close>

definition fails_only :: "('e \<Rightarrow> bool) \<Rightarrow> ('s, 'e, 'a) action \<Rightarrow> bool" where
  "fails_only P m \<longleftrightarrow> (\<forall>s e t. m s = (Inl e, t) \<longrightarrow> P e)"

named_theorems fails_rules "structural rules for the errors of actions"

lemma fails_onlyD: "fails_only P m \<Longrightarrow> m s = (Inl e, t) \<Longrightarrow> P e"
  by (auto simp: fails_only_def)

lemma fails_ok [fails_rules]: "fails_only P (ok x)"
  by (simp add: fails_only_def)

lemma fails_fail [fails_rules]: "P e \<Longrightarrow> fails_only P (fail e)"
  by (simp add: fails_only_def)

lemma fails_update [fails_rules]: "fails_only P (update_state f)"
  by (simp add: fails_only_def)

lemma fails_ignore [fails_rules]: "fails_only P (ignore_result m)"
  by (simp add: fails_only_def)

lemma fails_try_then [fails_rules]:
  "fails_only P m \<Longrightarrow> (\<And>x. fails_only P (k x)) \<Longrightarrow> fails_only P (try_then m k)"
  by (fastforce simp: fails_only_def try_then_Inl_iff)

lemma fails_match_result [fails_rules]:
  "(\<And>e. fails_only P (h e)) \<Longrightarrow> (\<And>x. fails_only P (k x)) \<Longrightarrow> fails_only P (match_result m h k)"
  by (auto simp: fails_only_def match_result_def split: prod.splits sum.splits)

lemma fails_if [fails_rules]: "fails_only P m \<Longrightarrow> fails_only P n \<Longrightarrow> fails_only P (if b then m else n)"
  by simp

lemma fails_with_state [fails_rules]: "(\<And>v. fails_only P (m v)) \<Longrightarrow> fails_only P (with_state m)"
  by (auto simp: fails_only_def)

lemma fails_map_error [fails_rules]: "(\<And>e. P (f e)) \<Longrightarrow> fails_only P (map_error f m)"
  by (auto simp: fails_only_def map_error_Inl_iff)

lemma fails_for_each [fails_rules]: "(\<And>x. fails_only P (f x)) \<Longrightarrow> fails_only P (for_each f xs)"
  by (induction xs) (auto intro: fails_rules)

lemma fails_case_sum [fails_rules]:
  "(\<And>e. fails_only P (k e)) \<Longrightarrow> (\<And>x. fails_only P (l x)) \<Longrightarrow> fails_only P (case r of Inl e \<Rightarrow> k e | Inr x \<Rightarrow> l x)"
  by (cases r) simp_all

lemma fails_case_option [fails_rules]:
  "fails_only P m \<Longrightarrow> (\<And>x. fails_only P (k x)) \<Longrightarrow> fails_only P (case opt of None \<Rightarrow> m | Some x \<Rightarrow> k x)"
  by (cases opt) simp_all

section \<open>Hash maps as association lists\<close>

text \<open>
  A \<open>HashMap<K, V>\<close> is an association list with distinct keys: \<open>map_of\<close> is \<open>get\<close>,
  \<open>AList.update\<close> is \<open>insert\<close>, \<open>AList.delete\<close> is \<open>remove\<close>, and the list order is the order
  an iteration happens to visit the entries in.
\<close>

type_synonym ('k, 'v) hash_map = "('k \<times> 'v) list"

abbreviation wf_map :: "('k, 'v) hash_map \<Rightarrow> bool" where
  "wf_map m \<equiv> distinct (map fst m)"

text \<open>\<open>if let Some(v) = m.get_mut(k) { f(v) }\<close>\<close>

definition map_entry_at :: "'k \<Rightarrow> ('v \<Rightarrow> 'v) \<Rightarrow> ('k, 'v) hash_map \<Rightarrow> ('k, 'v) hash_map" where
  "map_entry_at k f m = map (\<lambda>(k', v). (k', if k' = k then f v else v)) m"

lemma map_fst_map_entry_at [simp]: "map fst (map_entry_at k f m) = map fst m"
  by (induction m) (auto simp: map_entry_at_def)

lemma map_of_map_entry_at:
  "map_of (map_entry_at k f m) k' = (if k' = k then map_option f (map_of m k) else map_of m k')"
  by (induction m) (auto simp: map_entry_at_def)

lemma length_map_entry_at [simp]: "length (map_entry_at k f m) = length m"
  by (simp add: map_entry_at_def)

lemma map_of_map_values:
  "map_of (map (\<lambda>(k, v). (k, f k v)) m) k = map_option (f k) (map_of m k)"
  by (induction m) auto

lemma map_fst_map_values [simp]: "map fst (map (\<lambda>(k, v). (k, f k v)) m) = map fst m"
  by (induction m) auto

lemma length_update_le: "length (AList.update k v m) \<le> Suc (length m)"
  by (induction m) auto

lemma length_update_present: "map_of m k \<noteq> None \<Longrightarrow> length (AList.update k v m) = length m"
  by (induction m) (auto split: if_splits)

lemma length_update_absent: "map_of m k = None \<Longrightarrow> length (AList.update k v m) = Suc (length m)"
  by (induction m) (auto split: if_splits)

lemma length_delete_present:
  "wf_map m \<Longrightarrow> map_of m k \<noteq> None \<Longrightarrow> Suc (length (AList.delete k m)) = length m"
proof (induction m)
  case Nil
  then show ?case by simp
next
  case (Cons x m)
  show ?case
  proof (cases "fst x = k")
    case True
    with Cons.prems(1) have "AList.delete k m = m" by (auto intro: delete_idem)
    with True show ?thesis by simp
  next
    case False
    with Cons.prems have "wf_map m" "map_of m k \<noteq> None"
      by (auto simp: map_of_eq_None_iff split: if_splits)
    with False Cons.IH show ?thesis by simp
  qed
qed

lemma mset_map_insert: "wf_map m \<Longrightarrow> mset (AList.update k v m) = add_mset (k, v) (mset (AList.delete k m))"
proof (induction m)
  case (Cons x m)
  then show ?case
    by (cases "fst x = k") (auto simp: delete_idem)
qed simp

lemma mset_map_present: "wf_map m \<Longrightarrow> map_of m k = Some v \<Longrightarrow> mset m = add_mset (k, v) (mset (AList.delete k m))"
proof (induction m)
  case (Cons x m)
  then show ?case
    by (cases "fst x = k") (auto simp: delete_idem)
qed simp

section \<open>Strings and paths\<close>

type_synonym path = string
type_synonym byte = "8 word"

text \<open>\<open>format!("'{name}'")\<close>\<close>

definition quoted :: "string \<Rightarrow> string" where
  "quoted name = CHR 0x27 # name @ [CHR 0x27]"

text \<open>\<open>Path::join\<close>: an absolute argument replaces the base.\<close>

definition path_join :: "path \<Rightarrow> path \<Rightarrow> path" where
  "path_join base p =
     (if prefix ''/'' p then p
      else if base = [] \<or> last base = CHR ''/'' then base @ p
      else base @ ''/'' @ p)"

lemma path_join_relative:
  "\<not> prefix ''/'' p \<Longrightarrow> base \<noteq> [] \<Longrightarrow> last base \<noteq> CHR ''/'' \<Longrightarrow> path_join base p = base @ ''/'' @ p"
  by (simp add: path_join_def)

lemma path_join_inject:
  "\<not> prefix ''/'' p \<Longrightarrow> \<not> prefix ''/'' q \<Longrightarrow> path_join base p = path_join base q \<longleftrightarrow> p = q"
  by (simp add: path_join_def)

text \<open>\<open>str::contains\<close>\<close>

definition contains :: "string \<Rightarrow> string \<Rightarrow> bool" where
  "contains text pattern = sublist pattern text"

section \<open>Numbers and text\<close>

text \<open>\<open>n.to_string()\<close> of an unsigned integer, and \<open>str::parse::<usize>\<close>.\<close>

definition digit :: "nat \<Rightarrow> char" where
  "digit n = char_of (48 + n)"

fun show_nat :: "nat \<Rightarrow> string" where
  "show_nat n = (if n < 10 then [digit n] else show_nat (n div 10) @ [digit (n mod 10)])"

declare show_nat.simps [simp del]

definition is_digit :: "char \<Rightarrow> bool" where
  "is_digit c \<longleftrightarrow> 48 \<le> (of_char c :: nat) \<and> (of_char c :: nat) \<le> 57"

definition digits_value :: "string \<Rightarrow> nat" where
  "digits_value s = fold (\<lambda>c v. 10 * v + (of_char c - 48)) s 0"

definition parse_usize :: "string \<Rightarrow> nat option" where
  "parse_usize s =
     (let ds = (case s of c # cs \<Rightarrow> if c = CHR ''+'' then cs else s | [] \<Rightarrow> [])
      in if ds \<noteq> [] \<and> list_all is_digit ds \<and> digits_value ds < 2 ^ 64 then Some (digits_value ds) else None)"

lemma of_char_digit [simp]: "n < 10 \<Longrightarrow> of_char (digit n) = (48 + n :: nat)"
  by (simp add: digit_def of_char_of)

lemma digits_value_snoc: "digits_value (s @ [c]) = 10 * digits_value s + (of_char c - 48)"
  by (simp add: digits_value_def)

lemma digits_value_show_nat [simp]: "digits_value (show_nat n) = n"
proof (induction n rule: show_nat.induct)
  case (1 n)
  then show ?case
    by (subst show_nat.simps) (simp add: digits_value_snoc, simp add: digits_value_def)
qed

lemma show_nat_digits: "show_nat n \<noteq> [] \<and> list_all is_digit (show_nat n)"
proof (induction n rule: show_nat.induct)
  case (1 n)
  have "is_digit (digit m)" if "m < 10" for m using that by (simp add: is_digit_def)
  with 1 show ?case by (subst (1 2) show_nat.simps) simp
qed

lemma show_nat_inject [simp]: "show_nat m = show_nat n \<longleftrightarrow> m = n"
  by (metis digits_value_show_nat)

lemma parse_usize_show_nat: "parse_usize (show_nat n) = (if n < 2 ^ 64 then Some n else None)"
proof -
  obtain c cs where s: "show_nat n = c # cs" using show_nat_digits [of n] by (cases "show_nat n") auto
  with show_nat_digits [of n] have "is_digit c" by simp
  then have "c \<noteq> CHR ''+''" by (auto simp: is_digit_def)
  with s show_nat_digits [of n] digits_value_show_nat [of n] show ?thesis
    by (simp add: parse_usize_def Let_def)
qed

lemma parse_show_nat: "n < 2 ^ 64 \<Longrightarrow> parse_usize (show_nat n) = Some n"
  by (simp add: parse_usize_show_nat)

text \<open>Signed integers, and the \<open>Debug\<close> output of an \<open>Option<i32>\<close>.\<close>

definition show_int :: "int \<Rightarrow> string" where
  "show_int i = (if i < 0 then CHR ''-'' # show_nat (nat (- i)) else show_nat (nat i))"

definition show_exit_code :: "int option \<Rightarrow> string" where
  "show_exit_code code = (case code of None \<Rightarrow> ''None'' | Some i \<Rightarrow> ''Some('' @ show_int i @ '')'')"

text \<open>\<open>str::lines\<close>, \<open>str::split_once\<close>, \<open>str::trim\<close> and \<open>str::join\<close>.\<close>

fun split_on :: "char \<Rightarrow> string \<Rightarrow> string list" where
  "split_on d [] = [[]]"
| "split_on d (c # cs) =
     (if c = d then [] # split_on d cs
      else case split_on d cs of [] \<Rightarrow> [[c]] | w # ws \<Rightarrow> (c # w) # ws)"

definition strip_cr :: "string \<Rightarrow> string" where
  "strip_cr l = (if l \<noteq> [] \<and> last l = CHR 0x0D then butlast l else l)"

definition lines :: "string \<Rightarrow> string list" where
  "lines s = (let ls = split_on (CHR 0x0A) s in map strip_cr (if last ls = [] then butlast ls else ls))"

definition split_once :: "char \<Rightarrow> string \<Rightarrow> (string \<times> string) option" where
  "split_once d s =
     (if d \<in> set s then Some (takeWhile (\<lambda>c. c \<noteq> d) s, tl (dropWhile (\<lambda>c. c \<noteq> d) s)) else None)"

definition is_whitespace :: "char \<Rightarrow> bool" where
  "is_whitespace c \<longleftrightarrow> c \<in> {CHR '' '', CHR 0x09, CHR 0x0A, CHR 0x0B, CHR 0x0C, CHR 0x0D}"

definition trim :: "string \<Rightarrow> string" where
  "trim s = rev (dropWhile is_whitespace (rev (dropWhile is_whitespace s)))"

fun join :: "string \<Rightarrow> string list \<Rightarrow> string" where
  "join sep [] = []"
| "join sep [w] = w"
| "join sep (w # ws) = w @ sep @ join sep ws"

section \<open>Sums over lists\<close>

lemma sum_list_take_drop: "sum_list (take n xs) + sum_list (drop n xs) = (sum_list xs :: nat)"
  by (metis append_take_drop_id sum_list.append)

end
