(* ===== verification/Engine.thy ===== *)
theory Engine
  imports Prelude
begin

text \<open>
  The data model of \<open>babel_api/src/engine.rs\<close>: archive chunks and manifests, long-running job
  configuration, job status and job info. Unsigned counters and sizes are \<open>nat\<close>; the backoff
  parameters, whose product may wrap, are 64-bit words. Signed exit codes are \<open>int\<close>.
  Time stamps and durations are natural numbers of milliseconds unless a name says otherwise.
\<close>

section \<open>Signals\<close>

datatype posix_signal =
    SIGABRT | SIGALRM | SIGBUS | SIGCHLD | SIGCLD | SIGCONT | SIGEMT | SIGFPE | SIGHUP | SIGILL
  | SIGINFO | SIGINT | SIGIO | SIGIOT | SIGKILL | SIGPIPE | SIGPOLL | SIGPROF | SIGPWR | SIGQUIT
  | SIGSEGV | SIGSTOP | SIGTSTP | SIGSYS | SIGTERM | SIGTRAP | SIGTTIN | SIGTTOU | SIGUNUSED
  | SIGURG | SIGUSR1 | SIGUSR2 | SIGVTALRM | SIGXCPU | SIGXFSZ | SIGWINCH

definition DEFAULT_JOB_SHUTDOWN_TIMEOUT_SECS :: nat where
  "DEFAULT_JOB_SHUTDOWN_TIMEOUT_SECS = 60"

definition DEFAULT_JOB_SHUTDOWN_SIGNAL :: posix_signal where
  "DEFAULT_JOB_SHUTDOWN_SIGNAL = SIGTERM"

section \<open>Archive chunks and manifests\<close>

record file_location =
  loc_path :: path
  loc_pos :: nat
  loc_size :: nat

datatype checksum = Sha1 "byte list" | Sha256 "byte list" | Blake3 "byte list"

record chunk =
  chunk_index :: nat
  chunk_key :: string
  chunk_url :: "string option"
  chunk_checksum :: checksum
  chunk_size :: nat
  destinations :: "file_location list"

datatype compression = ZSTD int

record download_manifest =
  manifest_total_size :: nat
  manifest_compression :: "compression option"
  manifest_chunks :: "chunk list"

record download_metadata =
  total_size :: nat
  metadata_compression :: "compression option"
  chunks_count :: nat
  data_version :: nat

record slot =
  slot_index :: nat
  slot_key :: string
  slot_url :: string

record upload_slots =
  slots :: "slot list"
  slots_data_version :: nat

definition upload_slots_validate :: "upload_slots \<Rightarrow> string + unit" where
  "upload_slots_validate s =
     (if slots s \<noteq> [] then Inr () else Inl ''corrupted manifest - expected at least one slot'')"

section \<open>Jobs\<close>

datatype job_type =
    RunSh string
  | Download "nat option" "nat option"
      \<comment> \<open>max connections, max runners\<close>
  | Upload "string list option" "compression option" "nat option" "nat option" "nat option"
      "nat option" "nat option"
      \<comment> \<open>exclude, compression, max connections, max runners, number of chunks, url expiry, data version\<close>
  | MultiClientUpload "nat option" "nat option" "nat option" "nat option"
      \<comment> \<open>max connections, max runners, url expiry, data version\<close>
  | MultiClientDownload "nat option" "nat option"

record restart_config =
  backoff_timeout_ms :: nat
  backoff_base_ms :: "64 word"
  max_retries :: "nat option"

datatype restart_policy = Never | Always restart_config | OnFailure restart_config

record job_config =
  job_type :: job_type
  restart :: restart_policy
  shutdown_timeout_secs :: "nat option"
  shutdown_signal :: "posix_signal option"
  needs :: "string list option"
  wait_for :: "string list option"
  run_as :: "string option"
  log_buffer_capacity_mb :: "nat option"
  log_timestamp :: "bool option"
  use_protocol_data :: "bool option"
  one_time :: "bool option"

datatype job_status =
    Pending "string list"
  | Running
  | Finished "int option" string
  | Stopped

record job_progress =
  progress_total :: nat
  progress_current :: nat
  progress_message :: string

record job_info =
  info_status :: job_status
  info_timestamp :: nat
  info_progress :: "job_progress option"
  restart_count :: nat
  info_logs :: "string list"
  upgrade_blocking :: bool

type_synonym jobs_info = "(string, job_info) hash_map"

definition unwrap_or :: "'a option \<Rightarrow> 'a \<Rightarrow> 'a" where
  "unwrap_or x d = (case x of None \<Rightarrow> d | Some y \<Rightarrow> y)"

lemma unwrap_or_simps [simp]: "unwrap_or None d = d" "unwrap_or (Some y) d = y"
  by (simp_all add: unwrap_or_def)

text \<open>\<open>JobConfig::waiting_for\<close>: needed jobs first, then the ones only waited for.\<close>

definition waiting_for :: "job_config \<Rightarrow> string list" where
  "waiting_for c = unwrap_or (needs c) [] @ unwrap_or (wait_for c) []"

definition job_shutdown_timeout :: "job_config \<Rightarrow> nat" where
  "job_shutdown_timeout c = unwrap_or (shutdown_timeout_secs c) DEFAULT_JOB_SHUTDOWN_TIMEOUT_SECS"

section \<open>Node environment\<close>

record node_env =
  env_node_id :: string
  env_node_name :: string
  env_node_org_id :: string
  env_node_version :: string
  env_node_protocol :: string
  env_node_variant :: string
  env_node_ip :: string
  env_node_gateway :: string
  env_dev_mode :: bool
  env_bv_host_id :: string
  env_bv_host_name :: string
  env_bv_api_url :: string
  data_mount_point :: path
  protocol_data_path :: path
  env_properties :: "(string, string) hash_map"

end
