(* ===== verification/Transfers.thy ===== *)
theory Transfers
  imports Engine
begin

text \<open>
  What the download and upload jobs share: the files they keep (\<open>load_job_data\<close>, \<open>save_job_data\<close>,
  \<open>load_chunks\<close> and \<open>save_chunk\<close> of \<open>babel/src/jobs.rs\<close>), the configuration of a transfer
  (\<open>babel/src/job_runner.rs\<close>), the state of its runners (\<open>RunnersState\<close> of \<open>jobs.rs\<close>) and the
  coders of \<open>babel/src/compression.rs\<close>.

  The file system is a map from paths to contents. A JSON document is kept as the value it was
  written from: what \<open>serde_json\<close> does is not modelled, except that a document read back as
  another type is an error. Failures of the operating system are answers of the environment.
\<close>

section \<open>Files\<close>

datatype content =
    Data "byte list"
  | MetadataJson download_metadata
  | BlueprintJson download_manifest nat "nat option"
      \<comment> \<open>manifest, data version and stamp of the protocol data\<close>
  | ProgressJson job_progress
  | ChunksJson "chunk list"
      \<comment> \<open>one JSON array, as written by \<open>save_job_data\<close> on a vector of chunks\<close>
  | ChunkLines "chunk list"
      \<comment> \<open>one JSON document per line, as appended by \<open>save_chunk\<close>\<close>

type_synonym fs = "path \<Rightarrow> content option"

text \<open>Answers of the operating system: \<open>None\<close> when the call succeeds, or its error.\<close>

record io_env =
  write_error :: "path \<Rightarrow> string option"
  remove_error :: "path \<Rightarrow> string option"

definition no_io_errors :: io_env where
  "no_io_errors = \<lparr>write_error = (\<lambda>_. None), remove_error = (\<lambda>_. None)\<rparr>"

definition file_exists :: "path \<Rightarrow> fs \<Rightarrow> bool" where
  "file_exists p fs = (fs p \<noteq> None)"

definition remove_file :: "io_env \<Rightarrow> path \<Rightarrow> (fs, string, unit) action" where
  "remove_file io p fs =
     (case remove_error io p of
        Some e \<Rightarrow> (Inl e, fs)
      | None \<Rightarrow> if file_exists p fs then (Inr (), fs(p := None)) else (Inl ''No such file or directory'', fs))"

text \<open>\<open>save_job_data\<close>: create or truncate the file and write one document.\<close>

definition save_job_data :: "io_env \<Rightarrow> path \<Rightarrow> content \<Rightarrow> (fs, string, unit) action" where
  "save_job_data io p c fs =
     (case write_error io p of
        Some e \<Rightarrow> (Inl (''Failed to open metadata file: '' @ p @ '': '' @ e), fs)
      | None \<Rightarrow> (Inr (), fs(p \<mapsto> c)))"

text \<open>\<open>load_job_data\<close> at the three types it is used with.\<close>

definition load_metadata :: "path \<Rightarrow> fs \<Rightarrow> string + download_metadata" where
  "load_metadata p fs =
     (case fs p of
        Some (MetadataJson m) \<Rightarrow> Inr m
      | Some _ \<Rightarrow> Inl ''invalid type''
      | None \<Rightarrow> Inl ''No such file or directory'')"

definition load_blueprint :: "path \<Rightarrow> fs \<Rightarrow> string + download_manifest \<times> nat \<times> nat option" where
  "load_blueprint p fs =
     (case fs p of
        Some (BlueprintJson m v stamp) \<Rightarrow> Inr (m, v, stamp)
      | Some _ \<Rightarrow> Inl ''invalid type''
      | None \<Rightarrow> Inl ''No such file or directory'')"

definition load_progress_file :: "path \<Rightarrow> fs \<Rightarrow> string + job_progress" where
  "load_progress_file p fs =
     (case fs p of
        Some (ProgressJson m) \<Rightarrow> Inr m
      | Some _ \<Rightarrow> Inl ''invalid type''
      | None \<Rightarrow> Inl ''No such file or directory'')"

text \<open>\<open>load_chunks\<close>: a missing file is an empty list; a file that is not one chunk per line
  (in particular one JSON array) does not parse.\<close>

definition load_chunks :: "path \<Rightarrow> fs \<Rightarrow> string + chunk list" where
  "load_chunks p fs =
     (case fs p of
        None \<Rightarrow> Inr []
      | Some (ChunkLines cs) \<Rightarrow> Inr cs
      | Some _ \<Rightarrow> Inl ''invalid type'')"

text \<open>\<open>save_chunk\<close> appends a line. Appended to anything but a file of chunk lines, the result is
  no longer a document of its type.\<close>

definition save_chunk :: "io_env \<Rightarrow> path \<Rightarrow> chunk \<Rightarrow> (fs, string, unit) action" where
  "save_chunk io p c fs =
     (case write_error io p of
        Some e \<Rightarrow> (Inl (''Failed to open chunk metadata file: '' @ p @ '': '' @ e), fs)
      | None \<Rightarrow>
          (Inr (), fs(p \<mapsto> (case fs p of
             None \<Rightarrow> ChunkLines [c]
           | Some (ChunkLines cs) \<Rightarrow> ChunkLines (cs @ [c])
           | Some _ \<Rightarrow> Data []))))"

lemma load_chunks_save_chunk:
  assumes "write_error io p = None" and "load_chunks p fs = Inr cs"
  shows "load_chunks p (snd (save_chunk io p c fs)) = Inr (cs @ [c])"
  using assms
  by (auto simp: load_chunks_def save_chunk_def split: option.splits content.splits)

lemma load_metadata_save_job_data:
  assumes "write_error io p = None"
  shows "load_metadata p (snd (save_job_data io p (MetadataJson m) fs)) = Inr m"
  using assms by (simp add: load_metadata_def save_job_data_def)

text \<open>\<open>FileExt::write_all_at\<close> on a regular file: a write past the end leaves a hole of zeros.\<close>

definition write_at :: "nat \<Rightarrow> byte list \<Rightarrow> byte list \<Rightarrow> byte list" where
  "write_at pos data bytes =
     take pos (bytes @ replicate (pos - length bytes) 0) @ data @ drop (pos + length data) bytes"

lemma write_at_Nil: "pos \<le> length bytes \<Longrightarrow> write_at pos [] bytes = bytes"
  by (simp add: write_at_def)

lemma length_write_at: "length (write_at pos data bytes) = max (length bytes) (pos + length data)"
  by (simp add: write_at_def)

lemma nth_write_at_inside:
  "i < length data \<Longrightarrow> write_at pos data bytes ! (pos + i) = data ! i"
  by (auto simp: write_at_def nth_append min_def)

lemma nth_write_at_outside:
  "i < length bytes \<Longrightarrow> i < pos \<or> pos + length data \<le> i \<Longrightarrow> write_at pos data bytes ! i = bytes ! i"
  by (auto simp: write_at_def nth_append)

text \<open>Consecutive writes are one write.\<close>

lemma write_at_append:
  "write_at (pos + length d1) d2 (write_at pos d1 bytes) = write_at pos (d1 @ d2) bytes"
  by (auto simp: write_at_def min_def ac_simps)

section \<open>Bytes of file locations\<close>

text \<open>The places a location stands for: the bytes of its file, in order.\<close>

definition location_bytes :: "file_location \<Rightarrow> (path \<times> nat) list" where
  "location_bytes l = map (Pair (loc_path l)) [loc_pos l ..< loc_pos l + loc_size l]"

definition all_bytes :: "file_location list \<Rightarrow> (path \<times> nat) list" where
  "all_bytes ls = concat (map location_bytes ls)"

lemma all_bytes_simps [simp]:
  "all_bytes [] = []" "all_bytes (l # ls) = location_bytes l @ all_bytes ls"
  "all_bytes (ls @ ms) = all_bytes ls @ all_bytes ms"
  by (simp_all add: all_bytes_def)

lemma location_bytes_split:
  "d \<le> loc_size f \<Longrightarrow> location_bytes f
    = location_bytes \<lparr>loc_path = loc_path f, loc_pos = loc_pos f, loc_size = d\<rparr>
      @ location_bytes (f\<lparr>loc_size := loc_size f - d, loc_pos := loc_pos f + d\<rparr>)"
  using upt_add_eq_append [of "loc_pos f" "loc_pos f + d" "loc_size f - d"]
  by (simp add: location_bytes_def flip: map_append)

lemma location_bytes_empty: "loc_size f = 0 \<Longrightarrow> location_bytes f = []"
  by (simp add: location_bytes_def)

section \<open>Errors\<close>

definition with_context :: "string \<Rightarrow> string + 'a \<Rightarrow> string + 'a" where
  "with_context msg r = (case r of Inl e \<Rightarrow> Inl (msg @ '': '' @ e) | Inr x \<Rightarrow> Inr x)"

definition action_context :: "string \<Rightarrow> ('s, string, 'a) action \<Rightarrow> ('s, string, 'a) action" where
  "action_context msg m s = (let (r, t) = m s in (with_context msg r, t))"

text \<open>A pure result inside an action: \<open>f()?\<close> for a function that only reads.\<close>

definition lift_result :: "('s \<Rightarrow> 'e + 'a) \<Rightarrow> ('s, 'e, 'a) action" where
  "lift_result f s = (f s, s)"

definition remove_if_exists :: "io_env \<Rightarrow> path \<Rightarrow> string \<Rightarrow> (fs, string, unit) action" where
  "remove_if_exists io p msg fs =
     (if file_exists p fs then action_context msg (remove_file io p) fs else (Inr (), fs))"

section \<open>Transfer configuration\<close>

record transfer_config =
  max_opened_files :: nat
  max_runners :: nat
  max_connections :: nat
  max_buffer_size :: nat
  transfer_max_retries :: nat
  transfer_backoff_base_ms :: "64 word"
  config_data_mount_point :: path
  archive_jobs_meta_dir :: path
  progress_file_path :: path
  config_compression :: "compression option"

definition MAX_OPENED_FILES :: nat where "MAX_OPENED_FILES = 1024"
definition MAX_BUFFER_SIZE :: nat where "MAX_BUFFER_SIZE = 128 * 1024 * 1024"
definition MAX_RETRIES :: nat where "MAX_RETRIES = 5"
definition BACKOFF_BASE_MS :: "64 word" where "BACKOFF_BASE_MS = 500"
definition DEFAULT_MAX_DOWNLOAD_CONNECTIONS :: nat where "DEFAULT_MAX_DOWNLOAD_CONNECTIONS = 3"
definition DEFAULT_MAX_UPLOAD_CONNECTIONS :: nat where "DEFAULT_MAX_UPLOAD_CONNECTIONS = 3"
definition DEFAULT_MAX_RUNNERS :: nat where "DEFAULT_MAX_RUNNERS = 8"
definition PERSISTENT_JOBS_META_DIR :: string where "PERSISTENT_JOBS_META_DIR = ''.babel_jobs''"

text \<open>\<open>build_transfer_config\<close>, once the metadata directory exists.\<close>

definition build_transfer_config ::
  "path \<Rightarrow> path \<Rightarrow> compression option \<Rightarrow> nat \<Rightarrow> nat \<Rightarrow> transfer_config" where
  "build_transfer_config mount progress_file codec connections runners =
     \<lparr>max_opened_files = MAX_OPENED_FILES, max_runners = runners, max_connections = connections,
      max_buffer_size = MAX_BUFFER_SIZE, transfer_max_retries = MAX_RETRIES,
      transfer_backoff_base_ms = BACKOFF_BASE_MS, config_data_mount_point = mount,
      archive_jobs_meta_dir = path_join mount PERSISTENT_JOBS_META_DIR,
      progress_file_path = progress_file, config_compression = codec\<rparr>"

section \<open>State of the runners\<close>

record runners_state =
  runners_result :: "string + unit"
  runners_run :: bool

text \<open>\<open>RunnersState::handle_error\<close>: the first error is kept and stops the others.\<close>

definition handle_error :: "string \<Rightarrow> runners_state \<Rightarrow> runners_state" where
  "handle_error err st =
     (case runners_result st of
        Inr _ \<Rightarrow> st\<lparr>runners_result := Inl err, runners_run := False\<rparr>
      | Inl _ \<Rightarrow> st)"

lemma handle_error_result: "\<exists>e. runners_result (handle_error err st) = Inl e"
  by (cases "runners_result st") (simp_all add: handle_error_def)

lemma handle_error_first:
  "runners_result st = Inl e \<Longrightarrow> handle_error err st = st"
  by (simp add: handle_error_def)

section \<open>Coders\<close>

text \<open>
  The \<open>Coder\<close> trait. \<open>holds c i out\<close> says that the coder was fed with the bytes \<open>i\<close> and has handed
  out the bytes \<open>out\<close>; \<open>ready c\<close> that it may be fed: the trait asks its clients to consume
  after each feed. \<open>code\<close> is the transformation of the whole stream.
\<close>

locale coder =
  fixes feed :: "'c \<Rightarrow> byte list \<Rightarrow> string + 'c"
    and consume :: "'c \<Rightarrow> string + (byte list \<times> 'c)"
    and finalize :: "'c \<Rightarrow> string + byte list"
    and initial :: 'c
    and holds :: "'c \<Rightarrow> byte list \<Rightarrow> byte list \<Rightarrow> bool"
    and ready :: "'c \<Rightarrow> bool"
    and code :: "byte list \<Rightarrow> byte list"
  assumes initial: "holds initial [] []" "ready initial"
    and feed: "\<lbrakk>holds c i out; ready c; feed c d = Inr c'\<rbrakk> \<Longrightarrow> holds c' (i @ d) out"
    and consume: "\<lbrakk>holds c i out; consume c = Inr (x, c')\<rbrakk> \<Longrightarrow> holds c' i (out @ x) \<and> ready c'"
    and finalize: "\<lbrakk>holds c i out; finalize c = Inr x\<rbrakk> \<Longrightarrow> out @ x = code i"
begin

text \<open>One round of the download loop: feed a buffer, consume what is ready.\<close>

lemma feed_consume:
  assumes "holds c i out" and "ready c" and "feed c d = Inr c1" and "consume c1 = Inr (x, c2)"
  shows "holds c2 (i @ d) (out @ x)" and "ready c2"
  using feed [OF assms(1-3)] consume [OF _ assms(4)] by blast+

end

text \<open>\<open>NoCoder\<close>: one buffer. Feeding replaces what was not consumed.\<close>

type_synonym no_coder = "byte list option"

definition no_coder_default :: no_coder where
  "no_coder_default = None"

definition no_coder_feed :: "no_coder \<Rightarrow> byte list \<Rightarrow> string + no_coder" where
  "no_coder_feed c d = Inr (Some d)"

definition no_coder_consume :: "no_coder \<Rightarrow> string + (byte list \<times> no_coder)" where
  "no_coder_consume c = Inr (unwrap_or c [], None)"

definition no_coder_finalize :: "no_coder \<Rightarrow> string + byte list" where
  "no_coder_finalize c = Inr (unwrap_or c [])"

text \<open>The operations of a coder as one value, for the code that is generic in it.\<close>

record 'c coder_ops =
  feed_op :: "'c \<Rightarrow> byte list \<Rightarrow> string + 'c"
  consume_op :: "'c \<Rightarrow> string + (byte list \<times> 'c)"
  finalize_op :: "'c \<Rightarrow> string + byte list"

definition no_coder_ops :: "no_coder coder_ops" where
  "no_coder_ops = \<lparr>feed_op = no_coder_feed, consume_op = no_coder_consume, finalize_op = no_coder_finalize\<rparr>"

definition no_coder_holds :: "no_coder \<Rightarrow> byte list \<Rightarrow> byte list \<Rightarrow> bool" where
  "no_coder_holds c i out \<longleftrightarrow> i = out @ unwrap_or c []"

lemmas no_coder_defs = no_coder_default_def no_coder_feed_def no_coder_consume_def
  no_coder_finalize_def no_coder_holds_def

interpretation plain: coder no_coder_feed no_coder_consume no_coder_finalize no_coder_default
  no_coder_holds "\<lambda>c. c = None" "\<lambda>x. x"
  by unfold_locales (auto simp: no_coder_defs)

text \<open>
  the \<open>Coder\<close> trait promises that data which is not consumed stays in the internal buffer. The
  coder of uncompressed transfers drops it: fed twice in a row, it hands out the second buffer only.
\<close>

theorem no_coder_drops_unconsumed:
  "and_then (no_coder_feed no_coder_default d1) (\<lambda>c. and_then (no_coder_feed c d2) no_coder_finalize) = Inr d2"
  by (simp add: no_coder_defs)

end
