(* ===== verification/Upload_Manifest.thy ===== *)
theory Upload_Manifest
  imports Transfers "HOL-Library.List_Lexorder"
begin

text \<open>
  What an upload sends (\<open>babel/src/upload_job.rs\<close>): the split of the source files into chunks
  (\<open>prepare_manifest_blueprint\<close> and \<open>build_destinations\<close>) and the reader that streams a chunk from
  its files (\<open>DestinationsReader\<close>). The walk over the source directory is \<open>sources_list\<close> of
  \<open>babel/src/utils.rs\<close>, on the entries the walk yields.
\<close>

section \<open>Sources\<close>

record source_entry =
  entry_path :: path
  entry_relative :: string
  entry_is_file :: bool
  entry_size :: nat

record sources_list =
  sources_total_size :: nat
  sources :: "file_location list"

text \<open>\<open>sources_list\<close>: an entry of the walk is an error or an entry; \<open>excluded\<close> says whether one of
  the patterns matches its relative path.\<close>

fun sources_list_from ::
  "(string \<Rightarrow> bool) \<Rightarrow> (string + source_entry) list \<Rightarrow> sources_list \<Rightarrow> string + sources_list" where
  "sources_list_from excluded [] acc = Inr acc"
| "sources_list_from excluded (Inl e # entries) acc = Inl e"
| "sources_list_from excluded (Inr entry # entries) acc =
     (if excluded (entry_relative entry) then sources_list_from excluded entries acc
      else if entry_is_file entry
      then sources_list_from excluded entries
             \<lparr>sources_total_size = sources_total_size acc + entry_size entry,
              sources = sources acc @ [\<lparr>loc_path = entry_path entry, loc_pos = 0, loc_size = entry_size entry\<rparr>]\<rparr>
      else sources_list_from excluded entries acc)"

definition list_sources :: "(string \<Rightarrow> bool) \<Rightarrow> (string + source_entry) list \<Rightarrow> string + sources_list" where
  "list_sources excluded entries = sources_list_from excluded entries \<lparr>sources_total_size = 0, sources = []\<rparr>"

lemma sources_list_from_total:
  "sources_list_from excluded entries acc = Inr res \<Longrightarrow>
     sources_total_size acc = sum_list (map loc_size (sources acc)) \<Longrightarrow>
     sources_total_size res = sum_list (map loc_size (sources res))"
  by (induction excluded entries acc rule: sources_list_from.induct) (auto split: if_splits)

lemma list_sources_total:
  "list_sources excluded entries = Inr res \<Longrightarrow> sources_total_size res = sum_list (map loc_size (sources res))"
  unfolding list_sources_def by (erule sources_list_from_total) simp

section \<open>Chunks\<close>

text \<open>\<open>build_destinations\<close>. The code takes the sources from the end of its vector: here the vector
  is a stack with its last element first.\<close>

function fill_slot :: "nat \<Rightarrow> nat \<Rightarrow> file_location list \<Rightarrow> file_location list \<times> file_location list" where
  "fill_slot slot_size bytes_in_slot [] = ([], [])"
| "fill_slot slot_size bytes_in_slot (f # fs) =
     (if bytes_in_slot \<le> slot_size \<and> \<not> (bytes_in_slot \<ge> slot_size \<and> loc_size f > 0)
      then let dest_size = min (loc_size f) (slot_size - bytes_in_slot);
               dest = \<lparr>loc_path = loc_path f, loc_pos = loc_pos f, loc_size = dest_size\<rparr>;
               f' = f\<lparr>loc_size := loc_size f - dest_size, loc_pos := loc_pos f + dest_size\<rparr>;
               (ds, fs') = fill_slot slot_size (bytes_in_slot + dest_size) (if loc_size f' = 0 then fs else f' # fs)
           in (dest # ds, fs')
      else ([], f # fs))"
  by pat_completeness auto
termination
  by (relation "measure (\<lambda>(n, b, fs). length fs + sum_list (map loc_size fs))") auto

definition build_destinations :: "nat \<Rightarrow> file_location list \<Rightarrow> file_location list \<times> file_location list" where
  "build_destinations slot_size stack = fill_slot slot_size 0 stack"

definition blueprint_chunk :: "nat \<Rightarrow> file_location list \<Rightarrow> chunk" where
  "blueprint_chunk index ds =
     \<lparr>chunk_index = index, chunk_key = [], chunk_url = None, chunk_checksum = Sha1 [], chunk_size = 0,
      destinations = ds\<rparr>"

text \<open>The loop over the slots: \<open>left\<close> is the number of slots not yet filled.\<close>

fun fill_slots :: "nat \<Rightarrow> nat \<Rightarrow> nat \<Rightarrow> nat \<Rightarrow> file_location list \<Rightarrow> chunk list" where
  "fill_slots slot_size last_size index 0 stack = []"
| "fill_slots slot_size last_size index (Suc left) stack =
     (let (ds, stack') = build_destinations (if left > 0 then slot_size else last_size) stack
      in if ds = [] then [] else blueprint_chunk index ds # fill_slots slot_size last_size (Suc index) left stack')"

text \<open>Paths are compared by their components, which are compared as byte strings; the sort is stable.\<close>

fun split_at_slash :: "string \<Rightarrow> string list" where
  "split_at_slash [] = [[]]"
| "split_at_slash (c # cs) =
     (if c = CHR ''/'' then [] # split_at_slash cs
      else case split_at_slash cs of [] \<Rightarrow> [[c]] | w # ws \<Rightarrow> (c # w) # ws)"

definition path_components :: "path \<Rightarrow> nat list list" where
  "path_components p =
     (if prefix ''/'' p then [[]] else [])
     @ map (map of_char) (filter (\<lambda>w. w \<noteq> [] \<and> w \<noteq> ''.'') (split_at_slash p))"

definition sort_sources :: "file_location list \<Rightarrow> file_location list" where
  "sort_sources srcs = sort_key (\<lambda>l. path_components (loc_path l)) srcs"

definition prepare_manifest_blueprint ::
  "compression option \<Rightarrow> nat \<Rightarrow> sources_list \<Rightarrow> download_manifest" where
  "prepare_manifest_blueprint codec total_slots srcs =
     (let slot_size = sources_total_size srcs div total_slots;
          last_size = slot_size + sources_total_size srcs mod total_slots
      in \<lparr>manifest_total_size = sources_total_size srcs, manifest_compression = codec,
          manifest_chunks = fill_slots slot_size last_size 0 total_slots (rev (sort_sources (sources srcs)))\<rparr>)"

text \<open>The number of slots of \<open>Uploader::new\<close>: as configured, or one per 500 MB.\<close>

definition upload_total_slots :: "nat option \<Rightarrow> string + sources_list \<Rightarrow> string + nat" where
  "upload_total_slots number_of_chunks listed =
     (case number_of_chunks of
        Some n \<Rightarrow> if n = 0 then Inl ''invalid number of chunks - need at leas one'' else Inr n
      | None \<Rightarrow> and_then listed (\<lambda>srcs. Inr (1 + sources_total_size srcs div 500000000)))"

section \<open>Reading a chunk\<close>

record reader =
  iter :: "file_location list"
  current_path :: path
  current_offset :: nat
  bytes_remaining :: nat
  bytes_read :: nat

text \<open>\<open>File::open\<close> and \<open>read_exact_at\<close>: a missing or too short file is an error.\<close>

definition read_exact_at :: "(path \<Rightarrow> byte list option) \<Rightarrow> path \<Rightarrow> nat \<Rightarrow> nat \<Rightarrow> string + byte list" where
  "read_exact_at files p offset n =
     (case files p of
        None \<Rightarrow> Inl ''can't read file''
      | Some bytes \<Rightarrow> if offset + n \<le> length bytes \<or> n = 0 then Inr (take n (drop offset bytes)) else Inl ''can't read file'')"

definition open_location :: "(path \<Rightarrow> byte list option) \<Rightarrow> file_location \<Rightarrow> reader \<Rightarrow> string + reader" where
  "open_location files l r =
     (if files (loc_path l) = None then Inl (''file '' @ loc_path l @ '' disapeared'')
      else Inr (r\<lparr>current_path := loc_path l, current_offset := loc_pos l, bytes_remaining := loc_size l\<rparr>))"

definition reader_new :: "(path \<Rightarrow> byte list option) \<Rightarrow> file_location list \<Rightarrow> string + reader" where
  "reader_new files ds =
     (case ds of
        [] \<Rightarrow> Inl ''corrupted manifest - expected at least one destination file in chunk''
      | d # ds' \<Rightarrow>
          open_location files d
            \<lparr>iter = rev ds', current_path = [], current_offset = 0, bytes_remaining = 0, bytes_read = 0\<rparr>)"

text \<open>\<open>read_data\<close>: fill a buffer of \<open>max_buffer_size\<close> bytes from the current and following files.\<close>

function read_data ::
  "(path \<Rightarrow> byte list option) \<Rightarrow> nat \<Rightarrow> byte list \<Rightarrow> reader \<Rightarrow> string + byte list \<times> reader" where
  "read_data files limit buffer r =
     (if length buffer < limit \<and> \<not> (bytes_remaining r = 0 \<and> iter r = [])
      then case (if bytes_remaining r = 0
                 then open_location files (last (iter r)) (r\<lparr>iter := butlast (iter r)\<rparr>) else Inr r) of
             Inl e \<Rightarrow> Inl e
           | Inr r1 \<Rightarrow>
               (let n = min (bytes_remaining r1) (limit - length buffer)
                in case read_exact_at files (current_path r1) (current_offset r1) n of
                     Inl e \<Rightarrow> Inl e
                   | Inr bytes \<Rightarrow>
                       read_data files limit (buffer @ bytes)
                         (r1\<lparr>bytes_remaining := bytes_remaining r1 - n, current_offset := current_offset r1 + n\<rparr>))
      else Inr (buffer, r))"
  by pat_completeness auto
termination
proof (relation "measure (\<lambda>(files, limit, buffer, r). length (iter r) + (limit - length buffer))", goal_cases)
  case 1
  then show ?case by simp
next
  case (2 files limit buffer r r1 n bytes)
  have lt: "length buffer < limit" using 2(1) by simp
  show ?case
  proof (cases "bytes_remaining r = 0")
    case True
    with 2 have "length (iter r1) < length (iter r)" by (auto simp: open_location_def split: if_splits)
    then show ?thesis by simp
  next
    case False
    with 2 have "iter r1 = iter r" "0 < n" "length bytes = n"
      by (auto simp: read_exact_at_def split: option.splits if_splits)
    with lt show ?thesis by (simp del: length_greater_0_conv)
  qed
qed

declare read_data.simps [simp del]

section \<open>Streaming a chunk\<close>

definition at_end :: "reader \<Rightarrow> bool" where
  "at_end r \<longleftrightarrow> iter r = [] \<and> bytes_remaining r = 0"

lemma at_end_bytes_read [simp]: "at_end (r\<lparr>bytes_read := n\<rparr>) = at_end r"
  by (simp add: at_end_def)

text \<open>\<open>DestinationsReader::try_next\<close>. The interim buffer holds the encoder and the bytes its digest
  was updated with; \<open>None\<close> once the end of the chunk was reached. The checksum sent to the uploader is
  the digest at that point.\<close>

record 'c stream =
  stream_reader :: reader
  interim :: "('c \<times> byte list) option"
  digested :: "byte list option"
    \<comment> \<open>what the final checksum was computed from\<close>

partial_function (option) try_next ::
  "('c \<Rightarrow> byte list \<Rightarrow> string + 'c) \<Rightarrow> ('c \<Rightarrow> string + (byte list \<times> 'c)) \<Rightarrow> ('c \<Rightarrow> string + byte list) \<Rightarrow>
   (path \<Rightarrow> byte list option) \<Rightarrow> nat \<Rightarrow> 'c stream \<Rightarrow> ((string + byte list option) \<times> 'c stream) option" where
  "try_next feed consume finalize files limit s =
     (case interim s of
        None \<Rightarrow> Some (Inr None, s)
      | Some (encoder, digest) \<Rightarrow>
          (case read_data files limit [] (stream_reader s) of
             Inl e \<Rightarrow> Some (Inl e, s)
           | Inr (buffer, r) \<Rightarrow>
               (let r1 = r\<lparr>bytes_read := bytes_read r + length buffer\<rparr>
                in if at_end r1
                   then (case and_then (feed encoder buffer) finalize of
                           Inl e \<Rightarrow> Some (Inl e, s\<lparr>stream_reader := r1, interim := None\<rparr>)
                         | Inr compressed \<Rightarrow>
                             Some (Inr (Some compressed),
                               s\<lparr>stream_reader := r1, interim := None, digested := Some (digest @ compressed)\<rparr>))
                   else (case and_then (feed encoder buffer) consume of
                           Inl e \<Rightarrow> Some (Inl e, s\<lparr>stream_reader := r1\<rparr>)
                         | Inr (compressed, encoder') \<Rightarrow>
                             if compressed \<noteq> []
                             then Some (Inr (Some compressed),
                               s\<lparr>stream_reader := r1, interim := Some (encoder', digest @ compressed)\<rparr>)
                             else try_next feed consume finalize files limit
                               (s\<lparr>stream_reader := r1, interim := Some (encoder', digest)\<rparr>)))))"

text \<open>The whole stream: the parts until the reader ends or fails.\<close>

partial_function (option) read_all ::
  "('c \<Rightarrow> byte list \<Rightarrow> string + 'c) \<Rightarrow> ('c \<Rightarrow> string + (byte list \<times> 'c)) \<Rightarrow> ('c \<Rightarrow> string + byte list) \<Rightarrow>
   (path \<Rightarrow> byte list option) \<Rightarrow> nat \<Rightarrow> 'c stream \<Rightarrow> byte list list \<Rightarrow>
   ((string + byte list list) \<times> 'c stream) option" where
  "read_all feed consume finalize files limit s parts =
     (case try_next feed consume finalize files limit s of
        None \<Rightarrow> None
      | Some (Inl e, s') \<Rightarrow> Some (Inl e, s')
      | Some (Inr None, s') \<Rightarrow> Some (Inr parts, s')
      | Some (Inr (Some part), s') \<Rightarrow> read_all feed consume finalize files limit s' (parts @ [part]))"

section \<open>Coverage of the sources\<close>

definition total_bytes :: "file_location list \<Rightarrow> nat" where
  "total_bytes ls = sum_list (map loc_size ls)"

lemma bytes_simps [simp]:
  "total_bytes [] = 0" "total_bytes (l # ls) = loc_size l + total_bytes ls"
  "total_bytes (ls @ ms) = total_bytes ls + total_bytes ms" "total_bytes (rev ls) = total_bytes ls"
  by (simp_all add: total_bytes_def sum_list_rev rev_map [symmetric])

lemma total_bytes_sort [simp]: "total_bytes (sort_sources ls) = total_bytes ls"
proof -
  have "mset (map loc_size (sort_sources ls)) = mset (map loc_size ls)" by (simp add: sort_sources_def)
  then show ?thesis unfolding total_bytes_def by (metis sum_mset_sum_list)
qed

lemma fill_slot_effect:
  assumes "fill_slot n b stack = (ds, stack')" and "b \<le> n"
  shows "all_bytes stack = all_bytes ds @ all_bytes stack' \<and> total_bytes stack = total_bytes ds + total_bytes stack'
    \<and> loc_path ` set stack = loc_path ` set ds \<union> loc_path ` set stack'
    \<and> b + total_bytes ds \<le> n
    \<and> (stack' \<noteq> [] \<longrightarrow> b + total_bytes ds = n \<and> 0 < loc_size (hd stack'))"
  using assms
proof (induction n b stack arbitrary: ds rule: fill_slot.induct)
  case (1 n b)
  then show ?case by simp
next
  case (2 n b f fs)
  show ?case
  proof (cases "b \<ge> n \<and> loc_size f > 0")
    case True
    with 2(2,3) show ?thesis by auto
  next
    case False
    define d where "d = min (loc_size f) (n - b)"
    define dest where "dest = \<lparr>loc_path = loc_path f, loc_pos = loc_pos f, loc_size = d\<rparr>"
    define f' where "f' = f\<lparr>loc_size := loc_size f - d, loc_pos := loc_pos f + d\<rparr>"
    define rest where "rest = (if loc_size f' = 0 then fs else f' # fs)"
    obtain ds1 where rec: "fill_slot n (b + d) rest = (ds1, stack')" and ds: "ds = dest # ds1"
      using 2(2,3) False
      by (auto simp: Let_def d_def dest_def f'_def rest_def split: prod.splits if_splits)
    have le: "b + d \<le> n" using 2(3) by (simp add: d_def)
    have IH: "all_bytes rest = all_bytes ds1 @ all_bytes stack' \<and> total_bytes rest = total_bytes ds1 + total_bytes stack'
      \<and> loc_path ` set rest = loc_path ` set ds1 \<union> loc_path ` set stack'
      \<and> b + d + total_bytes ds1 \<le> n
      \<and> (stack' \<noteq> [] \<longrightarrow> b + d + total_bytes ds1 = n \<and> 0 < loc_size (hd stack'))"
    proof -
      have c: "b \<le> n \<and> \<not> (b \<ge> n \<and> loc_size f > 0)" using False 2(3) by simp
      show ?thesis
        by (rule 2(1) [OF c d_def dest_def f'_def rec [unfolded rest_def] le, folded rest_def])
    qed
    have dle: "d \<le> loc_size f" by (simp add: d_def)
    have "all_bytes (f # fs) = location_bytes dest @ all_bytes rest"
      using location_bytes_split [OF dle] by (auto simp: dest_def f'_def rest_def location_bytes_empty)
    moreover have "total_bytes (f # fs) = d + total_bytes rest"
      using dle by (auto simp: rest_def f'_def)
    moreover have "loc_path ` set (f # fs) = insert (loc_path dest) (loc_path ` set rest)"
      by (auto simp: rest_def f'_def dest_def)
    ultimately show ?thesis using IH ds by (simp add: dest_def Un_assoc add.assoc)
  qed
qed

lemma build_destinations_Nil [simp]: "build_destinations n [] = ([], [])"
  by (simp add: build_destinations_def)

lemma build_destinations_empty:
  assumes "build_destinations n stack = ([], stack')"
  shows "stack = [] \<or> n = 0 \<and> 0 < loc_size (hd stack)"
  using assms by (cases stack) (auto simp: build_destinations_def Let_def split: if_splits prod.splits)

lemma fill_slots_Nil [simp]: "fill_slots n m i left [] = []"
  by (cases left) simp_all

lemma fill_slots_covers:
  assumes "0 < left" and "total_bytes stack = n * (left - 1) + m" and "0 < n \<or> total_bytes stack = 0"
  shows "all_bytes (concat (map destinations (fill_slots n m i left stack))) = all_bytes stack
    \<and> loc_path ` set (concat (map destinations (fill_slots n m i left stack))) = loc_path ` set stack"
  using assms
proof (induction left arbitrary: i stack)
  case 0
  then show ?case by simp
next
  case (Suc left)
  let ?n = "if left > 0 then n else m"
  obtain ds stack' where b: "build_destinations ?n stack = (ds, stack')" by fastforce
  note eff = fill_slot_effect [OF b [unfolded build_destinations_def] le0]
  show ?case
  proof (cases "ds = []")
    case True
    with b have "stack = [] \<or> ?n = 0 \<and> 0 < loc_size (hd stack)" by (intro build_destinations_empty) simp
    moreover have "stack = []" if "?n = 0" "0 < loc_size (hd stack)"
      using that Suc.prems(2,3) by (cases stack) (auto split: if_splits)
    ultimately show ?thesis by auto
  next
    case False
    then have step: "fill_slots n m i (Suc left) stack = blueprint_chunk i ds # fill_slots n m (Suc i) left stack'"
      using b by (simp add: Let_def)
    show ?thesis
    proof (cases "stack' = []")
      case True
      with eff show ?thesis unfolding step by (simp add: blueprint_chunk_def)
    next
      case ne: False
      with eff have "total_bytes ds = ?n" "0 < total_bytes stack'"
        by (auto simp: neq_Nil_conv)
      with eff Suc.prems(2,3) have left: "0 < left" and "total_bytes stack' = n * (left - 1) + m" and "0 < n"
        by (cases left; simp)+
      from Suc.IH [OF this(1,2), of "Suc i"] this(3) eff show ?thesis
        unfolding step by (simp add: blueprint_chunk_def image_Un)
    qed
  qed
qed

lemma slot_sizes: "0 < n_slots \<Longrightarrow> (t :: nat) = t div n_slots * (n_slots - 1) + (t div n_slots + t mod n_slots)"
  using div_mult_mod_eq [of t n_slots] by (cases n_slots) (simp_all add: algebra_simps)

lemma manifest_covers:
  assumes "list_sources excluded entries = Inr srcs" and "0 < n_slots"
    and "n_slots \<le> sources_total_size srcs \<or> sources_total_size srcs = 0"
  shows "all_bytes (concat (map destinations (manifest_chunks (prepare_manifest_blueprint codec n_slots srcs))))
      = all_bytes (rev (sort_sources (sources srcs)))
    \<and> loc_path ` set (concat (map destinations (manifest_chunks (prepare_manifest_blueprint codec n_slots srcs))))
      = loc_path ` set (sources srcs)"
proof -
  have t: "total_bytes (rev (sort_sources (sources srcs))) = sources_total_size srcs"
    using list_sources_total [OF assms(1)] by (simp flip: total_bytes_def)
  have "0 < sources_total_size srcs div n_slots \<or> sources_total_size srcs = 0"
    using assms(2,3) by (auto simp: div_greater_zero_iff)
  with fill_slots_covers [OF assms(2) trans [OF t slot_sizes [OF assms(2)]], of 0] t
  show ?thesis by (simp add: prepare_manifest_blueprint_def Let_def) (simp add: sort_sources_def)
qed

text \<open>The number of slots the uploader chooses by itself is small enough.\<close>

lemma default_slots_fit:
  "upload_total_slots None (Inr srcs) = Inr n \<Longrightarrow> 0 < n \<and> (n \<le> sources_total_size srcs \<or> sources_total_size srcs = 0)"
  by (auto simp: upload_total_slots_def and_then_def)

text \<open>
  C4: the manifest of an upload places every byte of every source file in exactly one chunk, in a
  fixed order, and mentions every source file, as long as there are no more slots than bytes (or
  no bytes at all).
\<close>

theorem manifest_covers_sources:
  assumes "list_sources excluded entries = Inr srcs" and "0 < n_slots"
    and "n_slots \<le> sources_total_size srcs \<or> sources_total_size srcs = 0"
  shows "all_bytes (concat (map destinations (manifest_chunks (prepare_manifest_blueprint codec n_slots srcs))))
      = all_bytes (rev (sort_sources (sources srcs)))
    \<and> loc_path ` set (concat (map destinations (manifest_chunks (prepare_manifest_blueprint codec n_slots srcs))))
      = loc_path ` set (sources srcs)"
  using assms by (rule manifest_covers)

definition example_sources :: "(string + source_entry) list" where
  "example_sources = [Inr \<lparr>entry_path = ''/s/a'', entry_relative = ''a'', entry_is_file = True, entry_size = 3\<rparr>,
     Inr \<lparr>entry_path = ''/s'', entry_relative = [], entry_is_file = False, entry_size = 0\<rparr>,
     Inr \<lparr>entry_path = ''/s/b'', entry_relative = ''b'', entry_is_file = True, entry_size = 2\<rparr>]"

definition example_listed :: sources_list where
  "example_listed = \<lparr>sources_total_size = 5,
     sources = [\<lparr>loc_path = ''/s/a'', loc_pos = 0, loc_size = 3\<rparr>, \<lparr>loc_path = ''/s/b'', loc_pos = 0, loc_size = 2\<rparr>]\<rparr>"

lemma example_list_sources: "list_sources (\<lambda>_. False) example_sources = Inr example_listed"
  by (simp add: list_sources_def example_sources_def example_listed_def)

theorem manifest_covers_sources_witness:
  "all_bytes (concat (map destinations (manifest_chunks (prepare_manifest_blueprint None 2 example_listed))))
     = all_bytes (rev (sort_sources (sources example_listed)))"
  using manifest_covers_sources [OF example_list_sources, of 2 None] by (simp add: example_listed_def)

text \<open>
  with more slots than bytes the slots have size zero; the split then stops at the first slot
  whose next file is not empty, and the manifest has no chunks although there is data.
\<close>

theorem manifest_drops_small_sources:
  assumes "list_sources excluded entries = Inr srcs" and "sources_total_size srcs < n_slots"
    and "sources srcs \<noteq> []" and "0 < loc_size (last (sort_sources (sources srcs)))"
  shows "manifest_chunks (prepare_manifest_blueprint codec n_slots srcs) = []"
proof -
  have "sort_sources (sources srcs) \<noteq> []"
    using assms(3) by (metis set_empty set_sort sort_sources_def)
  then obtain f fs where stack: "rev (sort_sources (sources srcs)) = f # fs"
    by (metis neq_Nil_conv rev_is_Nil_conv)
  then have f: "0 < loc_size f" using assms(4) by (metis hd_rev list.sel(1))
  have "total_bytes (f # fs) = sources_total_size srcs"
    using list_sources_total [OF assms(1)] stack [symmetric] by (simp add: total_bytes_def [symmetric])
  with f assms(2) obtain left where "n_slots = Suc (Suc left)"
    by (cases n_slots; cases "n_slots - 1") auto
  with assms(2) stack f show ?thesis
    by (simp add: prepare_manifest_blueprint_def Let_def build_destinations_def)
qed

theorem manifest_drops_small_sources_witness:
  "manifest_chunks (prepare_manifest_blueprint None 9 example_listed) = []"
  by (rule manifest_drops_small_sources [OF example_list_sources])
    (simp_all add: example_listed_def sort_sources_def path_components_def)

section \<open>What the reader delivers\<close>

definition slice :: "(path \<Rightarrow> byte list option) \<Rightarrow> path \<Rightarrow> nat \<Rightarrow> nat \<Rightarrow> byte list" where
  "slice files p pos n = take n (drop pos (unwrap_or (files p) []))"

definition read_locations :: "(path \<Rightarrow> byte list option) \<Rightarrow> file_location list \<Rightarrow> byte list" where
  "read_locations files ls = concat (map (\<lambda>l. slice files (loc_path l) (loc_pos l) (loc_size l)) ls)"

lemma read_locations_simps [simp]:
  "read_locations files [] = []"
  "read_locations files (l # ls) = slice files (loc_path l) (loc_pos l) (loc_size l) @ read_locations files ls"
  by (simp_all add: read_locations_def)

text \<open>The bytes the reader has still to deliver.\<close>

definition unread :: "(path \<Rightarrow> byte list option) \<Rightarrow> reader \<Rightarrow> byte list" where
  "unread files r =
     slice files (current_path r) (current_offset r) (bytes_remaining r) @ read_locations files (rev (iter r))"

lemma slice_0 [simp]: "slice files p pos 0 = []"
  by (simp add: slice_def)

lemma slice_split: "k \<le> n \<Longrightarrow> slice files p pos n = slice files p pos k @ slice files p (pos + k) (n - k)"
  using take_add [of k "n - k" "drop pos (unwrap_or (files p) [])"] by (simp add: slice_def add.commute)

lemma at_end_unread: "at_end r \<Longrightarrow> unread files r = []"
  by (simp add: at_end_def unread_def)

lemma read_exact_at_Inr: "read_exact_at files p pos n = Inr d \<Longrightarrow> d = slice files p pos n"
  by (auto simp: read_exact_at_def slice_def split: option.splits if_splits)

lemma open_location_unread:
  assumes "open_location files (last (iter r)) (r\<lparr>iter := butlast (iter r)\<rparr>) = Inr r1"
    and "bytes_remaining r = 0" and "iter r \<noteq> []"
  shows "unread files r1 = unread files r"
proof -
  from assms(3) obtain ls l where "iter r = ls @ [l]" by (metis rev_exhaust)
  with assms(1,2) show ?thesis
    by (auto simp: open_location_def unread_def split: if_splits)
qed

lemma read_data_Inr:
  "read_data files limit buffer r = Inr (buffer', r') \<Longrightarrow>
     (\<exists>d. buffer' = buffer @ d \<and> unread files r = d @ unread files r')
   \<and> (limit \<le> length buffer' \<or> at_end r')"
proof (induction files limit buffer r rule: read_data.induct)
  case (1 files limit buffer r)
  show ?case
  proof (cases "length buffer < limit \<and> \<not> (bytes_remaining r = 0 \<and> iter r = [])")
    case False
    then have "read_data files limit buffer r = Inr (buffer, r)"
      by (subst read_data.simps) (simp only: if_False simp_thms)
    with 1(2) have "buffer' = buffer" "r' = r" by simp_all
    with False show ?thesis by (auto simp: at_end_def)
  next
    case True
    let ?o = "if bytes_remaining r = 0
      then open_location files (last (iter r)) (r\<lparr>iter := butlast (iter r)\<rparr>) else Inr r"
    have unfolded: "(case ?o of Inl e \<Rightarrow> Inl e
        | Inr r1 \<Rightarrow> (let n = min (bytes_remaining r1) (limit - length buffer)
            in case read_exact_at files (current_path r1) (current_offset r1) n of
                 Inl e \<Rightarrow> Inl e
               | Inr bytes \<Rightarrow> read_data files limit (buffer @ bytes)
                   (r1\<lparr>bytes_remaining := bytes_remaining r1 - n, current_offset := current_offset r1 + n\<rparr>)))
        = Inr (buffer', r')"
      using 1(2) True by (subst (asm) read_data.simps) (simp only: if_True simp_thms)
    then obtain r1 where o: "?o = Inr r1" by (cases ?o) (simp_all only: sum.case sum.distinct)
    with unfolded obtain bytes where
      e: "read_exact_at files (current_path r1) (current_offset r1)
          (min (bytes_remaining r1) (limit - length buffer)) = Inr bytes"
      and rec: "read_data files limit (buffer @ bytes)
          (r1\<lparr>bytes_remaining := bytes_remaining r1 - min (bytes_remaining r1) (limit - length buffer),
             current_offset := current_offset r1 + min (bytes_remaining r1) (limit - length buffer)\<rparr>)
          = Inr (buffer', r')"
      by (auto simp only: Let_def sum.case split: sum.splits)
    let ?n = "min (bytes_remaining r1) (limit - length buffer)"
    let ?r2 = "r1\<lparr>bytes_remaining := bytes_remaining r1 - ?n, current_offset := current_offset r1 + ?n\<rparr>"
    have u1: "unread files r1 = unread files r"
      using o open_location_unread [of files r r1] True by (auto split: if_splits)
    have u2: "unread files r1 = bytes @ unread files ?r2"
      using slice_split [of ?n "bytes_remaining r1" files "current_path r1" "current_offset r1"]
      by (simp add: unread_def read_exact_at_Inr [OF e])
    from 1(1) [OF True o refl e rec] u1 u2 show ?thesis by auto
  qed
qed

text \<open>With room in the buffer, a read that does not reach the end delivers something.\<close>

lemma read_data_progress:
  "read_data files limit [] r = Inr (d, r') \<Longrightarrow> 0 < limit \<Longrightarrow> d \<noteq> [] \<or> at_end r'"
  using read_data_Inr [of files limit "[]" r d r'] by auto

lemma unread_bytes_read [simp]: "unread files (r\<lparr>bytes_read := n\<rparr>) = unread files r"
  by (simp add: unread_def)

context coder begin

text \<open>A stream that has delivered \<open>out\<close> of a chunk with the bytes \<open>content\<close>.\<close>

definition stream_ok :: "(path \<Rightarrow> byte list option) \<Rightarrow> byte list \<Rightarrow> byte list \<Rightarrow> 'c stream \<Rightarrow> bool" where
  "stream_ok files content out s \<longleftrightarrow>
     (case interim s of
        None \<Rightarrow> out = code content \<and> digested s = Some out
      | Some (c, digest) \<Rightarrow>
          digest = out \<and> (\<exists>i. content = i @ unread files (stream_reader s) \<and> holds c i out) \<and> ready c)"

lemma try_next_ok:
  assumes "0 < limit" and "stream_ok files content out s"
  shows "\<exists>r s'. try_next feed consume finalize files limit s = Some (r, s')
    \<and> (\<forall>part. r = Inr (Some part) \<longrightarrow> stream_ok files content (out @ part) s'
        \<and> (interim s' = None \<or> length (unread files (stream_reader s')) < length (unread files (stream_reader s))) \<and> interim s \<noteq> None)
    \<and> (r = Inr None \<longrightarrow> interim s = None \<and> s' = s)"
  using assms(2)
proof (induction "length (unread files (stream_reader s))" arbitrary: s rule: less_induct)
  case less
  show ?case
  proof (cases "interim s")
    case None
    then show ?thesis by (subst try_next.simps) simp
  next
    case (Some cd)
    obtain c digest where cd: "interim s = Some (c, digest)" using Some by (cases cd) simp
    with less.prems obtain i where out: "digest = out" and content: "content = i @ unread files (stream_reader s)"
      and holds: "holds c i out" and ready: "ready c"
      by (auto simp: stream_ok_def)
    show ?thesis
    proof (cases "read_data files limit [] (stream_reader s)")
      case (Inl e)
      with cd show ?thesis by (subst try_next.simps) simp
    next
      case (Inr br)
      obtain b r where rd: "read_data files limit [] (stream_reader s) = Inr (b, r)" using Inr by (cases br) simp
      have un: "unread files (stream_reader s) = b @ unread files r" using read_data_Inr [OF rd] by auto
      let ?r1 = "r\<lparr>bytes_read := bytes_read r + length b\<rparr>"
      show ?thesis
      proof (cases "at_end r")
        case True
        then have e: "at_end ?r1" by simp
        show ?thesis
        proof (cases "and_then (feed c b) finalize")
          case (Inl err)
          with cd rd e show ?thesis by (subst try_next.simps) (simp add: Let_def)
        next
          case fin: (Inr compressed)
          then obtain c1 where "feed c b = Inr c1" "finalize c1 = Inr compressed" by (auto simp: and_then_Inr_iff)
          with finalize [OF feed [OF holds ready]] have "out @ compressed = code (i @ b)" by blast
          moreover have "content = i @ b" using content un at_end_unread [OF True] by simp
          ultimately show ?thesis
            using cd rd e fin out by (subst try_next.simps) (simp add: Let_def stream_ok_def)
        qed
      next
        case False
        then have e: "\<not> at_end ?r1" by simp
        have "b \<noteq> []" using read_data_progress [OF rd assms(1)] False by blast
        then have shorter: "length (unread files r) < length (unread files (stream_reader s))" using un by simp
        show ?thesis
        proof (cases "and_then (feed c b) consume")
          case (Inl err)
          with cd rd e show ?thesis by (subst try_next.simps) (simp add: Let_def)
        next
          case con: (Inr oc)
          obtain compressed c2 where oc: "oc = (compressed, c2)" by (cases oc)
          with con obtain c1 where "feed c b = Inr c1" "consume c1 = Inr (compressed, c2)" by (auto simp: and_then_Inr_iff)
          note h2 = feed_consume [OF holds ready this]
          let ?s' = "s\<lparr>stream_reader := ?r1, interim := Some (c2, digest @ compressed)\<rparr>"
          have ok': "stream_ok files content (out @ compressed) ?s'"
            using h2 content un out by (auto simp: stream_ok_def)
          show ?thesis
          proof (cases "compressed = []")
            case False
            with cd rd e con oc ok' shorter show ?thesis by (subst try_next.simps) (simp add: Let_def)
          next
            case True
            then have eq: "try_next feed consume finalize files limit s = try_next feed consume finalize files limit ?s'"
              using cd rd e con oc by (subst (1) try_next.simps) (simp add: Let_def)
            have "stream_ok files content out ?s'" using ok' True by simp
            from less.hyps [OF _ this] shorter obtain r2 s2
              where "try_next feed consume finalize files limit ?s' = Some (r2, s2)"
                "\<forall>part. r2 = Inr (Some part) \<longrightarrow> stream_ok files content (out @ part) s2
                  \<and> (interim s2 = None \<or> length (unread files (stream_reader s2)) < length (unread files ?r1))"
                "r2 \<noteq> Inr None"
              by auto
            with shorter cd show ?thesis unfolding eq by auto
          qed
        qed
      qed
    qed
  qed
qed

lemma read_all_ok:
  assumes "0 < limit" and "stream_ok files content (concat parts) s"
  shows "\<exists>r s'. read_all feed consume finalize files limit s parts = Some (r, s')
    \<and> (\<forall>ps. r = Inr ps \<longrightarrow> concat ps = code content \<and> digested s' = Some (code content))"
  using assms(2)
proof (induction "case interim s of None \<Rightarrow> 0 | Some _ \<Rightarrow> Suc (length (unread files (stream_reader s)))"
    arbitrary: s parts rule: less_induct)
  case less
  from try_next_ok [OF assms(1) less.prems] obtain r s' where
    t: "try_next feed consume finalize files limit s = Some (r, s')"
    and part: "\<And>part. r = Inr (Some part) \<Longrightarrow> stream_ok files content (concat parts @ part) s'
        \<and> (interim s' = None \<or> length (unread files (stream_reader s')) < length (unread files (stream_reader s)))
        \<and> interim s \<noteq> None"
    and stop: "r = Inr None \<Longrightarrow> interim s = None \<and> s' = s"
    by blast
  show ?case
  proof (cases r)
    case (Inl e)
    with t show ?thesis by (subst read_all.simps) simp
  next
    case (Inr x)
    show ?thesis
    proof (cases x)
      case None
      with t Inr stop less.prems show ?thesis by (subst read_all.simps) (simp add: stream_ok_def)
    next
      case (Some p)
      with part Inr have ok: "stream_ok files content (concat (parts @ [p])) s'"
        and dec: "interim s' = None \<or> length (unread files (stream_reader s')) < length (unread files (stream_reader s))"
        and ne: "interim s \<noteq> None"
        by simp_all
      have "(case interim s' of None \<Rightarrow> 0 | Some _ \<Rightarrow> Suc (length (unread files (stream_reader s'))))
          < (case interim s of None \<Rightarrow> 0 | Some _ \<Rightarrow> Suc (length (unread files (stream_reader s))))"
        using dec ne by (auto split: option.split)
      from less.hyps [OF this ok] t Inr Some show ?thesis by (subst read_all.simps) simp
    qed
  qed
qed

end

text \<open>The reader of a chunk, from its creation to its end: the parts of the body, and what the
  checksum was computed from.\<close>

definition upload_stream ::
  "('c \<Rightarrow> byte list \<Rightarrow> string + 'c) \<Rightarrow> ('c \<Rightarrow> string + (byte list \<times> 'c)) \<Rightarrow> ('c \<Rightarrow> string + byte list) \<Rightarrow> 'c \<Rightarrow>
   (path \<Rightarrow> byte list option) \<Rightarrow> nat \<Rightarrow> file_location list \<Rightarrow> (string + byte list list \<times> byte list option) option" where
  "upload_stream feed consume finalize encoder files limit ds =
     (case reader_new files ds of
        Inl e \<Rightarrow> Some (Inl e)
      | Inr r \<Rightarrow>
          map_option (\<lambda>(res, s). and_then res (\<lambda>parts. Inr (parts, digested s)))
            (read_all feed consume finalize files limit
               \<lparr>stream_reader = r, interim = Some (encoder, []), digested = None\<rparr> []))"

lemma reader_new_unread: "reader_new files ds = Inr r \<Longrightarrow> unread files r = read_locations files ds"
  by (auto simp: reader_new_def open_location_def unread_def split: list.splits if_splits)

lemma upload_stream_encodes:
  assumes "coder feed consume finalize encoder holds ready encode" and "0 < limit"
  shows "\<exists>r. upload_stream feed consume finalize encoder files limit ds = Some r
    \<and> (\<forall>parts d. r = Inr (parts, d) \<longrightarrow>
        concat parts = encode (read_locations files ds) \<and> d = Some (concat parts))"
proof (cases "reader_new files ds")
  case (Inl e)
  then show ?thesis by (simp add: upload_stream_def)
next
  case (Inr r)
  let ?s = "\<lparr>stream_reader = r, interim = Some (encoder, []), digested = None\<rparr>"
  have "coder.stream_ok holds ready encode files (read_locations files ds) (concat []) ?s"
    using coder.initial [OF assms(1)] reader_new_unread [OF Inr]
    by (simp add: coder.stream_ok_def [OF assms(1)])
  from coder.read_all_ok [OF assms(1,2) this] Inr show ?thesis
    by (auto simp: upload_stream_def and_then_Inr_iff)
qed

text \<open>
  C26: the upload of a chunk streams exactly the encoding of the bytes its destinations name, in
  order, computes the checksum from exactly what it sends, and always ends, for any encoder that
  keeps the contract of the coder trait and any buffer size but zero.
\<close>

theorem upload_streams_the_chunk:
  assumes "coder feed consume finalize encoder holds ready encode" and "0 < limit"
  shows "\<exists>r. upload_stream feed consume finalize encoder files limit ds = Some r
    \<and> (\<forall>parts d. r = Inr (parts, d) \<longrightarrow>
        concat parts = encode (read_locations files ds) \<and> d = Some (concat parts))"
  using assms by (rule upload_stream_encodes)

definition example_files :: "path \<Rightarrow> byte list option" where
  "example_files = (\<lambda>p. if p = ''/s/a'' then Some [1, 2, 3] else if p = ''/s/b'' then Some [4, 5] else None)"

theorem upload_streams_the_chunk_witness:
  "\<exists>r. upload_stream no_coder_feed no_coder_consume no_coder_finalize no_coder_default example_files 2
       (sources example_listed) = Some r
    \<and> (\<forall>parts d. r = Inr (parts, d) \<longrightarrow> concat parts = [1, 2, 3, 4, 5] \<and> d = Some [1, 2, 3, 4, 5])"
  using upload_streams_the_chunk [OF plain.coder_axioms, of 2 example_files "sources example_listed"]
  by (force simp: example_listed_def slice_def example_files_def)

end
