(* ===== verification/Backoff.thy ===== *)
theory Backoff
  imports Engine
begin

text \<open>
  Retries and restarts: the retry macros of \<open>bv_utils/src/lib.rs\<close>, the \<open>Backoff\<close> helper of
  \<open>babel/src/utils.rs\<close>, and the restart policies of \<open>babel/src/job_runner.rs\<close> and
  \<open>run_sh_job.rs\<close>. Clock readings are arguments, in milliseconds; sleeping is an effect on the
  caller's state given as a parameter where the state matters.
\<close>

section \<open>Retry macros\<close>

text \<open>\<open>exp_backoff_timeout\<close>, in 64-bit arithmetic.\<close>

definition exp_backoff_timeout :: "64 word \<Rightarrow> nat \<Rightarrow> 64 word" where
  "exp_backoff_timeout base retry_count = base * 2 ^ retry_count"

text \<open>
  \<open>_with_selective_retry!\<close>: run \<open>f\<close>; on a retriable error sleep and run it again, at most
  \<open>retry_max\<close> times more. \<open>_with_retry!\<close> retries every error.
\<close>

function selective_retry_loop ::
  "('s, 'e, 'a) action \<Rightarrow> ('e \<Rightarrow> bool) \<Rightarrow> (64 word \<Rightarrow> 's \<Rightarrow> 's) \<Rightarrow> nat \<Rightarrow> 64 word \<Rightarrow> nat \<Rightarrow> ('s, 'e, 'a) action" where
  "selective_retry_loop f non_retriable sleep retry_max base retry_count s =
     (case f s of
        (Inr x, t) \<Rightarrow> (Inr x, t)
      | (Inl e, t) \<Rightarrow>
          if \<not> non_retriable e \<and> retry_count < retry_max
          then selective_retry_loop f non_retriable sleep retry_max base (Suc retry_count)
                 (sleep (exp_backoff_timeout base (Suc retry_count)) t)
          else (Inl e, t))"
  by pat_completeness auto
termination
  by (relation "measure (\<lambda>(f, nr, sl, m, b, n, s). m - n)") auto

declare selective_retry_loop.simps [simp del]

lemma selective_retry_loop_Inr:
  assumes "selective_retry_loop f nr sleep m b k s = (Inr x, t)"
  shows "\<exists>s'. f s' = (Inr x, t)"
  using assms
proof (induction f nr sleep m b k s rule: selective_retry_loop.induct)
  case (1 f nr sleep m b k s)
  obtain r u where f: "f s = (r, u)" by (cases "f s")
  show ?case
  proof (cases r)
    case (Inr y)
    with f 1(2) show ?thesis by (subst (asm) selective_retry_loop.simps) auto
  next
    case (Inl e)
    with f 1(2) have "\<not> nr e \<and> k < m"
      and "selective_retry_loop f nr sleep m b (Suc k) (sleep (exp_backoff_timeout b (Suc k)) u) = (Inr x, t)"
      by (subst (asm) selective_retry_loop.simps; simp split: if_splits)+
    with 1(1) [OF f [symmetric] Inl] show ?thesis by blast
  qed
qed

lemma keeps_selective_retry_loop [keeps_rules]:
  assumes "keeps I f" and "\<And>d s. I s \<Longrightarrow> I (sleep d s)"
  shows "keeps I (selective_retry_loop f nr sleep m b k)"
proof (rule keepsI)
  fix s assume "I s"
  then show "I (snd (selective_retry_loop f nr sleep m b k s))"
    using assms
  proof (induction f nr sleep m b k s rule: selective_retry_loop.induct)
    case (1 f nr sleep m b k s)
    obtain r t where f: "f s = (r, t)" by (cases "f s")
    with 1(2,3) have "I t" by (blast intro: keepsD_eq)
    with 1 f show ?case
      by (subst selective_retry_loop.simps) (auto split: sum.split)
  qed
qed

definition RPC_RETRY_MAX :: nat where "RPC_RETRY_MAX = 3"
definition RPC_BACKOFF_BASE_MS :: "64 word" where "RPC_BACKOFF_BASE_MS = 300"

definition with_selective_retry ::
  "('s, 'e, 'a) action \<Rightarrow> ('e \<Rightarrow> bool) \<Rightarrow> (64 word \<Rightarrow> 's \<Rightarrow> 's) \<Rightarrow> ('s, 'e, 'a) action" where
  "with_selective_retry f non_retriable sleep =
     selective_retry_loop f non_retriable sleep RPC_RETRY_MAX RPC_BACKOFF_BASE_MS 0"

definition with_retry_limit ::
  "('s, 'e, 'a) action \<Rightarrow> (64 word \<Rightarrow> 's \<Rightarrow> 's) \<Rightarrow> nat \<Rightarrow> 64 word \<Rightarrow> ('s, 'e, 'a) action" where
  "with_retry_limit f sleep retry_max base = selective_retry_loop f (\<lambda>_. False) sleep retry_max base 0"

definition with_retry :: "('s, 'e, 'a) action \<Rightarrow> (64 word \<Rightarrow> 's \<Rightarrow> 's) \<Rightarrow> ('s, 'e, 'a) action" where
  "with_retry f sleep = with_retry_limit f sleep RPC_RETRY_MAX RPC_BACKOFF_BASE_MS"

section \<open>Backoff\<close>

record backoff =
  counter :: nat
  timestamp :: nat
  backoff_base :: "64 word"
  reset_timeout :: nat

datatype timeout_status = Expired | ShouldWait
datatype limit_status = LimitOk | Exceeded

definition backoff_new :: "nat \<Rightarrow> 64 word \<Rightarrow> nat \<Rightarrow> backoff" where
  "backoff_new now base timeout =
     \<lparr>counter = 0, timestamp = now, backoff_base = base, reset_timeout = timeout\<rparr>"

definition backoff_start :: "nat \<Rightarrow> backoff \<Rightarrow> backoff" where
  "backoff_start now b = b\<lparr>timestamp := now\<rparr>"

definition check_timeout :: "nat \<Rightarrow> backoff \<Rightarrow> timeout_status \<times> backoff" where
  "check_timeout now b =
     (if now - timestamp b > reset_timeout b then (Expired, b\<lparr>counter := 0\<rparr>) else (ShouldWait, b))"

text \<open>\<open>Backoff::backoff\<close>: the time it sleeps (unless the run flag is stopped meanwhile), and the
  counter afterwards.\<close>

definition backoff_sleep :: "backoff \<Rightarrow> 64 word \<times> backoff" where
  "backoff_sleep b =
     (exp_backoff_timeout (backoff_base b) (counter b), b\<lparr>counter := Suc (counter b)\<rparr>)"

definition backoff_wait :: "nat \<Rightarrow> backoff \<Rightarrow> backoff" where
  "backoff_wait now b =
     (case check_timeout now b of
        (ShouldWait, b') \<Rightarrow> snd (backoff_sleep b')
      | (Expired, b') \<Rightarrow> b')"

definition wait_with_limit :: "nat \<Rightarrow> nat \<Rightarrow> backoff \<Rightarrow> limit_status \<times> backoff" where
  "wait_with_limit now limit b =
     (case check_timeout now b of
        (Expired, b') \<Rightarrow> (LimitOk, b')
      | (ShouldWait, b') \<Rightarrow>
          if counter b' \<ge> limit then (Exceeded, b') else (LimitOk, snd (backoff_sleep b')))"

section \<open>Restart policy of a job\<close>

datatype job_report = PushLog string string | RegisterRestart string

record job_backoff =
  jb_job_name :: string
  jb_backoff :: "backoff option"
  jb_max_retries :: "nat option"
  jb_restart_always :: bool

definition job_backoff_new :: "string \<Rightarrow> nat \<Rightarrow> restart_policy \<Rightarrow> job_backoff" where
  "job_backoff_new name now policy =
     (case policy of
        Never \<Rightarrow> \<lparr>jb_job_name = name, jb_backoff = None, jb_max_retries = None, jb_restart_always = False\<rparr>
      | Always cfg \<Rightarrow>
          \<lparr>jb_job_name = name,
           jb_backoff = Some (backoff_new now (backoff_base_ms cfg) (backoff_timeout_ms cfg)),
           jb_max_retries = max_retries cfg, jb_restart_always = True\<rparr>
      | OnFailure cfg \<Rightarrow>
          \<lparr>jb_job_name = name,
           jb_backoff = Some (backoff_new now (backoff_base_ms cfg) (backoff_timeout_ms cfg)),
           jb_max_retries = max_retries cfg, jb_restart_always = False\<rparr>)"

definition job_backoff_start :: "nat \<Rightarrow> job_backoff \<Rightarrow> job_backoff" where
  "job_backoff_start now j = j\<lparr>jb_backoff := map_option (backoff_start now) (jb_backoff j)\<rparr>"

text \<open>
  \<open>JobBackoff::stopped\<close>. The state is the backoff and the reports sent to the jobs monitor (the
  code ignores whether they arrive). The status is returned as the error, as in the code.
\<close>

definition job_backoff_stopped ::
  "nat \<Rightarrow> int option \<Rightarrow> string \<Rightarrow> (job_backoff \<times> job_report list, job_status, unit) action" where
  "job_backoff_stopped now exit_code message = (\<lambda>(j, sent).
     if jb_restart_always j \<or> unwrap_or exit_code (-1) \<noteq> 0
     then
       let sent = sent @ [PushLog (jb_job_name j) message]
       in case jb_backoff j of
            Some b \<Rightarrow>
              (case jb_max_retries j of
                 Some limit \<Rightarrow>
                   (case wait_with_limit now limit b of
                      (Exceeded, b') \<Rightarrow> (Inl (Finished exit_code message), j\<lparr>jb_backoff := Some b'\<rparr>, sent)
                    | (LimitOk, b') \<Rightarrow>
                        (Inr (), j\<lparr>jb_backoff := Some b'\<rparr>, sent @ [RegisterRestart (jb_job_name j)]))
               | None \<Rightarrow>
                   (Inr (), j\<lparr>jb_backoff := Some (backoff_wait now b)\<rparr>, sent @ [RegisterRestart (jb_job_name j)]))
          | None \<Rightarrow> (Inl (Finished exit_code message), j, sent)
     else (Inl (Finished exit_code ''''), j, sent))"

section \<open>Job runners\<close>

text \<open>
  A job runner's loop runs until its flag is stopped. A run of it is the list of attempts made
  before that: each with the clock when it started and ended, and its outcome.
\<close>

record attempt =
  started :: nat
  ended :: nat
  outcome :: "string + unit"

definition finished_message :: "string \<Rightarrow> string" where
  "finished_message name = ''job '' @ quoted name @ '' finished''"

definition failed_message :: "string \<Rightarrow> string \<Rightarrow> string" where
  "failed_message name err = ''job '' @ quoted name @ '' failed with: '' @ err"

definition archive_attempt :: "string \<Rightarrow> attempt \<Rightarrow> (job_backoff \<times> job_report list, job_status, unit) action" where
  "archive_attempt name a = (\<lambda>(j, sent).
     (case outcome a of
        Inr _ \<Rightarrow> job_backoff_stopped (ended a) (Some 0) (finished_message name)
      | Inl err \<Rightarrow> job_backoff_stopped (ended a) (Some (-1)) (failed_message name err))
     (job_backoff_start (started a) j, sent))"

text \<open>\<open>ArchiveJobRunner::try_run_job\<close>\<close>

definition archive_try_run_job ::
  "string \<Rightarrow> attempt list \<Rightarrow> (job_backoff \<times> job_report list, job_status, unit) action" where
  "archive_try_run_job name attempts = for_each (archive_attempt name) attempts"

definition archive_job ::
  "string \<Rightarrow> nat \<Rightarrow> restart_policy \<Rightarrow> attempt list \<Rightarrow> (job_status + unit) \<times> job_backoff \<times> job_report list" where
  "archive_job name now policy attempts =
     archive_try_run_job name attempts (job_backoff_new name now policy, [])"

text \<open>\<open>RunShJob::try_run_job\<close>: the child exits, cannot be spawned, or is killed on a stop request.\<close>

datatype sh_outcome =
    ShExited "int option" string
      \<comment> \<open>exit code, and the exit status as printed by its Debug instance\<close>
  | ShSpawnFailed string
  | ShInterrupted

record sh_attempt =
  sh_started :: nat
  sh_ended :: nat
  sh_result :: sh_outcome

fun run_sh_attempts ::
  "string \<Rightarrow> sh_attempt list \<Rightarrow> (job_backoff \<times> job_report list, job_status, unit) action" where
  "run_sh_attempts name [] st = (Inr (), st)"
| "run_sh_attempts name (a # as) st =
     (let (j, sent) = st;
          st' = (job_backoff_start (sh_started a) j, sent)
      in case sh_result a of
           ShExited code text \<Rightarrow>
             try_then (job_backoff_stopped (sh_ended a) code
                        (''Job '' @ quoted name @ '' finished with '' @ text))
               (\<lambda>_. run_sh_attempts name as) st'
         | ShInterrupted \<Rightarrow> (Inr (), st')
         | ShSpawnFailed err \<Rightarrow>
             try_then (job_backoff_stopped (sh_ended a) None
                        (''Failed to spawn job '' @ quoted name @ '': '' @ err))
               (\<lambda>_. run_sh_attempts name as) st')"

definition run_sh_try_run_job ::
  "(string \<Rightarrow> bool) \<Rightarrow> string option \<Rightarrow> string \<Rightarrow> nat \<Rightarrow> restart_policy \<Rightarrow> sh_attempt list \<Rightarrow>
     (job_status + unit) \<times> job_backoff \<times> job_report list" where
  "run_sh_try_run_job user_exists as_user name now policy attempts =
     (case as_user of
        Some user \<Rightarrow>
          if user_exists user
          then run_sh_attempts name attempts (job_backoff_new name now policy, [])
          else (Inl (Finished None (''cant run as a '' @ quoted user @ '': user not found'')),
                job_backoff_new name now policy, [])
      | None \<Rightarrow> run_sh_attempts name attempts (job_backoff_new name now policy, []))"

text \<open>\<open>JobRunner::run\<close>: a status is saved and ends the runner; without one the job still counts
  as running. The second component is the status written to the job's status file, if any.\<close>

definition job_runner_run :: "job_status + unit \<Rightarrow> job_status \<times> job_status option" where
  "job_runner_run r = (case r of Inl status \<Rightarrow> (status, Some status) | Inr _ \<Rightarrow> (Running, None))"

section \<open>Properties of the retry loop\<close>

text \<open>\<open>f\<close> with a count of its calls.\<close>

definition counted :: "('s, 'e, 'a) action \<Rightarrow> (nat \<times> 's, 'e, 'a) action" where
  "counted f = (\<lambda>(n, s). let (r, t) = f s in (r, Suc n, t))"

definition sleep_counted :: "(64 word \<Rightarrow> 's \<Rightarrow> 's) \<Rightarrow> 64 word \<Rightarrow> nat \<times> 's \<Rightarrow> nat \<times> 's" where
  "sleep_counted sleep d = (\<lambda>(n, s). (n, sleep d s))"

lemma retry_loop_calls:
  assumes "selective_retry_loop (counted f) nr (sleep_counted sleep) m b k (n, s) = (r, n', t)"
    and "k \<le> m"
  shows "n < n' \<and> n' \<le> n + Suc (m - k) \<and> (\<forall>e. r = Inl e \<longrightarrow> nr e \<or> n' = n + Suc (m - k))"
  using assms
proof (induction "m - k" arbitrary: k n s)
  case 0
  then show ?case
    by (subst (asm) selective_retry_loop.simps)
      (auto simp: counted_def split: sum.splits prod.splits)
next
  case (Suc d)
  obtain q u where f: "f s = (q, u)" by (cases "f s")
  show ?case
  proof (cases "\<exists>e. q = Inl e \<and> \<not> nr e")
    case True
    let ?s = "(Suc n, sleep (exp_backoff_timeout b (Suc k)) u)"
    from True f Suc have "selective_retry_loop (counted f) nr (sleep_counted sleep) m b (Suc k) ?s = (r, n', t)"
      by (subst (asm) selective_retry_loop.simps)
        (auto simp: counted_def sleep_counted_def split: if_splits)
    moreover have "d = m - Suc k" and "Suc k \<le> m" using Suc.hyps(2) by simp_all
    ultimately have "Suc n < n' \<and> n' \<le> Suc n + Suc (m - Suc k) \<and> (\<forall>e. r = Inl e \<longrightarrow> nr e \<or> n' = Suc n + Suc (m - Suc k))"
      by (intro Suc.hyps(1))
    moreover have "Suc n + Suc (m - Suc k) = n + Suc (m - k)" using Suc.hyps(2) by simp
    ultimately show ?thesis by (simp only:) simp
  next
    case False
    with f Suc show ?thesis
      by (subst (asm) selective_retry_loop.simps)
        (auto simp: counted_def split: sum.splits)
  qed
qed

text \<open>
  A remote call under \<open>with_selective_retry!\<close> is made at least once and at most four times, and
  it reports a failure only for a non-retriable error or after the fourth attempt.
\<close>

theorem with_selective_retry_attempts:
  assumes "with_selective_retry (counted f) nr (sleep_counted sleep) (0, s) = (r, n, t)"
  shows "1 \<le> n \<and> n \<le> 4 \<and> (\<forall>e. r = Inl e \<longrightarrow> nr e \<or> n = 4)"
  using retry_loop_calls [OF assms [unfolded with_selective_retry_def]]
  by (simp add: RPC_RETRY_MAX_def)

definition flaky_call :: "nat \<Rightarrow> (string + nat) \<times> nat" where
  "flaky_call s = (if s < 602 then Inl ''unavailable'' else Inr s, s)"

theorem with_selective_retry_attempts_witness:
  "\<exists>n. with_selective_retry (counted flaky_call) (\<lambda>_. False) (sleep_counted (\<lambda>d s. s + unat d)) (0, 0) = (Inr 1800, n, 1800)
     \<and> 1 \<le> n \<and> n \<le> 4"
proof -
  have "with_selective_retry (counted flaky_call) (\<lambda>_. False) (sleep_counted (\<lambda>d s. s + unat d)) (0, 0) = (Inr 1800, 3, 1800)"
    by code_simp
  with with_selective_retry_attempts [OF this] show ?thesis by blast
qed

text \<open>The sleeping time doubles with every retry as long as the product fits into 64 bits.\<close>

lemma unat_exp_backoff_timeout:
  assumes "unat base * 2 ^ n < 2 ^ 64"
  shows "unat (exp_backoff_timeout base n) = unat base * 2 ^ n"
proof (cases "base = 0")
  case True
  then show ?thesis by (simp add: exp_backoff_timeout_def)
next
  case False
  then have "2 ^ n \<le> unat base * 2 ^ n" by (simp add: Suc_le_eq unat_gt_0)
  with assms have n: "(2::nat) ^ n < 2 ^ 64" by linarith
  then have "n < 64" by (rule power_less_imp_less_exp [rotated]) simp
  then have "unat (word_of_nat (2 ^ n) :: 64 word) = 2 ^ n" using n by (simp only: unat_of_nat) simp
  then have "unat (2 ^ n :: 64 word) = 2 ^ n" by simp
  with assms show ?thesis
    by (simp add: exp_backoff_timeout_def unat_word_ariths)
qed

section \<open>Properties of the restart policies\<close>

definition quick :: "restart_config \<Rightarrow> attempt \<Rightarrow> bool" where
  "quick cfg a \<longleftrightarrow> ended a - started a \<le> backoff_timeout_ms cfg"

definition failing :: "attempt \<Rightarrow> bool" where
  "failing a \<longleftrightarrow> (case outcome a of Inl _ \<Rightarrow> True | Inr _ \<Rightarrow> False)"

text \<open>\<open>n\<close> elements in a row satisfy \<open>P\<close>: at the start of the list, or anywhere in it.\<close>

definition starts_with_run :: "('a \<Rightarrow> bool) \<Rightarrow> nat \<Rightarrow> 'a list \<Rightarrow> bool" where
  "starts_with_run P n xs \<longleftrightarrow> n \<le> length xs \<and> list_all P (take n xs)"

definition has_run :: "('a \<Rightarrow> bool) \<Rightarrow> nat \<Rightarrow> 'a list \<Rightarrow> bool" where
  "has_run P n xs \<longleftrightarrow> (\<exists>i \<le> length xs. starts_with_run P n (drop i xs))"

lemma starts_with_run_simps [simp]:
  "starts_with_run P 0 xs"
  "\<not> starts_with_run P (Suc n) []"
  "starts_with_run P (Suc n) (x # xs) \<longleftrightarrow> P x \<and> starts_with_run P n xs"
  by (auto simp: starts_with_run_def)

lemma starts_with_run_mono: "starts_with_run P m xs \<Longrightarrow> n \<le> m \<Longrightarrow> starts_with_run P n xs"
  by (auto simp: starts_with_run_def list_all_length)

lemma has_run_Nil [simp]: "has_run P n [] \<longleftrightarrow> n = 0"
  by (cases n) (auto simp: has_run_def starts_with_run_def)

lemma has_run_Cons: "has_run P n (x # xs) \<longleftrightarrow> starts_with_run P n (x # xs) \<or> has_run P n xs"
proof -
  have "(\<exists>i \<le> Suc (length xs). Q i) \<longleftrightarrow> Q 0 \<or> (\<exists>i \<le> length xs. Q (Suc i))" for Q
    by (metis Suc_le_mono not0_implies_Suc zero_le)
  then show ?thesis by (simp add: has_run_def)
qed

lemma starts_with_run_has_run: "starts_with_run P n xs \<Longrightarrow> has_run P n xs"
  by (auto simp: has_run_def)

text \<open>One failing attempt under a retry limit.\<close>

lemma archive_attempt_failing:
  assumes "failing a" and "jb_backoff j = Some b" and "jb_max_retries j = Some m"
  shows "fst (archive_attempt name a (j, sent)) =
      (if ended a - started a \<le> reset_timeout b \<and> m \<le> counter b
       then Inl (Finished (Some (-1)) (failed_message name (projl (outcome a)))) else Inr ())
    \<and> fst (snd (archive_attempt name a (j, sent))) = j\<lparr>jb_backoff := Some (b\<lparr>timestamp := started a,
        counter := (if ended a - started a \<le> reset_timeout b
                    then if m \<le> counter b then counter b else Suc (counter b) else 0)\<rparr>)\<rparr>"
  using assms
  by (cases "outcome a")
    (auto simp: archive_attempt_def job_backoff_stopped_def job_backoff_start_def backoff_start_def
      wait_with_limit_def check_timeout_def backoff_sleep_def failing_def)

lemma archive_attempts_give_up:
  assumes "list_all failing as" and "jb_backoff j = Some b" and "jb_max_retries j = Some m"
    and "reset_timeout b = backoff_timeout_ms cfg" and "counter b \<le> m"
  shows "(\<exists>st. fst (for_each (archive_attempt name) as (j, sent)) = Inl st)
    \<longleftrightarrow> starts_with_run (quick cfg) (Suc (m - counter b)) as \<or> has_run (quick cfg) (Suc m) as"
  using assms
proof (induction as arbitrary: j b sent)
  case Nil
  then show ?case by simp
next
  case (Cons a as)
  obtain r j' sent' where step: "archive_attempt name a (j, sent) = (r, j', sent')"
    by (cases "archive_attempt name a (j, sent)")
  from Cons.prems have a: "failing a" and as: "list_all failing as" by simp_all
  note outcome = archive_attempt_failing [OF a Cons.prems(2,3), of name sent, unfolded step]
  consider (long) "\<not> quick cfg a" | (limit) "quick cfg a" "m = counter b" | (retry) "quick cfg a" "counter b < m"
    using Cons.prems(5) by linarith
  then show ?case
  proof cases
    case long
    with outcome Cons.prems(4) have "r = Inr ()" and j': "j' = j\<lparr>jb_backoff := Some (b\<lparr>timestamp := started a, counter := 0\<rparr>)\<rparr>"
      by (simp_all add: quick_def)
    with long step have "for_each (archive_attempt name) (a # as) (j, sent) = for_each (archive_attempt name) as (j', sent')"
      by (simp add: try_then_def)
    moreover have "(\<exists>st. fst (for_each (archive_attempt name) as (j', sent')) = Inl st)
        \<longleftrightarrow> starts_with_run (quick cfg) (Suc m) as \<or> has_run (quick cfg) (Suc m) as"
      using Cons.IH [OF as, of j' "b\<lparr>timestamp := started a, counter := 0\<rparr>" sent'] Cons.prems j' by simp
    ultimately show ?thesis using long by (auto simp: has_run_Cons starts_with_run_has_run)
  next
    case limit
    with outcome Cons.prems(4) step show ?thesis by (simp add: quick_def try_then_def)
  next
    case retry
    with outcome Cons.prems(4) have "r = Inr ()" and j': "j' = j\<lparr>jb_backoff := Some (b\<lparr>timestamp := started a, counter := Suc (counter b)\<rparr>)\<rparr>"
      by (simp_all add: quick_def)
    with step have "for_each (archive_attempt name) (a # as) (j, sent) = for_each (archive_attempt name) as (j', sent')"
      by (simp add: try_then_def)
    moreover have "(\<exists>st. fst (for_each (archive_attempt name) as (j', sent')) = Inl st)
        \<longleftrightarrow> starts_with_run (quick cfg) (m - counter b) as \<or> has_run (quick cfg) (Suc m) as"
      using Cons.IH [OF as, of j' "b\<lparr>timestamp := started a, counter := Suc (counter b)\<rparr>" sent'] Cons.prems j' retry
      by (simp add: Suc_diff_Suc)
    ultimately show ?thesis
      using retry starts_with_run_mono [of "quick cfg" m as "m - counter b"] by (auto simp: has_run_Cons)
  qed
qed

lemma job_backoff_new_limited:
  assumes "policy = OnFailure cfg \<or> policy = Always cfg" and "max_retries cfg = Some m"
  shows "jb_max_retries (job_backoff_new name now policy) = Some m"
    and "jb_backoff (job_backoff_new name now policy) =
           Some (backoff_new now (backoff_base_ms cfg) (backoff_timeout_ms cfg))"
  using assms by (auto simp: job_backoff_new_def)

text \<open>
  An archive job with a retry limit \<open>m\<close> whose attempts all fail is given up exactly when
  \<open>m + 1\<close> attempts in a row ended within the backoff timeout. A failing attempt that ran longer
  forgives the earlier ones, and no number of such failures ends the job.
\<close>

theorem archive_job_gives_up_iff:
  assumes "policy = OnFailure cfg \<or> policy = Always cfg" and "max_retries cfg = Some m"
    and "list_all failing attempts"
  shows "(\<exists>st. fst (archive_job name now policy attempts) = Inl st)
    \<longleftrightarrow> has_run (quick cfg) (Suc m) attempts"
  using archive_attempts_give_up [OF assms(3) job_backoff_new_limited(2,1) [OF assms(1,2), of name now], where cfg = cfg and name = name and sent = "[]"]
  by (auto simp: archive_job_def archive_try_run_job_def backoff_new_def starts_with_run_has_run)

theorem archive_job_gives_up_iff_witness:
  "let cfg = \<lparr>backoff_timeout_ms = 100, backoff_base_ms = 10, max_retries = Some 1\<rparr>;
       a = \<lparr>started = 0, ended = 50, outcome = Inl ''x''\<rparr>;
       b = \<lparr>started = 0, ended = 500, outcome = Inl ''x''\<rparr>
   in (\<exists>st. fst (archive_job ''job'' 0 (OnFailure cfg) [a, b, a, a]) = Inl st) \<and>
      has_run (quick cfg) 2 [a, b, a, a]"
  using archive_job_gives_up_iff
    [of "OnFailure \<lparr>backoff_timeout_ms = 100, backoff_base_ms = 10, max_retries = Some 1\<rparr>"
        "\<lparr>backoff_timeout_ms = 100, backoff_base_ms = 10, max_retries = Some 1\<rparr>" 1
        "[\<lparr>started = 0, ended = 50, outcome = Inl ''x''\<rparr>, \<lparr>started = 0, ended = 500, outcome = Inl ''x''\<rparr>,
          \<lparr>started = 0, ended = 50, outcome = Inl ''x''\<rparr>, \<lparr>started = 0, ended = 50, outcome = Inl ''x''\<rparr>]"
        "''job''" 0]
  by (simp add: Let_def failing_def has_run_Cons quick_def numeral_2_eq_2)

lemma archive_attempts_unlimited:
  assumes "jb_backoff j = Some b" and "jb_max_retries j = None" and "jb_restart_always j"
  shows "fst (for_each (archive_attempt name) as (j, sent)) = Inr ()"
  using assms
proof (induction as arbitrary: j b sent)
  case Nil
  then show ?case by simp
next
  case (Cons a as)
  obtain j' sent' where step: "archive_attempt name a (j, sent) = (Inr (), j', sent')"
    and "\<exists>b'. jb_backoff j' = Some b'" "jb_max_retries j' = None" "jb_restart_always j'"
    using Cons.prems by (cases "outcome a")
      (simp_all add: archive_attempt_def job_backoff_stopped_def job_backoff_start_def)
  then show ?case using Cons.IH by (auto simp: try_then_def)
qed

text \<open>
  an archive job restarted always and without a limit never reports a final status, whatever
  its attempts do: only a stop request ends it.
\<close>

theorem archive_job_always_unlimited:
  "fst (archive_job name now (Always \<lparr>backoff_timeout_ms = t, backoff_base_ms = b, max_retries = None\<rparr>) attempts)
    = Inr ()"
  by (simp add: archive_job_def archive_try_run_job_def archive_attempts_unlimited
      job_backoff_new_def backoff_new_def)

lemma archive_attempt_success:
  assumes "outcome a = Inr ()" and "\<not> jb_restart_always j"
  shows "fst (archive_attempt name a (j, sent)) = Inl (Finished (Some 0) [])"
  using assms by (simp add: archive_attempt_def job_backoff_stopped_def job_backoff_start_def)

lemma archive_attempt_restart_always:
  "jb_restart_always (fst (snd (archive_attempt name a (j, sent)))) = jb_restart_always j"
  by (auto simp: archive_attempt_def job_backoff_stopped_def job_backoff_start_def Let_def
      split: sum.split option.split prod.split limit_status.split)

lemma archive_attempts_then_success:
  assumes "fst (for_each (archive_attempt name) as (j, sent)) = Inr ()" and "\<not> jb_restart_always j"
    and "outcome a = Inr ()"
  shows "fst (for_each (archive_attempt name) (as @ a # as') (j, sent)) = Inl (Finished (Some 0) [])"
  using assms
proof (induction as arbitrary: j sent)
  case Nil
  then show ?case using archive_attempt_success [of a j name sent]
    by (cases "archive_attempt name a (j, sent)") (simp add: try_then_def)
next
  case (Cons c as)
  obtain r j' sent' where step: "archive_attempt name c (j, sent) = (r, j', sent')"
    by (cases "archive_attempt name c (j, sent)")
  have "\<not> jb_restart_always j'"
    using archive_attempt_restart_always [of name c j sent] Cons.prems(2) step by simp
  moreover from Cons.prems(1) step have "r = Inr ()" and "fst (for_each (archive_attempt name) as (j', sent')) = Inr ()"
    by (auto simp: try_then_def split: sum.splits)
  ultimately show ?case using Cons.IH Cons.prems(3) step by (simp add: try_then_def)
qed

text \<open>
  An archive job without the always policy is finished by its first successful attempt, with
  exit code 0 and an empty message, whatever the attempts planned after it.
\<close>

theorem archive_job_ends_on_success:
  assumes "\<forall>cfg. policy \<noteq> Always cfg" and "outcome a = Inr ()"
    and "fst (archive_job name now policy before) = Inr ()"
  shows "fst (archive_job name now policy (before @ a # later)) = Inl (Finished (Some 0) [])"
proof -
  have "\<not> jb_restart_always (job_backoff_new name now policy)"
    using assms(1) by (cases policy) (simp_all add: job_backoff_new_def)
  then show ?thesis
    using assms(2,3) by (auto simp: archive_job_def archive_try_run_job_def intro: archive_attempts_then_success)
qed

theorem archive_job_ends_on_success_witness:
  "fst (archive_job ''job'' 0 (OnFailure \<lparr>backoff_timeout_ms = 100, backoff_base_ms = 10, max_retries = Some 1\<rparr>)
     ([\<lparr>started = 0, ended = 50, outcome = Inl ''x''\<rparr>] @ \<lparr>started = 60, ended = 70, outcome = Inr ()\<rparr> # []))
   = Inl (Finished (Some 0) [])"
  by (rule archive_job_ends_on_success; (simp; fail)?; code_simp)

end
