(* ===== verification/Upload.thy ===== *)
theory Upload
  imports Upload_Manifest Backoff
begin

text \<open>
  The upload job (\<open>Uploader\<close>, \<open>ClientUploader\<close> and their chunk uploaders in
  \<open>babel/src/upload_job.rs\<close>): the blueprint and its reuse after a restart, the slots of the chunks,
  the loop over the running uploads, and what ends a run.

  Parameters of the model: the API, the source listing, the stamp of the protocol data, the HTTP
  answers and the hash, and the order and the results of the running uploads.
\<close>

section \<open>Errors and cleanup\<close>

text \<open>An error, with whether a \<open>NonRecoverableError\<close> is among its causes.\<close>

record upload_error =
  err_text :: string
  non_recoverable :: bool

definition recoverable :: "string \<Rightarrow> upload_error" where
  "recoverable e = \<lparr>err_text = e, non_recoverable = False\<rparr>"

definition BLUEPRINT_FILENAME :: string where "BLUEPRINT_FILENAME = ''upload.blueprint''"
definition UPLOAD_CHUNKS_FILENAME :: string where "UPLOAD_CHUNKS_FILENAME = ''upload.chunks''"

definition upload_cleanup_job :: "io_env \<Rightarrow> path \<Rightarrow> (fs, string, unit) action" where
  "upload_cleanup_job io meta_dir =
     try_then (remove_if_exists io (path_join meta_dir BLUEPRINT_FILENAME) ''failed to cleanup upload blueprint file'') (\<lambda>_.
     remove_if_exists io (path_join meta_dir UPLOAD_CHUNKS_FILENAME) ''failed to cleanup upload chunks file'')"

section \<open>Slots\<close>

record upload_api =
  get_upload_slots :: "nat option \<Rightarrow> nat list \<Rightarrow> string + upload_slots"
  put_download_manifest :: "download_manifest \<Rightarrow> nat \<Rightarrow> string + unit"

definition fetch_slots :: "upload_api \<Rightarrow> chunk list \<Rightarrow> nat \<Rightarrow> nat option \<Rightarrow> string + upload_slots" where
  "fetch_slots api chunks n version = get_upload_slots api version (map chunk_index (take n (rev chunks)))"

text \<open>Update the first chunk with the given index, if any.\<close>

fun update_chunk :: "nat \<Rightarrow> (chunk \<Rightarrow> chunk) \<Rightarrow> chunk list \<Rightarrow> chunk list" where
  "update_chunk i f [] = []"
| "update_chunk i f (c # cs) = (if chunk_index c = i then f c # cs else c # update_chunk i f cs)"

definition assign_slots :: "slot list \<Rightarrow> chunk list \<Rightarrow> chunk list" where
  "assign_slots ss chunks =
     fold (\<lambda>s. update_chunk (slot_index s) (\<lambda>c. c\<lparr>chunk_key := slot_key s, chunk_url := Some (slot_url s)\<rparr>)) ss chunks"

section \<open>Upload of a chunk\<close>

record upload_http =
  put_chunk :: "nat \<Rightarrow> string \<Rightarrow> nat \<Rightarrow> byte list list \<Rightarrow> (upload_error + nat) option"
    \<comment> \<open>number of the request, url, content length, body; \<open>None\<close> when interrupted\<close>
  show_upload_status :: "nat \<Rightarrow> string"
  upload_files :: "path \<Rightarrow> byte list option"
  blake3_hash :: "byte list \<Rightarrow> byte list"
  body_error_fatal :: bool
    \<comment> \<open>whether a \<open>NonRecoverableError\<close> is still found after it passed through the HTTP client\<close>

definition put_body :: "upload_http \<Rightarrow> chunk \<Rightarrow> nat \<Rightarrow> byte list list \<Rightarrow> (nat, upload_error, unit) action" where
  "put_body web c len parts n =
     (case chunk_url c of
        None \<Rightarrow> (Inl \<lparr>err_text = ''missing chunk '' @ chunk_key c @ '' url'', non_recoverable = True\<rparr>, n)
      | Some url \<Rightarrow>
          (case put_chunk web n url len parts of
             None \<Rightarrow> (Inl (recoverable ''upload interrupted''), Suc n)
           | Some (Inl e) \<Rightarrow> (Inl e, Suc n)
           | Some (Inr status) \<Rightarrow>
               if 200 \<le> status \<and> status < 300 then (Inr (), Suc n)
               else (Inl (recoverable (''server responded with '' @ show_upload_status web status)), Suc n)))"

definition consume_reader :: "byte list list \<Rightarrow> byte list list \<times> nat" where
  "consume_reader parts = (filter (\<lambda>p. p \<noteq> []) parts, length (concat parts))"

text \<open>The body is streamed as it is, or compressed first so that its length is known. The zstd
  encoder is a library: its operations and the result of creating one are arguments.\<close>

definition upload_body ::
  "upload_http \<Rightarrow> transfer_config \<Rightarrow> 'z coder_ops \<Rightarrow> string + 'z \<Rightarrow> chunk \<Rightarrow>
     (upload_error + (nat \<times> byte list list \<times> byte list)) option" where
  "upload_body web cfg zstd zstd_new c =
     (case config_compression cfg of
           None \<Rightarrow>
             map_option (\<lambda>r. case r of Inl e \<Rightarrow> Inl \<lparr>err_text = e, non_recoverable = body_error_fatal web\<rparr>
                | Inr (parts, d) \<Rightarrow> Inr (total_bytes (destinations c), parts, unwrap_or d []))
               (upload_stream no_coder_feed no_coder_consume no_coder_finalize no_coder_default
                  (upload_files web) (max_buffer_size cfg) (destinations c))
         | Some (ZSTD level) \<Rightarrow>
             (case zstd_new of
                Inl e \<Rightarrow> Some (Inl (recoverable e))
              | Inr encoder \<Rightarrow>
                  map_option (\<lambda>r. case r of Inl e \<Rightarrow> Inl \<lparr>err_text = e, non_recoverable = True\<rparr>
                     | Inr (parts, d) \<Rightarrow>
                         (let (body, len) = consume_reader parts in Inr (len, body, unwrap_or d [])))
                    (upload_stream (feed_op zstd) (consume_op zstd) (finalize_op zstd) encoder
                       (upload_files web) (max_buffer_size cfg) (destinations c))))"

definition upload_chunk ::
  "upload_http \<Rightarrow> transfer_config \<Rightarrow> 'z coder_ops \<Rightarrow> string + 'z \<Rightarrow> chunk \<Rightarrow> (nat, upload_error, chunk) action" where
  "upload_chunk web cfg zstd zstd_new c n =
     (if total_bytes (destinations c) > 0
      then case upload_body web cfg zstd zstd_new c of
             None \<Rightarrow> (Inl (recoverable ''upload interrupted''), n)
           | Some (Inl e) \<Rightarrow> (Inl e, n)
           | Some (Inr (len, parts, d)) \<Rightarrow>
               try_then (put_body web c len parts)
                 (\<lambda>_. ok (c\<lparr>chunk_size := len, chunk_checksum := Blake3 (blake3_hash web d), chunk_url := None\<rparr>)) n
      else (Inr (c\<lparr>chunk_size := 0, chunk_checksum := Blake3 (blake3_hash web []), chunk_url := None\<rparr>), n))"

definition chunk_uploader_run ::
  "upload_http \<Rightarrow> transfer_config \<Rightarrow> 'z coder_ops \<Rightarrow> string + 'z \<Rightarrow> chunk \<Rightarrow> (nat, upload_error, chunk) action" where
  "chunk_uploader_run web cfg zstd zstd_new c n =
     (case with_retry_limit (upload_chunk web cfg zstd zstd_new c) (\<lambda>_ n. n)
             (transfer_max_retries cfg) (transfer_backoff_base_ms cfg) n of
        (Inl e, n') \<Rightarrow>
          (Inl (e\<lparr>err_text := ''chunk '' @ quoted (chunk_key c) @ '' upload failed: '' @ err_text e\<rparr>), n')
      | r \<Rightarrow> r)"

section \<open>The running uploads\<close>

record uploaders =
  to_upload :: "chunk list"
  running_uploads :: "chunk list"
  upload_limit :: nat
  upload_version :: nat

definition uploaders_new :: "transfer_config \<Rightarrow> nat \<Rightarrow> chunk list \<Rightarrow> uploaders" where
  "uploaders_new cfg version chunks =
     \<lparr>to_upload = filter (\<lambda>c. chunk_size c = 0) chunks, running_uploads = [],
      upload_limit = min (max_runners cfg) (max_opened_files cfg), upload_version = version\<rparr>"

definition update_slots :: "upload_api \<Rightarrow> uploaders \<Rightarrow> upload_error + uploaders" where
  "update_slots api u =
     (if to_upload u \<noteq> [] \<and> chunk_url (last (to_upload u)) = None
      then case fetch_slots api (to_upload u) (upload_limit u) (Some (upload_version u)) of
             Inl e \<Rightarrow> Inl (recoverable e)
           | Inr s \<Rightarrow> Inr (u\<lparr>to_upload := assign_slots (slots s) (to_upload u)\<rparr>)
      else Inr u)"

text \<open>The \<open>while\<close> loop of \<open>launch_more\<close>: pop chunks from the end while runners are free.\<close>

definition launch_uploads :: "uploaders \<Rightarrow> uploaders" where
  "launch_uploads u =
     (let n = min (upload_limit u - length (running_uploads u)) (length (to_upload u))
      in u\<lparr>running_uploads := running_uploads u @ take n (rev (to_upload u)),
           to_upload := take (length (to_upload u) - n) (to_upload u)\<rparr>)"

section \<open>The loop of an upload\<close>

text \<open>One round: where the job's flag was found stopped, which upload finished, and the size and
  checksum it ended with.\<close>

record upload_round =
  stop_before :: bool
  stop_before_wait :: bool
  upload_completed :: nat
  upload_outcome :: "upload_error + (nat \<times> checksum)"

record upload_state =
  us_blueprint :: "chunk list"
  us_uploaded :: nat
  us_files :: fs
  us_uploaders :: uploaders
  us_result :: "upload_error + unit"
  us_run :: bool

definition upload_handle_error :: "upload_error \<Rightarrow> upload_state \<Rightarrow> upload_state" where
  "upload_handle_error e s =
     (case us_result s of Inr _ \<Rightarrow> s\<lparr>us_result := Inl e, us_run := False\<rparr> | Inl _ \<Rightarrow> s)"

definition mark_uploaded :: "chunk \<Rightarrow> chunk list \<Rightarrow> string + chunk list" where
  "mark_uploaded c chunks =
     (if chunk_index c \<in> set (map chunk_index chunks) then Inr (update_chunk (chunk_index c) (\<lambda>_. c) chunks)
      else Inl ''internal error - finished upload of chunk that doesn't exists in manifest'')"

record upload_paths =
  chunks_file :: path
  progress_file :: path
  slots_total :: nat

definition lift_files :: "(fs, string, unit) action \<Rightarrow> (upload_state, string, unit) action" where
  "lift_files m s = (let (r, fs) = m (us_files s) in (r, s\<lparr>us_files := fs\<rparr>))"

definition mark_uploaded_step :: "chunk \<Rightarrow> (upload_state, string, unit) action" where
  "mark_uploaded_step c s =
     (case mark_uploaded c (us_blueprint s) of
        Inl e \<Rightarrow> (Inl e, s)
      | Inr chunks \<Rightarrow> (Inr (), s\<lparr>us_blueprint := chunks, us_uploaded := Suc (us_uploaded s)\<rparr>))"

definition save_uploaded :: "io_env \<Rightarrow> upload_paths \<Rightarrow> chunk \<Rightarrow> (upload_state, string, unit) action" where
  "save_uploaded io ps c =
     try_then (lift_files (save_chunk io (chunks_file ps) c)) (\<lambda>_.
     try_then (mark_uploaded_step c) (\<lambda>_ s.
     lift_files (save_job_data io (progress_file ps)
       (ProgressJson \<lparr>progress_total = slots_total ps, progress_current = us_uploaded s,
                      progress_message = ''chunks''\<rparr>)) s))"

definition launch_round :: "upload_api \<Rightarrow> upload_state \<Rightarrow> upload_state" where
  "launch_round api s =
     (if us_run s
      then case update_slots api (us_uploaders s) of
             Inl e \<Rightarrow> upload_handle_error e s
           | Inr u \<Rightarrow> s\<lparr>us_uploaders := launch_uploads u\<rparr>
      else s)"

definition finish_upload :: "io_env \<Rightarrow> upload_paths \<Rightarrow> upload_round \<Rightarrow> upload_state \<Rightarrow> upload_state" where
  "finish_upload io ps e s =
     (let u = us_uploaders s; i = upload_completed e mod length (running_uploads u); c = running_uploads u ! i;
          s1 = s\<lparr>us_uploaders := u\<lparr>running_uploads := take i (running_uploads u) @ drop (Suc i) (running_uploads u)\<rparr>\<rparr>
      in case upload_outcome e of
           Inl err \<Rightarrow> upload_handle_error err s1
         | Inr (len, checksum) \<Rightarrow>
             (case save_uploaded io ps (c\<lparr>chunk_size := len, chunk_checksum := checksum, chunk_url := None\<rparr>) s1 of
                (Inl err, s2) \<Rightarrow> upload_handle_error (recoverable err) s2
              | (Inr _, s2) \<Rightarrow> s2))"

text \<open>The result is the state at the \<open>break\<close> and whether the job was stopped; \<open>None\<close> when more
  rounds are needed.\<close>

fun upload_loop ::
  "io_env \<Rightarrow> upload_api \<Rightarrow> upload_paths \<Rightarrow> upload_round list \<Rightarrow> upload_state \<Rightarrow> (upload_state \<times> bool) option" where
  "upload_loop io api ps [] s = None"
| "upload_loop io api ps (e # es) s =
     (if stop_before e then Some (s, True)
      else let s1 = launch_round api s
           in if stop_before_wait e then Some (s1, True)
              else if running_uploads (us_uploaders s1) = [] then Some (s1, False)
              else upload_loop io api ps es (finish_upload io ps e s1))"

section \<open>The end of an upload\<close>

definition strip_prefix :: "path \<Rightarrow> path \<Rightarrow> string + path" where
  "strip_prefix base p =
     (if prefix (base @ ''/'') p then Inr (drop (Suc (length base)) p) else Inl ''prefix not found'')"

fun collect_results :: "('e + 'a) list \<Rightarrow> 'e + 'a list" where
  "collect_results [] = Inr []"
| "collect_results (r # rs) = and_then r (\<lambda>x. and_then (collect_results rs) (\<lambda>xs. Inr (x # xs)))"

definition relative_chunk :: "path \<Rightarrow> chunk \<Rightarrow> string + chunk" where
  "relative_chunk base c =
     and_then (collect_results (map (\<lambda>d. and_then (strip_prefix base (loc_path d)) (\<lambda>p. Inr (d\<lparr>loc_path := p\<rparr>)))
       (destinations c))) (\<lambda>ds. Inr (c\<lparr>destinations := ds\<rparr>))"

record upload_job =
  job_meta_dir :: path
  job_source_dir :: path
  job_manifest :: download_manifest
  job_version :: nat
  ok_when_stopped :: bool
    \<comment> \<open>\<open>ClientUploader\<close> returns \<open>Ok\<close> when it was stopped, \<open>Uploader\<close> an error\<close>

text \<open>The first component is the result, the second the manifests sent to the API.\<close>

definition upload_finish ::
  "io_env \<Rightarrow> upload_api \<Rightarrow> upload_job \<Rightarrow> upload_state \<Rightarrow> bool \<Rightarrow> (string + unit) \<times> (download_manifest \<times> nat) list \<times> fs" where
  "upload_finish io api job s stopped =
     (case us_result s of
        Inl err \<Rightarrow>
          if non_recoverable err
          then (case upload_cleanup_job io (job_meta_dir job) (us_files s) of
                  (Inl e, fs) \<Rightarrow> (Inl e, [], fs)
                | (Inr _, fs) \<Rightarrow> (Inl (err_text err), [], fs))
          else (Inl (err_text err), [], us_files s)
      | Inr _ \<Rightarrow>
          if stopped then (if ok_when_stopped job then Inr () else Inl ''upload interrupted'', [], us_files s)
          else case collect_results (map (relative_chunk (job_source_dir job)) (us_blueprint s)) of
                 Inl e \<Rightarrow> (Inl e, [], us_files s)
               | Inr chunks \<Rightarrow>
                   let manifest = (job_manifest job)\<lparr>manifest_chunks := chunks\<rparr>
                   in case put_download_manifest api manifest (job_version job) of
                        Inl e \<Rightarrow> (Inl (''failed to send DownloadManifest blueprint back to API: '' @ e), [], us_files s)
                      | Inr _ \<Rightarrow>
                          let (r, fs) = upload_cleanup_job io (job_meta_dir job) (us_files s)
                          in (r, [(manifest, job_version job)], fs))"

section \<open>The start of an upload\<close>

record upload_env =
  up_io :: io_env
  up_api :: upload_api
  up_stamp :: "string + nat option"
  up_sources :: "string + sources_list"
  up_slots :: nat
  up_data_version :: "nat option"

text \<open>A blueprint left by an earlier run is used again when the stamp of the data still matches.\<close>

definition load_or_prepare ::
  "upload_env \<Rightarrow> transfer_config \<Rightarrow> path \<Rightarrow> (fs, string, download_manifest \<times> nat \<times> chunk list) action" where
  "load_or_prepare env cfg meta_dir fs =
     (let blueprint_path = path_join meta_dir BLUEPRINT_FILENAME;
          reused = and_then (load_blueprint blueprint_path fs) (\<lambda>(m, v, stamp).
                   and_then (up_stamp env) (\<lambda>now. if stamp = now then Inr (m, v) else Inl ''stamp doesn't match''))
      in case reused of
           Inr (m, v) \<Rightarrow>
             (and_then (load_chunks (path_join meta_dir UPLOAD_CHUNKS_FILENAME) fs) (\<lambda>uploaded. Inr (m, v, uploaded)), fs)
         | Inl _ \<Rightarrow>
             try_then (lift_result (\<lambda>_. up_sources env)) (\<lambda>srcs.
             let manifest = prepare_manifest_blueprint (config_compression cfg) (up_slots env) srcs
             in try_then (lift_result (\<lambda>_. fetch_slots (up_api env) (manifest_chunks manifest) (max_runners cfg) (up_data_version env))) (\<lambda>s.
                try_then (lift_result (\<lambda>_. up_stamp env)) (\<lambda>stamp.
                try_then (save_job_data (up_io env) blueprint_path (BlueprintJson manifest (slots_data_version s) stamp)) (\<lambda>_.
                ok (manifest\<lparr>manifest_chunks := assign_slots (slots s) (manifest_chunks manifest)\<rparr>,
                    slots_data_version s, []))))) fs)"

fun mark_all :: "chunk list \<Rightarrow> chunk list \<Rightarrow> string + chunk list" where
  "mark_all [] chunks = Inr chunks"
| "mark_all (c # cs) chunks = and_then (mark_uploaded c chunks) (mark_all cs)"

text \<open>\<open>run\<close> of both uploaders: they differ in the directory, the progress file and what a stop means.\<close>

definition uploader_run ::
  "upload_env \<Rightarrow> transfer_config \<Rightarrow> path \<Rightarrow> path \<Rightarrow> path \<Rightarrow> bool \<Rightarrow> upload_round list \<Rightarrow> fs \<Rightarrow>
     ((string + unit) \<times> (download_manifest \<times> nat) list \<times> fs) option" where
  "uploader_run env cfg meta_dir progress source_dir stopped_ok rounds fs =
     (case load_or_prepare env cfg meta_dir fs of
        (Inl e, fs1) \<Rightarrow> Some (Inl e, [], fs1)
      | (Inr (manifest, version, uploaded), fs1) \<Rightarrow>
          (case mark_all uploaded (manifest_chunks manifest) of
             Inl e \<Rightarrow> Some (Inl e, [], fs1)
           | Inr chunks \<Rightarrow>
               (case upload_loop (up_io env) (up_api env)
                   \<lparr>chunks_file = path_join meta_dir UPLOAD_CHUNKS_FILENAME, progress_file = progress, slots_total = up_slots env\<rparr>
                   rounds
                   \<lparr>us_blueprint = chunks, us_uploaded = length uploaded, us_files = fs1,
                    us_uploaders = uploaders_new cfg version chunks, us_result = Inr (), us_run = True\<rparr> of
                  None \<Rightarrow> None
                | Some (s, stopped) \<Rightarrow>
                    Some (upload_finish (up_io env) (up_api env)
                      \<lparr>job_meta_dir = meta_dir, job_source_dir = source_dir, job_manifest = manifest,
                       job_version = version, ok_when_stopped = stopped_ok\<rparr> s stopped))))"

definition single_uploader_run ::
  "upload_env \<Rightarrow> transfer_config \<Rightarrow> path \<Rightarrow> upload_round list \<Rightarrow> fs \<Rightarrow>
     ((string + unit) \<times> (download_manifest \<times> nat) list \<times> fs) option" where
  "single_uploader_run env cfg source_dir rounds fs =
     uploader_run env cfg (archive_jobs_meta_dir cfg) (progress_file_path cfg) source_dir False rounds fs"

definition client_uploader_run ::
  "upload_env \<Rightarrow> transfer_config \<Rightarrow> string \<Rightarrow> path \<Rightarrow> upload_round list \<Rightarrow> fs \<Rightarrow>
     ((string + unit) \<times> (download_manifest \<times> nat) list \<times> fs) option" where
  "client_uploader_run env cfg key source_dir rounds fs =
     (let meta_dir = path_join (archive_jobs_meta_dir cfg) key
      in uploader_run env cfg meta_dir (path_join meta_dir ''progress.json'') source_dir True rounds fs)"

section \<open>All clients\<close>

text \<open>\<open>update_overall_progress\<close> sums the progress files of the subdirectories.\<close>

definition update_overall_progress :: "io_env \<Rightarrow> string list option \<Rightarrow> transfer_config \<Rightarrow> (fs, string, unit) action" where
  "update_overall_progress io subdirs cfg fs =
     (let ps = [p. d \<leftarrow> unwrap_or subdirs [],
                   Inr p \<leftarrow> [load_progress_file (path_join (path_join (archive_jobs_meta_dir cfg) d) ''progress.json'') fs]];
          all_chunks = sum_list (map progress_total ps); completed_chunks = sum_list (map progress_current ps)
      in if all_chunks > 0
         then save_job_data io (progress_file_path cfg) (ProgressJson
                \<lparr>progress_total = all_chunks, progress_current = completed_chunks,
                 progress_message = ''multi-client upload ('' @
                   (if completed_chunks = all_chunks then ''completed'' else ''in progress'') @ '' clients)''\<rparr>) fs
         else (Inr (), fs))"

text \<open>\<open>upload_all_clients\<close>, from the results of the clients in the order they come in. The first
  failure ends it. The progress updates in between are best effort.\<close>

fun await_clients :: "io_env \<Rightarrow> string list option \<Rightarrow> transfer_config \<Rightarrow> (string \<times> (string + unit)) list \<Rightarrow> (fs, string, unit) action" where
  "await_clients io subdirs cfg [] = ok ()"
| "await_clients io subdirs cfg ((name, res) # results) =
     (case res of
        Inl e \<Rightarrow> fail (''Client '' @ quoted name @ '' upload failed: '' @ e)
      | Inr _ \<Rightarrow> try_then (ignore_result (update_overall_progress io subdirs cfg)) (\<lambda>_.
                  await_clients io subdirs cfg results))"

definition upload_all_clients ::
  "io_env \<Rightarrow> string list option \<Rightarrow> transfer_config \<Rightarrow> nat \<Rightarrow> (string \<times> (string + unit)) list \<Rightarrow> (fs, string, unit) action" where
  "upload_all_clients io subdirs cfg all_chunks results =
     (let progress = (\<lambda>current msg. save_job_data io (progress_file_path cfg)
            (ProgressJson \<lparr>progress_total = all_chunks, progress_current = current, progress_message = msg\<rparr>))
      in try_then (progress 0 ''multi-client upload'') (\<lambda>_.
         try_then (ignore_result (update_overall_progress io subdirs cfg)) (\<lambda>_.
         try_then (await_clients io subdirs cfg results) (\<lambda>_.
         progress all_chunks ''multi-client upload completed''))))"

section \<open>Properties of the loop\<close>

lemma update_chunk_index: "(\<And>c. chunk_index (f c) = chunk_index c) \<Longrightarrow> map chunk_index (update_chunk i f cs) = map chunk_index cs"
  by (induction cs) simp_all

lemma assign_slots_index [simp]: "map chunk_index (assign_slots ss chunks) = map chunk_index chunks"
  unfolding assign_slots_def by (induction ss arbitrary: chunks) (simp_all add: update_chunk_index)

text \<open>The chunks an upload is responsible for: waiting, running, or recorded in the chunks file.\<close>

definition upload_workload :: "uploaders \<Rightarrow> nat multiset" where
  "upload_workload u = mset (map chunk_index (to_upload u)) + mset (map chunk_index (running_uploads u))"

lemma update_slots_workload:
  assumes "update_slots api u = Inr u'"
  shows "upload_workload u' = upload_workload u \<and> running_uploads u' = running_uploads u \<and> upload_limit u' = upload_limit u"
proof -
  have "mset (map chunk_index (assign_slots ss (to_upload u))) = mset (map chunk_index (to_upload u))" for ss
    by (simp only: assign_slots_index)
  with assms show ?thesis
    by (auto simp: update_slots_def upload_workload_def simp del: mset_map split: if_splits sum.splits)
qed

lemma mset_take_rev: "mset (take n (rev xs)) + mset (take (length xs - n) xs) = mset xs"
  by (metis add.commute append_take_drop_id mset_append mset_rev take_rev)

lemma launch_uploads_workload:
  "upload_workload (launch_uploads u) = upload_workload u"
proof -
  define n where "n = min (upload_limit u - length (running_uploads u)) (length (to_upload u))"
  have "mset (take n (rev (map chunk_index (to_upload u))))
      + mset (take (length (to_upload u) - n) (map chunk_index (to_upload u))) = mset (map chunk_index (to_upload u))"
    using mset_take_rev [of n "map chunk_index (to_upload u)"] by simp
  then show ?thesis
    by (simp add: launch_uploads_def upload_workload_def Let_def n_def [symmetric] take_map [symmetric] rev_map [symmetric]
        add.assoc add.commute add.left_commute del: mset_map)
qed

lemma launch_uploads_limit:
  "length (running_uploads u) \<le> upload_limit u \<Longrightarrow> length (running_uploads (launch_uploads u)) \<le> upload_limit u"
  by (auto simp: launch_uploads_def Let_def)

lemma launch_uploads_idle:
  "running_uploads (launch_uploads u) = [] \<Longrightarrow> 0 < upload_limit u \<Longrightarrow> to_upload (launch_uploads u) = []"
  by (auto simp: launch_uploads_def Let_def min_def split: if_splits)

lemma upload_handle_error_result: "\<exists>e. us_result (upload_handle_error err s) = Inl e"
  by (cases "us_result s") (simp_all add: upload_handle_error_def)

text \<open>Once an error is recorded it stays.\<close>

lemma us_result_save_uploaded [simp]: "us_result (snd (save_uploaded io ps c s)) = us_result s"
  by (auto simp: save_uploaded_def try_then_def lift_files_def mark_uploaded_step_def
      split: prod.split sum.split)

lemma upload_handle_error_Inl: "us_result s = Inl e \<Longrightarrow> upload_handle_error err s = s"
  by (simp add: upload_handle_error_def)

lemma launch_round_Inl: "us_result s = Inl e \<Longrightarrow> us_result (launch_round api s) = Inl e"
  by (simp add: launch_round_def upload_handle_error_def split: sum.split)

lemma finish_upload_Inl:
  assumes "us_result s = Inl e"
  shows "us_result (finish_upload io ps x s) = Inl e"
proof -
  have *: "us_result t = Inl e" if "save_uploaded io ps c s1 = (r, t)" "us_result s1 = Inl e" for c s1 r t
    using us_result_save_uploaded [of io ps c s1] that by simp
  show ?thesis
    using assms * by (auto simp: finish_upload_def Let_def upload_handle_error_def
        split: sum.split prod.split)
qed

lemma upload_loop_Inl:
  "us_result s = Inl e \<Longrightarrow> upload_loop io api ps es s = Some (s', b) \<Longrightarrow> us_result s' = Inl e"
proof (induction es arbitrary: s)
  case Nil
  then show ?case by simp
next
  case (Cons x es)
  have l: "us_result (launch_round api s) = Inl e" by (rule launch_round_Inl [OF Cons.prems(1)])
  have f: "us_result (finish_upload io ps x (launch_round api s)) = Inl e" by (rule finish_upload_Inl [OF l])
  consider "stop_before x" | "\<not> stop_before x" "stop_before_wait x"
    | "\<not> stop_before x" "\<not> stop_before_wait x" "running_uploads (us_uploaders (launch_round api s)) = []"
    | "\<not> stop_before x" "\<not> stop_before_wait x" "running_uploads (us_uploaders (launch_round api s)) \<noteq> []"
    by blast
  then show ?case
  proof cases
    case 4
    then have "upload_loop io api ps es (finish_upload io ps x (launch_round api s)) = Some (s', b)"
      using Cons.prems(2) by (simp add: Let_def)
    then show ?thesis by (rule Cons.IH [OF f])
  qed (use Cons.prems l in \<open>simp_all add: Let_def\<close>)
qed

lemma save_uploaded_Inr:
  assumes "save_uploaded io ps c s = (Inr (), s')" and "chunks_file ps \<noteq> progress_file ps"
    and "load_chunks (chunks_file ps) (us_files s) = Inr cs"
  shows "load_chunks (chunks_file ps) (us_files s') = Inr (cs @ [c]) \<and> us_uploaders s' = us_uploaders s \<and> us_run s' = us_run s"
proof -
  have other: "load_chunks p (fs(q \<mapsto> x)) = load_chunks p fs" if "p \<noteq> q" for p q fs x
    using that by (simp add: load_chunks_def)
  from assms(1) obtain s1 s2 x where
    a: "lift_files (save_chunk io (chunks_file ps) c) s = (Inr (), s1)"
    and b: "mark_uploaded_step c s1 = (Inr (), s2)"
    and d: "lift_files (save_job_data io (progress_file ps) x) s2 = (Inr (), s')"
    by (auto simp: save_uploaded_def try_then_Inr_iff)
  have "write_error io (chunks_file ps) = None"
    using a by (auto simp: lift_files_def save_chunk_def split: option.splits)
  from load_chunks_save_chunk [OF this assms(3), of c] a
  have s1: "load_chunks (chunks_file ps) (us_files s1) = Inr (cs @ [c])" "us_uploaders s1 = us_uploaders s" "us_run s1 = us_run s"
    by (auto simp: lift_files_def split: prod.splits)
  have s2: "us_files s2 = us_files s1" "us_uploaders s2 = us_uploaders s1" "us_run s2 = us_run s1"
    using b by (auto simp: mark_uploaded_step_def split: sum.splits)
  have "us_files s' = (us_files s2)(progress_file ps \<mapsto> x)" "us_uploaders s' = us_uploaders s2" "us_run s' = us_run s2"
    using d by (auto simp: lift_files_def save_job_data_def split: option.splits)
  with s1 s2 other [OF assms(2)] show ?thesis by simp
qed

lemma upload_loop_complete:
  assumes "upload_loop io api ps es s = Some (s', False)" and "us_result s' = Inr ()" and "us_run s"
    and "0 < upload_limit (us_uploaders s)" and "chunks_file ps \<noteq> progress_file ps"
    and "load_chunks (chunks_file ps) (us_files s) = Inr old"
  shows "\<exists>new. load_chunks (chunks_file ps) (us_files s') = Inr (old @ new)
    \<and> mset (map chunk_index new) = upload_workload (us_uploaders s)
    \<and> to_upload (us_uploaders s') = [] \<and> running_uploads (us_uploaders s') = []"
  using assms
proof (induction es arbitrary: s old)
  case Nil
  then show ?case by simp
next
  case (Cons x es)
  have run: "\<not> stop_before x" "\<not> stop_before_wait x" using Cons.prems(1) by (auto simp: Let_def split: if_splits)
  have res: "us_result s = Inr ()"
  proof (cases "us_result s")
    case (Inl e)
    from upload_loop_Inl [OF this Cons.prems(1)] Cons.prems(2) show ?thesis by simp
  qed simp
  show ?case
  proof (cases "update_slots api (us_uploaders s)")
    case (Inl e)
    then have "launch_round api s = upload_handle_error e s" using Cons.prems(3) by (simp add: launch_round_def)
    then obtain e' where bad: "us_result (launch_round api s) = Inl e'" using upload_handle_error_result by metis
    have "us_result s' = Inl e'"
      using Cons.prems(1) run bad finish_upload_Inl [OF bad, of io ps x]
      by (auto simp: Let_def split: if_splits dest: upload_loop_Inl)
    with Cons.prems(2) show ?thesis by simp
  next
    case (Inr u)
    let ?u = "launch_uploads u" and ?s1 = "s\<lparr>us_uploaders := launch_uploads u\<rparr>"
    have s1: "launch_round api s = ?s1" using Inr Cons.prems(3) by (simp add: launch_round_def)
    have wl: "upload_workload ?u = upload_workload (us_uploaders s)" and lim: "upload_limit ?u = upload_limit (us_uploaders s)"
      using update_slots_workload [OF Inr] by (simp_all add: launch_uploads_workload) (simp add: launch_uploads_def Let_def)
    show ?thesis
    proof (cases "running_uploads ?u = []")
      case True
      then have "s' = ?s1" using Cons.prems(1) run s1 by (simp add: Let_def)
      moreover have "to_upload ?u = []"
        using launch_uploads_idle [OF True] lim Cons.prems(4) update_slots_workload [OF Inr] by simp
      ultimately show ?thesis
        using True wl Cons.prems(6) by (intro exI [of _ "[]"]) (simp add: upload_workload_def)
    next
      case False
      have rec: "upload_loop io api ps es (finish_upload io ps x ?s1) = Some (s', False)"
        using Cons.prems(1) run s1 False by (simp add: Let_def)
      define i where "i = upload_completed x mod length (running_uploads ?u)"
      have i: "i < length (running_uploads ?u)" using False by (simp add: i_def)
      let ?c = "running_uploads ?u ! i"
      let ?u2 = "?u\<lparr>running_uploads := take i (running_uploads ?u) @ drop (Suc i) (running_uploads ?u)\<rparr>"
      let ?s2 = "?s1\<lparr>us_uploaders := ?u2\<rparr>"
      show ?thesis
      proof (cases "upload_outcome x")
        case (Inl err)
        then have "finish_upload io ps x ?s1 = upload_handle_error err ?s2"
          by (simp add: finish_upload_def Let_def i_def)
        then obtain e' where "us_result (finish_upload io ps x ?s1) = Inl e'" using upload_handle_error_result by metis
        from upload_loop_Inl [OF this rec] Cons.prems(2) show ?thesis by simp
      next
        case out: (Inr lc)
        let ?c' = "?c\<lparr>chunk_size := fst lc, chunk_checksum := snd lc, chunk_url := None\<rparr>"
        obtain r s3 where sv: "save_uploaded io ps ?c' ?s2 = (r, s3)" by fastforce
        show ?thesis
        proof (cases r)
          case (Inl err)
          with sv out have "finish_upload io ps x ?s1 = upload_handle_error (recoverable err) s3"
            by (cases lc) (simp add: finish_upload_def Let_def i_def)
          then obtain e' where "us_result (finish_upload io ps x ?s1) = Inl e'" using upload_handle_error_result by metis
          from upload_loop_Inl [OF this rec] Cons.prems(2) show ?thesis by simp
        next
          case (Inr v)
          with sv out have fin: "finish_upload io ps x ?s1 = s3"
            by (cases lc) (simp add: finish_upload_def Let_def i_def)
          note sv' = save_uploaded_Inr [OF sv [unfolded Inr, simplified] Cons.prems(5), of old] 
          have lc: "load_chunks (chunks_file ps) (us_files s3) = Inr (old @ [?c'])"
            and u3: "us_uploaders s3 = ?u2" and run3: "us_run s3"
            using sv' Cons.prems(3,6) by simp_all
          have "upload_loop io api ps es s3 = Some (s', False)" using rec fin by simp
          from Cons.IH [OF this Cons.prems(2) run3 _ Cons.prems(5) lc] u3 lim Cons.prems(4)
          obtain new where new: "load_chunks (chunks_file ps) (us_files s') = Inr ((old @ [?c']) @ new)"
            "mset (map chunk_index new) = upload_workload ?u2"
            "to_upload (us_uploaders s') = []" "running_uploads (us_uploaders s') = []"
            by auto
          have "mset (map chunk_index (running_uploads ?u))
              = add_mset (chunk_index ?c) (mset (map chunk_index (running_uploads ?u2)))"
          proof -
            have "mset (map chunk_index (running_uploads ?u))
                = mset (map chunk_index (take i (running_uploads ?u) @ ?c # drop (Suc i) (running_uploads ?u)))"
              using i by (simp only: id_take_nth_drop [of i "running_uploads ?u", symmetric])
            then show ?thesis by simp
          qed
          then have "upload_workload ?u = add_mset (chunk_index ?c) (upload_workload ?u2)"
            by (simp add: upload_workload_def del: mset_map)
          with new wl show ?thesis by (intro exI [of _ "?c' # new"]) simp
        qed
      qed
    qed
  qed
qed

text \<open>
  C25: an upload loop that ends by itself and without an error has uploaded every outstanding chunk
  exactly once, and has recorded each of them in the chunks file in the order they finished.
\<close>

theorem upload_loop_uploads_everything:
  assumes "upload_loop io api ps es s = Some (s', False)" and "us_result s' = Inr ()" and "us_run s"
    and "0 < upload_limit (us_uploaders s)" and "chunks_file ps \<noteq> progress_file ps"
    and "load_chunks (chunks_file ps) (us_files s) = Inr old"
  shows "\<exists>new. load_chunks (chunks_file ps) (us_files s') = Inr (old @ new)
    \<and> mset (map chunk_index new) = upload_workload (us_uploaders s)
    \<and> to_upload (us_uploaders s') = [] \<and> running_uploads (us_uploaders s') = []"
  using assms by (rule upload_loop_complete)

definition example_round :: upload_round where
  "example_round = \<lparr>stop_before = False, stop_before_wait = False, upload_completed = 0,
     upload_outcome = Inr (3, Blake3 [])\<rparr>"

definition example_upload_api :: upload_api where
  "example_upload_api = \<lparr>get_upload_slots = (\<lambda>v is. Inr \<lparr>slots = [], slots_data_version = 1\<rparr>),
     put_download_manifest = (\<lambda>m v. Inr ())\<rparr>"

definition example_upload_state :: upload_state where
  "example_upload_state =
     (let chunks = [blueprint_chunk 0 [], blueprint_chunk 1 []]
      in \<lparr>us_blueprint = chunks, us_uploaded = 0, us_files = (\<lambda>_. None),
          us_uploaders = \<lparr>to_upload = chunks, running_uploads = [], upload_limit = 1, upload_version = 1\<rparr>,
          us_result = Inr (), us_run = True\<rparr>)"

lemmas upload_example_defs = example_round_def example_upload_api_def example_upload_state_def
  launch_round_def update_slots_def fetch_slots_def assign_slots_def launch_uploads_def finish_upload_def
  save_uploaded_def lift_files_def save_chunk_def mark_uploaded_step_def mark_uploaded_def save_job_data_def
  no_io_errors_def blueprint_chunk_def try_then_def Let_def

theorem upload_loop_uploads_everything_witness:
  "\<exists>s' new. load_chunks ''/c'' (us_files (s' :: upload_state)) = Inr new \<and> mset (map chunk_index new) = {#0, 1#}"
proof -
  let ?ps = "\<lparr>chunks_file = ''/c'', progress_file = ''/p'', slots_total = 2\<rparr>"
  obtain s' where loop: "upload_loop no_io_errors example_upload_api ?ps [example_round, example_round, example_round]
      example_upload_state = Some (s', False)" and res: "us_result s' = Inr ()"
    by (simp add: upload_example_defs)
  have "load_chunks (chunks_file ?ps) (us_files example_upload_state) = Inr []"
    by (simp add: example_upload_state_def load_chunks_def Let_def)
  from upload_loop_uploads_everything [OF loop res _ _ _ this]
  obtain new where "load_chunks ''/c'' (us_files s') = Inr new"
    and "mset (map chunk_index new) = upload_workload (us_uploaders example_upload_state)"
    by (auto simp: example_upload_state_def Let_def)
  then show ?thesis
    by (intro exI [of _ s'] exI [of _ new])
      (simp add: example_upload_state_def upload_workload_def blueprint_chunk_def Let_def)
qed

text \<open>
  A multi-client upload that is stopped reports success: the client's run ends well although it
  sent no manifest, and the job writes a progress file that says all chunks are done.
\<close>

theorem stopped_client_upload_succeeds:
  assumes "load_or_prepare env cfg (path_join (archive_jobs_meta_dir cfg) key) fs = (Inr (manifest, version, uploaded), fs1)"
    and "mark_all uploaded (manifest_chunks manifest) = Inr chunks"
    and "stop_before r" and "up_io env = no_io_errors"
  shows "client_uploader_run env cfg key source_dir (r # rounds) fs = Some (Inr (), [], fs1)
    \<and> (let (res, fs2) = upload_all_clients (up_io env) subdirs cfg n [(name, Inr ())] fs1
       in res = Inr () \<and> load_progress_file (progress_file_path cfg) fs2
          = Inr \<lparr>progress_total = n, progress_current = n, progress_message = ''multi-client upload completed''\<rparr>)"
  using assms
  by (simp add: client_uploader_run_def uploader_run_def upload_finish_def upload_all_clients_def Let_def
      try_then_def save_job_data_def no_io_errors_def load_progress_file_def)

definition example_upload_env :: upload_env where
  "example_upload_env = \<lparr>up_io = no_io_errors, up_api = example_upload_api, up_stamp = Inr None,
     up_sources = Inr example_listed, up_slots = 1, up_data_version = None\<rparr>"

theorem stopped_client_upload_succeeds_witness:
  "\<exists>fs1. client_uploader_run example_upload_env (build_transfer_config ''/data'' ''/p'' None 3 8) ''reth'' ''/s''
     [example_round\<lparr>stop_before := True\<rparr>] (\<lambda>_. None) = Some (Inr (), [], fs1)"
proof -
  obtain m v fs1 where "load_or_prepare example_upload_env (build_transfer_config ''/data'' ''/p'' None 3 8)
      (path_join (archive_jobs_meta_dir (build_transfer_config ''/data'' ''/p'' None 3 8)) ''reth'') (\<lambda>_. None)
      = (Inr (m, v, []), fs1)"
    by (simp add: load_or_prepare_def load_blueprint_def example_upload_env_def example_upload_api_def
        try_then_def lift_result_def save_job_data_def no_io_errors_def fetch_slots_def Let_def)
  from stopped_client_upload_succeeds [OF this, of "manifest_chunks m" "example_round\<lparr>stop_before := True\<rparr>"
      "''/s''" "[]" None 1 "''reth''"]
  show ?thesis by (auto simp: example_upload_env_def)
qed

end
