(* ===== verification/Download_Chunk.thy ===== *)
theory Download_Chunk
  imports Transfers Backoff
begin

text \<open>
  The download of one chunk (\<open>ChunkDownloader\<close> and \<open>DestinationsIter\<close> of
  \<open>babel/src/download_job.rs\<close>): ranged requests for its parts, the checksum of what came in, the
  decoder, and the split of the decoded stream into the file locations of the chunk.

  Parameters of the model: the HTTP answers, one per request, and the three hash functions.
  A digest is kept as the bytes it was updated with.
\<close>

section \<open>State\<close>

datatype chunk_data =
    FilePart path nat "byte list"
  | EndOfChunk chunk

text \<open>The sender's view of the channel to the writer. The writer may stop receiving, after which
  every send fails.\<close>

record chunk_state =
  sent :: "chunk_data list"
  channel_limit :: "nat option"
  requests :: nat

definition send :: "chunk_data \<Rightarrow> (chunk_state, string, unit) action" where
  "send d s =
     (case channel_limit s of
        Some n \<Rightarrow> if n \<le> length (sent s) then (Inl ''channel closed'', s) else (Inr (), s\<lparr>sent := sent s @ [d]\<rparr>)
      | None \<Rightarrow> (Inr (), s\<lparr>sent := sent s @ [d]\<rparr>))"

lemma send_Inr: "send d s = (Inr u, s') \<Longrightarrow> sent s' = sent s @ [d] \<and> requests s' = requests s"
  by (auto simp: send_def split: option.splits if_splits)

section \<open>Destinations of a chunk\<close>

type_synonym destinations_iter = "file_location list"

definition destinations_new :: "file_location list \<Rightarrow> string + destinations_iter" where
  "destinations_new ds =
     (if ds = [] then Inl ''corrupted manifest - expected at least one destination file in chunk''
      else Inr (rev ds))"

definition destinations_next :: "destinations_iter \<Rightarrow> nat \<Rightarrow> file_location option \<times> destinations_iter" where
  "destinations_next it bytes =
     (if it = [] then (None, it)
      else let current = last it in
        if loc_size current \<le> bytes then (Some current, butlast it)
        else if bytes > 0
        then (Some \<lparr>loc_path = loc_path current, loc_pos = loc_pos current, loc_size = bytes\<rparr>,
              butlast it @ [current\<lparr>loc_pos := loc_pos current + bytes, loc_size := loc_size current - bytes\<rparr>])
        else (None, it))"

text \<open>\<open>send_to_writer\<close>, for any way to split the destinations.\<close>

partial_function (option) send_loop ::
  "('d \<Rightarrow> nat \<Rightarrow> file_location option \<times> 'd) \<Rightarrow> byte list \<Rightarrow> 'd \<Rightarrow> chunk_state \<Rightarrow>
     ((string + unit) \<times> 'd \<times> chunk_state) option" where
  "send_loop next buffer d s =
     (case next d (length buffer) of
        (None, d') \<Rightarrow>
          Some (if buffer \<noteq> [] then Inl ''(decompressed) chunk size doesn't mach expected one'' else Inr (), d', s)
      | (Some l, d') \<Rightarrow>
          (case send (FilePart (loc_path l) (loc_pos l) (take (loc_size l) buffer)) s of
             (Inl e, s') \<Rightarrow> Some (Inl e, d', s')
           | (Inr _, s') \<Rightarrow> send_loop next (drop (loc_size l) buffer) d' s'))"

definition send_to_writer ::
  "byte list \<Rightarrow> destinations_iter \<Rightarrow> chunk_state \<Rightarrow> ((string + unit) \<times> destinations_iter \<times> chunk_state) option" where
  "send_to_writer = send_loop destinations_next"

section \<open>Download of the parts\<close>

text \<open>An HTTP exchange fails, or answers with a status and a body that arrives in pieces and may
  break off with an error.\<close>

datatype http_answer =
    NoAnswer string
  | Answer nat "byte list list" "string option"

record download_env =
  http :: "nat \<Rightarrow> string \<Rightarrow> nat \<Rightarrow> nat \<Rightarrow> http_answer"
    \<comment> \<open>number of the request, url, first and last byte of the range\<close>
  show_status :: "nat \<Rightarrow> string"
  sha1 :: "byte list \<Rightarrow> byte list"
  sha256 :: "byte list \<Rightarrow> byte list"
  blake3 :: "byte list \<Rightarrow> byte list"
  interrupted :: "nat \<Rightarrow> bool"
    \<comment> \<open>the run flag is found stopped while waiting for the part at this position\<close>

definition is_success :: "nat \<Rightarrow> bool" where
  "is_success status \<longleftrightarrow> 200 \<le> status \<and> status < 300"

fun collect_body :: "nat \<Rightarrow> byte list \<Rightarrow> byte list list \<Rightarrow> string option \<Rightarrow> string + byte list" where
  "collect_body wanted buffer [] (Some e) = Inl e"
| "collect_body wanted buffer [] None =
     (if length buffer = wanted then Inr buffer else Inl ''server error: received less bytes than requested'')"
| "collect_body wanted buffer (bytes # body) e =
     (if length bytes + length buffer \<le> wanted then collect_body wanted (buffer @ bytes) body e
      else Inl ''server error: received more bytes than requested'')"

definition download_part ::
  "download_env \<Rightarrow> transfer_config \<Rightarrow> chunk \<Rightarrow> nat \<Rightarrow> nat \<Rightarrow> (chunk_state, string, byte list) action" where
  "download_part env cfg c pos chunk_len s =
     (let buffer_size = min (chunk_len - pos) (max_buffer_size cfg)
      in case chunk_url c of
           None \<Rightarrow> (Inl (''missing chunk '' @ chunk_key c @ '' url''), s)
         | Some url \<Rightarrow>
             let s' = s\<lparr>requests := Suc (requests s)\<rparr>
             in case http env (requests s) url pos (pos + buffer_size - 1) of
                  NoAnswer e \<Rightarrow> (Inl e, s')
                | Answer status body e \<Rightarrow>
                    if is_success status then (collect_body buffer_size [] body e, s')
                    else (Inl (''server responded with '' @ show_status env status), s'))"

definition download_part_with_retry ::
  "download_env \<Rightarrow> transfer_config \<Rightarrow> chunk \<Rightarrow> nat \<Rightarrow> nat \<Rightarrow> (chunk_state, string, byte list) action" where
  "download_part_with_retry env cfg c pos chunk_len =
     with_retry_limit (download_part env cfg c pos chunk_len) (\<lambda>_ s. s)
       (transfer_max_retries cfg) (transfer_backoff_base_ms cfg)"

section \<open>Download of a chunk\<close>

text \<open>The \<open>while\<close> loop of \<open>download_chunk\<close>; the bytes fed to the digest are an argument.\<close>

partial_function (option) download_loop ::
  "(nat \<Rightarrow> bool) \<Rightarrow> (nat \<Rightarrow> (chunk_state, string, byte list) action) \<Rightarrow> 'c coder_ops \<Rightarrow> nat \<Rightarrow>
     nat \<Rightarrow> byte list \<Rightarrow> 'c \<Rightarrow> destinations_iter \<Rightarrow> chunk_state \<Rightarrow>
     ((string + byte list \<times> 'c \<times> destinations_iter) \<times> chunk_state) option" where
  "download_loop stop fetch ops chunk_len pos digest c d s =
     (if pos < chunk_len then
        if stop pos then Some (Inl ''download interrupted'', s)
        else (case fetch pos s of
          (Inl e, s1) \<Rightarrow> Some (Inl e, s1)
        | (Inr buffer, s1) \<Rightarrow>
            (case and_then (feed_op ops c buffer) (consume_op ops) of
               Inl e \<Rightarrow> Some (Inl e, s1)
             | Inr (out, c') \<Rightarrow>
                 (case send_to_writer out d s1 of
                    None \<Rightarrow> None
                  | Some (Inl e, d', s2) \<Rightarrow> Some (Inl e, s2)
                  | Some (Inr _, d', s2) \<Rightarrow>
                      download_loop stop fetch ops chunk_len (pos + length buffer) (digest @ buffer) c' d' s2)))
      else Some (Inr (digest, c, d), s))"

definition download_chunk ::
  "download_env \<Rightarrow> transfer_config \<Rightarrow> chunk \<Rightarrow> 'c coder_ops \<Rightarrow> 'c \<Rightarrow> (byte list \<Rightarrow> byte list) \<Rightarrow> byte list \<Rightarrow>
     chunk_state \<Rightarrow> ((string + unit) \<times> chunk_state) option" where
  "download_chunk env cfg c ops decoder digest expected s =
     (case destinations_new (destinations c) of
        Inl e \<Rightarrow> Some (Inl e, s)
      | Inr d \<Rightarrow>
          (case download_loop (interrupted env)
                  (\<lambda>pos. download_part_with_retry env cfg c pos (chunk_size c)) ops (chunk_size c) 0 [] decoder d s of
             None \<Rightarrow> None
           | Some (Inl e, s1) \<Rightarrow> Some (Inl e, s1)
           | Some (Inr (received, decoder', d'), s1) \<Rightarrow>
               if digest received \<noteq> expected then Some (Inl ''chunk checksum mismatch'', s1)
               else (case finalize_op ops decoder' of
                 Inl e \<Rightarrow> Some (Inl e, s1)
               | Inr out \<Rightarrow>
                   (case send_to_writer out d' s1 of
                      None \<Rightarrow> None
                    | Some (Inl e, d2, s2) \<Rightarrow> Some (Inl e, s2)
                    | Some (Inr _, d2, s2) \<Rightarrow> Some (send (EndOfChunk c) s2)))))"

definition checksum_function :: "download_env \<Rightarrow> checksum \<Rightarrow> (byte list \<Rightarrow> byte list) \<times> byte list" where
  "checksum_function env k =
     (case k of Sha1 b \<Rightarrow> (sha1 env, b) | Sha256 b \<Rightarrow> (sha256 env, b) | Blake3 b \<Rightarrow> (blake3 env, b))"

definition run_with_decoder ::
  "download_env \<Rightarrow> transfer_config \<Rightarrow> chunk \<Rightarrow> 'c coder_ops \<Rightarrow> 'c \<Rightarrow> chunk_state \<Rightarrow>
     ((string + unit) \<times> chunk_state) option" where
  "run_with_decoder env cfg c ops decoder s =
     map_option (map_prod (with_context (''chunk '' @ quoted (chunk_key c) @ '' download failed'')) id)
       (download_chunk env cfg c ops decoder (fst (checksum_function env (chunk_checksum c)))
          (snd (checksum_function env (chunk_checksum c))) s)"

text \<open>\<open>ChunkDownloader::run\<close>. The zstd decoder is a library: its operations and the result of
  creating one are arguments.\<close>

definition chunk_downloader_run ::
  "download_env \<Rightarrow> transfer_config \<Rightarrow> 'z coder_ops \<Rightarrow> string + 'z \<Rightarrow> chunk \<Rightarrow> chunk_state \<Rightarrow>
     ((string + unit) \<times> chunk_state) option" where
  "chunk_downloader_run env cfg zstd zstd_new c s =
     (case config_compression cfg of
        None \<Rightarrow> run_with_decoder env cfg c no_coder_ops no_coder_default s
      | Some (ZSTD level) \<Rightarrow>
          (case zstd_new of
             Inl e \<Rightarrow> Some (Inl e, s)
           | Inr decoder \<Rightarrow> run_with_decoder env cfg c zstd decoder s))"

section \<open>What the parts do to the files\<close>

type_synonym files = "path \<Rightarrow> byte list option"

definition file_write :: "nat \<Rightarrow> byte list \<Rightarrow> byte list \<Rightarrow> byte list" where
  "file_write pos data bytes = (if data = [] then bytes else write_at pos data bytes)"

definition write_part :: "path \<Rightarrow> nat \<Rightarrow> byte list \<Rightarrow> files \<Rightarrow> files" where
  "write_part p pos data fs = fs(p \<mapsto> file_write pos data (unwrap_or (fs p) []))"

fun apply_chunk_data :: "chunk_data \<Rightarrow> files \<Rightarrow> files" where
  "apply_chunk_data (FilePart p pos data) fs = write_part p pos data fs"
| "apply_chunk_data (EndOfChunk c) fs = fs"

definition apply_parts :: "chunk_data list \<Rightarrow> files \<Rightarrow> files" where
  "apply_parts parts fs = fold apply_chunk_data parts fs"

text \<open>The specification: each location takes its share of the data, in order.\<close>

fun write_locations :: "file_location list \<Rightarrow> byte list \<Rightarrow> files \<Rightarrow> files" where
  "write_locations [] data fs = fs"
| "write_locations (l # ls) data fs =
     write_locations ls (drop (loc_size l) data)
       (write_part (loc_path l) (loc_pos l) (take (loc_size l) data) fs)"

definition locations_size :: "file_location list \<Rightarrow> nat" where
  "locations_size ls = sum_list (map loc_size ls)"

lemma locations_size_simps [simp]:
  "locations_size [] = 0" "locations_size (l # ls) = loc_size l + locations_size ls"
  by (simp_all add: locations_size_def)

definition is_file_part :: "chunk_data \<Rightarrow> bool" where
  "is_file_part d = (case d of FilePart _ _ _ \<Rightarrow> True | EndOfChunk _ \<Rightarrow> False)"

lemma write_part_append:
  "write_part p (pos + length d1) d2 (write_part p pos d1 fs) = write_part p pos (d1 @ d2) fs"
  by (rule ext) (simp add: write_part_def file_write_def write_at_append)

lemma apply_parts_simps [simp]:
  "apply_parts [] fs = fs"
  "apply_parts (d # ds) fs = apply_parts ds (apply_chunk_data d fs)"
  "apply_parts (ds @ es) fs = apply_parts es (apply_parts ds fs)"
  by (simp_all add: apply_parts_def)

text \<open>
  The locations that parts write, and the relation between a list of destinations and the parts that
  bring \<open>data\<close> to it: the data is in the parts, in order, they write the first bytes of the destinations
  and \<open>rest\<close> is what is left of these.
\<close>

fun part_locations :: "chunk_data list \<Rightarrow> file_location list" where
  "part_locations [] = []"
| "part_locations (FilePart p pos data # ds) = \<lparr>loc_path = p, loc_pos = pos, loc_size = length data\<rparr> # part_locations ds"
| "part_locations (EndOfChunk c # ds) = part_locations ds"

fun part_bytes :: "chunk_data list \<Rightarrow> byte list" where
  "part_bytes [] = []"
| "part_bytes (FilePart p pos data # ds) = data @ part_bytes ds"
| "part_bytes (EndOfChunk c # ds) = part_bytes ds"

definition delivers :: "file_location list \<Rightarrow> byte list \<Rightarrow> chunk_data list \<Rightarrow> file_location list \<Rightarrow> bool" where
  "delivers ls data parts rest \<longleftrightarrow> part_bytes parts = data
     \<and> all_bytes ls = all_bytes (part_locations parts) @ all_bytes rest
     \<and> loc_path ` set ls = loc_path ` set (part_locations parts) \<union> loc_path ` set rest"

lemma part_append [simp]:
  "part_locations (ps @ qs) = part_locations ps @ part_locations qs"
  "part_bytes (ps @ qs) = part_bytes ps @ part_bytes qs"
  by (induction ps rule: part_locations.induct) simp_all

lemma delivers_nothing: "delivers ls [] [] ls"
  by (simp add: delivers_def)

lemma delivers_trans: "delivers ls d1 ps ms \<Longrightarrow> delivers ms d2 qs ns \<Longrightarrow> delivers ls (d1 @ d2) (ps @ qs) ns"
  by (auto simp: delivers_def)

text \<open>The contract between the writer loop and the iterator over the destinations.\<close>

locale splitter =
  fixes next_dest :: "'d \<Rightarrow> nat \<Rightarrow> file_location option \<times> 'd"
    and rest :: "'d \<Rightarrow> file_location list"
  assumes next_Some: "next_dest d n = (Some l, d') \<Longrightarrow>
      (rest d = l # rest d' \<and> loc_size l \<le> n) \<or>
      (\<exists>cur ls. rest d = cur # ls \<and> 0 < n \<and> n < loc_size cur \<and>
         l = \<lparr>loc_path = loc_path cur, loc_pos = loc_pos cur, loc_size = n\<rparr> \<and>
         rest d' = cur\<lparr>loc_pos := loc_pos cur + n, loc_size := loc_size cur - n\<rparr> # ls)"
    and next_None: "next_dest d n = (None, d') \<Longrightarrow> d' = d \<and> (rest d = [] \<or> n = 0 \<and> 0 < loc_size (hd (rest d)))"
begin

lemma next_size:
  assumes "next_dest d n = (Some l, d')"
  shows "loc_size l \<le> n" and "locations_size (rest d) = loc_size l + locations_size (rest d')"
    and "length (rest d') + (n - loc_size l) < length (rest d) + n"
  using next_Some [OF assms] by auto

lemma send_loop_returns: "\<exists>r. send_loop next_dest buffer d s = Some r"
proof (induction "length (rest d) + length buffer" arbitrary: buffer d s rule: less_induct)
  case less
  show ?case
  proof (cases "next_dest d (length buffer)")
    case (Pair ol d')
    show ?thesis
    proof (cases ol)
      case None
      with Pair show ?thesis by (subst send_loop.simps) simp
    next
      case (Some l)
      have "length (rest d') + length (drop (loc_size l) buffer) < length (rest d) + length buffer"
        using next_size(3) [OF Pair [unfolded Some]] by simp
      from less.hyps [OF this] Pair Some show ?thesis
        by (subst send_loop.simps) (auto split: prod.split sum.split)
    qed
  qed
qed

lemma send_loop_Inr:
  assumes "send_loop next_dest buffer d s = Some (Inr (), d', s')"
  shows "\<exists>parts. sent s' = sent s @ parts \<and> list_all is_file_part parts
    \<and> locations_size (rest d) = length buffer + locations_size (rest d')
    \<and> (locations_size (rest d') = 0 \<longrightarrow> rest d' = [])
    \<and> delivers (rest d) buffer parts (rest d')
    \<and> (\<forall>more fs. write_locations (rest d) (buffer @ more) fs
                 = write_locations (rest d') more (apply_parts parts fs))"
  using assms
proof (induction "length (rest d) + length buffer" arbitrary: buffer d s rule: less_induct)
  case less
  obtain ol d1 where nx: "next_dest d (length buffer) = (ol, d1)" by fastforce
  show ?case
  proof (cases ol)
    case None
    with less.prems nx have "buffer = []" "d' = d1" "s' = s"
      by (subst (asm) send_loop.simps; simp split: if_splits)+
    with next_None [OF nx [unfolded None]] show ?thesis
      by (intro exI [of _ "[]"]) (cases "rest d"; auto simp: delivers_nothing)
  next
    case (Some l)
    let ?part = "FilePart (loc_path l) (loc_pos l) (take (loc_size l) buffer)"
    from less.prems nx Some obtain s1 where s1: "send ?part s = (Inr (), s1)"
      and rec: "send_loop next_dest (drop (loc_size l) buffer) d1 s1 = Some (Inr (), d', s')"
      by (subst (asm) send_loop.simps) (auto split: prod.splits sum.splits)
    note sz = next_size [OF nx [unfolded Some]]
    have "length (rest d1) + length (drop (loc_size l) buffer) < length (rest d) + length buffer"
      using sz(3) by simp
    from less.hyps [OF this rec] obtain parts where
      parts: "sent s' = sent s1 @ parts" "list_all is_file_part parts"
        "locations_size (rest d1) = length (drop (loc_size l) buffer) + locations_size (rest d')"
        "locations_size (rest d') = 0 \<longrightarrow> rest d' = []"
      and dl: "delivers (rest d1) (drop (loc_size l) buffer) parts (rest d')"
      and wr: "\<forall>more fs. write_locations (rest d1) (drop (loc_size l) buffer @ more) fs
                 = write_locations (rest d') more (apply_parts parts fs)"
      by (elim exE conjE) (rule that)
    have first: "write_locations (rest d) (buffer @ more) fs
        = write_locations (rest d1) (drop (loc_size l) buffer @ more) (apply_chunk_data ?part fs)" for more fs
      using next_Some [OF nx [unfolded Some]]
    proof (elim disjE exE conjE)
      assume "rest d = l # rest d1" "loc_size l \<le> length buffer"
      then show ?thesis by simp
    next
      fix cur ls
      assume "rest d = cur # ls" "length buffer < loc_size cur"
        "l = \<lparr>loc_path = loc_path cur, loc_pos = loc_pos cur, loc_size = length buffer\<rparr>"
        "rest d1 = cur\<lparr>loc_pos := loc_pos cur + length buffer, loc_size := loc_size cur - length buffer\<rparr> # ls"
      then show ?thesis by (simp add: write_part_append)
    qed
    have one: "delivers (rest d) (take (loc_size l) buffer) [?part] (rest d1)"
      using next_Some [OF nx [unfolded Some]]
    proof (elim disjE exE conjE)
      assume "rest d = l # rest d1" "loc_size l \<le> length buffer"
      then show ?thesis by (simp add: delivers_def location_bytes_def)
    next
      fix cur ls
      assume "rest d = cur # ls" "length buffer < loc_size cur"
        "l = \<lparr>loc_path = loc_path cur, loc_pos = loc_pos cur, loc_size = length buffer\<rparr>"
        "rest d1 = cur\<lparr>loc_pos := loc_pos cur + length buffer, loc_size := loc_size cur - length buffer\<rparr> # ls"
      then show ?thesis using location_bytes_split [of "length buffer" cur]
        by (simp add: delivers_def location_bytes_def)
    qed
    show ?thesis
    proof (intro exI [of _ "?part # parts"] conjI allI impI)
      show "delivers (rest d) buffer (?part # parts) (rest d')" using delivers_trans [OF one dl] by simp
      show "sent s' = sent s @ ?part # parts" using parts(1) send_Inr [OF s1] by simp
      show "list_all is_file_part (?part # parts)" using parts(2) by (simp add: is_file_part_def)
      show "locations_size (rest d) = length buffer + locations_size (rest d')"
        using sz(1,2) parts(3) by simp
      show "write_locations (rest d) (buffer @ more) fs
          = write_locations (rest d') more (apply_parts (?part # parts) fs)" for more fs
        by (simp only: first wr [rule_format] apply_parts_simps)
    qed (use parts(4) in simp)
  qed
qed

end

interpretation dest: splitter destinations_next rev
proof
  fix d n l d'
  assume *: "destinations_next d n = (Some l, d')"
  then have "d \<noteq> []" by (auto simp: destinations_next_def)
  then obtain ds cur where "d = ds @ [cur]" by (metis rev_exhaust)
  with * show "(rev d = l # rev d' \<and> loc_size l \<le> n) \<or>
      (\<exists>cur ls. rev d = cur # ls \<and> 0 < n \<and> n < loc_size cur \<and>
         l = \<lparr>loc_path = loc_path cur, loc_pos = loc_pos cur, loc_size = n\<rparr> \<and>
         rev d' = cur\<lparr>loc_pos := loc_pos cur + n, loc_size := loc_size cur - n\<rparr> # ls)"
    by (auto simp: destinations_next_def Let_def split: if_splits)
next
  fix d n d'
  assume "destinations_next d n = (None, d')"
  then show "d' = d \<and> (rev d = [] \<or> n = 0 \<and> 0 < loc_size (hd (rev d)))"
    by (auto simp: destinations_next_def Let_def hd_rev split: if_splits)
qed

section \<open>Parts\<close>

lemma collect_body_Inr: "collect_body n buffer body e = Inr x \<Longrightarrow> length x = n \<and> e = None \<and> x = buffer @ concat body"
  by (induction n buffer body e rule: collect_body.induct) (auto split: if_splits)

text \<open>A server that holds \<open>body\<close> at a url: what a successful answer to a ranged request carries.\<close>

definition serves :: "download_env \<Rightarrow> string \<Rightarrow> byte list \<Rightarrow> bool" where
  "serves env url body \<longleftrightarrow>
     (\<forall>k a b status pieces. http env k url a b = Answer status pieces None \<longrightarrow> is_success status \<longrightarrow>
        concat pieces = take (b + 1 - a) (drop a body))"

lemma download_part_serves:
  assumes "download_part env cfg c pos n s = (Inr b, s')" and "chunk_url c = Some url" and "serves env url body"
    and "pos < n" and "0 < max_buffer_size cfg"
  shows "b = take (min (n - pos) (max_buffer_size cfg)) (drop pos body)"
proof -
  let ?k = "min (n - pos) (max_buffer_size cfg)"
  from assms(1,2) obtain status pieces e where
    "http env (requests s) url pos (pos + ?k - 1) = Answer status pieces e" "is_success status"
    "collect_body ?k [] pieces e = Inr b"
    by (auto simp: download_part_def Let_def split: http_answer.splits if_splits)
  with collect_body_Inr [OF this(3)] assms(3) have "b = take (pos + ?k - 1 + 1 - pos) (drop pos body)"
    unfolding serves_def by auto
  moreover have "pos + ?k - 1 + 1 - pos = ?k" using assms(4,5) by auto
  ultimately show ?thesis by simp
qed

lemma download_part_sent: "sent (snd (download_part env cfg c pos n s)) = sent s"
  by (auto simp: download_part_def Let_def split: option.split http_answer.split)

lemma download_part_Inr:
  "download_part env cfg c pos n s = (Inr b, s') \<Longrightarrow> length b = min (n - pos) (max_buffer_size cfg)"
  by (auto simp: download_part_def Let_def dest: collect_body_Inr
      split: option.splits http_answer.splits if_splits)

lemma download_part_with_retry_Inr:
  assumes "download_part_with_retry env cfg c pos n s = (Inr b, s')"
  shows "length b = min (n - pos) (max_buffer_size cfg) \<and> sent s' = sent s"
proof
  show "length b = min (n - pos) (max_buffer_size cfg)"
    using selective_retry_loop_Inr [OF assms [unfolded download_part_with_retry_def with_retry_limit_def]]
    by (auto dest: download_part_Inr)
  have "keeps (\<lambda>t. sent t = sent s) (download_part_with_retry env cfg c pos n)"
    unfolding download_part_with_retry_def with_retry_limit_def
    by (intro keeps_rules keepsI) (simp_all add: download_part_sent)
  from keepsD_eq [OF this _ assms] show "sent s' = sent s" by simp
qed

section \<open>Properties of the download of a chunk\<close>

lemma download_part_with_retry_serves:
  assumes "download_part_with_retry env cfg c pos n s = (Inr b, s')" and "chunk_url c = Some url" and "serves env url body"
    and "pos < n" and "0 < max_buffer_size cfg"
  shows "b = take (min (n - pos) (max_buffer_size cfg)) (drop pos body)"
  using selective_retry_loop_Inr [OF assms(1) [unfolded download_part_with_retry_def with_retry_limit_def]]
    download_part_serves [OF _ assms(2-5)] by auto

text \<open>A part is as long as asked for, so the loop makes progress when the buffer size is positive.\<close>

definition fetches :: "nat \<Rightarrow> nat \<Rightarrow> (nat \<Rightarrow> (chunk_state, string, byte list) action) \<Rightarrow> bool" where
  "fetches n m fetch \<longleftrightarrow>
     (\<forall>pos s b s'. fetch pos s = (Inr b, s') \<longrightarrow> length b = min (n - pos) m \<and> sent s' = sent s)"

lemma fetches_download_part:
  "fetches n (max_buffer_size cfg) (\<lambda>pos. download_part_with_retry env cfg c pos n)"
  by (simp add: fetches_def download_part_with_retry_Inr)

definition fetches_from :: "byte list \<Rightarrow> nat \<Rightarrow> nat \<Rightarrow> (nat \<Rightarrow> (chunk_state, string, byte list) action) \<Rightarrow> bool" where
  "fetches_from body n m fetch \<longleftrightarrow>
     (\<forall>pos s b s'. fetch pos s = (Inr b, s') \<longrightarrow> pos < n \<longrightarrow> b = take (min (n - pos) m) (drop pos body))"

lemma send_to_writer_returns: "\<exists>r. send_to_writer buffer d s = Some r"
  unfolding send_to_writer_def by (rule dest.send_loop_returns)

lemma download_loop_returns:
  assumes "fetches n m fetch" and "0 < m"
  shows "\<exists>r. download_loop stop fetch ops n pos digest c d s = Some r"
proof (induction "n - pos" arbitrary: pos digest c d s rule: less_induct)
  case less
  obtain q s1 where f: "fetch pos s = (q, s1)" by fastforce
  show ?case
  proof (cases "pos < n \<and> \<not> stop pos")
    case False
    then show ?thesis by (subst download_loop.simps) auto
  next
    case True
    show ?thesis
    proof (cases q)
      case (Inl e)
      with True f show ?thesis by (subst download_loop.simps) simp
    next
      case (Inr b)
      from assms(1) f Inr have "length b = min (n - pos) m" by (auto simp: fetches_def)
      with assms(2) True have lt: "n - (pos + length b) < n - pos" by auto
      have rec: "\<exists>r. download_loop stop fetch ops n (pos + length b) (digest @ b) c' d' s' = Some r" for c' d' s'
        by (rule less.hyps [OF lt])
      show ?thesis
      proof (cases "and_then (feed_op ops c b) (consume_op ops)")
        case (Inl e)
        with True f Inr show ?thesis by (subst download_loop.simps) simp
      next
        case out: (Inr oc)
        obtain r where "send_to_writer (fst oc) d s1 = Some r" using send_to_writer_returns by blast
        with True f Inr out rec show ?thesis
          by (subst download_loop.simps) (auto split: prod.split sum.split)
      qed
    qed
  qed
qed

lemma download_chunk_returns:
  assumes "0 < max_buffer_size cfg"
  shows "download_chunk env cfg c ops decoder digest expected s \<noteq> None"
proof -
  obtain r where "download_loop (interrupted env) (\<lambda>pos. download_part_with_retry env cfg c pos (chunk_size c))
      ops (chunk_size c) 0 [] decoder (rev (destinations c)) s = Some r"
    using download_loop_returns [OF fetches_download_part assms, of "interrupted env" env c "chunk_size c" ops 0
        "[]" decoder "rev (destinations c)" s] by blast
  moreover have "send_to_writer out d s1 \<noteq> None" for out d s1
    using send_to_writer_returns [of out d s1] by auto
  ultimately show ?thesis
    by (auto simp: download_chunk_def destinations_new_def simp del: not_None_eq
        split: prod.split sum.split option.split)
qed

lemma run_with_decoder_returns:
  "0 < max_buffer_size cfg \<Longrightarrow> run_with_decoder env cfg c ops decoder s \<noteq> None"
  using download_chunk_returns by (simp add: run_with_decoder_def del: not_None_eq)

text \<open>
  C28: a chunk download ends: with a positive buffer size the loop over the parts returns, whatever
  the server answers, the decoder does and the writer accepts.
\<close>

theorem chunk_downloader_run_returns:
  assumes "0 < max_buffer_size cfg"
  shows "\<exists>r. chunk_downloader_run env cfg zstd zstd_new c s = Some r"
proof -
  note returns = run_with_decoder_returns [OF assms]
  have "chunk_downloader_run env cfg zstd zstd_new c s \<noteq> None"
  proof (cases "config_compression cfg")
    case None
    then show ?thesis by (simp add: chunk_downloader_run_def returns del: not_None_eq)
  next
    case (Some k)
    then show ?thesis
      by (cases k; cases zstd_new) (simp_all add: chunk_downloader_run_def returns del: not_None_eq)
  qed
  then show ?thesis by blast
qed

context coder begin

lemma download_loop_Inr:
  assumes "download_loop stop fetch \<lparr>feed_op = feed, consume_op = consume, finalize_op = finalize\<rparr> n pos digest c d s
      = Some (Inr (digest', c', d'), s')"
    and "fetches n m fetch" and "0 < m" and "pos \<le> n" and "holds c i out" and "ready c"
  shows "\<exists>data out' parts. digest' = digest @ data \<and> pos + length data = n
    \<and> holds c' (i @ data) (out @ out')
    \<and> sent s' = sent s @ parts \<and> list_all is_file_part parts
    \<and> locations_size (rev d) = length out' + locations_size (rev d')
    \<and> delivers (rev d) out' parts (rev d')
    \<and> (\<forall>body. fetches_from body n m fetch \<longrightarrow> data = take (n - pos) (drop pos body))
    \<and> (\<forall>more fs. write_locations (rev d) (out' @ more) fs
                 = write_locations (rev d') more (apply_parts parts fs))"
  using assms
proof (induction "n - pos" arbitrary: pos digest c d s i out rule: less_induct)
  case less
  let ?ops = "\<lparr>feed_op = feed, consume_op = consume, finalize_op = finalize\<rparr>"
  show ?case
  proof (cases "pos < n")
    case False
    with less.prems(1) have "digest' = digest" "c' = c" "d' = d" "s' = s"
      by (subst (asm) download_loop.simps; simp)+
    with False less.prems show ?thesis by (intro exI [of _ "[]"]) (simp add: delivers_nothing)
  next
    case True
    from True less.prems(1) obtain b s1 c1 o1 c2 d2 s2 where
      f: "fetch pos s = (Inr b, s1)" and fd: "feed c b = Inr c1" and cs: "consume c1 = Inr (o1, c2)"
      and sw: "send_to_writer o1 d s1 = Some (Inr (), d2, s2)"
      and rec: "download_loop stop fetch ?ops n (pos + length b) (digest @ b) c2 d2 s2 = Some (Inr (digest', c', d'), s')"
      by (subst (asm) download_loop.simps)
        (auto simp: and_then_Inr_iff split: if_splits prod.splits sum.splits option.splits)
    from less.prems(2) f have b: "length b = min (n - pos) m" and s1: "sent s1 = sent s"
      by (auto simp: fetches_def)
    from b less.prems(3) True have lt: "n - (pos + length b) < n - pos" and le: "pos + length b \<le> n" by auto
    note c2 = feed_consume [OF less.prems(5,6) fd cs]
    from less.hyps [OF lt rec less.prems(2,3) le c2] obtain data out' parts where
      IH: "digest' = (digest @ b) @ data" "pos + length b + length data = n"
        "holds c' ((i @ b) @ data) ((out @ o1) @ out')" "sent s' = sent s2 @ parts" "list_all is_file_part parts"
        "locations_size (rev d2) = length out' + locations_size (rev d')"
        "delivers (rev d2) out' parts (rev d')"
      and from_body: "\<forall>body. fetches_from body n m fetch \<longrightarrow> data = take (n - (pos + length b)) (drop (pos + length b) body)"
      and wr: "\<forall>more fs. write_locations (rev d2) (out' @ more) fs
                 = write_locations (rev d') more (apply_parts parts fs)"
      by (elim exE conjE) (rule that)
    from dest.send_loop_Inr [OF sw [unfolded send_to_writer_def]] obtain parts1 where
      P1: "sent s2 = sent s1 @ parts1" "list_all is_file_part parts1"
        "locations_size (rev d) = length o1 + locations_size (rev d2)"
        "delivers (rev d) o1 parts1 (rev d2)"
      and wr1: "\<forall>more fs. write_locations (rev d) (o1 @ more) fs
                 = write_locations (rev d2) more (apply_parts parts1 fs)"
      by (elim exE conjE) (rule that)
    have whole: "b @ data = take (n - pos) (drop pos body)" if "fetches_from body n m fetch" for body
    proof -
      from that f True have b': "b = take (length b) (drop pos body)" unfolding fetches_from_def b by blast
      have "data = take (n - (pos + length b)) (drop (pos + length b) body)" using from_body that by blast
      then have "b @ data = take (length b) (drop pos body) @ take (n - pos - length b) (drop (length b) (drop pos body))"
        using b' by (simp add: add.commute)
      also have "\<dots> = take (length b + (n - pos - length b)) (drop pos body)" by (rule take_add [symmetric])
      also have "length b + (n - pos - length b) = n - pos" using le by simp
      finally show ?thesis .
    qed
    show ?thesis
    proof (rule exI [of _ "b @ data"], rule exI [of _ "o1 @ out'"], rule exI [of _ "parts1 @ parts"], intro conjI allI impI)
      show "delivers (rev d) (o1 @ out') (parts1 @ parts) (rev d')" by (rule delivers_trans [OF P1(4) IH(7)])
      show "b @ data = take (n - pos) (drop pos body)" if "fetches_from body n m fetch" for body by (rule whole [OF that])
      show "write_locations (rev d) ((o1 @ out') @ more) fs
          = write_locations (rev d') more (apply_parts (parts1 @ parts) fs)" for more fs
        by (simp only: append_assoc wr1 [rule_format] wr [rule_format] apply_parts_simps)
    qed (use IH P1 s1 in simp_all)
  qed
qed

lemma download_chunk_Inr:
  assumes "download_chunk env cfg ch \<lparr>feed_op = feed, consume_op = consume, finalize_op = finalize\<rparr> initial digest expected s
      = Some (Inr (), s')" and "0 < max_buffer_size cfg"
  shows "\<exists>data parts. length data = chunk_size ch \<and> digest data = expected
    \<and> sent s' = sent s @ parts @ [EndOfChunk ch] \<and> list_all is_file_part parts
    \<and> length (code data) \<le> locations_size (destinations ch)
    \<and> (length (code data) = locations_size (destinations ch) \<longrightarrow>
        delivers (destinations ch) (code data) parts [] \<and>
        (\<forall>fs. apply_parts parts fs = write_locations (destinations ch) (code data) fs))
    \<and> (\<forall>url body. chunk_url ch = Some url \<longrightarrow> serves env url body \<longrightarrow> data = take (chunk_size ch) body)"
proof -
  from assms(1) obtain received c1 d1 s1 out d2 s2 where
    loop: "download_loop (interrupted env) (\<lambda>pos. download_part_with_retry env cfg ch pos (chunk_size ch))
        \<lparr>feed_op = feed, consume_op = consume, finalize_op = finalize\<rparr> (chunk_size ch) 0 [] initial
        (rev (destinations ch)) s = Some (Inr (received, c1, d1), s1)"
    and ck: "digest received = expected" and fin: "finalize c1 = Inr out"
    and sw: "send_to_writer out d1 s1 = Some (Inr (), d2, s2)" and last: "send (EndOfChunk ch) s2 = (Inr (), s')"
    by (auto simp: download_chunk_def destinations_new_def split: if_splits prod.splits sum.splits option.splits)
  from download_loop_Inr [OF loop fetches_download_part assms(2) le0 initial]
  obtain data out' parts where
    L: "received = [] @ data" "0 + length data = chunk_size ch" "holds c1 ([] @ data) ([] @ out')"
      "sent s1 = sent s @ parts" "list_all is_file_part parts"
      "locations_size (rev (rev (destinations ch))) = length out' + locations_size (rev d1)"
      "delivers (rev (rev (destinations ch))) out' parts (rev d1)"
    and from_body: "\<forall>body. fetches_from body (chunk_size ch) (max_buffer_size cfg)
        (\<lambda>pos. download_part_with_retry env cfg ch pos (chunk_size ch)) \<longrightarrow>
        data = take (chunk_size ch - 0) (drop 0 body)"
    and wr: "\<forall>more fs. write_locations (rev (rev (destinations ch))) (out' @ more) fs
               = write_locations (rev d1) more (apply_parts parts fs)"
    by (elim exE conjE) (rule that)
  from dest.send_loop_Inr [OF sw [unfolded send_to_writer_def]] obtain parts1 where
    P1: "sent s2 = sent s1 @ parts1" "list_all is_file_part parts1"
      "locations_size (rev d1) = length out + locations_size (rev d2)"
      "locations_size (rev d2) = 0 \<longrightarrow> rev d2 = []"
      "delivers (rev d1) out parts1 (rev d2)"
    and wr1: "\<forall>more fs. write_locations (rev d1) (out @ more) fs
               = write_locations (rev d2) more (apply_parts parts1 fs)"
    by (elim exE conjE) (rule that)
  have whole: "code data = out' @ out" using finalize [OF L(3) fin] by simp
  have all: "write_locations (destinations ch) (out' @ out @ []) fs
      = write_locations (rev d2) [] (apply_parts (parts @ parts1) fs)" for fs
    using wr [rule_format, of "out @ []" fs] by (simp only: wr1 [rule_format] apply_parts_simps rev_rev_ident)
  show ?thesis
  proof (rule exI [of _ data], rule exI [of _ "parts @ parts1"], intro conjI impI allI)
    assume "length (code data) = locations_size (destinations ch)"
    then have "rev d2 = []" using L(6) P1(3,4) whole by simp
    then show "delivers (destinations ch) (code data) (parts @ parts1) []"
      using delivers_trans [OF L(7) P1(5)] whole by simp
  next
    fix url body
    assume "chunk_url ch = Some url" and "serves env url body"
    then have "fetches_from body (chunk_size ch) (max_buffer_size cfg)
        (\<lambda>pos. download_part_with_retry env cfg ch pos (chunk_size ch))"
      using download_part_with_retry_serves assms(2) unfolding fetches_from_def by blast
    with from_body show "data = take (chunk_size ch) body" by simp
  next
    fix fs
    assume "length (code data) = locations_size (destinations ch)"
    then have "rev d2 = []" using L(6) P1(3,4) whole by simp
    then show "apply_parts (parts @ parts1) fs = write_locations (destinations ch) (code data) fs"
      using all [of fs] whole by simp
  qed (use L P1 ck whole send_Inr [OF last] in simp_all)
qed

end

lemma chunk_downloader_run_Inr:
  assumes "coder (feed_op zstd) (consume_op zstd) (finalize_op zstd) c0 holds ready decode"
    and "0 < max_buffer_size cfg"
    and "chunk_downloader_run env cfg zstd (Inr c0) ch s = Some (Inr (), s')"
  shows "\<exists>data parts. length data = chunk_size ch
    \<and> fst (checksum_function env (chunk_checksum ch)) data = snd (checksum_function env (chunk_checksum ch))
    \<and> sent s' = sent s @ parts @ [EndOfChunk ch] \<and> list_all is_file_part parts
    \<and> (let decoded = (if config_compression cfg = None then data else decode data)
       in length decoded \<le> locations_size (destinations ch)
        \<and> (length decoded = locations_size (destinations ch) \<longrightarrow>
            delivers (destinations ch) decoded parts [] \<and>
            (\<forall>fs. apply_parts parts fs = write_locations (destinations ch) decoded fs)))
    \<and> (\<forall>url body. chunk_url ch = Some url \<longrightarrow> serves env url body \<longrightarrow> data = take (chunk_size ch) body)"
proof -
  have inner: "map_prod (with_context msg) id r = (Inr (), t) \<longleftrightarrow> r = (Inr (), t)" for msg r and t :: chunk_state
    by (cases r; cases "fst r") (auto simp: with_context_def)
  show ?thesis
  proof (cases "config_compression cfg")
    case None
    with assms(3) have "download_chunk env cfg ch
        \<lparr>feed_op = no_coder_feed, consume_op = no_coder_consume, finalize_op = no_coder_finalize\<rparr> no_coder_default
        (fst (checksum_function env (chunk_checksum ch))) (snd (checksum_function env (chunk_checksum ch))) s
        = Some (Inr (), s')"
      by (auto simp: chunk_downloader_run_def run_with_decoder_def no_coder_ops_def inner)
    from plain.download_chunk_Inr [OF this assms(2)] None show ?thesis by (simp add: Let_def)
  next
    case (Some k)
    have eta: "\<lparr>feed_op = feed_op zstd, consume_op = consume_op zstd, finalize_op = finalize_op zstd\<rparr> = zstd"
      by simp
    from Some assms(3) have "download_chunk env cfg ch
        \<lparr>feed_op = feed_op zstd, consume_op = consume_op zstd, finalize_op = finalize_op zstd\<rparr> c0
        (fst (checksum_function env (chunk_checksum ch))) (snd (checksum_function env (chunk_checksum ch))) s
        = Some (Inr (), s')"
      unfolding eta by (cases k) (auto simp: chunk_downloader_run_def run_with_decoder_def inner)
    from coder.download_chunk_Inr [OF assms(1) this assms(2)] Some show ?thesis by (simp add: Let_def)
  qed
qed

text \<open>
  C2: a successful chunk download received exactly \<open>chunk_size\<close> bytes with the expected checksum,
  and announced the end of the chunk after its file parts. The decoded data never exceeds the
  destinations, and when it fills them the parts have on any files the effect of giving each
  destination, in order, its share of the decoded data, however the data was cut into requests,
  decoder frames and file parts. For compressed transfers the decoder is any one that keeps the
  contract of the coder trait.
\<close>

theorem chunk_download_writes_destinations:
  assumes "coder (feed_op zstd) (consume_op zstd) (finalize_op zstd) c0 holds ready decode"
    and "0 < max_buffer_size cfg"
    and "chunk_downloader_run env cfg zstd (Inr c0) ch s = Some (Inr (), s')"
  shows "\<exists>data parts. length data = chunk_size ch
    \<and> fst (checksum_function env (chunk_checksum ch)) data = snd (checksum_function env (chunk_checksum ch))
    \<and> sent s' = sent s @ parts @ [EndOfChunk ch] \<and> list_all is_file_part parts
    \<and> (let decoded = (if config_compression cfg = None then data else decode data)
       in length decoded \<le> locations_size (destinations ch)
        \<and> (length decoded = locations_size (destinations ch) \<longrightarrow>
            (\<forall>fs. apply_parts parts fs = write_locations (destinations ch) decoded fs)))"
proof -
  from chunk_downloader_run_Inr [OF assms] obtain data parts where "length data = chunk_size ch"
    "fst (checksum_function env (chunk_checksum ch)) data = snd (checksum_function env (chunk_checksum ch))"
    "sent s' = sent s @ parts @ [EndOfChunk ch]" "list_all is_file_part parts"
    and "let decoded = (if config_compression cfg = None then data else decode data)
       in length decoded \<le> locations_size (destinations ch)
        \<and> (length decoded = locations_size (destinations ch) \<longrightarrow>
            delivers (destinations ch) decoded parts [] \<and>
            (\<forall>fs. apply_parts parts fs = write_locations (destinations ch) decoded fs))"
    by (elim exE conjE) (rule that)
  then show ?thesis by (intro exI [of _ data] exI [of _ parts]) (simp add: Let_def)
qed

definition example_env :: "byte list \<Rightarrow> download_env" where
  "example_env content = \<lparr>http = (\<lambda>_ _ a b. Answer 200 [take (b + 1 - a) (drop a content)] None),
     show_status = (\<lambda>_. []), sha1 = rev, sha256 = rev, blake3 = rev, interrupted = (\<lambda>_. False)\<rparr>"

definition example_chunk :: "file_location list \<Rightarrow> chunk" where
  "example_chunk ls = \<lparr>chunk_index = 0, chunk_key = ''k'', chunk_url = Some ''u'',
     chunk_checksum = Sha1 [3, 2, 1], chunk_size = 3, destinations = ls\<rparr>"

definition example_config :: transfer_config where
  "example_config = (build_transfer_config ''/data'' ''/p'' None 3 8)\<lparr>max_buffer_size := 2\<rparr>"

definition fresh_chunk_state :: chunk_state where
  "fresh_chunk_state = \<lparr>sent = [], channel_limit = None, requests = 0\<rparr>"

lemmas example_defs = example_env_def example_chunk_def example_config_def fresh_chunk_state_def
  chunk_downloader_run_def run_with_decoder_def download_chunk_def destinations_new_def
  download_part_with_retry_def with_retry_limit_def selective_retry_loop.simps
  download_part_def is_success_def no_coder_ops_def no_coder_defs send_to_writer_def
  destinations_next_def send_def checksum_function_def with_context_def build_transfer_config_def

definition example_locations :: "file_location list" where
  "example_locations =
     [\<lparr>loc_path = ''a'', loc_pos = 0, loc_size = 1\<rparr>, \<lparr>loc_path = ''b'', loc_pos = 5, loc_size = 2\<rparr>]"

lemma example_download:
  "chunk_downloader_run (example_env [1, 2, 3]) example_config no_coder_ops (Inr no_coder_default)
     (example_chunk example_locations) fresh_chunk_state
   = Some (Inr (), \<lparr>sent = [FilePart ''a'' 0 [1], FilePart ''b'' 5 [2], FilePart ''b'' 6 [3],
        EndOfChunk (example_chunk example_locations)], channel_limit = None, requests = 2\<rparr>)"
  by (simp add: example_defs example_locations_def download_loop.simps send_loop.simps Let_def)

theorem chunk_download_writes_destinations_witness:
  "\<exists>data parts. length data = chunk_size (example_chunk example_locations) \<and>
     [FilePart ''a'' 0 [1], FilePart ''b'' 5 [2], FilePart ''b'' 6 [3], EndOfChunk (example_chunk example_locations)]
       = parts @ [EndOfChunk (example_chunk example_locations)] \<and>
     (\<forall>fs. apply_parts parts fs = write_locations example_locations data fs)"
proof -
  have "coder (feed_op no_coder_ops) (consume_op no_coder_ops) (finalize_op no_coder_ops) no_coder_default
      no_coder_holds (\<lambda>c. c = None) (\<lambda>x. x)"
    unfolding no_coder_ops_def by (simp add: plain.coder_axioms)
  moreover have "0 < max_buffer_size example_config"
    by (simp add: example_config_def)
  moreover have "config_compression example_config = None" "sent fresh_chunk_state = []"
    by (simp_all add: example_config_def build_transfer_config_def fresh_chunk_state_def)
  moreover have "destinations (example_chunk example_locations) = example_locations"
    "chunk_size (example_chunk example_locations) = locations_size example_locations"
    by (simp_all add: example_chunk_def example_locations_def)
  ultimately show ?thesis
    using chunk_download_writes_destinations [OF _ _ example_download, of no_coder_holds "\<lambda>c. c = None" "\<lambda>x. x"]
    by (auto simp only: Let_def if_True append_Nil simp_thms chunk_state.simps)
qed

theorem chunk_downloader_run_returns_witness:
  "\<exists>r. chunk_downloader_run (example_env [1, 2, 3]) (build_transfer_config ''/data'' ''/p'' None 3 8) no_coder_ops
     (Inr no_coder_default) (example_chunk example_locations) fresh_chunk_state = Some r"
  by (rule chunk_downloader_run_returns) (simp add: build_transfer_config_def MAX_BUFFER_SIZE_def)

text \<open>
  the opposite check is missing: a chunk whose data ends before its destinations are filled
  is accepted, and its last files stay unwritten.
\<close>

theorem short_chunk_is_accepted:
  "\<exists>s'. chunk_downloader_run (example_env [1, 2, 3]) example_config no_coder_ops (Inr no_coder_default)
     (example_chunk [\<lparr>loc_path = ''a'', loc_pos = 0, loc_size = 3\<rparr>, \<lparr>loc_path = ''b'', loc_pos = 0, loc_size = 9\<rparr>])
     fresh_chunk_state = Some (Inr (), s')
   \<and> apply_parts (sent s') (\<lambda>_. None) ''b'' = None"
  by (simp add: example_defs download_loop.simps send_loop.simps Let_def write_part_def)

end
