(* ===== verification/Download_Writer.thy ===== *)
theory Download_Writer
  imports Download_Chunk
begin

text \<open>
  The writer of a download (\<open>Writer\<close> of \<open>babel/src/download_job.rs\<close>): it receives the file parts
  of all chunks, writes them through a bounded set of open files, and records finished chunks and
  the progress. The contents of the destination files are a map by absolute path; the clock and
  the errors of the operating system come from the environment.
\<close>

section \<open>State and operations\<close>

record writer =
  opened_files :: "(path, nat) hash_map"
  destination_dir :: path
  open_limit :: nat
  writer_progress_path :: path
  writer_chunks_path :: path
  total_chunks_count :: nat
  downloaded_chunks :: "chunk list"
  written_files :: files
  meta_files :: fs

record writer_env =
  open_error :: "path \<Rightarrow> string option"
  file_write_error :: "path \<Rightarrow> string option"
  meta_env :: io_env

definition writer_new :: "path \<Rightarrow> nat \<Rightarrow> path \<Rightarrow> path \<Rightarrow> nat \<Rightarrow> chunk list \<Rightarrow> files \<Rightarrow> fs \<Rightarrow> writer" where
  "writer_new dir limit progress chunks n downloaded dest_files meta =
     \<lparr>opened_files = [], destination_dir = dir, open_limit = limit, writer_progress_path = progress,
      writer_chunks_path = chunks, total_chunks_count = n, downloaded_chunks = downloaded,
      written_files = dest_files, meta_files = meta\<rparr>"

text \<open>\<open>min_by\<close> on the timestamps: the first of the oldest entries.\<close>

fun oldest_entry :: "(path, nat) hash_map \<Rightarrow> (path \<times> nat) option" where
  "oldest_entry [] = None"
| "oldest_entry (x # xs) =
     (case oldest_entry xs of None \<Rightarrow> Some x | Some y \<Rightarrow> if snd x \<le> snd y then Some x else Some y)"

text \<open>\<open>file.write_all_at(&data, pos)?; file.flush()?\<close>\<close>

definition write_data :: "writer_env \<Rightarrow> path \<Rightarrow> nat \<Rightarrow> byte list \<Rightarrow> (writer, string, unit) action" where
  "write_data env p pos data w =
     (let full = path_join (destination_dir w) p
      in case file_write_error env full of
           Some e \<Rightarrow> (Inl e, w)
         | None \<Rightarrow> (Inr (), w\<lparr>written_files := write_part full pos data (written_files w)\<rparr>))"

definition evict_oldest :: "writer \<Rightarrow> writer" where
  "evict_oldest w =
     (if length (opened_files w) \<ge> open_limit w
      then (case oldest_entry (opened_files w) of
              Some (p, _) \<Rightarrow> w\<lparr>opened_files := AList.delete p (opened_files w)\<rparr>
            | None \<Rightarrow> w)
      else w)"

text \<open>Opening creates the file if there is none, and never truncates it.\<close>

definition open_file :: "writer_env \<Rightarrow> nat \<Rightarrow> path \<Rightarrow> (writer, string, unit) action" where
  "open_file env now p w =
     (let full = path_join (destination_dir w) p
      in case open_error env full of
           Some e \<Rightarrow> (Inl e, w)
         | None \<Rightarrow>
             (Inr (), w\<lparr>opened_files := AList.update p now (opened_files w),
                        written_files := (written_files w)(full \<mapsto> unwrap_or (written_files w full) [])\<rparr>))"

definition write_to_file :: "writer_env \<Rightarrow> nat \<Rightarrow> path \<Rightarrow> nat \<Rightarrow> byte list \<Rightarrow> (writer, string, unit) action" where
  "write_to_file env now p pos data w =
     (if map_of (opened_files w) p \<noteq> None
      then if data \<noteq> []
           then write_data env p pos data (w\<lparr>opened_files := AList.update p now (opened_files w)\<rparr>)
           else (Inr (), w)
      else try_then (open_file env now p)
             (\<lambda>_. if data \<noteq> [] then write_data env p pos data else ok ()) (evict_oldest w))"

definition lift_meta :: "(fs, string, unit) action \<Rightarrow> (writer, string, unit) action" where
  "lift_meta m w = (let (r, fs) = m (meta_files w) in (r, w\<lparr>meta_files := fs\<rparr>))"

definition append_chunk :: "writer_env \<Rightarrow> chunk \<Rightarrow> (writer, string, unit) action" where
  "append_chunk env c w = lift_meta (save_chunk (meta_env env) (writer_chunks_path w) c) w"

definition save_writer_progress :: "writer_env \<Rightarrow> (writer, string, unit) action" where
  "save_writer_progress env w =
     lift_meta (save_job_data (meta_env env) (writer_progress_path w)
       (ProgressJson \<lparr>progress_total = total_chunks_count w,
                      progress_current = length (downloaded_chunks w),
                      progress_message = ''chunks''\<rparr>)) w"

definition handle_chunk_data :: "writer_env \<Rightarrow> nat \<Rightarrow> chunk_data \<Rightarrow> (writer, string, unit) action" where
  "handle_chunk_data env now d =
     (case d of
        FilePart p pos data \<Rightarrow> write_to_file env now p pos data
      | EndOfChunk c \<Rightarrow>
          try_then (append_chunk env c) (\<lambda>_.
          try_then (update_state (\<lambda>w. w\<lparr>downloaded_chunks := downloaded_chunks w @ [c]\<rparr>)) (\<lambda>_.
          save_writer_progress env)))"

definition close_all_files :: "writer \<Rightarrow> writer" where
  "close_all_files w = w\<lparr>opened_files := []\<rparr>"

text \<open>\<open>Writer::run\<close>: what is received, with the clock and the run flag at each round. The end of the
  list is the end of the channel.\<close>

fun writer_run :: "writer_env \<Rightarrow> (bool \<times> nat \<times> chunk_data) list \<Rightarrow> writer \<Rightarrow> (string + chunk list) \<times> writer" where
  "writer_run env [] w = (let w' = close_all_files w in (Inr (downloaded_chunks w'), w'))"
| "writer_run env ((running, now, d) # ds) w =
     (if \<not> running then (let w' = close_all_files w in (Inr (downloaded_chunks w'), w'))
      else case handle_chunk_data env now d w of
             (Inl e, w') \<Rightarrow> (Inl (''Writer error: '' @ e), close_all_files w')
           | (Inr _, w') \<Rightarrow> writer_run env ds w')"

section \<open>Bound on the open files\<close>

definition writer_ok :: "writer \<Rightarrow> bool" where
  "writer_ok w \<longleftrightarrow> wf_map (opened_files w) \<and> length (opened_files w) \<le> open_limit w \<and> 0 < open_limit w
    \<and> (\<forall>p. map_of (opened_files w) p \<noteq> None \<longrightarrow> written_files w (path_join (destination_dir w) p) \<noteq> None)"

lemma oldest_entry_None [simp]: "oldest_entry m = None \<longleftrightarrow> m = []"
  by (cases m) (auto split: option.split)

lemma oldest_entry_mem: "oldest_entry m = Some x \<Longrightarrow> x \<in> set m \<and> (\<forall>y \<in> set m. snd x \<le> snd y)"
proof (induction m arbitrary: x)
  case Nil
  then show ?case by simp
next
  case (Cons z m)
  then show ?case by (cases "oldest_entry m") (fastforce split: if_splits)+
qed

lemma evict_oldest_ok:
  assumes "writer_ok w"
  shows "wf_map (opened_files (evict_oldest w))" "length (opened_files (evict_oldest w)) < open_limit w"
    "map_of (opened_files (evict_oldest w)) p \<noteq> None \<Longrightarrow> map_of (opened_files w) p \<noteq> None"
    "written_files (evict_oldest w) = written_files w" "destination_dir (evict_oldest w) = destination_dir w"
    "open_limit (evict_oldest w) = open_limit w"
proof -
  have *: "wf_map (opened_files (evict_oldest w)) \<and> length (opened_files (evict_oldest w)) < open_limit w
      \<and> (\<forall>p. map_of (opened_files (evict_oldest w)) p \<noteq> None \<longrightarrow> map_of (opened_files w) p \<noteq> None)"
  proof (cases "length (opened_files w) \<ge> open_limit w")
    case False
    with assms show ?thesis by (simp add: evict_oldest_def writer_ok_def)
  next
    case True
    with assms obtain q t where q: "oldest_entry (opened_files w) = Some (q, t)"
      by (cases "oldest_entry (opened_files w)") (auto simp: writer_ok_def)
    with oldest_entry_mem [OF q] have "map_of (opened_files w) q \<noteq> None"
      by (auto simp: map_of_eq_None_iff intro: rev_image_eqI)
    with True assms q length_delete_present [of "opened_files w" q] show ?thesis
      by (auto simp: evict_oldest_def writer_ok_def distinct_delete delete_conv' split: if_splits)
  qed
  then show "wf_map (opened_files (evict_oldest w))" "length (opened_files (evict_oldest w)) < open_limit w"
    "map_of (opened_files (evict_oldest w)) p \<noteq> None \<Longrightarrow> map_of (opened_files w) p \<noteq> None"
    by blast+
qed (auto simp: evict_oldest_def split: option.split)

lemma writer_ok_write_data [keeps_rules]: "keeps writer_ok (write_data env p pos data)"
  by (rule keepsI) (auto simp: write_data_def writer_ok_def Let_def write_part_def split: option.split)

lemma writer_ok_open_file:
  assumes "writer_ok w"
  shows "writer_ok (snd (open_file env now p (evict_oldest w)))"
proof -
  note e = evict_oldest_ok [OF assms]
  have "length (AList.update p now (opened_files (evict_oldest w))) \<le> open_limit w"
    using e(2) length_update_le [of p now "opened_files (evict_oldest w)"] by linarith
  moreover have "map_of (opened_files (evict_oldest w)) q \<noteq> None \<Longrightarrow>
      written_files w (path_join (destination_dir w) q) \<noteq> None" for q
    using e(3) assms by (auto simp: writer_ok_def)
  ultimately show ?thesis
    using e assms
    by (auto simp: open_file_def writer_ok_def Let_def distinct_update update_conv'
        simp del: map_of_eq_Some_iff Some_eq_map_of_iff split: option.split if_splits)
qed

lemma writer_ok_write_to_file [keeps_rules]: "keeps writer_ok (write_to_file env now p pos data)"
proof (rule keepsI)
  fix w assume w: "writer_ok w"
  show "writer_ok (snd (write_to_file env now p pos data w))"
  proof (cases "map_of (opened_files w) p = None")
    case False
    then have "length (AList.update p now (opened_files w)) = length (opened_files w)"
      by (rule length_update_present)
    with False w have "writer_ok (w\<lparr>opened_files := AList.update p now (opened_files w)\<rparr>)"
      by (auto simp: writer_ok_def distinct_update update_conv' split: if_splits)
    with False w show ?thesis
      by (simp add: write_to_file_def keepsD [OF writer_ok_write_data])
  next
    case True
    obtain r w1 where o1: "open_file env now p (evict_oldest w) = (r, w1)" by fastforce
    with writer_ok_open_file [OF w, of env now p] have "writer_ok w1" by simp
    with True o1 show ?thesis
      by (cases r) (simp_all add: write_to_file_def try_then_def keepsD [OF writer_ok_write_data])
  qed
qed

lemma writer_ok_lift_meta [keeps_rules]: "keeps writer_ok (lift_meta m)"
  by (rule keepsI) (simp add: lift_meta_def writer_ok_def split: prod.split)

lemma writer_ok_append_chunk [keeps_rules]: "keeps writer_ok (append_chunk env c)"
  by (rule keepsI) (simp add: append_chunk_def keepsD [OF writer_ok_lift_meta])

lemma writer_ok_save_progress [keeps_rules]: "keeps writer_ok (save_writer_progress env)"
  by (rule keepsI) (simp add: save_writer_progress_def keepsD [OF writer_ok_lift_meta])

lemma writer_ok_handle_chunk_data [keeps_rules]: "keeps writer_ok (handle_chunk_data env now d)"
  by (cases d) (auto simp: handle_chunk_data_def writer_ok_def intro!: keeps_rules)

lemma handle_chunk_data_limit: "open_limit (snd (handle_chunk_data env now d w)) = open_limit w"
proof -
  have lm: "keeps (\<lambda>v. open_limit v = open_limit w) (lift_meta m)" for m
    by (rule keepsI) (simp add: lift_meta_def split: prod.split)
  have ev: "open_limit (evict_oldest v) = open_limit v" for v
    by (simp add: evict_oldest_def split: option.split)
  have wf: "keeps (\<lambda>v. open_limit v = open_limit w) (write_to_file env now p pos data)" for p pos data
    by (rule keepsI)
      (auto simp: write_to_file_def write_data_def open_file_def try_then_def Let_def ev split: option.split)
  have "keeps (\<lambda>v. open_limit v = open_limit w) (append_chunk env c)"
    "keeps (\<lambda>v. open_limit v = open_limit w) (save_writer_progress env)" for c
    by (auto intro!: keepsI simp: append_chunk_def save_writer_progress_def keepsD [OF lm])
  then have "keeps (\<lambda>v. open_limit v = open_limit w) (handle_chunk_data env now d)"
    by (cases d) (auto simp: handle_chunk_data_def wf intro!: keeps_try_then keeps_update)
  then show ?thesis by (simp add: keeps_def)
qed

definition handle_all :: "writer_env \<Rightarrow> (nat \<times> chunk_data) list \<Rightarrow> writer \<Rightarrow> writer" where
  "handle_all env ds w = fold (\<lambda>(now, d) w. snd (handle_chunk_data env now d w)) ds w"

lemma handle_all_ok: "writer_ok w \<Longrightarrow> writer_ok (handle_all env ds w) \<and> open_limit (handle_all env ds w) = open_limit w"
proof (induction ds arbitrary: w)
  case Nil
  then show ?case by (simp add: handle_all_def)
next
  case (Cons x ds)
  obtain now d where "x = (now, d)" by fastforce
  with Cons.IH [OF keepsD [OF writer_ok_handle_chunk_data Cons.prems, of env now d]] show ?case
    by (simp add: handle_all_def handle_chunk_data_limit)
qed

text \<open>
  The writer never holds more files open than its limit, whatever parts arrive and whichever
  of its calls to the operating system fail.
\<close>

theorem writer_open_files_bounded:
  assumes "0 < limit"
  shows "length (opened_files (handle_all env ds (writer_new dir limit progress chunks n downloaded dest_files meta)))
    \<le> limit"
proof -
  have "writer_ok (writer_new dir limit progress chunks n downloaded dest_files meta)"
    using assms by (simp add: writer_new_def writer_ok_def)
  from handle_all_ok [OF this, of env ds] show ?thesis
    by (simp add: writer_ok_def writer_new_def)
qed

theorem writer_open_files_bounded_witness:
  "length (opened_files (handle_all \<lparr>open_error = (\<lambda>_. None), file_write_error = (\<lambda>_. None), meta_env = no_io_errors\<rparr>
     [(1, FilePart ''a'' 0 []), (2, FilePart ''b'' 0 []), (3, FilePart ''c'' 0 [])]
     (writer_new ''/d'' 2 ''/p'' ''/c'' 1 [] (\<lambda>_. None) (\<lambda>_. None)))) \<le> 2"
  by (rule writer_open_files_bounded) simp

section \<open>Effect on the files\<close>

definition relocate :: "path \<Rightarrow> chunk_data \<Rightarrow> chunk_data" where
  "relocate dir d = (case d of FilePart p pos data \<Rightarrow> FilePart (path_join dir p) pos data | EndOfChunk c \<Rightarrow> EndOfChunk c)"

definition ended_chunks :: "chunk_data list \<Rightarrow> chunk list" where
  "ended_chunks ds = concat (map (\<lambda>d. case d of EndOfChunk c \<Rightarrow> [c] | FilePart _ _ _ \<Rightarrow> []) ds)"

text \<open>What the writer has on record: the chunks file lists the downloaded chunks.\<close>

definition chunks_recorded :: "writer \<Rightarrow> bool" where
  "chunks_recorded w \<longleftrightarrow> load_chunks (writer_chunks_path w) (meta_files w) = Inr (downloaded_chunks w)
     \<and> writer_chunks_path w \<noteq> writer_progress_path w"

lemma write_to_file_Inr:
  assumes "writer_ok w" and "write_to_file env now p pos data w = (Inr (), w')"
  shows "written_files w' = write_part (path_join (destination_dir w) p) pos data (written_files w)
    \<and> destination_dir w' = destination_dir w \<and> downloaded_chunks w' = downloaded_chunks w
    \<and> meta_files w' = meta_files w \<and> writer_chunks_path w' = writer_chunks_path w
    \<and> writer_progress_path w' = writer_progress_path w"
proof -
  have ev: "written_files (evict_oldest w) = written_files w" "destination_dir (evict_oldest w) = destination_dir w"
    "downloaded_chunks (evict_oldest w) = downloaded_chunks w" "meta_files (evict_oldest w) = meta_files w"
    "writer_chunks_path (evict_oldest w) = writer_chunks_path w"
    "writer_progress_path (evict_oldest w) = writer_progress_path w"
    by (simp_all add: evict_oldest_def split: option.split)
  show ?thesis
  proof (cases "map_of (opened_files w) p = None")
    case True
    with assms(2) ev show ?thesis
      by (auto simp: write_to_file_def open_file_def write_data_def try_then_def Let_def write_part_def file_write_def
          fun_eq_iff split: option.splits if_splits)
  next
    case False
    from assms(1) have "\<forall>p. map_of (opened_files w) p \<noteq> None \<longrightarrow>
        written_files w (path_join (destination_dir w) p) \<noteq> None"
      unfolding writer_ok_def by blast
    with False obtain bytes where "written_files w (path_join (destination_dir w) p) = Some bytes"
      by blast
    with False assms(2) show ?thesis
      by (auto simp: write_to_file_def write_data_def Let_def write_part_def file_write_def
          fun_eq_iff split: option.splits if_splits)
  qed
qed

lemma handle_chunk_data_Inr:
  assumes "writer_ok w" and "handle_chunk_data env now d w = (Inr (), w')" and "chunks_recorded w"
  shows "written_files w' = apply_chunk_data (relocate (destination_dir w) d) (written_files w)
    \<and> destination_dir w' = destination_dir w \<and> downloaded_chunks w' = downloaded_chunks w @ ended_chunks [d]
    \<and> chunks_recorded w' \<and> writer_chunks_path w' = writer_chunks_path w"
proof (cases d)
  case (FilePart p pos data)
  with assms write_to_file_Inr [OF assms(1), of env now p pos data w'] show ?thesis
    by (simp add: handle_chunk_data_def relocate_def ended_chunks_def chunks_recorded_def)
next
  case (EndOfChunk c)
  have "load_chunks p (fs(q \<mapsto> x)) = load_chunks p fs" if "p \<noteq> q" for p q fs x
    using that by (simp add: load_chunks_def)
  moreover have "write_error (meta_env env) (writer_chunks_path w) = None"
    using assms(2) EndOfChunk
    by (auto simp: handle_chunk_data_def append_chunk_def lift_meta_def save_chunk_def try_then_def
        split: option.splits)
  ultimately show ?thesis
    using assms(2,3) EndOfChunk load_chunks_save_chunk [of "meta_env env" "writer_chunks_path w" "meta_files w"
        "downloaded_chunks w" c]
    by (auto simp: handle_chunk_data_def append_chunk_def save_writer_progress_def lift_meta_def try_then_def
        relocate_def ended_chunks_def chunks_recorded_def save_job_data_def
        split: prod.splits sum.splits option.splits)
qed

lemma writer_run_effect:
  assumes "writer_ok w" and "chunks_recorded w" and "list_all fst ds"
    and "writer_run env ds w = (Inr cs, w')"
  shows "written_files w' = apply_parts (map (relocate (destination_dir w) \<circ> snd \<circ> snd) ds) (written_files w)
    \<and> cs = downloaded_chunks w @ ended_chunks (map (snd \<circ> snd) ds)
    \<and> load_chunks (writer_chunks_path w) (meta_files w') = Inr cs \<and> opened_files w' = []"
  using assms
proof (induction ds arbitrary: w)
  case Nil
  then show ?case by (auto simp: close_all_files_def ended_chunks_def chunks_recorded_def)
next
  case (Cons x ds)
  obtain now d where x: "x = (True, now, d)" using Cons.prems(3) by (cases x) auto
  with Cons.prems(4) obtain w1 where w1: "handle_chunk_data env now d w = (Inr (), w1)"
    and rec: "writer_run env ds w1 = (Inr cs, w')"
    by (auto split: prod.splits sum.splits)
  note step = handle_chunk_data_Inr [OF Cons.prems(1) w1 Cons.prems(2)]
  have "writer_ok w1" by (rule keepsD_eq [OF writer_ok_handle_chunk_data Cons.prems(1) w1])
  from Cons.IH [OF this _ _ rec] step Cons.prems(3) x show ?case
    by (simp add: ended_chunks_def)
qed

text \<open>
  C24: a writer that is not stopped and does not fail has applied every part it received to the
  destination files, in order and despite closing and reopening files, has recorded in its chunks
  file exactly the chunks that ended, and leaves no file open.
\<close>

theorem writer_run_applies_parts:
  assumes "0 < limit" and "chunks \<noteq> progress" and "load_chunks chunks meta = Inr downloaded"
    and "list_all fst ds"
    and "writer_run env ds (writer_new dir limit progress chunks n downloaded dest_files meta) = (Inr cs, w')"
  shows "written_files w' = apply_parts (map (relocate dir \<circ> snd \<circ> snd) ds) dest_files
    \<and> cs = downloaded @ ended_chunks (map (snd \<circ> snd) ds)
    \<and> load_chunks chunks (meta_files w') = Inr cs \<and> opened_files w' = []"
proof -
  have "writer_ok (writer_new dir limit progress chunks n downloaded dest_files meta)"
    "chunks_recorded (writer_new dir limit progress chunks n downloaded dest_files meta)"
    using assms(1-3) by (simp_all add: writer_new_def writer_ok_def chunks_recorded_def)
  from writer_run_effect [OF this assms(4,5)] show ?thesis
    by (simp add: writer_new_def)
qed

definition example_events :: "(bool \<times> nat \<times> chunk_data) list" where
  "example_events =
     [(True, 1, FilePart ''a'' 1 [7]), (True, 2, FilePart ''b'' 0 [8]), (True, 3, EndOfChunk (example_chunk []))]"

theorem writer_run_applies_parts_witness:
  "\<exists>w' :: writer. written_files w' ''/d/a'' = Some [0, 7] \<and> load_chunks ''/c'' (meta_files w') = Inr [example_chunk []]"
proof -
  let ?env = "\<lparr>open_error = (\<lambda>_. None), file_write_error = (\<lambda>_. None), meta_env = no_io_errors\<rparr>"
  obtain w' where w': "writer_run ?env example_events (writer_new ''/d'' 1 ''/p'' ''/c'' 1 [] (\<lambda>_. None) (\<lambda>_. None))
      = (Inr [example_chunk []], w')"
    by (simp add: handle_chunk_data_def write_to_file_def evict_oldest_def open_file_def write_data_def
        append_chunk_def save_writer_progress_def lift_meta_def save_chunk_def save_job_data_def
        try_then_def writer_new_def close_all_files_def no_io_errors_def Let_def example_events_def)
  from writer_run_applies_parts [OF _ _ _ _ w']
  have "written_files w' = apply_parts (map (relocate ''/d'' \<circ> snd \<circ> snd) example_events) (\<lambda>_. None)
      \<and> load_chunks ''/c'' (meta_files w') = Inr [example_chunk []]"
    by (simp add: load_chunks_def example_events_def)
  then show ?thesis
    by - (rule exI [of _ w'], simp add: example_events_def relocate_def path_join_def write_part_def file_write_def write_at_def)
qed

end
