(* ===== verification/Download.thy ===== *)
theory Download
  imports Download_Writer
begin

text \<open>
  The download job (\<open>Downloader\<close>, \<open>ClientDownloader\<close> and their chunk downloaders in
  \<open>babel/src/download_job.rs\<close>): metadata and its cleanup, the check of the disk space, the launch
  of chunk downloads under the limit of runners, and the loop that waits for them.

  Parameters of the model: the answers of the API (after the retries of \<open>with_selective_retry!\<close>,
  whose loop is in the theory on retries), the disk, and the order in which the running downloads
  finish together with their results. A hash set of indexes is a distinct list in the order its
  iteration happens to have.
\<close>

section \<open>Metadata and its cleanup\<close>

definition CHUNKS_FILENAME :: string where "CHUNKS_FILENAME = ''download.chunks''"
definition PARTS_FILENAME :: string where "PARTS_FILENAME = ''download.parts''"
definition METADATA_FILENAME :: string where "METADATA_FILENAME = ''download.metadata''"

record download_api =
  get_download_metadata :: "string + download_metadata"
  get_download_chunks :: "nat \<Rightarrow> nat list \<Rightarrow> string + chunk list"

definition remove_remnants :: "io_env \<Rightarrow> chunk list \<Rightarrow> path \<Rightarrow> (fs, string, unit) action" where
  "remove_remnants io chunks dest_dir =
     for_each (\<lambda>c. for_each (\<lambda>d.
       let p = path_join dest_dir (loc_path d)
       in remove_if_exists io p (''failed to remove remnant file '' @ quoted p)) (destinations c)) chunks"

definition cleanup_parts :: "io_env \<Rightarrow> path \<Rightarrow> path \<Rightarrow> (fs, string, unit) action" where
  "cleanup_parts io parts_path dest_dir fs =
     (if file_exists parts_path fs
      then try_then (lift_result (load_chunks parts_path)) (\<lambda>chunks.
           try_then (remove_remnants io chunks dest_dir) (\<lambda>_.
           action_context ''failed to cleanup download parts file'' (remove_file io parts_path))) fs
      else (Inr (), fs))"

definition cleanup_job :: "io_env \<Rightarrow> path \<Rightarrow> path \<Rightarrow> (fs, string, unit) action" where
  "cleanup_job io meta_dir dest_dir =
     try_then (remove_if_exists io (path_join meta_dir CHUNKS_FILENAME) ''failed to cleanup download chunks file'') (\<lambda>_.
     try_then (cleanup_parts io (path_join meta_dir PARTS_FILENAME) dest_dir) (\<lambda>_.
     remove_if_exists io (path_join meta_dir METADATA_FILENAME) ''failed to cleanup download metadata file''))"

text \<open>\<open>Downloader::get_metadata\<close>\<close>

definition downloader_get_metadata ::
  "io_env \<Rightarrow> download_api \<Rightarrow> path \<Rightarrow> (fs, string, download_metadata \<times> chunk list) action" where
  "downloader_get_metadata io api meta_dir fs =
     (let metadata_path = path_join meta_dir METADATA_FILENAME;
          chunks_path = path_join meta_dir CHUNKS_FILENAME
      in if file_exists metadata_path fs
         then try_then (lift_result (load_metadata metadata_path)) (\<lambda>metadata.
              try_then (lift_result (load_chunks chunks_path)) (\<lambda>chunks.
              ok (metadata, chunks))) fs
         else try_then (lift_result (\<lambda>_. get_download_metadata api)) (\<lambda>metadata.
              try_then (lift_result (\<lambda>_. get_download_chunks api (data_version metadata) [0..<chunks_count metadata])) (\<lambda>chunks.
              try_then (save_job_data io metadata_path (MetadataJson metadata)) (\<lambda>_.
              try_then (save_job_data io chunks_path (ChunksJson chunks)) (\<lambda>_.
              ok (metadata, chunks))))) fs)"

definition MANIFEST_HEADER :: string where "MANIFEST_HEADER = ''manifest-header.json''"
definition MANIFEST_DATA :: string where "MANIFEST_DATA = ''manifest-data.json''"

text \<open>\<open>ClientDownloader::get_metadata\<close>; the API is the one for the store key of the client.\<close>

definition client_get_metadata ::
  "io_env \<Rightarrow> download_api \<Rightarrow> path \<Rightarrow> path \<Rightarrow> (fs, string, download_metadata \<times> chunk list) action" where
  "client_get_metadata io api meta_dir dest_dir fs =
     (let metadata_path = path_join meta_dir MANIFEST_HEADER
      in if file_exists metadata_path fs
         then try_then (lift_result (load_metadata metadata_path)) (\<lambda>metadata.
              try_then (lift_result (load_chunks (path_join meta_dir MANIFEST_DATA))) (\<lambda>chunks.
              ok (metadata, chunks))) fs
         else try_then (cleanup_job io meta_dir dest_dir) (\<lambda>_.
              try_then (lift_result (\<lambda>_. get_download_metadata api)) (\<lambda>metadata.
              try_then (save_job_data io metadata_path (MetadataJson metadata)) (\<lambda>_.
              ok (metadata, [])))) fs)"

section \<open>Disk space\<close>

definition downloaded_bytes :: "chunk list \<Rightarrow> nat" where
  "downloaded_bytes chunks = fold (\<lambda>c acc. acc + fold (\<lambda>d acc. acc + loc_size d) (destinations c) 0) chunks 0"

definition required_disk_space :: "download_metadata \<Rightarrow> chunk list \<Rightarrow> string + nat" where
  "required_disk_space metadata downloaded =
     (if total_size metadata \<ge> downloaded_bytes downloaded
      then Inr (total_size metadata - downloaded_bytes downloaded)
      else Inl ''invalid download manifest - total_size is smaller than already downloaded data'')"

text \<open>\<open>check_disk_space\<close> of both downloaders, from the space the system reports as available.\<close>

definition check_disk_space :: "string + nat \<Rightarrow> download_metadata \<Rightarrow> chunk list \<Rightarrow> string + unit" where
  "check_disk_space available metadata downloaded =
     and_then available (\<lambda>space.
     and_then (required_disk_space metadata downloaded) (\<lambda>required.
     if required > space then Inl ''Can't download data: not enough disk space'' else Inr ()))"

section \<open>Launching chunk downloads\<close>

text \<open>\<open>futures\<close> are the running downloads, \<open>finished_chunks\<close> those that ended well.\<close>

record downloaders =
  chunk_indexes :: "nat list"
  fetched_chunks :: "chunk list"
  futures :: "chunk list"
  finished_chunks :: "chunk list"
  runners_limit :: nat
  launch_version :: nat
  parts_path :: path
  launch_files :: fs

definition parallel_downloaders_new ::
  "transfer_config \<Rightarrow> nat \<Rightarrow> nat \<Rightarrow> nat list \<Rightarrow> fs \<Rightarrow> downloaders" where
  "parallel_downloaders_new cfg chunks version downloaded_indexes fs =
     \<lparr>chunk_indexes = filter (\<lambda>i. i \<notin> set downloaded_indexes) [0..<chunks], fetched_chunks = [], futures = [],
      finished_chunks = [], runners_limit = max_runners cfg, launch_version = version,
      parts_path = path_join (archive_jobs_meta_dir cfg) PARTS_FILENAME, launch_files = fs\<rparr>"

definition client_downloaders_new ::
  "transfer_config \<Rightarrow> nat \<Rightarrow> nat \<Rightarrow> nat list \<Rightarrow> fs \<Rightarrow> downloaders" where
  "client_downloaders_new cfg chunks version downloaded_indexes fs =
     \<lparr>chunk_indexes = filter (\<lambda>i. i \<notin> set downloaded_indexes) [0..<chunks], fetched_chunks = [], futures = [],
      finished_chunks = [], runners_limit = min (max_runners cfg) (max_opened_files cfg), launch_version = version,
      parts_path = path_join (archive_jobs_meta_dir cfg) ''download-parts.json'', launch_files = fs\<rparr>"

text \<open>The \<open>while\<close> loop of \<open>launch_more\<close> pops the fetched chunks from the end: its argument is the
  reversed list of them.\<close>

fun launch_chunks :: "io_env \<Rightarrow> chunk list \<Rightarrow> (downloaders, string, unit) action" where
  "launch_chunks io [] d = (Inr (), d\<lparr>fetched_chunks := []\<rparr>)"
| "launch_chunks io (c # cs) d =
     (if length (futures d) < runners_limit d
      then if chunk_index c \<in> set (chunk_indexes d)
           then let d1 = d\<lparr>chunk_indexes := remove1 (chunk_index c) (chunk_indexes d), fetched_chunks := rev cs\<rparr>
                in case save_chunk io (parts_path d) c (launch_files d) of
                     (Inl e, fs) \<Rightarrow> (Inl e, d1\<lparr>launch_files := fs\<rparr>)
                   | (Inr _, fs) \<Rightarrow> launch_chunks io cs (d1\<lparr>launch_files := fs, futures := futures d @ [c]\<rparr>)
           else launch_chunks io cs d
      else (Inr (), d\<lparr>fetched_chunks := rev (c # cs)\<rparr>))"

fun client_launch_chunks :: "chunk list \<Rightarrow> (downloaders, string, unit) action" where
  "client_launch_chunks [] d = (Inr (), d\<lparr>fetched_chunks := []\<rparr>)"
| "client_launch_chunks (c # cs) d =
     (if length (futures d) < runners_limit d
      then client_launch_chunks cs
             (d\<lparr>chunk_indexes := remove1 (chunk_index c) (chunk_indexes d), futures := futures d @ [c]\<rparr>)
      else (Inr (), d\<lparr>fetched_chunks := rev (c # cs)\<rparr>))"

text \<open>\<open>launch_more\<close>, up to the loop.\<close>

definition fetch_more :: "download_api \<Rightarrow> (downloaders, string, unit) action" where
  "fetch_more api d =
     (if fetched_chunks d = []
      then case get_download_chunks api (launch_version d) (take (runners_limit d) (chunk_indexes d)) of
             Inl e \<Rightarrow> (Inl e, d)
           | Inr cs \<Rightarrow> (Inr (), d\<lparr>fetched_chunks := cs\<rparr>)
      else (Inr (), d))"

definition launch_more :: "io_env \<Rightarrow> download_api \<Rightarrow> (downloaders, string, unit) action" where
  "launch_more io api d =
     (if chunk_indexes d \<noteq> []
      then try_then (fetch_more api) (\<lambda>_ d. launch_chunks io (rev (fetched_chunks d)) d) d
      else (Inr (), d))"

definition client_launch_more :: "download_api \<Rightarrow> (downloaders, string, unit) action" where
  "client_launch_more api d =
     (if chunk_indexes d \<noteq> []
      then try_then (fetch_more api) (\<lambda>_ d. client_launch_chunks (rev (fetched_chunks d)) d) d
      else (Inr (), d))"

section \<open>The loop of a download\<close>

text \<open>One running download finishes: which one, how, and whether the job's flag was stopped from
  outside before the round.\<close>

record completion =
  stop_requested :: bool
  completed :: nat
  completion_result :: "string + unit"

text \<open>\<open>wait_for_next\<close>: \<open>None\<close> when nothing is running.\<close>

definition wait_for_next :: "completion \<Rightarrow> downloaders \<Rightarrow> ((string + unit) \<times> downloaders) option" where
  "wait_for_next e d =
     (if futures d = [] then None
      else let i = completed e mod length (futures d); c = futures d ! i;
               d1 = d\<lparr>futures := take i (futures d) @ drop (Suc i) (futures d)\<rparr>
           in case completion_result e of
                Inr _ \<Rightarrow> Some (Inr (), d1\<lparr>finished_chunks := finished_chunks d @ [c]\<rparr>)
              | Inl err \<Rightarrow> Some (Inl err, d1))"

definition launch_if_running ::
  "(downloaders, string, unit) action \<Rightarrow> downloaders \<times> runners_state \<Rightarrow> downloaders \<times> runners_state" where
  "launch_if_running launch = (\<lambda>(d, st).
     if runners_run st
     then (case launch d of (Inl e, d1) \<Rightarrow> (d1, handle_error e st) | (Inr _, d1) \<Rightarrow> (d1, st))
     else (d, st))"

text \<open>The loop of \<open>run\<close>, for as many rounds as completions are given: \<open>None\<close> when it needs more.\<close>

fun downloaders_loop ::
  "(downloaders, string, unit) action \<Rightarrow> completion list \<Rightarrow> downloaders \<times> runners_state \<Rightarrow>
     (downloaders \<times> runners_state) option" where
  "downloaders_loop launch [] s = None"
| "downloaders_loop launch (e # es) (d, st) =
     (let st1 = (if stop_requested e then st\<lparr>runners_run := False\<rparr> else st);
          (d2, st2) = launch_if_running launch (d, st1)
      in case wait_for_next e d2 of
           None \<Rightarrow> Some (d2, st2)
         | Some (Inl err, d3) \<Rightarrow> downloaders_loop launch es (d3, handle_error err st2)
         | Some (Inr _, d3) \<Rightarrow> downloaders_loop launch es (d3, st2))"

definition runners_start :: runners_state where
  "runners_start = \<lparr>runners_result = Inr (), runners_run = True\<rparr>"

text \<open>The end of \<open>run\<close>: the writer's result, the downloaders' result, the file times, the flag.\<close>

definition download_finish :: "string + chunk list \<Rightarrow> runners_state \<Rightarrow> bool \<Rightarrow> string + unit" where
  "download_finish writer_result st running =
     and_then writer_result (\<lambda>_. and_then (runners_result st) (\<lambda>_.
     if running then Inr () else Inl ''download interrupted''))"

record download_job_env =
  job_io :: io_env
  job_api :: download_api
  job_available_space :: "string + nat"
  job_completions :: "completion list"
  job_writer_result :: "string + chunk list"
  job_running :: bool

text \<open>\<open>Downloader::run\<close> and \<open>ClientDownloader::run\<close>; the writer, which runs beside the loop, is
  given by its result. \<open>None\<close>: the completions do not suffice.\<close>

definition downloader_run ::
  "download_job_env \<Rightarrow> transfer_config \<Rightarrow> fs \<Rightarrow> ((string + unit) \<times> downloaders option) option" where
  "downloader_run env cfg fs =
     (case downloader_get_metadata (job_io env) (job_api env) (archive_jobs_meta_dir cfg) fs of
        (Inl e, _) \<Rightarrow> Some (Inl e, None)
      | (Inr (metadata, downloaded), fs1) \<Rightarrow>
          (case check_disk_space (job_available_space env) metadata downloaded of
             Inl e \<Rightarrow> Some (Inl e, None)
           | Inr _ \<Rightarrow>
               (case downloaders_loop (launch_more (job_io env) (job_api env)) (job_completions env)
                   (parallel_downloaders_new cfg (chunks_count metadata) (data_version metadata)
                      (map chunk_index downloaded) fs1, runners_start) of
                  None \<Rightarrow> None
                | Some (d, st) \<Rightarrow>
                    Some (download_finish (job_writer_result env) st (job_running env), Some d))))"

definition client_downloader_run ::
  "download_job_env \<Rightarrow> transfer_config \<Rightarrow> path \<Rightarrow> fs \<Rightarrow> ((string + unit) \<times> downloaders option) option" where
  "client_downloader_run env cfg dest_dir fs =
     (case client_get_metadata (job_io env) (job_api env) (archive_jobs_meta_dir cfg) dest_dir fs of
        (Inl e, _) \<Rightarrow> Some (Inl e, None)
      | (Inr (metadata, downloaded), fs1) \<Rightarrow>
          (case check_disk_space (job_available_space env) metadata downloaded of
             Inl e \<Rightarrow> Some (Inl e, None)
           | Inr _ \<Rightarrow>
               (case downloaders_loop (client_launch_more (job_api env)) (job_completions env)
                   (client_downloaders_new cfg (chunks_count metadata) (data_version metadata)
                      (map chunk_index downloaded) fs1, runners_start) of
                  None \<Rightarrow> None
                | Some (d, st) \<Rightarrow>
                    Some (download_finish (job_writer_result env) st (job_running env), Some d))))"

text \<open>\<open>ClientDownloader::new\<close>: each client keeps its metadata in a directory of its own.\<close>

definition client_config :: "transfer_config \<Rightarrow> string \<Rightarrow> transfer_config" where
  "client_config cfg client_name =
     (let dir = path_join (archive_jobs_meta_dir cfg) (''download_'' @ client_name)
      in cfg\<lparr>archive_jobs_meta_dir := dir, progress_file_path := path_join dir ''download.progress''\<rparr>)"

section \<open>Conservation of the chunks\<close>

text \<open>The indexes a download is responsible for: not yet launched, running, or finished well.\<close>

definition workload :: "downloaders \<Rightarrow> nat multiset" where
  "workload d = mset (chunk_indexes d) + mset (map chunk_index (futures d)) + mset (map chunk_index (finished_chunks d))"

definition outstanding :: "downloaders \<Rightarrow> nat" where
  "outstanding d = length (chunk_indexes d) + length (futures d)"

lemma size_workload: "size (workload d) = outstanding d + length (finished_chunks d)"
  by (simp add: workload_def outstanding_def)

lemma mset_take_drop_nth: "i < length xs \<Longrightarrow> mset (take i xs @ drop (Suc i) xs) = mset xs - {#xs ! i#}"
proof -
  assume "i < length xs"
  then have "mset xs = mset (take i xs @ xs ! i # drop (Suc i) xs)"
    by (subst id_take_nth_drop [of i xs]) simp_all
  then show ?thesis by simp
qed

lemma wait_for_next_Some:
  assumes "wait_for_next e d = Some (r, d')"
  shows "workload d' \<subseteq># workload d \<and> (r = Inr () \<longrightarrow> workload d' = workload d) \<and> outstanding d' < outstanding d
    \<and> chunk_indexes d' = chunk_indexes d \<and> fetched_chunks d' = fetched_chunks d
    \<and> runners_limit d' = runners_limit d \<and> length (futures d') < length (futures d)"
proof -
  define i where "i = completed e mod length (futures d)"
  from assms have ne: "futures d \<noteq> []" by (auto simp: wait_for_next_def split: if_splits)
  then have i: "i < length (futures d)" by (simp add: i_def)
  have m: "mset (map chunk_index (take i (futures d) @ drop (Suc i) (futures d)))
      = mset (map chunk_index (futures d)) - {#chunk_index (futures d ! i)#}"
    using i mset_take_drop_nth [of i "map chunk_index (futures d)"] by (simp add: take_map drop_map)
  have mem: "chunk_index (futures d ! i) \<in># mset (map chunk_index (futures d))"
    using i by (auto intro: nth_mem)
  have len: "length (take i (futures d) @ drop (Suc i) (futures d)) < length (futures d)"
    using i by simp
  from assms ne have d': "d' = (case completion_result e of
        Inr _ \<Rightarrow> d\<lparr>futures := take i (futures d) @ drop (Suc i) (futures d), finished_chunks := finished_chunks d @ [futures d ! i]\<rparr>
      | Inl _ \<Rightarrow> d\<lparr>futures := take i (futures d) @ drop (Suc i) (futures d)\<rparr>)"
    and r: "r = completion_result e"
    by (auto simp: wait_for_next_def i_def Let_def split: sum.splits)
  show ?thesis
  proof (cases "completion_result e")
    case (Inl err)
    with d' r m len show ?thesis
      by (auto simp: workload_def outstanding_def)
  next
    case (Inr u)
    from mem have "mset (map chunk_index (futures d)) - {#chunk_index (futures d ! i)#} + {#chunk_index (futures d ! i)#}
        = mset (map chunk_index (futures d))" by (rule insert_DiffM2)
    with d' Inr m have "workload d' = workload d"
      by (simp add: workload_def)
    moreover have "0 < length (futures d)" using ne by simp
    ultimately show ?thesis using d' Inr i by (simp add: outstanding_def)
  qed
qed

text \<open>What the loop of a download relies on, whichever way chunks are launched.\<close>

locale launcher =
  fixes launch :: "(downloaders, string, unit) action"
    and inv :: "downloaders \<Rightarrow> bool"
  assumes inv_launch: "inv d \<Longrightarrow> inv (snd (launch d))"
    and inv_wait: "inv d \<Longrightarrow> wait_for_next e d = Some (r, d') \<Longrightarrow> inv d'"
    and launch_workload: "inv d \<Longrightarrow> workload (snd (launch d)) \<subseteq># workload d"
    and launch_conserves: "inv d \<Longrightarrow> launch d = (Inr u, d') \<Longrightarrow> workload d' = workload d"
    and launch_finished: "inv d \<Longrightarrow> finished_chunks (snd (launch d)) = finished_chunks d"
begin

lemma launch_outstanding: "inv d \<Longrightarrow> outstanding (snd (launch d)) \<le> outstanding d"
  using size_mset_mono [OF launch_workload, of d]
  by (simp add: size_workload launch_finished)

lemma launch_if_running_step:
  assumes "inv d" and "launch_if_running launch (d, st) = (d', st')"
  shows "inv d' \<and> workload d' \<subseteq># workload d \<and> outstanding d' \<le> outstanding d
    \<and> (runners_result st' = Inr () \<longrightarrow> runners_result st = Inr () \<and> workload d' = workload d)"
proof (cases "runners_run st")
  case False
  with assms show ?thesis by (simp add: launch_if_running_def)
next
  case True
  obtain r d1 where l: "launch d = (r, d1)" by fastforce
  show ?thesis
  proof (cases r)
    case (Inl e)
    with True l assms inv_launch [OF assms(1)] launch_workload [OF assms(1)] launch_outstanding [OF assms(1)]
      handle_error_result [of e st]
    show ?thesis by (auto simp: launch_if_running_def)
  next
    case (Inr u)
    with True l assms inv_launch [OF assms(1)] launch_outstanding [OF assms(1)] launch_conserves [OF assms(1), of u d1]
    show ?thesis by (auto simp: launch_if_running_def)
  qed
qed

lemma loop_ends:
  assumes "inv d" and "outstanding d < length es"
  shows "\<exists>d' st'. downloaders_loop launch es (d, st) = Some (d', st')"
  using assms
proof (induction es arbitrary: d st)
  case Nil
  then show ?case by simp
next
  case (Cons e es)
  obtain d2 st2 where l: "launch_if_running launch (d, if stop_requested e then st\<lparr>runners_run := False\<rparr> else st) = (d2, st2)"
    by fastforce
  note step = launch_if_running_step [OF Cons.prems(1) l]
  show ?case
  proof (cases "wait_for_next e d2")
    case None
    with l show ?thesis by (simp add: Let_def)
  next
    case (Some rd)
    obtain r d3 where rd: "rd = (r, d3)" by fastforce
    from wait_for_next_Some [OF Some [unfolded rd]] step Cons.prems have "outstanding d3 < length es" by simp
    with Cons.IH [OF inv_wait [OF _ Some [unfolded rd]] this] step l Some rd show ?thesis
      by (cases r) (simp_all add: Let_def)
  qed
qed

lemma loop_conserves:
  assumes "inv d" and "downloaders_loop launch es (d, st) = Some (d', st')"
  shows "workload d' \<subseteq># workload d
    \<and> (runners_result st' = Inr () \<longrightarrow> runners_result st = Inr () \<and> workload d' = workload d)"
  using assms
proof (induction es arbitrary: d st)
  case Nil
  then show ?case by simp
next
  case (Cons e es)
  let ?st1 = "if stop_requested e then st\<lparr>runners_run := False\<rparr> else st"
  obtain d2 st2 where l: "launch_if_running launch (d, ?st1) = (d2, st2)" by fastforce
  have st1: "runners_result ?st1 = runners_result st" by simp
  note step = launch_if_running_step [OF Cons.prems(1) l, unfolded st1]
  show ?case
  proof (cases "wait_for_next e d2")
    case None
    with l Cons.prems(2) step show ?thesis by (simp add: Let_def)
  next
    case (Some rd)
    obtain r d3 where rd: "rd = (r, d3)" by fastforce
    note w = wait_for_next_Some [OF Some [unfolded rd]]
    have inv3: "inv d3" using inv_wait [OF _ Some [unfolded rd]] step by blast
    show ?thesis
    proof (cases r)
      case (Inl err)
      with l Some rd Cons.prems(2) have "downloaders_loop launch es (d3, handle_error err st2) = Some (d', st')"
        by (simp add: Let_def)
      from Cons.IH [OF inv3 this] handle_error_result [of err st2] w step show ?thesis
        by (auto intro: subset_mset.order_trans)
    next
      case (Inr u)
      with l Some rd Cons.prems(2) have "downloaders_loop launch es (d3, st2) = Some (d', st')"
        by (simp add: Let_def)
      from Cons.IH [OF inv3 this] Inr w step show ?thesis
        by auto
    qed
  qed
qed

end

text \<open>A launcher that also makes progress whenever something is left.\<close>

locale progressing_launcher = launcher +
  assumes progress: "inv d \<Longrightarrow> launch d = (Inr u, d') \<Longrightarrow> futures d' = [] \<Longrightarrow> chunk_indexes d' = []"
begin

lemma loop_completes:
  assumes "inv d" and "downloaders_loop launch es (d, st) = Some (d', st')"
    and "runners_result st' = Inr ()" and "runners_run st" and "\<forall>e \<in> set es. \<not> stop_requested e"
  shows "chunk_indexes d' = [] \<and> futures d' = []"
  using assms
proof (induction es arbitrary: d st)
  case Nil
  then show ?case by simp
next
  case (Cons e es)
  have ns: "\<not> stop_requested e" using Cons.prems(5) by simp
  obtain r d2 where l: "launch d = (r, d2)" by fastforce
  have inv2: "inv d2" using inv_launch [OF Cons.prems(1)] l by simp
  show ?case
  proof (cases r)
    case (Inl err)
    then have lr: "launch_if_running launch (d, st) = (d2, handle_error err st)"
      using l Cons.prems(4) by (simp add: launch_if_running_def)
    obtain e0 where bad: "runners_result (handle_error err st) = Inl e0"
      using handle_error_result by blast
    have "runners_result st' \<noteq> Inr ()"
    proof (cases "wait_for_next e d2")
      case None
      with lr ns bad Cons.prems(2) show ?thesis by (auto simp: Let_def)
    next
      case (Some rd)
      obtain q d3 where rd: "rd = (q, d3)" by fastforce
      have inv3: "inv d3" using inv_wait [OF inv2 Some [unfolded rd]] .
      have "downloaders_loop launch es (d3, handle_error err st) = Some (d', st')"
        using lr ns Some rd Cons.prems(2) handle_error_first [OF bad] by (cases q) (simp_all add: Let_def)
      from loop_conserves [OF inv3 this] bad show ?thesis by auto
    qed
    with Cons.prems(3) show ?thesis by simp
  next
    case (Inr u)
    then have lr: "launch_if_running launch (d, st) = (d2, st)"
      using l Cons.prems(4) by (simp add: launch_if_running_def)
    show ?thesis
    proof (cases "wait_for_next e d2")
      case None
      then have "futures d2 = []" by (auto simp: wait_for_next_def Let_def split: if_splits sum.splits)
      with progress [OF Cons.prems(1) l [unfolded Inr]] None lr ns Cons.prems(2) show ?thesis
        by (simp add: Let_def)
    next
      case (Some rd)
      obtain q d3 where rd: "rd = (q, d3)" by fastforce
      have inv3: "inv d3" using inv_wait [OF inv2 Some [unfolded rd]] .
      show ?thesis
      proof (cases q)
        case (Inl e1)
        with lr ns Some rd Cons.prems(2)
        have rec: "downloaders_loop launch es (d3, handle_error e1 st) = Some (d', st')"
          by (simp add: Let_def)
        from loop_conserves [OF inv3 rec] Cons.prems(3) handle_error_result [of e1 st] show ?thesis by auto
      next
        case (Inr v)
        with lr ns Some rd Cons.prems(2) have "downloaders_loop launch es (d3, st) = Some (d', st')"
          by (simp add: Let_def)
        from Cons.IH [OF inv3 this Cons.prems(3,4)] Cons.prems(5) show ?thesis by simp
      qed
    qed
  qed
qed

end

section \<open>The two launchers\<close>

definition launch_ok :: "downloaders \<Rightarrow> bool" where
  "launch_ok d \<longleftrightarrow> distinct (chunk_indexes d) \<and> length (futures d) \<le> runners_limit d"

lemma launch_chunks_effect:
  assumes "launch_chunks io cs d = (r, d')" and "launch_ok d"
  shows "launch_ok d' \<and> workload d' \<subseteq># workload d \<and> (r = Inr () \<longrightarrow> workload d' = workload d)
    \<and> finished_chunks d' = finished_chunks d \<and> runners_limit d' = runners_limit d
    \<and> (\<exists>more. futures d' = futures d @ more)"
  using assms
proof (induction io cs d rule: launch_chunks.induct)
  case (1 io d)
  then show ?case by (auto simp: launch_ok_def workload_def)
next
  case (2 io c cs d)
  show ?case
  proof (cases "length (futures d) < runners_limit d \<and> chunk_index c \<in> set (chunk_indexes d)")
    case False
    with 2 show ?thesis by (auto simp: launch_ok_def workload_def split: if_splits)
  next
    case True
    let ?d1 = "d\<lparr>chunk_indexes := remove1 (chunk_index c) (chunk_indexes d), fetched_chunks := rev cs\<rparr>"
    obtain q fs where s: "save_chunk io (parts_path d) c (launch_files d) = (q, fs)" by fastforce
    let ?d2 = "?d1\<lparr>launch_files := fs, futures := futures d @ [c]\<rparr>"
    have w2: "workload ?d2 = workload d"
      using True by (simp add: workload_def mset_remove1 add.assoc)
    have w1: "workload (?d1\<lparr>launch_files := fs\<rparr>) \<subseteq># workload d"
      by (simp add: workload_def mset_remove1)
    show ?thesis
    proof (cases q)
      case (Inl e)
      with True s 2(3,4) w1 show ?thesis by (auto simp: launch_ok_def Let_def)
    next
      case (Inr u)
      have "launch_ok ?d2" using True 2(4) by (simp add: launch_ok_def)
      moreover have "launch_chunks io cs ?d2 = (r, d')" using True s 2(3) Inr by (simp add: Let_def)
      ultimately have "launch_ok d' \<and> workload d' \<subseteq># workload ?d2 \<and> (r = Inr () \<longrightarrow> workload d' = workload ?d2)
          \<and> finished_chunks d' = finished_chunks ?d2 \<and> runners_limit d' = runners_limit ?d2
          \<and> (\<exists>more. futures d' = futures ?d2 @ more)"
        using 2(1) [OF _ _ refl s [symmetric]] True Inr by blast
      with w2 show ?thesis by auto
    qed
  qed
qed

lemma fetch_more_effect:
  assumes "fetch_more api d = (r, d')"
  shows "d' = d\<lparr>fetched_chunks := fetched_chunks d'\<rparr> \<and> workload d' = workload d \<and> (launch_ok d \<longrightarrow> launch_ok d')"
  using assms by (auto simp: fetch_more_def workload_def launch_ok_def split: if_splits sum.splits)

lemma launch_more_effect:
  assumes "launch_more io api d = (r, d')" and "launch_ok d"
  shows "launch_ok d' \<and> workload d' \<subseteq># workload d \<and> (r = Inr () \<longrightarrow> workload d' = workload d)
    \<and> finished_chunks d' = finished_chunks d \<and> runners_limit d' = runners_limit d
    \<and> (\<exists>more. futures d' = futures d @ more)"
proof (cases "chunk_indexes d = []")
  case True
  with assms show ?thesis by (auto simp: launch_more_def)
next
  case False
  obtain q d1 where f: "fetch_more api d = (q, d1)" by fastforce
  note fe = fetch_more_effect [OF f]
  then have same: "finished_chunks d1 = finished_chunks d" "runners_limit d1 = runners_limit d" "futures d1 = futures d"
    by (metis downloaders.ext_inject downloaders.surjective downloaders.update_convs(2))+
  show ?thesis
  proof (cases q)
    case (Inl e)
    with False assms f fe same show ?thesis by (auto simp: launch_more_def try_then_def)
  next
    case (Inr u)
    with False assms(1) f have "launch_chunks io (rev (fetched_chunks d1)) d1 = (r, d')"
      by (simp add: launch_more_def try_then_def)
    from launch_chunks_effect [OF this] fe assms(2) same show ?thesis by simp
  qed
qed

interpretation parallel: launcher "launch_more io api" launch_ok for io api
proof
  fix d e r d' and u :: unit
  assume ok: "launch_ok d"
  obtain r1 d1 where l: "launch_more io api d = (r1, d1)" by fastforce
  note eff = launch_more_effect [OF l ok]
  show "launch_ok (snd (launch_more io api d))" using eff l by simp
  show "workload (snd (launch_more io api d)) \<subseteq># workload d" using eff l by simp
  show "finished_chunks (snd (launch_more io api d)) = finished_chunks d" using eff l by simp
  show "launch_more io api d = (Inr u, d') \<Longrightarrow> workload d' = workload d" using eff l by simp
  show "wait_for_next e d = Some (r, d') \<Longrightarrow> launch_ok d'"
    using wait_for_next_Some [of e d r d'] ok by (auto simp: launch_ok_def)
qed

text \<open>The API promises to answer with the chunks it was asked for.\<close>

definition answers_requests :: "download_api \<Rightarrow> bool" where
  "answers_requests api \<longleftrightarrow>
     (\<forall>v is cs. get_download_chunks api v is = Inr cs \<longrightarrow> mset (map chunk_index cs) = mset is)"

definition honest_ok :: "download_api \<Rightarrow> downloaders \<Rightarrow> bool" where
  "honest_ok api d \<longleftrightarrow> answers_requests api \<and> launch_ok d \<and> 0 < runners_limit d
     \<and> distinct (map chunk_index (fetched_chunks d)) \<and> chunk_index ` set (fetched_chunks d) \<subseteq> set (chunk_indexes d)"

lemma launch_chunks_honest:
  assumes "launch_chunks io cs d = (r, d')" and "launch_ok d"
    and "distinct (map chunk_index cs)" and "chunk_index ` set cs \<subseteq> set (chunk_indexes d)"
  shows "distinct (map chunk_index (fetched_chunks d')) \<and> chunk_index ` set (fetched_chunks d') \<subseteq> set (chunk_indexes d')"
  using assms
proof (induction io cs d rule: launch_chunks.induct)
  case (1 io d)
  then show ?case by auto
next
  case (2 io c cs d)
  show ?case
  proof (cases "length (futures d) < runners_limit d")
    case False
    with 2 show ?thesis by (auto simp: rev_map [symmetric] image_subset_iff)
  next
    case lt: True
    have mem: "chunk_index c \<in> set (chunk_indexes d)" using 2(6) by simp
    let ?d1 = "d\<lparr>chunk_indexes := remove1 (chunk_index c) (chunk_indexes d), fetched_chunks := rev cs\<rparr>"
    obtain q fs where s: "save_chunk io (parts_path d) c (launch_files d) = (q, fs)" by fastforce
    let ?d2 = "?d1\<lparr>launch_files := fs, futures := futures d @ [c]\<rparr>"
    have sub: "chunk_index ` set cs \<subseteq> set (remove1 (chunk_index c) (chunk_indexes d))"
      using 2(4,5,6) by (auto simp: launch_ok_def) (metis imageI)
    show ?thesis
    proof (cases q)
      case (Inl e)
      with lt mem s 2(3,5) sub show ?thesis by (auto simp: Let_def rev_map [symmetric] image_subset_iff)
    next
      case (Inr u)
      have "launch_ok ?d2" using lt 2(4) by (simp add: launch_ok_def)
      moreover have "launch_chunks io cs ?d2 = (r, d')" using lt mem s 2(3) Inr by (simp add: Let_def)
      ultimately show ?thesis
        using 2(1) [OF lt mem refl s [symmetric] Inr] 2(5) sub by simp
    qed
  qed
qed

lemma fetch_more_honest:
  assumes "fetch_more api d = (r, d')" and "honest_ok api d"
  shows "honest_ok api d' \<and> (r = Inr () \<and> chunk_indexes d \<noteq> [] \<longrightarrow> fetched_chunks d' \<noteq> [])
    \<and> d' = d\<lparr>fetched_chunks := fetched_chunks d'\<rparr>"
proof (cases "fetched_chunks d = []")
  case False
  with assms show ?thesis by (auto simp: fetch_more_def)
next
  case True
  let ?is = "take (runners_limit d) (chunk_indexes d)"
  show ?thesis
  proof (cases "get_download_chunks api (launch_version d) ?is")
    case (Inl e)
    with True assms show ?thesis by (auto simp: fetch_more_def)
  next
    case (Inr cs)
    with assms(2) have m: "mset (map chunk_index cs) = mset ?is"
      unfolding honest_ok_def answers_requests_def by blast
    have "distinct ?is" using assms(2) by (simp add: honest_ok_def launch_ok_def)
    then have d: "distinct (map chunk_index cs)" using m by (metis mset_eq_imp_distinct_iff)
    have set: "chunk_index ` set cs = set ?is" using m by (metis list.set_map set_mset_mset)
    have ne: "chunk_indexes d \<noteq> [] \<longrightarrow> cs \<noteq> []"
      using m assms(2) by (auto simp: honest_ok_def)
    from True Inr assms(1) have "r = Inr ()" "d' = d\<lparr>fetched_chunks := cs\<rparr>" by (simp_all add: fetch_more_def)
    with assms(2) d set ne show ?thesis
      by (auto simp: honest_ok_def launch_ok_def dest: in_set_takeD)
  qed
qed

lemma launch_chunks_starts:
  assumes "launch_chunks io (c # cs) d = (Inr u, d')" and "futures d = []" and "0 < runners_limit d"
    and "launch_ok d" and "chunk_index c \<in> set (chunk_indexes d)"
  shows "futures d' \<noteq> []"
proof -
  let ?d1 = "d\<lparr>chunk_indexes := remove1 (chunk_index c) (chunk_indexes d), fetched_chunks := rev cs\<rparr>"
  obtain q fs where s: "save_chunk io (parts_path d) c (launch_files d) = (q, fs)" by fastforce
  have "launch_ok (?d1\<lparr>launch_files := fs, futures := futures d @ [c]\<rparr>)"
    using assms(2-4) by (simp add: launch_ok_def)
  with launch_chunks_effect [of io cs "?d1\<lparr>launch_files := fs, futures := futures d @ [c]\<rparr>" "Inr u" d'] assms s
  show ?thesis by (cases q) (auto simp: Let_def)
qed

lemma launch_more_honest:
  assumes "launch_more io api d = (r, d')" and "honest_ok api d"
  shows "honest_ok api d' \<and> (r = Inr () \<and> futures d' = [] \<longrightarrow> chunk_indexes d' = [])"
proof (cases "chunk_indexes d = []")
  case True
  with assms show ?thesis by (auto simp: launch_more_def)
next
  case False
  obtain q d1 where f: "fetch_more api d = (q, d1)" by fastforce
  note fh = fetch_more_honest [OF f assms(2)]
  have ok: "launch_ok d1" "0 < runners_limit d1" using fh by (simp_all add: honest_ok_def)
  have idx: "chunk_indexes d1 = chunk_indexes d"
    using fh by (metis downloaders.ext_inject downloaders.surjective downloaders.update_convs(2))
  show ?thesis
  proof (cases q)
    case (Inl e)
    with False assms(1) f fh show ?thesis by (auto simp: launch_more_def try_then_def)
  next
    case (Inr u)
    with False assms(1) f have l: "launch_chunks io (rev (fetched_chunks d1)) d1 = (r, d')"
      by (simp add: launch_more_def try_then_def)
    have h: "distinct (map chunk_index (rev (fetched_chunks d1)))"
      "chunk_index ` set (rev (fetched_chunks d1)) \<subseteq> set (chunk_indexes d1)"
      using fh by (simp_all add: honest_ok_def rev_map [symmetric])
    note eff = launch_chunks_effect [OF l ok(1)]
    have "honest_ok api d'"
      using launch_chunks_honest [OF l ok(1) h] eff fh by (simp add: honest_ok_def)
    moreover have "futures d' \<noteq> []" if "r = Inr ()"
    proof (cases "futures d1 = []")
      case False
      with eff show ?thesis by auto
    next
      case True
      have "rev (fetched_chunks d1) \<noteq> []" using fh Inr False by simp
      then obtain c cs where "rev (fetched_chunks d1) = c # cs" by (cases "rev (fetched_chunks d1)") auto
      with launch_chunks_starts [of io c cs d1 "()" d'] l h that True ok show ?thesis by simp
    qed
    ultimately show ?thesis by blast
  qed
qed

interpretation honest_parallel: progressing_launcher "launch_more io api" "honest_ok api" for io api
proof
  fix d e r d' and u :: unit
  assume ok: "honest_ok api d"
  then have lok: "launch_ok d" by (simp add: honest_ok_def)
  obtain r1 d1 where l: "launch_more io api d = (r1, d1)" by fastforce
  note eff = launch_more_effect [OF l lok] and hon = launch_more_honest [OF l ok]
  show "honest_ok api (snd (launch_more io api d))" using hon l by simp
  show "workload (snd (launch_more io api d)) \<subseteq># workload d" using eff l by simp
  show "finished_chunks (snd (launch_more io api d)) = finished_chunks d" using eff l by simp
  show "launch_more io api d = (Inr u, d') \<Longrightarrow> workload d' = workload d" using eff l by simp
  show "wait_for_next e d = Some (r, d') \<Longrightarrow> honest_ok api d'"
    using wait_for_next_Some [of e d r d'] ok by (auto simp: launch_ok_def honest_ok_def)
  show "launch_more io api d = (Inr u, d') \<Longrightarrow> futures d' = [] \<Longrightarrow> chunk_indexes d' = []"
    using hon l by simp
qed

lemma client_launch_chunks_effect:
  assumes "client_launch_chunks cs d = (r, d')" and "launch_ok d"
    and "distinct (map chunk_index cs)" and "chunk_index ` set cs \<subseteq> set (chunk_indexes d)"
  shows "r = Inr () \<and> launch_ok d' \<and> workload d' = workload d \<and> finished_chunks d' = finished_chunks d
    \<and> runners_limit d' = runners_limit d \<and> (\<exists>more. futures d' = futures d @ more)
    \<and> distinct (map chunk_index (fetched_chunks d')) \<and> chunk_index ` set (fetched_chunks d') \<subseteq> set (chunk_indexes d')
    \<and> (cs \<noteq> [] \<and> 0 < runners_limit d \<longrightarrow> futures d' \<noteq> [])"
  using assms
proof (induction cs d rule: client_launch_chunks.induct)
  case (1 d)
  then show ?case by (auto simp: launch_ok_def workload_def)
next
  case (2 c cs d)
  let ?d1 = "d\<lparr>chunk_indexes := remove1 (chunk_index c) (chunk_indexes d), futures := futures d @ [c]\<rparr>"
  show ?case
  proof (cases "length (futures d) < runners_limit d")
    case False
    with 2 show ?thesis by (auto simp: launch_ok_def workload_def rev_map [symmetric] image_subset_iff)
  next
    case True
    have "chunk_index ` set cs \<subseteq> set (chunk_indexes ?d1)"
      using 2(3,4,5) by (auto simp: launch_ok_def) (metis imageI)
    moreover have "launch_ok ?d1" using True 2(3) by (simp add: launch_ok_def)
    moreover have "workload ?d1 = workload d"
      using 2(5) by (simp add: workload_def mset_remove1 add.assoc)
    moreover have "client_launch_chunks cs ?d1 = (r, d')" using True 2(2) by simp
    ultimately show ?thesis using 2(1) [OF True] 2(4) by auto
  qed
qed

lemma client_launch_more_honest:
  assumes "client_launch_more api d = (r, d')" and "honest_ok api d"
  shows "honest_ok api d' \<and> workload d' = workload d \<and> finished_chunks d' = finished_chunks d
    \<and> runners_limit d' = runners_limit d
    \<and> (r = Inr () \<and> futures d' = [] \<longrightarrow> chunk_indexes d' = [])"
proof (cases "chunk_indexes d = []")
  case True
  with assms show ?thesis by (auto simp: client_launch_more_def)
next
  case False
  obtain q d1 where f: "fetch_more api d = (q, d1)" by fastforce
  note fh = fetch_more_honest [OF f assms(2)] and fe = fetch_more_effect [OF f]
  have same: "finished_chunks d1 = finished_chunks d" "runners_limit d1 = runners_limit d"
    using fh by (metis downloaders.ext_inject downloaders.surjective downloaders.update_convs(2))+
  have ok: "launch_ok d1" "0 < runners_limit d1" using fh by (simp_all add: honest_ok_def)
  show ?thesis
  proof (cases q)
    case (Inl e)
    with False assms(1) f fh fe same show ?thesis by (auto simp: client_launch_more_def try_then_def)
  next
    case (Inr u)
    with False assms(1) f have l: "client_launch_chunks (rev (fetched_chunks d1)) d1 = (r, d')"
      by (simp add: client_launch_more_def try_then_def)
    have h: "distinct (map chunk_index (rev (fetched_chunks d1)))"
      "chunk_index ` set (rev (fetched_chunks d1)) \<subseteq> set (chunk_indexes d1)"
      using fh by (simp_all add: honest_ok_def rev_map [symmetric])
    from client_launch_chunks_effect [OF l ok(1) h] ok fe fh same Inr False show ?thesis
      by (auto simp: honest_ok_def)
  qed
qed

interpretation honest_client: progressing_launcher "client_launch_more api" "honest_ok api" for api
proof
  fix d e r d' and u :: unit
  assume ok: "honest_ok api d"
  obtain r1 d1 where l: "client_launch_more api d = (r1, d1)" by fastforce
  note hon = client_launch_more_honest [OF l ok]
  show "honest_ok api (snd (client_launch_more api d))" using hon l by simp
  show "workload (snd (client_launch_more api d)) \<subseteq># workload d" using hon l by simp
  show "finished_chunks (snd (client_launch_more api d)) = finished_chunks d" using hon l by simp
  show "client_launch_more api d = (Inr u, d') \<Longrightarrow> workload d' = workload d" using hon l by simp
  show "wait_for_next e d = Some (r, d') \<Longrightarrow> honest_ok api d'"
    using wait_for_next_Some [of e d r d'] ok by (auto simp: launch_ok_def honest_ok_def)
  show "client_launch_more api d = (Inr u, d') \<Longrightarrow> futures d' = [] \<Longrightarrow> chunk_indexes d' = []"
    using hon l by simp
qed

section \<open>Properties of the download jobs\<close>

lemma launch_ok_new:
  "launch_ok (parallel_downloaders_new cfg n v downloaded fs)" "launch_ok (client_downloaders_new cfg n v downloaded fs)"
  by (simp_all add: launch_ok_def parallel_downloaders_new_def client_downloaders_new_def)

lemma outstanding_new:
  "outstanding (parallel_downloaders_new cfg n v downloaded fs) \<le> n"
  "outstanding (client_downloaders_new cfg n v downloaded fs) \<le> n"
  using length_filter_le [of "\<lambda>i. i \<notin> set downloaded" "[0..<n]"]
  by (simp_all add: outstanding_def parallel_downloaders_new_def client_downloaders_new_def)

text \<open>
  C27: the loop of a download ends after at most one round per chunk and one more, whatever the API
  answers, whichever download finishes first and however it ends.
\<close>

theorem downloader_loop_ends:
  assumes "n < length es"
  shows "\<exists>d' st'. downloaders_loop (launch_more io api) es (parallel_downloaders_new cfg n v downloaded fs, st)
    = Some (d', st')"
  using assms outstanding_new(1) [of cfg n v downloaded fs]
  by (intro parallel.loop_ends launch_ok_new) linarith

definition example_completion :: completion where
  "example_completion = \<lparr>stop_requested = False, completed = 0, completion_result = Inr ()\<rparr>"

lemma client_run_complete:
  assumes "answers_requests (job_api env)" and "0 < max_runners cfg" and "0 < max_opened_files cfg"
    and "\<forall>e \<in> set (job_completions env). \<not> stop_requested e"
    and "client_get_metadata (job_io env) (job_api env) (archive_jobs_meta_dir cfg) dest_dir fs
          = (Inr (metadata, downloaded), fs1)"
    and "client_downloader_run env cfg dest_dir fs = Some (Inr (), Some d)"
  shows "mset (map chunk_index (finished_chunks d))
    = mset (filter (\<lambda>i. i \<notin> chunk_index ` set downloaded) [0..<chunks_count metadata])"
proof -
  let ?d0 = "client_downloaders_new cfg (chunks_count metadata) (data_version metadata) (map chunk_index downloaded) fs1"
  from assms(5,6) obtain st where
    loop: "downloaders_loop (client_launch_more (job_api env)) (job_completions env) (?d0, runners_start) = Some (d, st)"
    and fin: "download_finish (job_writer_result env) st (job_running env) = Inr ()"
    by (auto simp: client_downloader_run_def split: sum.splits option.splits prod.splits)
  have res: "runners_result st = Inr ()"
    using fin by (auto simp: download_finish_def and_then_Inr_iff)
  have ok: "honest_ok (job_api env) ?d0"
    using assms(1-3) launch_ok_new(2) by (simp add: honest_ok_def) (simp add: client_downloaders_new_def)
  have "runners_run runners_start" by (simp add: runners_start_def)
  with honest_client.loop_completes [OF ok loop res _ assms(4)]
  have "chunk_indexes d = []" "futures d = []" by simp_all
  moreover have "workload d = workload ?d0"
    using honest_client.loop_conserves [OF ok loop] res by blast
  ultimately show ?thesis by (simp add: workload_def client_downloaders_new_def)
qed

text \<open>
  C5: a client download that succeeds without being stopped has downloaded every missing chunk
  exactly once and no other, provided the API answers with the chunks it was asked for.
\<close>

theorem client_download_completes:
  assumes "answers_requests (job_api env)" and "0 < max_runners cfg" and "0 < max_opened_files cfg"
    and "\<forall>e \<in> set (job_completions env). \<not> stop_requested e"
    and "client_get_metadata (job_io env) (job_api env) (archive_jobs_meta_dir cfg) dest_dir fs
          = (Inr (metadata, downloaded), fs1)"
    and "client_downloader_run env cfg dest_dir fs = Some (Inr (), Some d)"
  shows "mset (map chunk_index (finished_chunks d))
    = mset (filter (\<lambda>i. i \<notin> chunk_index ` set downloaded) [0..<chunks_count metadata])"
  using assms by (rule client_run_complete)

definition example_api :: download_api where
  "example_api = \<lparr>get_download_metadata = Inr \<lparr>total_size = 6, metadata_compression = None, chunks_count = 2, data_version = 1\<rparr>,
     get_download_chunks = (\<lambda>v is. Inr (map (\<lambda>i. (example_chunk example_locations)\<lparr>chunk_index := i\<rparr>) is))\<rparr>"

theorem downloader_loop_ends_witness:
  "\<exists>d' st'. downloaders_loop (launch_more no_io_errors example_api) (replicate 3 example_completion)
     (parallel_downloaders_new (build_transfer_config ''/data'' ''/p'' None 3 8) 2 0 [] (\<lambda>_. None), runners_start) = Some (d', st')"
  by (rule downloader_loop_ends) simp

definition example_job_env :: download_job_env where
  "example_job_env = \<lparr>job_io = no_io_errors, job_api = example_api, job_available_space = Inr 100,
     job_completions = replicate 3 example_completion, job_writer_result = Inr [], job_running = True\<rparr>"

lemma example_api_answers: "answers_requests example_api"
proof -
  have "map (chunk_index \<circ> (\<lambda>i. (example_chunk example_locations)\<lparr>chunk_index := i\<rparr>)) is = is" for "is"
    by (rule map_idI) simp
  then show ?thesis by (simp add: answers_requests_def example_api_def flip: mset_map)
qed

lemmas download_job_defs = downloader_run_def client_downloader_run_def downloader_get_metadata_def client_get_metadata_def
  cleanup_job_def remove_if_exists_def cleanup_parts_def file_exists_def lift_result_def save_job_data_def
  load_metadata_def load_chunks_def no_io_errors_def check_disk_space_def required_disk_space_def downloaded_bytes_def
  parallel_downloaders_new_def client_downloaders_new_def launch_if_running_def runners_start_def
  client_launch_more_def launch_more_def fetch_more_def wait_for_next_def download_finish_def
  example_api_def example_job_env_def example_completion_def example_chunk_def example_locations_def
  try_then_def Let_def

definition small_config :: transfer_config where
  "small_config = \<lparr>max_opened_files = 2, max_runners = 2, max_connections = 1, max_buffer_size = 2,
     transfer_max_retries = 1, transfer_backoff_base_ms = 1, config_data_mount_point = ''/data'',
     archive_jobs_meta_dir = ''/data/.babel_jobs'', progress_file_path = ''/p'', config_compression = None\<rparr>"

theorem client_download_completes_witness:
  "\<exists>d. client_downloader_run example_job_env small_config ''/d'' (\<lambda>_. None) = Some (Inr (), Some d)
     \<and> mset (map chunk_index (finished_chunks d)) = {#0, 1#}"
proof -
  obtain d where d: "client_downloader_run example_job_env small_config ''/d'' (\<lambda>_. None) = Some (Inr (), Some d)"
    by (simp add: download_job_defs small_config_def numeral_2_eq_2 numeral_3_eq_3)
  obtain fs1 where "client_get_metadata (job_io example_job_env) (job_api example_job_env)
      (archive_jobs_meta_dir small_config) ''/d'' (\<lambda>_. None)
      = (Inr (\<lparr>total_size = 6, metadata_compression = None, chunks_count = 2, data_version = 1\<rparr>, []), fs1)"
    by (simp add: download_job_defs)
  from client_download_completes [OF _ _ _ _ this d]
  have "mset (map chunk_index (finished_chunks d)) = mset [0, 1]"
    by (simp add: example_api_answers example_job_env_def example_completion_def small_config_def upt_rec)
  with d show ?thesis by auto
qed

lemma meta_paths_distinct [simp]:
  "path_join b CHUNKS_FILENAME \<noteq> path_join b METADATA_FILENAME"
  "path_join b METADATA_FILENAME \<noteq> path_join b CHUNKS_FILENAME"
  "path_join b CHUNKS_FILENAME \<noteq> path_join b MANIFEST_HEADER"
  "path_join b METADATA_FILENAME \<noteq> path_join b MANIFEST_HEADER"
  "path_join b CHUNKS_FILENAME \<noteq> path_join b MANIFEST_DATA"
  "path_join b METADATA_FILENAME \<noteq> path_join b MANIFEST_DATA"
  "path_join b PARTS_FILENAME \<noteq> path_join b MANIFEST_HEADER"
  "path_join b PARTS_FILENAME \<noteq> path_join b MANIFEST_DATA"
  "path_join b CHUNKS_FILENAME \<noteq> path_join b PARTS_FILENAME"
  by (simp_all add: path_join_inject CHUNKS_FILENAME_def METADATA_FILENAME_def MANIFEST_HEADER_def
      MANIFEST_DATA_def PARTS_FILENAME_def)

lemma downloaders_loop_idle:
  assumes "chunk_indexes d = []" and "futures d = []" and "es \<noteq> []"
    and "\<forall>e \<in> set es. \<not> stop_requested e"
  shows "downloaders_loop (launch_more io api) es (d, st) = Some (d, st)"
  using assms by (cases es) (simp_all add: launch_if_running_def launch_more_def wait_for_next_def Let_def)

text \<open>
  C40: a first run of the single-archive downloader takes the chunks it just fetched from the API for
  chunks it already has: it launches no download and succeeds with nothing downloaded. The chunks
  file it leaves behind is not in the format it is read back in, so every later run fails on it.
\<close>

theorem first_download_fetches_nothing:
  assumes "fs (path_join (archive_jobs_meta_dir cfg) METADATA_FILENAME) = None"
    and "get_download_metadata (job_api env) = Inr metadata"
    and "get_download_chunks (job_api env) (data_version metadata) [0..<chunks_count metadata] = Inr chunks"
    and "answers_requests (job_api env)"
    and "job_io env = no_io_errors"
    and "check_disk_space (job_available_space env) metadata chunks = Inr ()"
    and "job_completions env \<noteq> []" and "\<forall>e \<in> set (job_completions env). \<not> stop_requested e"
    and "job_writer_result env = Inr written" and "job_running env"
  shows "(\<exists>d. downloader_run env cfg fs = Some (Inr (), Some d) \<and> finished_chunks d = [] \<and> futures d = [])
    \<and> (let fs1 = snd (downloader_get_metadata (job_io env) (job_api env) (archive_jobs_meta_dir cfg) fs)
       in fst (downloader_get_metadata (job_io env) (job_api env) (archive_jobs_meta_dir cfg) fs1)
          = Inl ''invalid type'')"
proof -
  let ?fs1 = "fs(path_join (archive_jobs_meta_dir cfg) METADATA_FILENAME \<mapsto> MetadataJson metadata,
    path_join (archive_jobs_meta_dir cfg) CHUNKS_FILENAME \<mapsto> ChunksJson chunks)"
  have meta: "downloader_get_metadata (job_io env) (job_api env) (archive_jobs_meta_dir cfg) fs
      = (Inr (metadata, chunks), ?fs1)"
    using assms(1-3,5)
    by (simp add: downloader_get_metadata_def file_exists_def try_then_def lift_result_def save_job_data_def
        no_io_errors_def Let_def)
  have "set (map chunk_index chunks) = {0..<chunks_count metadata}"
    using assms(3,4) unfolding answers_requests_def by (metis atLeastLessThan_upt set_mset_mset)
  then have none: "chunk_indexes (parallel_downloaders_new cfg (chunks_count metadata) (data_version metadata)
      (map chunk_index chunks) ?fs1) = []"
    by (simp add: parallel_downloaders_new_def filter_empty_conv)
  have fut: "futures (parallel_downloaders_new cfg n v is fs) = []" for n v "is" fs
    by (simp add: parallel_downloaders_new_def)
  have "download_finish (job_writer_result env) runners_start (job_running env) = Inr ()"
    using assms(9,10) by (simp add: download_finish_def runners_start_def)
  then have "\<exists>d. downloader_run env cfg fs = Some (Inr (), Some d) \<and> finished_chunks d = [] \<and> futures d = []"
    using meta assms(6) downloaders_loop_idle [OF none fut assms(7,8)]
    by (simp add: downloader_run_def) (simp add: parallel_downloaders_new_def)
  moreover have "fst (downloader_get_metadata (job_io env) (job_api env) (archive_jobs_meta_dir cfg) ?fs1)
      = Inl ''invalid type''"
    by (simp add: downloader_get_metadata_def file_exists_def try_then_def lift_result_def load_metadata_def
        load_chunks_def Let_def)
  ultimately show ?thesis by (simp add: meta)
qed

theorem first_download_fetches_nothing_witness:
  "\<exists>d. downloader_run example_job_env small_config (\<lambda>_. None) = Some (Inr (), Some d) \<and> finished_chunks d = []"
proof -
  have "get_download_chunks (job_api example_job_env) 1 [0..<2]
      = Inr (map (\<lambda>i. (example_chunk example_locations)\<lparr>chunk_index := i\<rparr>) [0, 1])"
    by (simp add: example_job_env_def example_api_def upt_rec)
  moreover have "get_download_metadata (job_api example_job_env)
      = Inr \<lparr>total_size = 6, metadata_compression = None, chunks_count = 2, data_version = 1\<rparr>"
    by (simp add: example_job_env_def example_api_def)
  ultimately show ?thesis
    using first_download_fetches_nothing [of "\<lambda>_. None" small_config example_job_env
        "\<lparr>total_size = 6, metadata_compression = None, chunks_count = 2, data_version = 1\<rparr>"
        "map (\<lambda>i. (example_chunk example_locations)\<lparr>chunk_index := i\<rparr>) [0, 1]" "[]"]
    by (auto simp: example_job_env_def example_api_answers example_completion_def check_disk_space_def
        required_disk_space_def downloaded_bytes_def example_chunk_def example_locations_def)
qed

text \<open>
  Cleaning up a multi-client download does not make the next run start over: the metadata and
  the chunks file of a client have other names than the ones removed, so the client's next run finds
  them and skips every chunk they list.
\<close>

theorem cleanup_keeps_client_metadata:
  assumes "fs (path_join meta_dir PARTS_FILENAME) = None"
    and "load_metadata (path_join meta_dir MANIFEST_HEADER) fs = Inr metadata"
    and "load_chunks (path_join meta_dir MANIFEST_DATA) fs = Inr chunks"
    and "cleanup_job io meta_dir dest_dir fs = (Inr (), fs1)"
  shows "client_get_metadata io api meta_dir dest_dir fs1 = (Inr (metadata, chunks), fs1)"
proof -
  have keep: "snd (remove_if_exists io p msg t) q = t q" if "p \<noteq> q" for p q msg t
    using that by (auto simp: remove_if_exists_def action_context_def remove_file_def file_exists_def
        split: option.split)
  have "fs1 (path_join meta_dir f) = fs (path_join meta_dir f)" if "f = MANIFEST_HEADER \<or> f = MANIFEST_DATA" for f
  proof -
    obtain r1 t1 where t1: "remove_if_exists io (path_join meta_dir CHUNKS_FILENAME) ''failed to cleanup download chunks file'' fs = (r1, t1)"
      by fastforce
    have p1: "t1 (path_join meta_dir f) = fs (path_join meta_dir f)"
      using keep [of "path_join meta_dir CHUNKS_FILENAME" "path_join meta_dir f"
          "''failed to cleanup download chunks file''" fs] t1 that by auto
    have "t1 (path_join meta_dir PARTS_FILENAME) = None"
      using keep [of "path_join meta_dir CHUNKS_FILENAME" "path_join meta_dir PARTS_FILENAME"
          "''failed to cleanup download chunks file''" fs] t1 assms(1) by auto
    with assms(4) t1 have "remove_if_exists io (path_join meta_dir METADATA_FILENAME)
        ''failed to cleanup download metadata file'' t1 = (Inr (), fs1)"
      by (cases r1) (auto simp: cleanup_job_def try_then_def cleanup_parts_def file_exists_def)
    with keep [of "path_join meta_dir METADATA_FILENAME" "path_join meta_dir f"
        "''failed to cleanup download metadata file''" t1] that p1 show ?thesis by auto
  qed
  then have h: "fs1 (path_join meta_dir MANIFEST_HEADER) = fs (path_join meta_dir MANIFEST_HEADER)"
    and d: "fs1 (path_join meta_dir MANIFEST_DATA) = fs (path_join meta_dir MANIFEST_DATA)" by blast+
  have "fs (path_join meta_dir MANIFEST_HEADER) \<noteq> None"
    using assms(2) by (auto simp: load_metadata_def split: option.splits)
  with h d assms(2,3) show ?thesis
    by (simp add: client_get_metadata_def file_exists_def try_then_def lift_result_def load_metadata_def
        load_chunks_def Let_def)
qed

definition client_meta_example :: fs where
  "client_meta_example = (\<lambda>p.
     if p = ''/m/manifest-header.json''
     then Some (MetadataJson \<lparr>total_size = 3, metadata_compression = None, chunks_count = 1, data_version = 1\<rparr>)
     else if p = ''/m/manifest-data.json'' then Some (ChunkLines [example_chunk []]) else None)"

theorem cleanup_keeps_client_metadata_witness:
  "cleanup_job no_io_errors ''/m'' ''/d'' client_meta_example = (Inr (), client_meta_example)
   \<and> client_get_metadata no_io_errors example_api ''/m'' ''/d'' client_meta_example
     = (Inr (\<lparr>total_size = 3, metadata_compression = None, chunks_count = 1, data_version = 1\<rparr>, [example_chunk []]),
        client_meta_example)"
proof -
  note paths = path_join_def CHUNKS_FILENAME_def PARTS_FILENAME_def METADATA_FILENAME_def MANIFEST_HEADER_def
    MANIFEST_DATA_def client_meta_example_def
  have "cleanup_job no_io_errors ''/m'' ''/d'' client_meta_example = (Inr (), client_meta_example)"
    by (simp add: cleanup_job_def remove_if_exists_def cleanup_parts_def file_exists_def try_then_def paths)
  moreover from this have "client_get_metadata no_io_errors example_api ''/m'' ''/d'' client_meta_example
     = (Inr (\<lparr>total_size = 3, metadata_compression = None, chunks_count = 1, data_version = 1\<rparr>, [example_chunk []]),
        client_meta_example)"
    by (rule cleanup_keeps_client_metadata [rotated 3]) (simp_all add: load_metadata_def load_chunks_def paths)
  ultimately show ?thesis ..
qed

end
