(* ===== verification/Plugin_Config.thy ===== *)
theory Plugin_Config
  imports Engine
begin

text \<open>
  \<open>babel_api/src/plugin_config.rs\<close>: the plugin configuration a Rhai script declares, its
  validation, and the job configurations built from it. The \<open>Dynamic\<close> template parameters of
  a configuration file are opaque (type variable \<open>'d\<close>).
\<close>

definition DOWNLOAD_JOB_NAME :: string where "DOWNLOAD_JOB_NAME = ''download''"
definition UPLOAD_JOB_NAME :: string where "UPLOAD_JOB_NAME = ''upload''"

section \<open>Configuration data\<close>

record 'd config_file =
  template :: path
  destination :: path
  params :: 'd

record aux_service =
  aux_name :: string
  aux_run_sh :: string
  aux_restart_config :: "restart_config option"
  aux_shutdown_timeout_secs :: "nat option"
  aux_shutdown_signal :: "posix_signal option"
  aux_run_as :: "string option"
  aux_log_buffer_capacity_mb :: "nat option"
  aux_log_timestamp :: "bool option"

record plugin_task =
  task_name :: string
  task_schedule :: string
  task_function :: string
  task_param :: "string option"

datatype plugin_restart_policy = PluginNever | PluginOnFailure restart_config

record plugin_job =
  pj_name :: string
  pj_run_sh :: string
  pj_restart :: "plugin_restart_policy option"
  pj_shutdown_timeout_secs :: "nat option"
  pj_shutdown_signal :: "posix_signal option"
  pj_needs :: "string list option"
  pj_run_as :: "string option"
  pj_log_buffer_capacity_mb :: "nat option"
  pj_log_timestamp :: "bool option"
  pj_use_protocol_data :: "bool option"
  pj_one_time :: "bool option"

record actions =
  act_commands :: "string list"
  act_jobs :: "plugin_job list"

record service =
  svc_name :: string
  svc_run_sh :: string
  svc_restart_config :: "restart_config option"
  svc_shutdown_timeout_secs :: "nat option"
  svc_shutdown_signal :: "posix_signal option"
  svc_run_as :: "string option"
  svc_use_protocol_data :: bool
  svc_log_buffer_capacity_mb :: "nat option"
  svc_log_timestamp :: "bool option"
  svc_data_dir :: "string option"
  svc_store_key :: "string option"
  svc_archive :: bool

record download_config =
  dl_restart_config :: "restart_config option"
  dl_max_connections :: "nat option"
  dl_max_runners :: "nat option"

record alternative_download =
  alt_run_sh :: string
  alt_restart_config :: "restart_config option"
  alt_run_as :: "string option"
  alt_log_buffer_capacity_mb :: "nat option"
  alt_log_timestamp :: "bool option"

record cold_init =
  ci_run_sh :: string
  ci_restart_config :: "restart_config option"
  ci_run_as :: "string option"
  ci_log_buffer_capacity_mb :: "nat option"
  ci_log_timestamp :: "bool option"
  ci_one_time :: "bool option"

datatype plugin_compression = NONE | PluginZSTD int

record upload_config =
  ul_restart_config :: "restart_config option"
  ul_exclude :: "string list option"
  ul_compression :: "plugin_compression option"
  ul_max_connections :: "nat option"
  ul_max_runners :: "nat option"
  ul_number_of_chunks :: "nat option"
  ul_url_expires_secs :: "nat option"
  ul_data_version :: "nat option"

record 'd plugin_config =
  config_files :: "'d config_file list option"
  aux_services :: "aux_service list option"
  init :: "actions option"
  download :: "download_config option"
  alternative_download :: "alternative_download option"
  post_download :: "plugin_job list option"
  cold_init :: "cold_init option"
  services :: "service list"
  pre_upload :: "actions option"
  upload :: "upload_config option"
  post_upload :: "plugin_job list option"
  scheduled :: "plugin_task list option"

section \<open>Validation\<close>

datatype validate_error =
    ScheduledNotUnique
  | AuxServicesNotUnique
  | InitJobsNotUnique
  | PostDownloadNotUnique
  | ServicesNotUnique
  | MissingStoreKey string
  | InvalidDataDir string string
  | InvalidStoreKey string string
  | PreUploadNotUnique
  | PostUploadNotUnique

text \<open>
  \<open>names.all(|name| unique.insert(name))\<close>: the set after inserting every name, or \<open>None\<close> when
  some name was already in it.
\<close>

fun insert_all_new :: "string list \<Rightarrow> string list \<Rightarrow> string list option" where
  "insert_all_new unique [] = Some unique"
| "insert_all_new unique (n # ns) = (if n \<in> set unique then None else insert_all_new (n # unique) ns)"

definition ensure_unique :: "string list \<Rightarrow> validate_error \<Rightarrow> string list \<Rightarrow> validate_error + string list" where
  "ensure_unique names err unique =
     (case insert_all_new unique names of None \<Rightarrow> Inl err | Some u \<Rightarrow> Inr u)"

definition ensure_unique_opt ::
  "string list option \<Rightarrow> validate_error \<Rightarrow> string list \<Rightarrow> validate_error + string list" where
  "ensure_unique_opt names err unique =
     (case names of None \<Rightarrow> Inr unique | Some ns \<Rightarrow> ensure_unique ns err unique)"

definition is_ascii_alphanumeric :: "char \<Rightarrow> bool" where
  "is_ascii_alphanumeric c =
     (let n = (of_char c :: nat)
      in (48 \<le> n \<and> n \<le> 57) \<or> (65 \<le> n \<and> n \<le> 90) \<or> (97 \<le> n \<and> n \<le> 122))"

definition valid_data_dir :: "string \<Rightarrow> bool" where
  "valid_data_dir d = (d \<noteq> [] \<and> \<not> prefix ''/'' d \<and> \<not> contains d ''..'')"

definition valid_store_key :: "string \<Rightarrow> bool" where
  "valid_store_key k =
     (k \<noteq> [] \<and> list_all (\<lambda>c. is_ascii_alphanumeric c \<or> c = CHR ''-'' \<or> c = CHR ''_'') k)"

definition validate_service :: "service \<Rightarrow> validate_error + unit" where
  "validate_service s =
     and_then (ensure (\<not> (svc_archive s \<and> svc_store_key s = None)) (MissingStoreKey (svc_name s))) (\<lambda>_.
     and_then (case svc_data_dir s of None \<Rightarrow> Inr ()
               | Some d \<Rightarrow> ensure (valid_data_dir d) (InvalidDataDir (svc_name s) d)) (\<lambda>_.
     case svc_store_key s of None \<Rightarrow> Inr ()
     | Some k \<Rightarrow> ensure (valid_store_key k) (InvalidStoreKey (svc_name s) k)))"

text \<open>\<open>PluginConfig::validate\<close>, check by check in the order of the code.\<close>

definition validate :: "'d plugin_config \<Rightarrow> validate_error + unit" where
  "validate c =
     and_then (case scheduled c of None \<Rightarrow> Inr []
               | Some ts \<Rightarrow> ensure_unique (map task_name ts) ScheduledNotUnique []) (\<lambda>_.
     and_then (ensure_unique_opt (map_option (map aux_name) (aux_services c)) AuxServicesNotUnique
                 [DOWNLOAD_JOB_NAME, UPLOAD_JOB_NAME]) (\<lambda>u.
     and_then (ensure_unique_opt (map_option (map pj_name \<circ> act_jobs) (init c)) InitJobsNotUnique u) (\<lambda>u.
     and_then (ensure_unique_opt (map_option (map pj_name) (post_download c)) PostDownloadNotUnique u) (\<lambda>u.
     and_then (ensure_unique (map svc_name (services c)) ServicesNotUnique u) (\<lambda>u.
     and_then (check_all validate_service (services c)) (\<lambda>_.
     and_then (ensure_unique_opt (map_option (map pj_name \<circ> act_jobs) (pre_upload c)) PreUploadNotUnique u) (\<lambda>u.
     and_then (ensure_unique_opt (map_option (map pj_name) (post_upload c)) PostUploadNotUnique u) (\<lambda>_.
     Inr ()))))))))"

section \<open>Job configurations built from the plugin configuration\<close>

definition build_job_config :: "plugin_job \<Rightarrow> job_config" where
  "build_job_config j =
     \<lparr>job_type = RunSh (pj_run_sh j),
      restart = unwrap_or (map_option (\<lambda>r. case r of PluginNever \<Rightarrow> Never
                                         | PluginOnFailure cfg \<Rightarrow> OnFailure cfg) (pj_restart j)) Never,
      shutdown_timeout_secs = pj_shutdown_timeout_secs j,
      shutdown_signal = pj_shutdown_signal j,
      needs = pj_needs j,
      wait_for = None,
      run_as = pj_run_as j,
      log_buffer_capacity_mb = pj_log_buffer_capacity_mb j,
      log_timestamp = pj_log_timestamp j,
      use_protocol_data = pj_use_protocol_data j,
      one_time = pj_one_time j\<rparr>"

text \<open>\<open>DEFAULT_RESTART_CONFIG\<close> of every archive job.\<close>

definition DEFAULT_RESTART_CONFIG :: restart_config where
  "DEFAULT_RESTART_CONFIG =
     \<lparr>backoff_timeout_ms = 600000, backoff_base_ms = 500, max_retries = Some 10\<rparr>"

text \<open>The fields every archive job leaves at their default.\<close>

definition archive_job_config :: "job_type \<Rightarrow> restart_config option \<Rightarrow> string list \<Rightarrow> job_config" where
  "archive_job_config t cfg required =
     \<lparr>job_type = t,
      restart = OnFailure (unwrap_or cfg DEFAULT_RESTART_CONFIG),
      shutdown_timeout_secs = None,
      shutdown_signal = None,
      needs = Some required,
      wait_for = None,
      run_as = None,
      log_buffer_capacity_mb = None,
      log_timestamp = None,
      use_protocol_data = None,
      one_time = None\<rparr>"

definition build_download_job_config :: "download_config option \<Rightarrow> string list \<Rightarrow> job_config" where
  "build_download_job_config dl init_jobs =
     (case dl of
        Some d \<Rightarrow> archive_job_config (Download (dl_max_connections d) (dl_max_runners d))
                    (dl_restart_config d) init_jobs
      | None \<Rightarrow> archive_job_config (Download None None) None init_jobs)"

definition build_alternative_download_job_config ::
  "alternative_download \<Rightarrow> string list \<Rightarrow> job_config" where
  "build_alternative_download_job_config alt init_jobs =
     \<lparr>job_type = RunSh (alt_run_sh alt),
      restart = (case alt_restart_config alt of Some cfg \<Rightarrow> OnFailure cfg | None \<Rightarrow> Never),
      shutdown_timeout_secs = None,
      shutdown_signal = None,
      needs = Some init_jobs,
      wait_for = None,
      run_as = alt_run_as alt,
      log_buffer_capacity_mb = alt_log_buffer_capacity_mb alt,
      log_timestamp = alt_log_timestamp alt,
      use_protocol_data = None,
      one_time = None\<rparr>"

definition build_cold_init_job_config :: "cold_init \<Rightarrow> string list \<Rightarrow> job_config" where
  "build_cold_init_job_config ci init_jobs =
     \<lparr>job_type = RunSh (ci_run_sh ci),
      restart = (case ci_restart_config ci of Some cfg \<Rightarrow> OnFailure cfg | None \<Rightarrow> Never),
      shutdown_timeout_secs = None,
      shutdown_signal = None,
      needs = Some init_jobs,
      wait_for = None,
      run_as = ci_run_as ci,
      log_buffer_capacity_mb = ci_log_buffer_capacity_mb ci,
      log_timestamp = ci_log_timestamp ci,
      use_protocol_data = None,
      one_time = ci_one_time ci\<rparr>"

definition build_service_job_config :: "service \<Rightarrow> string list \<Rightarrow> string list \<Rightarrow> job_config" where
  "build_service_job_config s required awaited =
     \<lparr>job_type = RunSh (svc_run_sh s),
      restart = Always (unwrap_or (svc_restart_config s)
                  \<lparr>backoff_timeout_ms = 60000, backoff_base_ms = 1000, max_retries = None\<rparr>),
      shutdown_timeout_secs = svc_shutdown_timeout_secs s,
      shutdown_signal = svc_shutdown_signal s,
      needs = (if svc_use_protocol_data s then Some required else None),
      wait_for = (if svc_use_protocol_data s then Some awaited else None),
      run_as = svc_run_as s,
      log_buffer_capacity_mb = svc_log_buffer_capacity_mb s,
      log_timestamp = svc_log_timestamp s,
      use_protocol_data = Some (svc_use_protocol_data s),
      one_time = None\<rparr>"

definition upload_compression :: "plugin_compression option \<Rightarrow> compression option" where
  "upload_compression c =
     (case c of None \<Rightarrow> Some (ZSTD 3)
      | Some (PluginZSTD level) \<Rightarrow> Some (ZSTD level)
      | Some NONE \<Rightarrow> None)"

definition build_upload_job_config :: "upload_config option \<Rightarrow> string list \<Rightarrow> job_config" where
  "build_upload_job_config ul pre_upload_jobs =
     (case ul of
        Some u \<Rightarrow> archive_job_config
          (Upload (ul_exclude u) (upload_compression (ul_compression u)) (ul_max_connections u)
             (ul_max_runners u) (ul_number_of_chunks u) (ul_url_expires_secs u) (ul_data_version u))
          (ul_restart_config u) pre_upload_jobs
      | None \<Rightarrow> archive_job_config (Upload None (Some (ZSTD 3)) None None None None None) None
          pre_upload_jobs)"

definition build_multi_client_upload_job_config ::
  "upload_config option \<Rightarrow> string list \<Rightarrow> job_config" where
  "build_multi_client_upload_job_config ul pre_upload_jobs =
     (case ul of
        Some u \<Rightarrow> archive_job_config
          (MultiClientUpload (ul_max_connections u) (ul_max_runners u) (ul_url_expires_secs u)
             (ul_data_version u))
          (ul_restart_config u) pre_upload_jobs
      | None \<Rightarrow> archive_job_config (MultiClientUpload None None None None) None pre_upload_jobs)"

definition build_multi_client_download_job_config ::
  "download_config option \<Rightarrow> string list \<Rightarrow> job_config" where
  "build_multi_client_download_job_config dl init_jobs =
     (case dl of
        Some d \<Rightarrow> archive_job_config (MultiClientDownload (dl_max_connections d) (dl_max_runners d))
                    (dl_restart_config d) init_jobs
      | None \<Rightarrow> archive_job_config (MultiClientDownload None None) None init_jobs)"

section \<open>What validation guarantees\<close>

text \<open>The names \<open>ns\<close> can all be inserted into \<open>u\<close> one after the other.\<close>

definition fresh_names :: "string list \<Rightarrow> string list \<Rightarrow> bool" where
  "fresh_names ns u \<longleftrightarrow> distinct ns \<and> set ns \<inter> set u = {}"

lemma fresh_names_append: "fresh_names (ms @ ns) u \<longleftrightarrow> fresh_names ms u \<and> fresh_names ns (rev ms @ u)"
  by (auto simp: fresh_names_def)

lemma insert_all_new_eq: "insert_all_new u ns = (if fresh_names ns u then Some (rev ns @ u) else None)"
  by (induction u ns rule: insert_all_new.induct) (auto simp: fresh_names_def)

lemma ensure_unique_Inr_iff:
  "ensure_unique ns e u = Inr v \<longleftrightarrow> fresh_names ns u \<and> v = rev ns @ u"
  by (auto simp: ensure_unique_def insert_all_new_eq)

lemma ensure_unique_opt_Inr_iff:
  "ensure_unique_opt ns e u = Inr v \<longleftrightarrow> fresh_names (unwrap_or ns []) u \<and> v = rev (unwrap_or ns []) @ u"
  by (cases ns) (auto simp: ensure_unique_opt_def ensure_unique_Inr_iff fresh_names_def)

definition valid_service :: "service \<Rightarrow> bool" where
  "valid_service s \<longleftrightarrow>
     (svc_archive s \<longrightarrow> svc_store_key s \<noteq> None) \<and>
     (\<forall>d. svc_data_dir s = Some d \<longrightarrow> valid_data_dir d) \<and>
     (\<forall>k. svc_store_key s = Some k \<longrightarrow> valid_store_key k)"

lemma validate_service_Inr_iff: "validate_service s = Inr u \<longleftrightarrow> valid_service s"
  by (auto simp: validate_service_def valid_service_def and_then_Inr_iff split: option.splits)

text \<open>All job names a configuration introduces, in the order they are inserted.\<close>

definition job_names :: "'d plugin_config \<Rightarrow> string list" where
  "job_names c =
     map aux_name (unwrap_or (aux_services c) []) @
     (case init c of None \<Rightarrow> [] | Some a \<Rightarrow> map pj_name (act_jobs a)) @
     map pj_name (unwrap_or (post_download c) []) @
     map svc_name (services c) @
     (case pre_upload c of None \<Rightarrow> [] | Some a \<Rightarrow> map pj_name (act_jobs a)) @
     map pj_name (unwrap_or (post_upload c) [])"

lemmas validate_iffs = and_then_Inr_iff ensure_unique_Inr_iff ensure_unique_opt_Inr_iff
  validate_service_Inr_iff

lemma scheduled_check_Inr_iff:
  "(\<exists>u. (case scheduled c of None \<Rightarrow> Inr [] | Some ts \<Rightarrow> ensure_unique (map task_name ts) e []) = Inr u)
     \<longleftrightarrow> distinct (map task_name (unwrap_or (scheduled c) []))"
  by (auto simp: ensure_unique_Inr_iff fresh_names_def split: option.splits)

lemma validate_Inr_iff:
  "validate c = Inr () \<longleftrightarrow>
     distinct (map task_name (unwrap_or (scheduled c) [])) \<and>
     distinct (UPLOAD_JOB_NAME # DOWNLOAD_JOB_NAME # job_names c) \<and>
     (\<forall>s \<in> set (services c). valid_service s)"
proof -
  define a where "a = unwrap_or (map_option (map aux_name) (aux_services c)) []"
  define i where "i = unwrap_or (map_option (map pj_name \<circ> act_jobs) (init c)) []"
  define d where "d = unwrap_or (map_option (map pj_name) (post_download c)) []"
  define v where "v = map svc_name (services c)"
  define q where "q = unwrap_or (map_option (map pj_name \<circ> act_jobs) (pre_upload c)) []"
  define r where "r = unwrap_or (map_option (map pj_name) (post_upload c)) []"
  note names = a_def i_def d_def v_def q_def r_def
  let ?u = "[DOWNLOAD_JOB_NAME, UPLOAD_JOB_NAME]"
  have "validate c = Inr () \<longleftrightarrow>
      distinct (map task_name (unwrap_or (scheduled c) [])) \<and>
      fresh_names (a @ i @ d @ v @ q @ r) ?u \<and> (\<forall>s \<in> set (services c). valid_service s)"
    unfolding validate_def scheduled_check_Inr_iff [where e = ScheduledNotUnique, symmetric]
    by (simp add: validate_iffs fresh_names_append flip: names) blast
  moreover have "a @ i @ d @ v @ q @ r = job_names c"
    by (simp add: names job_names_def map_option_case comp_def unwrap_or_def split: option.split)
  ultimately show ?thesis
    by (auto simp: fresh_names_def UPLOAD_JOB_NAME_def DOWNLOAD_JOB_NAME_def)
qed

text \<open>
  C22: validation accepts a plugin configuration exactly when the scheduled task names are
  distinct, all job names together with the reserved names \<open>upload\<close> and \<open>download\<close> are distinct,
  and every service has a store key if archived, a relative data directory without \<open>..\<close>, and a
  store key of allowed characters.
\<close>

theorem validate_accepts_iff:
  "validate c = Inr () \<longleftrightarrow>
     distinct (map task_name (unwrap_or (scheduled c) [])) \<and>
     distinct (UPLOAD_JOB_NAME # DOWNLOAD_JOB_NAME # job_names c) \<and>
     (\<forall>s \<in> set (services c). valid_service s)"
  by (rule validate_Inr_iff)

definition sample_service :: service where
  "sample_service =
     \<lparr>svc_name = ''reth'', svc_run_sh = ''/usr/bin/reth'', svc_restart_config = None,
      svc_shutdown_timeout_secs = None, svc_shutdown_signal = None, svc_run_as = None,
      svc_use_protocol_data = True, svc_log_buffer_capacity_mb = None, svc_log_timestamp = None,
      svc_data_dir = Some ''reth-data'', svc_store_key = Some ''reth-mainnet'', svc_archive = True\<rparr>"

definition services_config :: "service list \<Rightarrow> unit plugin_config" where
  "services_config ss =
     \<lparr>config_files = None, aux_services = None, init = None, download = None,
      alternative_download = None, post_download = None, cold_init = None, services = ss,
      pre_upload = None, upload = None, post_upload = None, scheduled = None\<rparr>"

lemmas sample_config_defs = sample_service_def services_config_def

theorem validate_accepts_iff_witness: "validate (services_config [sample_service]) = Inr ()"
  by (rule validate_accepts_iff [THEN iffD2])
    (simp add: sample_config_defs valid_service_def valid_data_dir_def valid_store_key_def job_names_def
      UPLOAD_JOB_NAME_def DOWNLOAD_JOB_NAME_def contains_def sublist_code is_ascii_alphanumeric_def)

end
