(* ===== verification/Multi_Client.thy ===== *)
theory Multi_Client
  imports Plugin_Config
begin

text \<open>
  \<open>babel/src/multi_client_integration.rs\<close>: the services of a plugin configuration that take part
  in a multi-client upload or download, each with its own data directory and store key.
  Glob patterns are parsed by the \<open>nu_glob\<close> crate: \<open>parse_pattern\<close> is a parameter.
\<close>

record 'p client_archive_config =
  cac_client_name :: string
  cac_store_key :: string
  cac_data_directory :: path
  cac_exclude_patterns :: "'p list"

record client_download_config =
  cdc_client_name :: string
  cdc_data_directory :: path
  cdc_store_key :: string

text \<open>\<open>.map(f).collect::<Result<Vec<_>, _>>()\<close>: all results, or nothing when one fails.\<close>

fun collect_patterns :: "(string \<Rightarrow> 'p option) \<Rightarrow> string list \<Rightarrow> 'p list option" where
  "collect_patterns parse [] = Some []"
| "collect_patterns parse (p # ps) =
     (case parse p of None \<Rightarrow> None
      | Some x \<Rightarrow> map_option ((#) x) (collect_patterns parse ps))"

definition data_dir_name :: "service \<Rightarrow> string" where
  "data_dir_name s = unwrap_or (svc_data_dir s) (svc_name s)"

definition get_archivable_clients ::
  "(string \<Rightarrow> 'p option) \<Rightarrow> 'd plugin_config \<Rightarrow> path \<Rightarrow> string list \<Rightarrow> string + 'p client_archive_config list" where
  "get_archivable_clients parse c protocol_data exclude =
     (case collect_patterns parse exclude of
        None \<Rightarrow> Inl ''Failed to parse exclude patterns''
      | Some ps \<Rightarrow>
          Inr (map (\<lambda>s. \<lparr>cac_client_name = svc_name s,
                          cac_store_key = the (svc_store_key s),
                          cac_data_directory = path_join protocol_data (data_dir_name s),
                          cac_exclude_patterns = ps\<rparr>)
                (filter (\<lambda>s. svc_store_key s \<noteq> None)
                  (filter svc_use_protocol_data (filter svc_archive (services c))))))"

definition get_downloadable_clients ::
  "'d plugin_config \<Rightarrow> path \<Rightarrow> string + client_download_config list" where
  "get_downloadable_clients c protocol_data =
     Inr (map (\<lambda>s. \<lparr>cdc_client_name = svc_name s,
                     cdc_data_directory = path_join protocol_data (data_dir_name s),
                     cdc_store_key = the (svc_store_key s)\<rparr>)
           (filter (\<lambda>s. svc_store_key s \<noteq> None) (filter svc_use_protocol_data (services c))))"

datatype multi_client_error =
    ArchiveWithoutStoreKey string
  | ArchiveDataDirNotRelative string string

definition multi_client_service_errors :: "service \<Rightarrow> multi_client_error list" where
  "multi_client_service_errors s =
     (if svc_archive s
      then (if svc_store_key s = None then [ArchiveWithoutStoreKey (svc_name s)] else []) @
           (case svc_data_dir s of None \<Rightarrow> []
            | Some d \<Rightarrow> if d = [] \<or> prefix ''/'' d \<or> contains d ''..''
                       then [ArchiveDataDirNotRelative (svc_name s) d] else [])
      else [])"

text \<open>All errors are collected before the function fails.\<close>

definition validate_multi_client_config :: "'d plugin_config \<Rightarrow> multi_client_error list + unit" where
  "validate_multi_client_config c =
     (let errors = concat (map multi_client_service_errors (services c))
      in if errors \<noteq> [] then Inl errors else Inr ())"

section \<open>Properties\<close>

lemma multi_client_service_errors_Nil_iff:
  "multi_client_service_errors s = [] \<longleftrightarrow>
     (svc_archive s \<longrightarrow> svc_store_key s \<noteq> None \<and> (\<forall>d. svc_data_dir s = Some d \<longrightarrow> valid_data_dir d))"
  by (auto simp: multi_client_service_errors_def valid_data_dir_def split: option.splits)

lemma validate_multi_client_config_Inr_iff:
  "validate_multi_client_config c = Inr () \<longleftrightarrow> (\<forall>s \<in> set (services c). multi_client_service_errors s = [])"
  by (simp add: validate_multi_client_config_def)

text \<open>
  A plugin configuration that passes \<open>PluginConfig::validate\<close> also passes the separate
  multi-client validation.
\<close>

theorem validated_config_is_multi_client_valid:
  assumes "validate c = Inr ()"
  shows "validate_multi_client_config c = Inr ()"
  using assms
  by (auto simp: validate_Inr_iff validate_multi_client_config_Inr_iff valid_service_def
      multi_client_service_errors_Nil_iff)

text \<open>The service as it is written in the repository's own plugin examples.\<close>

lemma validate_sample: "validate (services_config [sample_service]) = Inr ()"
  by code_simp

theorem validated_config_is_multi_client_valid_witness:
  "validate_multi_client_config (services_config [sample_service]) = Inr ()"
  by (rule validated_config_is_multi_client_valid) (rule validate_sample)

text \<open>A path that stays below \<open>base\<close>: a relative remainder without a \<open>..\<close> component.\<close>

definition below_dir :: "path \<Rightarrow> path \<Rightarrow> bool" where
  "below_dir base p \<longleftrightarrow>
     (\<exists>rest. p = base @ ''/'' @ rest \<and> rest \<noteq> [] \<and> \<not> prefix ''/'' rest \<and> \<not> contains rest ''..'')"

lemma valid_data_dir_below:
  assumes "valid_data_dir d" and "base \<noteq> []" and "last base \<noteq> CHR ''/''"
  shows "below_dir base (path_join base d)"
  using assms by (auto simp: valid_data_dir_def below_dir_def path_join_relative)

text \<open>
  For a validated configuration, the data directory of a client whose service declares a
  \<open>data_dir\<close> lies below the protocol data directory, in a download as in an upload.
\<close>

theorem declared_data_dirs_stay_below:
  assumes "validate c = Inr ()" and "base \<noteq> []" and "last base \<noteq> CHR ''/''"
    and "s \<in> set (services c)" and "svc_data_dir s = Some d"
  shows "below_dir base (path_join base (data_dir_name s))"
  using assms
  by (auto simp: validate_Inr_iff valid_service_def data_dir_name_def intro!: valid_data_dir_below)

theorem declared_data_dirs_stay_below_witness:
  "below_dir ''/blockjoy/protocol_data'' (path_join ''/blockjoy/protocol_data'' (data_dir_name sample_service))"
  by (rule declared_data_dirs_stay_below [OF validate_sample, where d = "''reth-data''"])
    (simp_all add: sample_config_defs)

text \<open>
  the default data directory, the service name, is not validated: a validated configuration
  can make a client's data directory an absolute path outside the protocol data directory.
\<close>

theorem default_data_dir_escapes:
  "\<exists>c :: unit plugin_config. validate c = Inr () \<and>
     get_downloadable_clients c ''/blockjoy/protocol_data'' =
       Inr [\<lparr>cdc_client_name = ''/etc'', cdc_data_directory = ''/etc'', cdc_store_key = ''reth-mainnet''\<rparr>]"
proof -
  let ?c = "services_config [sample_service\<lparr>svc_name := ''/etc'', svc_data_dir := None\<rparr>]"
  have "validate ?c = Inr ()" by code_simp
  moreover have "get_downloadable_clients ?c ''/blockjoy/protocol_data'' =
       Inr [\<lparr>cdc_client_name = ''/etc'', cdc_data_directory = ''/etc'', cdc_store_key = ''reth-mainnet''\<rparr>]"
    by code_simp
  ultimately show ?thesis by blast
qed

text \<open>
  What is uploaded can be downloaded again: for every archived client the download of the same
  configuration has a client of the same name, store key and data directory, and the archived
  clients are exactly the downloadable ones whose service has not switched \<open>archive\<close> off.
\<close>

theorem archivable_clients_are_downloadable:
  assumes "get_archivable_clients parse c dir exclude = Inr cs"
    and "get_downloadable_clients c dir = Inr ds"
  shows "map (\<lambda>a. (cac_client_name a, cac_store_key a, cac_data_directory a)) cs =
    map (\<lambda>s. (svc_name s, the (svc_store_key s), path_join dir (data_dir_name s)))
      (filter svc_archive (filter (\<lambda>s. svc_store_key s \<noteq> None \<and> svc_use_protocol_data s) (services c)))
    \<and> (\<lambda>a. (cac_client_name a, cac_store_key a, cac_data_directory a)) ` set cs \<subseteq>
      (\<lambda>d. (cdc_client_name d, cdc_store_key d, cdc_data_directory d)) ` set ds"
proof -
  obtain ps where "collect_patterns parse exclude = Some ps"
    using assms(1) by (auto simp: get_archivable_clients_def split: option.splits)
  with assms show ?thesis
    by (force simp: get_archivable_clients_def get_downloadable_clients_def comp_def conj_ac)
qed

theorem archivable_clients_are_downloadable_witness:
  "map (\<lambda>a. (cac_client_name a, cac_store_key a, cac_data_directory a))
     [\<lparr>cac_client_name = ''reth'', cac_store_key = ''reth-mainnet'',
       cac_data_directory = ''/data/reth-data'', cac_exclude_patterns = [''*.lock'']\<rparr>] =
   map (\<lambda>s. (svc_name s, the (svc_store_key s), path_join ''/data'' (data_dir_name s)))
      (filter svc_archive (filter (\<lambda>s. svc_store_key s \<noteq> None \<and> svc_use_protocol_data s)
         (services (services_config [sample_service]))))"
proof -
  let ?c = "services_config [sample_service]"
  let ?cs = "[\<lparr>cac_client_name = ''reth'', cac_store_key = ''reth-mainnet'',
       cac_data_directory = ''/data/reth-data'', cac_exclude_patterns = [''*.lock'']\<rparr>]"
  have "get_archivable_clients Some ?c ''/data'' [''*.lock''] = Inr ?cs" by code_simp
  moreover have "get_downloadable_clients ?c ''/data'' =
    Inr [\<lparr>cdc_client_name = ''reth'', cdc_data_directory = ''/data/reth-data'', cdc_store_key = ''reth-mainnet''\<rparr>]"
    by code_simp
  ultimately show ?thesis
    by (rule archivable_clients_are_downloadable [THEN conjunct1])
qed

end
