(* ===== verification/Multi_Download.thy ===== *)
theory Multi_Download
  imports Download Multi_Client
begin

text \<open>
  Multi-client downloads (\<open>MultiClientDownloader\<close> of \<open>babel/src/download_job.rs\<close>): one download
  per client, the classification of their errors, the aggregation of their progress, and the final
  step that gives all downloaded files the same time.
\<close>

section \<open>Progress of all clients\<close>

text \<open>\<open>aggregate_multi_client_progress\<close>. The directory entries are given by name with whether they
  are directories, or \<open>None\<close> when the directory cannot be read.\<close>

definition add_client_progress ::
  "fs \<Rightarrow> path \<Rightarrow> string \<times> bool \<Rightarrow> nat \<times> nat \<times> nat \<Rightarrow> nat \<times> nat \<times> nat" where
  "add_client_progress fs meta_dir entry acc =
     (let (name, is_dir) = entry; (all_chunks, completed_chunks, active) = acc;
          p = path_join (path_join meta_dir name) ''download.progress''
      in if is_dir \<and> prefix ''download_'' name
         then case load_progress_file p fs of
                Inr progress \<Rightarrow> (all_chunks + progress_total progress, completed_chunks + progress_current progress, Suc active)
              | Inl _ \<Rightarrow> (all_chunks, completed_chunks, active)
         else (all_chunks, completed_chunks, active))"

definition aggregate_multi_client_progress ::
  "io_env \<Rightarrow> (string \<times> bool) list option \<Rightarrow> path \<Rightarrow> path \<Rightarrow> (fs, string, unit) action" where
  "aggregate_multi_client_progress io entries meta_dir progress_path fs =
     (let (all_chunks, completed_chunks, active) =
            (case entries of None \<Rightarrow> (0, 0, 0) | Some es \<Rightarrow> fold (add_client_progress fs meta_dir) es (0, 0, 0))
      in if active > 0
         then save_job_data io progress_path (ProgressJson
                \<lparr>progress_total = all_chunks, progress_current = completed_chunks,
                 progress_message = ''chunks ('' @ show_nat active @ '' clients)''\<rparr>) fs
         else (Inr (), fs))"

section \<open>All clients\<close>

definition create_multi_client_jobs ::
  "client_download_config list \<Rightarrow> transfer_config \<Rightarrow> (string \<times> transfer_config \<times> path) list" where
  "create_multi_client_jobs clients cfg =
     map (\<lambda>c. (''download_'' @ cdc_client_name c,
               client_config cfg (cdc_client_name c), cdc_data_directory c)) clients"

definition is_not_found :: "string \<Rightarrow> bool" where
  "is_not_found err \<longleftrightarrow>
     contains err ''NotFound'' \<or> contains err ''not found'' \<or> contains err ''404''
   \<or> contains err ''get_download_metadata_for_store_key''"

record download_summary =
  successful_downloads :: nat
  skipped_downloads :: nat
  failed_downloads :: "(string \<times> string) list"

definition add_client_result :: "string \<times> (string + unit) \<Rightarrow> download_summary \<Rightarrow> download_summary" where
  "add_client_result res acc =
     (case snd res of
        Inr _ \<Rightarrow> acc\<lparr>successful_downloads := Suc (successful_downloads acc)\<rparr>
      | Inl err \<Rightarrow>
          if is_not_found err then acc\<lparr>skipped_downloads := Suc (skipped_downloads acc)\<rparr>
          else acc\<lparr>failed_downloads := failed_downloads acc @ [(fst res, err)]\<rparr>)"

definition error_summary :: "(string \<times> string) list \<Rightarrow> string" where
  "error_summary failed = concat (map (\<lambda>(name, err). [CHR 0x0A] @ ''  - '' @ name @ '': '' @ err) failed)"

text \<open>\<open>download_all_clients\<close>, from the results of the clients in the order they come in.\<close>

definition summarize_clients :: "(string \<times> (string + unit)) list \<Rightarrow> download_summary" where
  "summarize_clients results =
     fold add_client_result results \<lparr>successful_downloads = 0, skipped_downloads = 0, failed_downloads = []\<rparr>"

definition download_all_clients :: "(string \<times> (string + unit)) list \<Rightarrow> string + unit" where
  "download_all_clients results =
     (let failed = failed_downloads (summarize_clients results)
      in if failed \<noteq> [] then Inl (''Some client downloads failed:'' @ error_summary failed) else Inr ())"

section \<open>File times\<close>

datatype time_outcome = TimeSet | NoFile | OpenFailed | SetTimesFailed

definition unique_paths :: "chunk list \<Rightarrow> path list" where
  "unique_paths chunks =
     fold (\<lambda>c paths. fold (\<lambda>d paths. List.insert (loc_path d) paths) (destinations c) paths) chunks []"

fun batches :: "nat \<Rightarrow> 'a list \<Rightarrow> 'a list list" where
  "batches n [] = []"
| "batches n (x # xs) = (x # take (n - 1) xs) # batches n (drop (n - 1) xs)"

definition UNIFY_BATCH_SIZE :: nat where "UNIFY_BATCH_SIZE = 50"

text \<open>\<open>unify_file_times\<close>: the numbers of updated and skipped files. It never fails.\<close>

definition unify_file :: "(path \<Rightarrow> time_outcome) \<Rightarrow> path \<Rightarrow> nat \<times> nat \<Rightarrow> nat \<times> nat" where
  "unify_file set_time p counts =
     (let (updated, skipped) = counts
      in case set_time p of TimeSet \<Rightarrow> (Suc updated, skipped) | _ \<Rightarrow> (updated, Suc skipped))"

definition unify_file_times :: "(path \<Rightarrow> time_outcome) \<Rightarrow> path \<Rightarrow> chunk list \<Rightarrow> nat \<times> nat" where
  "unify_file_times set_time dest_dir chunks =
     fold (\<lambda>batch counts. fold (\<lambda>p. unify_file set_time (path_join dest_dir p)) batch counts)
       (batches UNIFY_BATCH_SIZE (unique_paths chunks)) (0, 0)"

lemma concat_batches: "0 < n \<Longrightarrow> concat (batches n xs) = xs"
  by (induction n xs rule: batches.induct) simp_all

lemma fold_concat: "fold (fold f) xss s = fold f (concat xss) s"
  by (induction xss arbitrary: s) simp_all

lemma set_unique_paths: "set (unique_paths chunks) = loc_path ` (\<Union>c \<in> set chunks. set (destinations c))"
proof -
  have inner: "set (fold (\<lambda>d paths. List.insert (loc_path d) paths) ds ps) = set ps \<union> loc_path ` set ds" for ds ps
    by (induction ds arbitrary: ps) auto
  have "set (fold (\<lambda>c paths. fold (\<lambda>d paths. List.insert (loc_path d) paths) (destinations c) paths) chunks ps)
      = set ps \<union> loc_path ` (\<Union>c \<in> set chunks. set (destinations c))" for ps
    by (induction chunks arbitrary: ps) (auto simp: inner)
  then show ?thesis by (simp add: unique_paths_def)
qed

lemma distinct_unique_paths: "distinct (unique_paths chunks)"
proof -
  have inner: "distinct ps \<Longrightarrow> distinct (fold (\<lambda>d paths. List.insert (loc_path d) paths) ds ps)" for ds ps
    by (induction ds arbitrary: ps) auto
  have "distinct ps \<Longrightarrow>
      distinct (fold (\<lambda>c paths. fold (\<lambda>d paths. List.insert (loc_path d) paths) (destinations c) paths) chunks ps)" for ps
    by (induction chunks arbitrary: ps) (simp_all add: inner)
  then show ?thesis by (simp add: unique_paths_def)
qed

lemma unify_file_times_total:
  "fst (unify_file_times set_time dest_dir chunks) + snd (unify_file_times set_time dest_dir chunks)
   = card (loc_path ` (\<Union>c \<in> set chunks. set (destinations c)))"
proof -
  have "fst (fold (\<lambda>p. unify_file set_time (path_join dest_dir p)) ps counts)
      + snd (fold (\<lambda>p. unify_file set_time (path_join dest_dir p)) ps counts) = fst counts + snd counts + length ps" for ps counts
    by (induction ps arbitrary: counts)
      (auto simp: unify_file_def Let_def split: prod.split time_outcome.split)
  then have "fst (unify_file_times set_time dest_dir chunks) + snd (unify_file_times set_time dest_dir chunks)
      = length (unique_paths chunks)"
    by (simp add: unify_file_times_def fold_concat concat_batches UNIFY_BATCH_SIZE_def)
  also have "\<dots> = card (set (unique_paths chunks))"
    using distinct_unique_paths by (simp add: distinct_card)
  finally show ?thesis by (simp add: set_unique_paths)
qed

section \<open>Properties\<close>

lemma failed_downloads_fold:
  "failed_downloads (fold add_client_result results acc)
   = failed_downloads acc @ [(name, err). (name, Inl err) \<leftarrow> results, \<not> is_not_found err]"
  by (induction results arbitrary: acc)
    (auto simp: add_client_result_def split: sum.split prod.split)

lemma failed_downloads_summary:
  "failed_downloads (summarize_clients results) = [(name, err). (name, Inl err) \<leftarrow> results, \<not> is_not_found err]"
  by (simp add: summarize_clients_def failed_downloads_fold)

lemma download_all_clients_ok_iff:
  "download_all_clients results = Inr () \<longleftrightarrow>
     (\<forall>name err. (name, Inl err) \<in> set results \<longrightarrow> is_not_found err)"
  by (fastforce simp: download_all_clients_def failed_downloads_summary Let_def split: sum.splits if_splits)

lemma contains_inside: "contains text p \<Longrightarrow> contains (before @ text @ after) p"
  unfolding contains_def sublist_def by (metis append.assoc)

lemma run_with_decoder_error:
  assumes "run_with_decoder env cfg ch ops c0 s = Some (Inl e, s')"
  shows "\<exists>before after. e = before @ chunk_key ch @ after"
proof -
  obtain r where e: "e = (''chunk '' @ quoted (chunk_key ch) @ '' download failed'') @ '': '' @ r"
  proof -
    from assms obtain q :: "string + unit"
      where "with_context (''chunk '' @ quoted (chunk_key ch) @ '' download failed'') q = Inl e"
      by (auto simp only: run_with_decoder_def map_option_eq_Some map_prod_def prod.case_eq_if prod.inject)
    then show thesis
      by (cases q) (auto simp only: with_context_def sum.case sum.inject sum.distinct intro: that [OF sym])
  qed
  show ?thesis
    by (intro exI [of _ "''chunk '' @ [CHR 0x27]"] exI [of _ "[CHR 0x27] @ '' download failed'' @ '': '' @ r"])
      (simp add: e quoted_def)
qed

text \<open>
  A multi-client download ends well exactly when every failed client reported an error that
  counts as a missing dataset; otherwise its error names every client that failed for another reason.
\<close>

theorem download_all_clients_result:
  "download_all_clients results =
     (let failed = [(name, err). (name, Inl err) \<leftarrow> results, \<not> is_not_found err]
      in if failed = [] then Inr () else Inl (''Some client downloads failed:'' @ error_summary failed))"
  by (simp add: download_all_clients_def failed_downloads_summary Let_def)

text \<open>
  The classification looks for its patterns anywhere in the error text, which names the chunk:
  a client whose download fails on a chunk with ``404'' in its key, for whatever reason, is reported
  as having no dataset, and the job ends well without its data.
\<close>

theorem failed_chunk_taken_for_missing_dataset:
  assumes "run_with_decoder env cfg ch ops c0 s = Some (Inl e, s')" and "contains (chunk_key ch) ''404''"
  shows "download_all_clients [(name, Inl e)] = Inr ()"
proof -
  from run_with_decoder_error [OF assms(1)] obtain before after where "e = before @ chunk_key ch @ after" by blast
  with contains_inside [OF assms(2)] have "is_not_found e" by (simp add: is_not_found_def)
  then show ?thesis by (simp add: download_all_clients_ok_iff)
qed

theorem failed_chunk_taken_for_missing_dataset_witness:
  "\<exists>e s'. run_with_decoder (example_env [9, 9, 9]) example_config
       ((example_chunk example_locations)\<lparr>chunk_key := ''v404/k''\<rparr>) no_coder_ops no_coder_default fresh_chunk_state
     = Some (Inl e, s') \<and> download_all_clients [(''reth'', Inl e)] = Inr ()"
proof -
  obtain e s' where run: "run_with_decoder (example_env [9, 9, 9]) example_config
       ((example_chunk example_locations)\<lparr>chunk_key := ''v404/k''\<rparr>) no_coder_ops no_coder_default fresh_chunk_state
     = Some (Inl e, s')"
    by (simp add: example_defs example_locations_def download_loop.simps send_loop.simps Let_def)
  have "contains (chunk_key ((example_chunk example_locations)\<lparr>chunk_key := ''v404/k''\<rparr>)) ''404''"
    by (simp add: contains_def sublist_code)
  from failed_chunk_taken_for_missing_dataset [OF run this, of "''reth''"] run show ?thesis by blast
qed

end
