(* ===== verification/Archive_Roundtrip.thy ===== *)
theory Archive_Roundtrip
  imports Upload Multi_Download
begin

text \<open>
  What upload and download make together: each chunk of a manifest is streamed from the source files
  and put to the store (\<open>ChunkUploader\<close>), its paths are made relative (the end of the upload), it
  is fetched, decoded and split into file parts (\<open>ChunkDownloader\<close>), and one \<open>Writer\<close> receives the
  parts of all chunks, in whatever order they reach it. All of it are the functions of \<open>Upload\<close>,
  \<open>Download_Chunk\<close> and \<open>Download_Writer\<close>; the store is known by what it promises.
\<close>

definition within :: "files \<Rightarrow> file_location \<Rightarrow> bool" where
  "within src l \<longleftrightarrow> (case src (loc_path l) of None \<Rightarrow> False | Some b \<Rightarrow> loc_size l = 0 \<or> loc_pos l + loc_size l \<le> length b)"

definition write_slice :: "files \<Rightarrow> file_location \<Rightarrow> files \<Rightarrow> files" where
  "write_slice src l = write_part (loc_path l) (loc_pos l) (slice src (loc_path l) (loc_pos l) (loc_size l))"

lemma length_slice: "within src l \<Longrightarrow> length (slice src (loc_path l) (loc_pos l) (loc_size l)) = loc_size l"
  by (auto simp: within_def slice_def split: option.splits)

text \<open>What has been written agrees with the source, and covers the locations done.\<close>

definition agrees :: "files \<Rightarrow> file_location list \<Rightarrow> files \<Rightarrow> bool" where
  "agrees src ls fs \<longleftrightarrow> (\<forall>p. (fs p = None \<longleftrightarrow> p \<notin> loc_path ` set ls)
     \<and> (\<forall>b. fs p = Some b \<longrightarrow> length b \<le> length (the (src p))
          \<and> (\<forall>i. (p, i) \<in> set (all_bytes ls) \<longrightarrow> i < length b \<and> b ! i = the (src p) ! i)))"

lemma agreesD:
  assumes "agrees src ls fs"
  shows "fs p = None \<longleftrightarrow> p \<notin> loc_path ` set ls"
    and "fs p = Some b \<Longrightarrow> length b \<le> length (the (src p))"
    and "fs p = Some b \<Longrightarrow> (p, i) \<in> set (all_bytes ls) \<Longrightarrow> i < length b \<and> b ! i = the (src p) ! i"
  using assms unfolding agrees_def by blast+

lemma set_location_bytes: "(p, i) \<in> set (location_bytes l) \<longleftrightarrow> p = loc_path l \<and> loc_pos l \<le> i \<and> i < loc_pos l + loc_size l"
  by (auto simp: location_bytes_def)

lemma agrees_step:
  assumes "agrees src ls fs" and "within src l"
  shows "agrees src (ls @ [l]) (write_slice src l fs)"
proof -
  obtain f where f: "src (loc_path l) = Some f" and bound: "loc_size l = 0 \<or> loc_pos l + loc_size l \<le> length f"
    using assms(2) by (auto simp: within_def split: option.splits)
  define d where "d = slice src (loc_path l) (loc_pos l) (loc_size l)"
  have ld: "length d = loc_size l" using assms(2) by (simp add: d_def length_slice)
  have nd: "d ! j = f ! (loc_pos l + j)" if "j < loc_size l" for j
    using that f bound by (auto simp: d_def slice_def)
  define b0 where "b0 = unwrap_or (fs (loc_path l)) []"
  have b0: "length b0 \<le> length f"
    "\<And>i. (loc_path l, i) \<in> set (all_bytes ls) \<Longrightarrow> i < length b0 \<and> b0 ! i = f ! i"
  proof -
    show "length b0 \<le> length f"
      using agreesD(2) [OF assms(1), of "loc_path l"] f by (cases "fs (loc_path l)") (simp_all add: b0_def)
    fix i assume i: "(loc_path l, i) \<in> set (all_bytes ls)"
    then have "loc_path l \<in> loc_path ` set ls"
      by (auto simp: all_bytes_def set_location_bytes intro: rev_image_eqI)
    then obtain b where b: "fs (loc_path l) = Some b" using agreesD(1) [OF assms(1), of "loc_path l"] by blast
    with agreesD(3) [OF assms(1) b i] f show "i < length b0 \<and> b0 ! i = f ! i" by (simp add: b0_def)
  qed
  define b1 where "b1 = file_write (loc_pos l) d b0"
  have l1: "length b1 \<le> length f"
    using b0(1) bound ld by (auto simp: b1_def file_write_def length_write_at)
  have c1: "i < length b1 \<and> b1 ! i = f ! i"
    if "(loc_path l, i) \<in> set (all_bytes ls) \<or> loc_pos l \<le> i \<and> i < loc_pos l + loc_size l" for i
  proof (cases "loc_pos l \<le> i \<and> i < loc_pos l + loc_size l")
    case True
    then obtain j where i: "i = loc_pos l + j" and j: "j < length d" using ld by (metis add_less_cancel_left le_Suc_ex)
    then have "d \<noteq> []" by auto
    with i j nd [of j] ld show ?thesis
      by (simp add: b1_def file_write_def nth_write_at_inside length_write_at)
  next
    case False
    with that b0(2) [of i] have "i < length b0" "b0 ! i = f ! i" by blast+
    with False ld show ?thesis
      by (auto simp: b1_def file_write_def length_write_at nth_write_at_outside)
  qed
  have fs': "write_slice src l fs = fs(loc_path l \<mapsto> b1)"
    by (simp add: write_slice_def write_part_def b1_def b0_def d_def)
  show ?thesis
    unfolding agrees_def fs'
  proof (intro allI conjI impI)
    fix p
    show "((fs(loc_path l \<mapsto> b1)) p = None) = (p \<notin> loc_path ` set (ls @ [l]))"
      using agreesD(1) [OF assms(1), of p] by auto
  next
    fix p b assume "(fs(loc_path l \<mapsto> b1)) p = Some b"
    then show "length b \<le> length (the (src p))"
      using agreesD(2) [OF assms(1), of p b] l1 f by (cases "p = loc_path l") simp_all
  next
    fix p b i assume "(fs(loc_path l \<mapsto> b1)) p = Some b" and i: "(p, i) \<in> set (all_bytes (ls @ [l]))"
    then show "i < length b"
      using agreesD(3) [OF assms(1), of p b i] c1 [of i]
      by (cases "p = loc_path l") (auto simp: set_location_bytes)
  next
    fix p b i assume "(fs(loc_path l \<mapsto> b1)) p = Some b" and i: "(p, i) \<in> set (all_bytes (ls @ [l]))"
    then show "b ! i = the (src p) ! i"
      using agreesD(3) [OF assms(1), of p b i] c1 [of i] f
      by (cases "p = loc_path l") (auto simp: set_location_bytes)
  qed
qed

lemma agrees_fold:
  assumes "agrees src done fs" and "\<forall>l \<in> set ls. within src l"
  shows "agrees src (done @ ls) (fold (write_slice src) ls fs)"
  using assms
proof (induction ls arbitrary: "done" fs)
  case Nil
  then show ?case by simp
next
  case (Cons l ls)
  from Cons.IH [OF agrees_step [OF Cons.prems(1), of l]] Cons.prems(2) show ?case by simp
qed

lemma agrees_complete:
  assumes "agrees src ls fs" and "\<And>p i. p \<in> loc_path ` set ls \<Longrightarrow> i < length (the (src p)) \<Longrightarrow> (p, i) \<in> set (all_bytes ls)"
    and "\<And>p. p \<in> loc_path ` set ls \<Longrightarrow> src p \<noteq> None"
  shows "fs = (\<lambda>p. if p \<in> loc_path ` set ls then src p else None)"
proof
  fix p
  show "fs p = (if p \<in> loc_path ` set ls then src p else None)"
  proof (cases "p \<in> loc_path ` set ls")
    case False
    with agreesD(1) [OF assms(1), of p] show ?thesis by simp
  next
    case True
    then obtain f where f: "src p = Some f" using assms(3) by blast
    obtain b where b: "fs p = Some b" using True agreesD(1) [OF assms(1), of p] by blast
    have len: "length b \<le> length f" and nth: "\<And>i. i < length f \<Longrightarrow> i < length b \<and> b ! i = f ! i"
      using agreesD(2) [OF assms(1) b] agreesD(3) [OF assms(1) b] assms(2) f True by fastforce+
    have "length b = length f"
      using len nth [of "length f - 1"] by (cases "length f") auto
    then have "b = f" using nth by (intro nth_equalityI) auto
    with True b f show ?thesis by simp
  qed
qed

lemma sources_list_from_positions:
  "sources_list_from excluded entries acc = Inr res \<Longrightarrow> \<forall>l \<in> set (sources acc). loc_pos l = 0 \<Longrightarrow>
   \<forall>l \<in> set (sources res). loc_pos l = 0"
  by (induction excluded entries acc rule: sources_list_from.induct) (auto split: if_splits)

lemma list_sources_positions: "list_sources excluded entries = Inr srcs \<Longrightarrow> l \<in> set (sources srcs) \<Longrightarrow> loc_pos l = 0"
  using sources_list_from_positions [of excluded entries "\<lparr>sources_total_size = 0, sources = []\<rparr>" srcs]
  by (auto simp: list_sources_def)

text \<open>A location whose bytes are among those of the sources lies within its file.\<close>

lemma within_from_bytes:
  assumes "set (location_bytes l) \<subseteq> set (all_bytes ls)" and "loc_path l \<in> loc_path ` set ls" and "\<forall>m \<in> set ls. within src m"
  shows "within src l"
proof -
  obtain f where f: "src (loc_path l) = Some f" using assms(2,3) by (force simp: within_def split: option.splits)
  have "loc_size l = 0 \<or> loc_pos l + loc_size l \<le> length f"
  proof (cases "loc_size l")
    case 0
    then show ?thesis by simp
  next
    case (Suc n)
    then have "(loc_path l, loc_pos l + n) \<in> set (all_bytes ls)"
      using assms(1) by (force simp: set_location_bytes)
    then obtain m where "m \<in> set ls" "loc_path m = loc_path l" "loc_pos m \<le> loc_pos l + n" "loc_pos l + n < loc_pos m + loc_size m"
      by (auto simp: all_bytes_def set_location_bytes)
    with assms(3) f Suc show ?thesis by (force simp: within_def)
  qed
  with f show ?thesis by (simp add: within_def)
qed

section \<open>Locations as lists of bytes\<close>

definition cell :: "files \<Rightarrow> path \<times> nat \<Rightarrow> byte" where
  "cell src x = the (src (fst x)) ! snd x"

lemma map_cell_location: "map (cell src) (location_bytes l) = map (\<lambda>i. the (src (loc_path l)) ! i) [loc_pos l ..< loc_pos l + loc_size l]"
  by (simp add: location_bytes_def cell_def)

lemma slice_cells: "within src l \<Longrightarrow> slice src (loc_path l) (loc_pos l) (loc_size l) = map (cell src) (location_bytes l)"
  by (rule nth_equalityI) (auto simp: map_cell_location length_slice, auto simp: slice_def within_def split: option.splits)

lemma read_locations_cells: "\<forall>l \<in> set ls. within src l \<Longrightarrow> read_locations src ls = map (cell src) (all_bytes ls)"
  by (induction ls) (simp_all add: slice_cells)

lemma length_all_bytes: "length (all_bytes ls) = total_bytes ls"
  by (induction ls) (simp_all add: location_bytes_def)

lemma locations_size_total: "locations_size ls = total_bytes ls"
  by (simp add: locations_size_def total_bytes_def)

text \<open>Parts that carry what the source has at their place.\<close>

definition part_of :: "files \<Rightarrow> chunk_data \<Rightarrow> bool" where
  "part_of src d = (case d of FilePart p pos data \<Rightarrow> data = slice src p pos (length data) | EndOfChunk c \<Rightarrow> True)"

lemma parts_of_source:
  assumes "part_bytes parts = map (cell src) (all_bytes (part_locations parts))" and "\<forall>l \<in> set (part_locations parts). within src l"
  shows "list_all (part_of src) parts"
  using assms
proof (induction parts rule: part_locations.induct)
  case (2 p pos data ds)
  let ?l = "\<lparr>loc_path = p, loc_pos = pos, loc_size = length data\<rparr>"
  have "length data = length (map (cell src) (location_bytes ?l))" by (simp add: location_bytes_def)
  with 2(2) have "data = map (cell src) (location_bytes ?l)"
    and "part_bytes ds = map (cell src) (all_bytes (part_locations ds))"
    by (simp_all add: append_eq_append_conv)
  with 2 slice_cells [of src ?l] show ?case by (simp add: part_of_def)
qed (simp_all add: part_of_def)

lemma apply_parts_of_source: "list_all (part_of src) parts \<Longrightarrow> apply_parts parts fs = fold (write_slice src) (part_locations parts) fs"
  by (induction parts arbitrary: fs rule: part_locations.induct) (simp_all add: part_of_def write_slice_def)

section \<open>Relative paths\<close>

definition under :: "path \<Rightarrow> file_location \<Rightarrow> file_location" where
  "under base l = l\<lparr>loc_path := base @ ''/'' @ loc_path l\<rparr>"

definition below :: "files \<Rightarrow> path \<Rightarrow> files" where
  "below src base q = src (base @ ''/'' @ q)"

lemma under_simps [simp]:
  "loc_path (under base l) = base @ ''/'' @ loc_path l" "loc_pos (under base l) = loc_pos l" "loc_size (under base l) = loc_size l"
  by (simp_all add: under_def)

lemma strip_prefix_Inr: "strip_prefix base p = Inr q \<Longrightarrow> p = base @ ''/'' @ q"
  by (auto simp: strip_prefix_def prefix_def split: if_splits)

lemma relative_locations:
  "collect_results (map (\<lambda>d. and_then (strip_prefix base (loc_path d)) (\<lambda>p. Inr (d\<lparr>loc_path := p\<rparr>))) ds) = Inr ds' \<Longrightarrow>
     ds = map (under base) ds'"
  by (induction ds arbitrary: ds') (auto simp: and_then_Inr_iff under_def dest!: strip_prefix_Inr)

lemma relative_chunk_Inr:
  "relative_chunk base u = Inr r \<Longrightarrow> destinations u = map (under base) (destinations r) \<and> r = u\<lparr>destinations := destinations r\<rparr>"
  by (auto simp: relative_chunk_def and_then_Inr_iff dest: relative_locations)

lemma within_under [simp]: "within src (under base l) = within (below src base) l"
  by (simp add: within_def below_def split: option.split)

lemma read_locations_under: "read_locations src (map (under base) ls) = read_locations (below src base) ls"
  by (induction ls) (simp_all add: slice_def below_def)

lemma total_bytes_under [simp]: "total_bytes (map (under base) ls) = total_bytes ls"
  by (simp add: total_bytes_def comp_def)

lemma all_bytes_under: "all_bytes (map (under base) ls) = map (\<lambda>(q, i). (base @ ''/'' @ q, i)) (all_bytes ls)"
  by (induction ls) (simp_all add: location_bytes_def)

section \<open>One chunk, from the source files to the parts of its download\<close>

text \<open>What the store promises: a body it accepted at the url of the upload is what it serves at the url
  of the download.\<close>

definition stores :: "upload_http \<Rightarrow> download_env \<Rightarrow> string \<Rightarrow> string \<Rightarrow> bool" where
  "stores web env up down \<longleftrightarrow>
     (\<forall>n len parts status. put_chunk web n up len parts = Some (Inr status) \<longrightarrow> 200 \<le> status \<and> status < 300 \<longrightarrow>
        serves env down (concat parts))"

text \<open>
  A chunk \<open>c\<close> of the manifest that was uploaded to the slot it got and downloaded again: the first
  and the last of these steps are whole runs, with their retries, at any time and with any other
  runs in between. \<open>parts\<close> is what the download sent to the writer.
\<close>

inductive archived ::
  "upload_http \<Rightarrow> transfer_config \<Rightarrow> 'e coder_ops \<Rightarrow> 'e \<Rightarrow> path \<Rightarrow> download_env \<Rightarrow> transfer_config \<Rightarrow> 'd coder_ops \<Rightarrow> 'd \<Rightarrow>
     chunk \<Rightarrow> chunk_data list \<Rightarrow> bool"
  for web ucfg enc e0 base env dcfg dec d0 where
  archived:
    "\<lbrakk>chunk_uploader_run web ucfg enc (Inr e0) (c\<lparr>chunk_key := key, chunk_url := Some up\<rparr>) n = (Inr u, n');
      stores web env up down; relative_chunk base u = Inr r;
      chunk_downloader_run env dcfg dec (Inr d0) (r\<lparr>chunk_url := Some down\<rparr>) s = Some (Inr (), s');
      sent s' = sent s @ parts\<rbrakk> \<Longrightarrow> archived web ucfg enc e0 base env dcfg dec d0 c parts"

inductive_cases archivedE: "archived web ucfg enc e0 base env dcfg dec d0 c parts"

lemma chunk_uploader_run_Inr:
  assumes "chunk_uploader_run web cfg enc (Inr e0) c n = (Inr u, n')"
  shows "\<exists>k k'. upload_chunk web cfg enc (Inr e0) c k = (Inr u, k')"
proof -
  have "with_retry_limit (upload_chunk web cfg enc (Inr e0) c) (\<lambda>_ n. n)
      (transfer_max_retries cfg) (transfer_backoff_base_ms cfg) n = (Inr u, n')"
    using assms by (auto simp: chunk_uploader_run_def split: prod.splits sum.splits)
  from selective_retry_loop_Inr [OF this [unfolded with_retry_limit_def]] show ?thesis by blast
qed

lemma put_body_Inr:
  assumes "put_body web c len parts k = (Inr (), k')" and "chunk_url c = Some up" and "stores web env up down"
  shows "serves env down (concat parts)"
proof -
  from assms(1,2) obtain status where "put_chunk web k up len parts = Some (Inr status)" "200 \<le> status" "status < 300"
    by (auto simp: put_body_def split: option.splits sum.splits if_splits)
  with assms(3) show ?thesis unfolding stores_def by blast
qed

definition coded :: "transfer_config \<Rightarrow> (byte list \<Rightarrow> byte list) \<Rightarrow> byte list \<Rightarrow> byte list" where
  "coded cfg f xs = (if config_compression cfg = None then xs else f xs)"

lemma upload_body_Inr:
  assumes "upload_body web cfg enc (Inr e0) c = Some (Inr (len, parts, d))"
    and "coder (feed_op enc) (consume_op enc) (finalize_op enc) e0 holds ready encode" and "0 < max_buffer_size cfg"
    and "\<forall>l \<in> set (destinations c). within (upload_files web) l"
  shows "concat parts = coded cfg encode (read_locations (upload_files web) (destinations c)) \<and> len = length (concat parts)"
proof (cases "config_compression cfg")
  case None
  with assms(1) obtain z where z: "upload_stream no_coder_feed no_coder_consume no_coder_finalize no_coder_default
      (upload_files web) (max_buffer_size cfg) (destinations c) = Some z"
    by (auto simp: upload_body_def)
  with assms(1) None obtain d' where st: "upload_stream no_coder_feed no_coder_consume no_coder_finalize no_coder_default
      (upload_files web) (max_buffer_size cfg) (destinations c) = Some (Inr (parts, d'))" and len: "len = total_bytes (destinations c)"
    by (cases z) (auto simp: upload_body_def)
  from upload_stream_encodes [OF plain.coder_axioms assms(3), of "upload_files web" "destinations c"] st
  have "concat parts = read_locations (upload_files web) (destinations c)" by auto
  with None len read_locations_cells [OF assms(4)] show ?thesis by (simp add: coded_def length_all_bytes)
next
  case (Some k)
  then obtain level where k: "config_compression cfg = Some (ZSTD level)" by (cases k) simp
  with assms(1) obtain z where z: "upload_stream (feed_op enc) (consume_op enc) (finalize_op enc) e0
      (upload_files web) (max_buffer_size cfg) (destinations c) = Some z"
    by (auto simp: upload_body_def)
  with assms(1) k obtain parts' d' where st: "upload_stream (feed_op enc) (consume_op enc) (finalize_op enc) e0
      (upload_files web) (max_buffer_size cfg) (destinations c) = Some (Inr (parts', d'))"
    and out: "consume_reader parts' = (parts, len)"
    by (cases z) (auto simp: upload_body_def split: prod.splits)
  have "concat (filter (\<lambda>p. p \<noteq> []) ps) = concat ps" for ps :: "byte list list" by (induction ps) simp_all
  with out have "concat parts = concat parts'" "len = length (concat parts')" by (auto simp: consume_reader_def)
  with upload_stream_encodes [OF assms(2,3), of "upload_files web" "destinations c"] st Some
  show ?thesis by (auto simp: coded_def)
qed

text \<open>What an upload leaves: the size of the chunk is the size of a body that the store serves.\<close>

lemma upload_leaves_body:
  assumes "chunk_uploader_run web cfg enc (Inr e0) c n = (Inr u, n')" and "chunk_url c = Some up" and "stores web env up down"
    and "coder (feed_op enc) (consume_op enc) (finalize_op enc) e0 holds ready encode" and "0 < max_buffer_size cfg"
    and "\<forall>l \<in> set (destinations c). within (upload_files web) l"
  shows "destinations u = destinations c \<and>
    (if total_bytes (destinations c) = 0 then chunk_size u = 0
     else serves env down (coded cfg encode (read_locations (upload_files web) (destinations c))) \<and>
       chunk_size u = length (coded cfg encode (read_locations (upload_files web) (destinations c))))"
proof -
  from chunk_uploader_run_Inr [OF assms(1)] obtain k k' where up: "upload_chunk web cfg enc (Inr e0) c k = (Inr u, k')" by blast
  show ?thesis
  proof (cases "total_bytes (destinations c) = 0")
    case True
    with up show ?thesis by (auto simp: upload_chunk_def)
  next
    case False
    with up obtain len parts d where body: "upload_body web cfg enc (Inr e0) c = Some (Inr (len, parts, d))"
      and put: "put_body web c len parts k = (Inr (), k')"
      and u: "u = c\<lparr>chunk_size := len, chunk_checksum := Blake3 (blake3_hash web d), chunk_url := None\<rparr>"
      by (auto simp: upload_chunk_def try_then_def split: option.splits sum.splits prod.splits)
    from upload_body_Inr [OF body assms(4-6)] put_body_Inr [OF put assms(2,3)] u False show ?thesis by simp
  qed
qed

lemma archived_delivers:
  assumes "archived web ucfg enc e0 base env dcfg dec d0 c parts"
    and "coder (feed_op enc) (consume_op enc) (finalize_op enc) e0 holds_e ready_e encode" and "0 < max_buffer_size ucfg"
    and "coder (feed_op dec) (consume_op dec) (finalize_op dec) d0 holds_d ready_d decode" and "0 < max_buffer_size dcfg"
    and "\<And>xs. decode (encode xs) = xs" and "config_compression dcfg = config_compression ucfg"
    and "\<forall>l \<in> set (destinations c). within (upload_files web) l"
  shows "\<exists>ds. destinations c = map (under base) ds \<and> delivers ds (read_locations (upload_files web) (destinations c)) parts []"
  using assms(1)
proof (rule archivedE)
  fix key up n u n' down r s s'
  assume up: "chunk_uploader_run web ucfg enc (Inr e0) (c\<lparr>chunk_key := key, chunk_url := Some up\<rparr>) n = (Inr u, n')"
    and st: "stores web env up down" and rel: "relative_chunk base u = Inr r"
    and down: "chunk_downloader_run env dcfg dec (Inr d0) (r\<lparr>chunk_url := Some down\<rparr>) s = Some (Inr (), s')"
    and sent: "sent s' = sent s @ parts"
  let ?x = "read_locations (upload_files web) (destinations c)"
  have dest: "destinations (c\<lparr>chunk_key := key, chunk_url := Some up\<rparr>) = destinations c" by simp
  have u: "destinations u = destinations c"
    and body: "if total_bytes (destinations c) = 0 then chunk_size u = 0
      else serves env down (coded ucfg encode ?x) \<and> chunk_size u = length (coded ucfg encode ?x)"
    using upload_leaves_body [OF up _ st assms(2,3), unfolded dest] assms(8) by simp_all
  from relative_chunk_Inr [OF rel] u have ds: "destinations c = map (under base) (destinations r)"
    and size: "chunk_size r = chunk_size u" by (simp, metis chunk.select_convs(5) chunk.surjective chunk.update_convs(6))
  have len: "length ?x = locations_size (destinations r)"
    using read_locations_cells [OF assms(8)] ds by (simp add: length_all_bytes locations_size_total)
  from chunk_downloader_run_Inr [OF assms(4,5) down] obtain data ps where
    data: "length data = chunk_size r" "sent s' = sent s @ ps @ [EndOfChunk (r\<lparr>chunk_url := Some down\<rparr>)]"
    and fits: "length (coded dcfg decode data) \<le> locations_size (destinations r)"
    and del: "length (coded dcfg decode data) = locations_size (destinations r) \<longrightarrow>
      delivers (destinations r) (coded dcfg decode data) ps []"
    and from_body: "serves env down b \<Longrightarrow> data = take (chunk_size r) b" for b
    by (auto simp: Let_def coded_def)
  have "coded dcfg decode data = ?x"
  proof (cases "total_bytes (destinations c) = 0")
    case True
    with len ds fits show ?thesis by (simp add: locations_size_total)
  next
    case False
    with body from_body [of "coded ucfg encode ?x"] size have "data = coded ucfg encode ?x" by simp
    with assms(6,7) show ?thesis by (simp add: coded_def)
  qed
  with del len have "delivers (destinations r) ?x ps []" by simp
  moreover from data(2) sent have "parts = ps @ [EndOfChunk (r\<lparr>chunk_url := Some down\<rparr>)]" by simp
  ultimately show ?thesis using ds by (intro exI [of _ "destinations r"]) (simp add: delivers_def)
qed

section \<open>All chunks\<close>

lemma read_locations_append: "read_locations src (ls @ ms) = read_locations src ls @ read_locations src ms"
  by (simp add: read_locations_def)

lemma delivers_append: "delivers ls d ps [] \<Longrightarrow> delivers ms e qs [] \<Longrightarrow> delivers (ls @ ms) (d @ e) (ps @ qs) []"
  by (auto simp: delivers_def)

lemma chunks_deliver:
  assumes "list_all2 (\<lambda>c parts. \<exists>ds. destinations c = map (under base) ds \<and>
      delivers ds (read_locations src (destinations c)) parts []) cs pss"
  shows "\<exists>ls. concat (map destinations cs) = map (under base) ls \<and>
    delivers ls (read_locations (below src base) ls) (concat pss) []"
  using assms
proof (induction cs pss rule: list_all2_induct)
  case Nil
  show ?case by (intro exI [of _ "[]"]) (simp add: delivers_def)
next
  case (Cons c cs parts pss)
  then obtain ds ls where "destinations c = map (under base) ds" "delivers ds (read_locations src (destinations c)) parts []"
    "concat (map destinations cs) = map (under base) ls" "delivers ls (read_locations (below src base) ls) (concat pss) []"
    by blast
  then show ?case
    by (intro exI [of _ "ds @ ls"]) (simp add: read_locations_append read_locations_under delivers_append)
qed

lemma set_all_bytes: "set (all_bytes ls) = (\<Union>l \<in> set ls. set (location_bytes l))"
  by (simp add: all_bytes_def)

lemma set_part_locations: "set (part_locations ps) = (\<Union>p \<in> set ps. set (part_locations [p]))"
  by (induction ps rule: part_locations.induct) auto

text \<open>Parts that deliver whole files give these files, in whatever order they are applied.\<close>

lemma parts_give_files:
  assumes "delivers ls (read_locations src ls) ps []" and "\<forall>l \<in> set ls. within src l" and "set qs = set ps"
    and "\<And>p i. p \<in> loc_path ` set ls \<Longrightarrow> i < length (the (src p)) \<Longrightarrow> (p, i) \<in> set (all_bytes ls)"
  shows "apply_parts qs (\<lambda>_. None) = (\<lambda>p. if p \<in> loc_path ` set ls then src p else None)"
proof -
  let ?ps = "part_locations ps" and ?qs = "part_locations qs"
  from assms(1) have bytes: "all_bytes ?ps = all_bytes ls" and paths: "loc_path ` set ?ps = loc_path ` set ls"
    and data: "part_bytes ps = read_locations src ls"
    by (auto simp: delivers_def)
  have same: "set ?qs = set ?ps" using assms(3) set_part_locations [of ps] set_part_locations [of qs] by simp
  have w: "\<forall>l \<in> set ?ps. within src l"
  proof
    fix l assume "l \<in> set ?ps"
    then have "set (location_bytes l) \<subseteq> set (all_bytes ls)" "loc_path l \<in> loc_path ` set ls"
      unfolding bytes [symmetric] paths [symmetric] by (auto simp: set_all_bytes)
    then show "within src l" using assms(2) by (rule within_from_bytes)
  qed
  have "list_all (part_of src) ps"
    using w data by (intro parts_of_source) (simp_all only: read_locations_cells [OF assms(2)] bytes)
  then have "list_all (part_of src) qs" using assms(3) by (simp add: list_all_iff)
  moreover have "agrees src [] (\<lambda>_. None)" by (simp add: agrees_def)
  from agrees_fold [OF this, of ?qs] w same have "agrees src ?qs (fold (write_slice src) ?qs (\<lambda>_. None))" by simp
  ultimately have "agrees src ?qs (apply_parts qs (\<lambda>_. None))" by (simp only: apply_parts_of_source)
  then have "apply_parts qs (\<lambda>_. None) = (\<lambda>p. if p \<in> loc_path ` set ?qs then src p else None)"
  proof (rule agrees_complete)
    fix p i assume "p \<in> loc_path ` set ?qs" "i < length (the (src p))"
    then have "(p, i) \<in> set (all_bytes ls)" using assms(4) same paths by simp
    then show "(p, i) \<in> set (all_bytes ?qs)" unfolding bytes [symmetric] by (simp only: set_all_bytes same)
  next
    fix p assume "p \<in> loc_path ` set ?qs"
    then show "src p \<noteq> None" using w same by (force simp: within_def split: option.splits)
  qed
  then show ?thesis by (simp only: same paths)
qed

text \<open>The writer puts the parts below its directory.\<close>

lemma apply_relocated:
  assumes "\<forall>l \<in> set (part_locations ps). \<not> prefix ''/'' (loc_path l)" and "\<And>q. \<not> prefix ''/'' q \<Longrightarrow> fs (path_join dir q) = gs q"
    and "\<not> prefix ''/'' q"
  shows "apply_parts (map (relocate dir) ps) fs (path_join dir q) = apply_parts ps gs q"
  using assms
proof (induction ps arbitrary: fs gs rule: part_locations.induct)
  case (2 p pos data ds)
  have "write_part (path_join dir p) pos data fs (path_join dir q) = write_part p pos data gs q" if "\<not> prefix ''/'' q" for q
    using 2(2,3) that by (simp add: write_part_def path_join_inject)
  with 2 show ?case by (simp add: relocate_def)
qed (simp_all add: relocate_def)

lemma apply_relocated_None:
  assumes "p \<notin> path_join dir ` loc_path ` set (part_locations ps)"
  shows "apply_parts (map (relocate dir) ps) fs p = fs p"
  using assms by (induction ps arbitrary: fs rule: part_locations.induct) (simp_all add: relocate_def write_part_def)

text \<open>The locations of a manifest, relative to the source directory.\<close>

lemma manifest_locations:
  assumes "list_sources excluded entries = Inr srcs" and "0 < n_slots"
    and "n_slots \<le> sources_total_size srcs \<or> sources_total_size srcs = 0"
    and "\<forall>s \<in> set (sources srcs). src (loc_path s) \<noteq> None \<and> loc_size s = length (the (src (loc_path s)))"
    and "ds = concat (map destinations (manifest_chunks (prepare_manifest_blueprint codec n_slots srcs)))"
  shows "loc_path ` set ds = loc_path ` set (sources srcs)" and "\<forall>l \<in> set ds. within src l"
    and "\<And>p i. p \<in> loc_path ` set ds \<Longrightarrow> i < length (the (src p)) \<Longrightarrow> (p, i) \<in> set (all_bytes ds)"
proof -
  note covers = manifest_covers [OF assms(1-3), of codec]
  show paths: "loc_path ` set ds = loc_path ` set (sources srcs)"
    unfolding assms(5) using covers by (rule conjunct2)
  have "all_bytes ds = all_bytes (rev (sort_sources (sources srcs)))"
    unfolding assms(5) using covers by (rule conjunct1)
  then have bytes: "set (all_bytes ds) = set (all_bytes (sources srcs))"
    by (simp only: set_all_bytes set_rev) (simp add: sort_sources_def)
  have zero: "loc_pos s = 0" if "s \<in> set (sources srcs)" for s by (rule list_sources_positions [OF assms(1) that])
  have "\<forall>s \<in> set (sources srcs). within src s"
    using assms(4) zero by (auto simp: within_def split: option.splits)
  moreover have "set (location_bytes l) \<subseteq> set (all_bytes (sources srcs))" "loc_path l \<in> loc_path ` set (sources srcs)"
    if "l \<in> set ds" for l
    unfolding bytes [symmetric] paths [symmetric] using that by (auto simp: set_all_bytes)
  ultimately show "\<forall>l \<in> set ds. within src l" using within_from_bytes by blast
  fix p i assume "p \<in> loc_path ` set ds" and i: "i < length (the (src p))"
  then obtain s where "s \<in> set (sources srcs)" "loc_path s = p" unfolding paths by blast
  with assms(4) zero i show "(p, i) \<in> set (all_bytes ds)"
    unfolding bytes by (force simp: all_bytes_def set_location_bytes)
qed

text \<open>
  C3: an archive round trip through the code of both sides. The source files are listed and split
  into chunks (no more slots than bytes, or no bytes at all); each chunk is uploaded by a run of the
  chunk uploader to a store that serves what it accepted, made relative, and downloaded by a run of
  the chunk downloader; the parts of all chunks reach the writer in any order at all. Then the
  writer, when it ends without an error, has put exactly the source files below its directory, the
  empty ones included, and nothing else, for any compression whose coders keep the contract of the
  coder trait and invert each other, and any sizes of buffers, slots and table of open files.
\<close>

theorem archive_roundtrip:
  assumes "list_sources excluded entries = Inr srcs" and "0 < n_slots"
    and "n_slots \<le> sources_total_size srcs \<or> sources_total_size srcs = 0"
    and "\<forall>s \<in> set (sources srcs). upload_files web (loc_path s) \<noteq> None \<and>
      loc_size s = length (the (upload_files web (loc_path s))) \<and> \<not> prefix (base @ ''//'') (loc_path s)"
    and "coder (feed_op enc) (consume_op enc) (finalize_op enc) e0 holds_e ready_e encode" and "0 < max_buffer_size ucfg"
    and "coder (feed_op dec) (consume_op dec) (finalize_op dec) d0 holds_d ready_d decode" and "0 < max_buffer_size dcfg"
    and "\<And>xs. decode (encode xs) = xs" and "config_compression dcfg = config_compression ucfg"
    and "list_all2 (archived web ucfg enc e0 base env dcfg dec d0)
      (manifest_chunks (prepare_manifest_blueprint (config_compression ucfg) n_slots srcs)) pss"
    and "0 < limit" and "chunks \<noteq> progress" and "load_chunks chunks meta = Inr downloaded"
    and "list_all fst events" and "mset (map (snd \<circ> snd) events) = mset (concat pss)"
    and "writer_run wenv events (writer_new dir limit progress chunks n downloaded (\<lambda>_. None) meta) = (Inr finished, w')"
  shows "(\<forall>q. \<not> prefix ''/'' q \<longrightarrow> written_files w' (path_join dir q) =
      (if base @ ''/'' @ q \<in> loc_path ` set (sources srcs) then upload_files web (base @ ''/'' @ q) else None))
    \<and> {p. written_files w' p \<noteq> None} \<subseteq> path_join dir ` {q. base @ ''/'' @ q \<in> loc_path ` set (sources srcs)}"
proof -
  define cs where "cs = manifest_chunks (prepare_manifest_blueprint (config_compression ucfg) n_slots srcs)"
  let ?src = "upload_files web" and ?ds = "concat (map destinations cs)" and ?qs = "map (snd \<circ> snd) events"
  have "\<forall>s \<in> set (sources srcs). ?src (loc_path s) \<noteq> None \<and> loc_size s = length (the (?src (loc_path s)))"
    using assms(4) by blast
  note manifest = manifest_locations [OF assms(1-3) this cs_def [THEN arg_cong [where f = "\<lambda>cs. concat (map destinations cs)"]]]
  have "list_all2 (\<lambda>c parts. \<exists>ds. destinations c = map (under base) ds \<and>
      delivers ds (read_locations ?src (destinations c)) parts []) cs pss"
    using assms(11) [folded cs_def]
  proof (rule list.rel_mono_strong)
    fix c parts assume "c \<in> set cs" and "parts \<in> set pss" and arch: "archived web ucfg enc e0 base env dcfg dec d0 c parts"
    then have "\<forall>l \<in> set (destinations c). within ?src l" using manifest(2) by auto
    then show "\<exists>ds. destinations c = map (under base) ds \<and> delivers ds (read_locations ?src (destinations c)) parts []"
      by (rule archived_delivers [OF arch assms(5-10)])
  qed
  from chunks_deliver [OF this] obtain ls where ls: "?ds = map (under base) ls"
    and del: "delivers ls (read_locations (below ?src base) ls) (concat pss) []" by blast
  have path: "q \<in> loc_path ` set ls \<longleftrightarrow> base @ ''/'' @ q \<in> loc_path ` set (sources srcs)" for q
    unfolding manifest(1) [symmetric] ls by (auto simp: image_image)
  have all: "(q, i) \<in> set (all_bytes ls)" if "q \<in> loc_path ` set ls" "i < length (the (below ?src base q))" for q i
  proof -
    have "(base @ ''/'' @ q, i) \<in> set (all_bytes (map (under base) ls))"
      using manifest(3) [of "base @ ''/'' @ q" i] that path [of q] unfolding manifest(1) [symmetric] ls by (simp add: below_def)
    then show ?thesis by (auto simp: all_bytes_under)
  qed
  have w: "\<forall>l \<in> set ls. within (below ?src base) l" using manifest(2) unfolding ls by simp
  have files: "apply_parts ?qs (\<lambda>_. None) = (\<lambda>q. if q \<in> loc_path ` set ls then below ?src base q else None)"
    using all by (rule parts_give_files [OF del w mset_eq_setD [OF assms(16)]])
  have qs: "set (part_locations ?qs) = set (part_locations (concat pss))"
    using mset_eq_setD [OF assms(16)] set_part_locations [of ?qs] set_part_locations [of "concat pss"] by simp
  have paths: "loc_path ` set (part_locations ?qs) = loc_path ` set ls" using del unfolding qs by (simp add: delivers_def)
  have relative: "\<forall>l \<in> set (part_locations ?qs). \<not> prefix ''/'' (loc_path l)"
  proof
    fix l assume "l \<in> set (part_locations ?qs)"
    then have "loc_path l \<in> loc_path ` set ls" unfolding paths [symmetric] by (rule imageI)
    then obtain s where "s \<in> set (sources srcs)" "base @ ''/'' @ loc_path l = loc_path s" unfolding path by (rule imageE)
    with assms(4) have "\<not> prefix (base @ ''//'') (base @ ''/'' @ loc_path l)" by simp
    then show "\<not> prefix ''/'' (loc_path l)" by (simp add: prefix_def)
  qed
  have "writer_ok (writer_new dir limit progress chunks n downloaded (\<lambda>_. None) meta)"
    "chunks_recorded (writer_new dir limit progress chunks n downloaded (\<lambda>_. None) meta)"
    using assms(12-14) by (simp_all add: writer_new_def writer_ok_def chunks_recorded_def)
  from writer_run_effect [OF this assms(15,17)]
  have written: "written_files w' = apply_parts (map (relocate dir) ?qs) (\<lambda>_. None)"
    by (simp add: writer_new_def comp_assoc)
  show ?thesis
  proof (intro conjI allI impI)
    fix q assume q: "\<not> prefix ''/'' q"
    have "written_files w' (path_join dir q) = apply_parts ?qs (\<lambda>_. None) q"
      unfolding written by (rule apply_relocated [OF relative refl q])
    then show "written_files w' (path_join dir q) =
        (if base @ ''/'' @ q \<in> loc_path ` set (sources srcs) then ?src (base @ ''/'' @ q) else None)"
      by (simp add: files path below_def)
  next
    show "{p. written_files w' p \<noteq> None} \<subseteq> path_join dir ` {q. base @ ''/'' @ q \<in> loc_path ` set (sources srcs)}"
    proof
      fix p assume "p \<in> {p. written_files w' p \<noteq> None}"
      then have "apply_parts (map (relocate dir) ?qs) (\<lambda>_. None) p \<noteq> None" by (simp add: written del: map_map)
      then have "p \<in> path_join dir ` loc_path ` set (part_locations ?qs)" using apply_relocated_None by metis
      then obtain q where "p = path_join dir q" "q \<in> loc_path ` set ls" unfolding paths by (rule imageE)
      then show "p \<in> path_join dir ` {q. base @ ''/'' @ q \<in> loc_path ` set (sources srcs)}"
        by (simp only: path) (rule imageI, rule CollectI)
    qed
  qed
qed

section \<open>An example\<close>

definition example_body :: "string \<Rightarrow> byte list" where
  "example_body url = (if url = ''a'' then [1, 2, 3] else [4, 5])"

definition example_web :: upload_http where
  "example_web = \<lparr>put_chunk = (\<lambda>_ url len parts. Some (Inr (if concat parts = example_body url then 200 else 400))),
     show_upload_status = (\<lambda>_. []), upload_files = example_files, blake3_hash = rev, body_error_fatal = False\<rparr>"

definition example_store :: download_env where
  "example_store = \<lparr>http = (\<lambda>_ url a b. Answer 200 [take (b + 1 - a) (drop a (example_body url))] None),
     show_status = (\<lambda>_. []), sha1 = rev, sha256 = rev, blake3 = rev, interrupted = (\<lambda>_. False)\<rparr>"

lemma example_stores: "stores example_web example_store url url"
  by (auto simp: stores_def serves_def example_web_def example_store_def split: if_splits)

definition example_chunk_of :: "path \<Rightarrow> nat \<Rightarrow> nat \<Rightarrow> chunk" where
  "example_chunk_of p n i = blueprint_chunk i [\<lparr>loc_path = p, loc_pos = 0, loc_size = n\<rparr>]"

lemma example_manifest:
  "manifest_chunks (prepare_manifest_blueprint None 2 example_listed) = [example_chunk_of ''/s/b'' 2 0, example_chunk_of ''/s/a'' 3 1]"
proof -
  have sorted: "rev (sort_sources (sources example_listed))
      = [\<lparr>loc_path = ''/s/b'', loc_pos = 0, loc_size = 2\<rparr>, \<lparr>loc_path = ''/s/a'', loc_pos = 0, loc_size = 3\<rparr>]"
    by (simp add: example_listed_def sort_sources_def path_components_def)
  have total: "sources_total_size example_listed = 5" by (simp add: example_listed_def)
  have "fill_slots 2 3 0 (Suc (Suc 0)) [\<lparr>loc_path = ''/s/b'', loc_pos = 0, loc_size = 2\<rparr>, \<lparr>loc_path = ''/s/a'', loc_pos = 0, loc_size = 3\<rparr>]
      = [example_chunk_of ''/s/b'' 2 0, example_chunk_of ''/s/a'' 3 1]"
    by (simp add: build_destinations_def Let_def example_chunk_of_def)
  then show ?thesis by (simp add: prepare_manifest_blueprint_def sorted total Let_def numeral_2_eq_2 [symmetric])
qed

lemmas upload_example_defs = chunk_uploader_run_def with_retry_limit_def selective_retry_loop.simps upload_chunk_def upload_body_def
  upload_stream_def reader_new_def open_location_def read_all.simps try_next.simps read_data.simps read_exact_at_def at_end_def
  no_coder_defs put_body_def try_then_def and_then_def example_config_def build_transfer_config_def example_web_def
  example_files_def example_body_def

definition example_uploaded :: "path \<Rightarrow> nat \<Rightarrow> nat \<Rightarrow> byte list \<Rightarrow> string option \<Rightarrow> chunk" where
  "example_uploaded p n i digest url =
     (blueprint_chunk i [\<lparr>loc_path = p, loc_pos = 0, loc_size = n\<rparr>])
       \<lparr>chunk_key := ''k'', chunk_url := url, chunk_size := n, chunk_checksum := Blake3 digest\<rparr>"

definition example_parts_a :: "chunk_data list" where
  "example_parts_a = [FilePart ''a'' 0 [1, 2], FilePart ''a'' 2 [3], EndOfChunk (example_uploaded ''a'' 3 1 [3, 2, 1] (Some ''a''))]"

definition example_parts_b :: "chunk_data list" where
  "example_parts_b = [FilePart ''b'' 0 [4, 5], EndOfChunk (example_uploaded ''b'' 2 0 [5, 4] (Some ''b''))]"

lemmas example_parts_def = example_parts_a_def example_parts_b_def

lemma example_upload_a:
  "chunk_uploader_run example_web example_config no_coder_ops (Inr no_coder_default)
     ((example_chunk_of ''/s/a'' 3 1)\<lparr>chunk_key := ''k'', chunk_url := Some ''a''\<rparr>) 0
   = (Inr (example_uploaded ''/s/a'' 3 1 [3, 2, 1] None), 1)"
  by (simp add: upload_example_defs example_chunk_of_def example_uploaded_def blueprint_chunk_def)

lemma example_upload_b:
  "chunk_uploader_run example_web example_config no_coder_ops (Inr no_coder_default)
     ((example_chunk_of ''/s/b'' 2 0)\<lparr>chunk_key := ''k'', chunk_url := Some ''b''\<rparr>) 0
   = (Inr (example_uploaded ''/s/b'' 2 0 [5, 4] None), 1)"
  by (simp add: upload_example_defs example_chunk_of_def example_uploaded_def blueprint_chunk_def)

lemma example_download_a:
  "chunk_downloader_run example_store example_config no_coder_ops (Inr no_coder_default)
     (example_uploaded ''a'' 3 1 [3, 2, 1] (Some ''a'')) fresh_chunk_state
   = Some (Inr (), \<lparr>sent = example_parts_a, channel_limit = None, requests = 2\<rparr>)"
  by (simp add: example_defs example_store_def example_body_def example_uploaded_def example_parts_def blueprint_chunk_def
      download_loop.simps send_loop.simps Let_def)

lemma example_download_b:
  "chunk_downloader_run example_store example_config no_coder_ops (Inr no_coder_default)
     (example_uploaded ''b'' 2 0 [5, 4] (Some ''b'')) fresh_chunk_state
   = Some (Inr (), \<lparr>sent = example_parts_b, channel_limit = None, requests = 1\<rparr>)"
  by (simp add: example_defs example_store_def example_body_def example_uploaded_def example_parts_def blueprint_chunk_def
      download_loop.simps send_loop.simps Let_def)

lemma example_archived_a:
  "archived example_web example_config no_coder_ops no_coder_default ''/s'' example_store example_config no_coder_ops
     no_coder_default (example_chunk_of ''/s/a'' 3 1) example_parts_a"
proof (rule archived.archived [OF example_upload_a example_stores])
  show "relative_chunk ''/s'' (example_uploaded ''/s/a'' 3 1 [3, 2, 1] None) = Inr (example_uploaded ''a'' 3 1 [3, 2, 1] None)"
    by (simp add: relative_chunk_def example_uploaded_def blueprint_chunk_def strip_prefix_def and_then_def)
  have "(example_uploaded ''a'' 3 1 [3, 2, 1] None)\<lparr>chunk_url := Some ''a''\<rparr> = example_uploaded ''a'' 3 1 [3, 2, 1] (Some ''a'')"
    by (simp add: example_uploaded_def)
  with example_download_a show "chunk_downloader_run example_store example_config no_coder_ops (Inr no_coder_default)
      ((example_uploaded ''a'' 3 1 [3, 2, 1] None)\<lparr>chunk_url := Some ''a''\<rparr>) fresh_chunk_state
    = Some (Inr (), \<lparr>sent = example_parts_a, channel_limit = None, requests = 2\<rparr>)" by simp
qed (simp add: fresh_chunk_state_def)

lemma example_archived_b:
  "archived example_web example_config no_coder_ops no_coder_default ''/s'' example_store example_config no_coder_ops
     no_coder_default (example_chunk_of ''/s/b'' 2 0) example_parts_b"
proof (rule archived.archived [OF example_upload_b example_stores])
  show "relative_chunk ''/s'' (example_uploaded ''/s/b'' 2 0 [5, 4] None) = Inr (example_uploaded ''b'' 2 0 [5, 4] None)"
    by (simp add: relative_chunk_def example_uploaded_def blueprint_chunk_def strip_prefix_def and_then_def)
  have "(example_uploaded ''b'' 2 0 [5, 4] None)\<lparr>chunk_url := Some ''b''\<rparr> = example_uploaded ''b'' 2 0 [5, 4] (Some ''b'')"
    by (simp add: example_uploaded_def)
  with example_download_b show "chunk_downloader_run example_store example_config no_coder_ops (Inr no_coder_default)
      ((example_uploaded ''b'' 2 0 [5, 4] None)\<lparr>chunk_url := Some ''b''\<rparr>) fresh_chunk_state
    = Some (Inr (), \<lparr>sent = example_parts_b, channel_limit = None, requests = 1\<rparr>)" by simp
qed (simp add: fresh_chunk_state_def)

text \<open>The parts of the two chunks, one among the other, and the second part of a file before its first.\<close>

definition example_arrival :: "(bool \<times> nat \<times> chunk_data) list" where
  "example_arrival =
     [(True, 1, example_parts_a ! 1), (True, 2, example_parts_b ! 0), (True, 3, example_parts_a ! 0),
      (True, 4, example_parts_b ! 1), (True, 5, example_parts_a ! 2)]"

definition example_writer_env :: writer_env where
  "example_writer_env = \<lparr>open_error = (\<lambda>_. None), file_write_error = (\<lambda>_. None), meta_env = no_io_errors\<rparr>"

lemma example_writer_run:
  "\<exists>finished w'. writer_run example_writer_env example_arrival (writer_new ''/d'' 1 ''/p'' ''/c'' 2 [] (\<lambda>_. None) (\<lambda>_. None))
     = (Inr finished, w')"
  by (simp add: handle_chunk_data_def write_to_file_def evict_oldest_def open_file_def write_data_def
      append_chunk_def save_writer_progress_def lift_meta_def save_chunk_def save_job_data_def example_writer_env_def
      try_then_def writer_new_def close_all_files_def no_io_errors_def Let_def example_arrival_def example_parts_def)

theorem archive_roundtrip_witness:
  "\<exists>finished w'. writer_run example_writer_env example_arrival (writer_new ''/d'' 1 ''/p'' ''/c'' 2 [] (\<lambda>_. None) (\<lambda>_. None))
     = (Inr finished, w') \<and> written_files w' ''/d/a'' = Some [1, 2, 3] \<and> written_files w' ''/d/b'' = Some [4, 5]"
proof -
  obtain finished w' where run: "writer_run example_writer_env example_arrival
      (writer_new ''/d'' 1 ''/p'' ''/c'' 2 [] (\<lambda>_. None) (\<lambda>_. None)) = (Inr finished, w')"
    using example_writer_run by blast
  have none: "config_compression example_config = None" and size: "0 < max_buffer_size example_config"
    by (simp_all add: example_config_def build_transfer_config_def)
  have files: "upload_files example_web = example_files" by (simp add: example_web_def)
  have plain_coder: "coder (feed_op no_coder_ops) (consume_op no_coder_ops) (finalize_op no_coder_ops) no_coder_default
      no_coder_holds (\<lambda>c. c = None) (\<lambda>x. x)"
    unfolding no_coder_ops_def by (simp add: plain.coder_axioms)
  have arch: "list_all2 (archived example_web example_config no_coder_ops no_coder_default ''/s'' example_store example_config
      no_coder_ops no_coder_default)
      (manifest_chunks (prepare_manifest_blueprint (config_compression example_config) 2 example_listed))
      [example_parts_b, example_parts_a]"
    using example_archived_a example_archived_b by (simp add: none example_manifest)
  have slots: "(2 :: nat) \<le> sources_total_size example_listed \<or> sources_total_size example_listed = 0"
    by (simp add: example_listed_def)
  have sizes: "\<forall>s \<in> set (sources example_listed). upload_files example_web (loc_path s) \<noteq> None \<and>
      loc_size s = length (the (upload_files example_web (loc_path s))) \<and> \<not> prefix (''/s'' @ ''//'') (loc_path s)"
    by (simp add: example_listed_def files example_files_def)
  have arrival: "mset (map (snd \<circ> snd) example_arrival) = mset (concat [example_parts_b, example_parts_a])"
    by (simp add: example_arrival_def example_parts_def)
  have copied: "\<not> prefix ''/'' q \<Longrightarrow> written_files w' (path_join ''/d'' q) =
      (if ''/s'' @ ''/'' @ q \<in> loc_path ` set (sources example_listed) then upload_files example_web (''/s'' @ ''/'' @ q) else None)" for q
    using archive_roundtrip [OF example_list_sources _ slots sizes plain_coder size plain_coder size _ refl arch _ _ _ _ arrival run]
    by (simp add: load_chunks_def example_arrival_def)
  from run copied [of "''a''"] copied [of "''b''"] show ?thesis
    by (simp add: path_join_def example_listed_def files example_files_def)
qed

end
