(* ===== verification/Jobs.thy ===== *)
theory Jobs
  imports Upload Multi_Download Backoff
begin

text \<open>
  The job record of Babel (\<open>babel/src/jobs.rs\<close>) and the job runner process
  (\<open>run_job\<close> of \<open>babel/src/job_runner.rs\<close>): the state of a job, its logs and restart stamps, the
  files in its directory, one-time jobs, and what a runner process sets up for each type of job.
  Times are milliseconds since the epoch and are arguments.
\<close>

section \<open>Job state\<close>

datatype job_state =
    Active nat nat
      \<comment> \<open>process id and start time\<close>
  | Inactive job_status nat
      \<comment> \<open>status and time stamp\<close>

text \<open>The \<open>PartialEq\<close> of the code ignores the times.\<close>

fun job_state_eq :: "job_state \<Rightarrow> job_state \<Rightarrow> bool" where
  "job_state_eq (Active a _) (Active b _) = (a = b)"
| "job_state_eq (Inactive a _) (Inactive b _) = (a = b)"
| "job_state_eq _ _ = False"

record job =
  job_path :: path
  job_conf :: job_config
  job_st :: job_state
  job_logs :: "(nat \<times> string) list"
  restart_stamps :: "nat list"

definition job_new :: "path \<Rightarrow> job_config \<Rightarrow> job_state \<Rightarrow> job" where
  "job_new dir config st = \<lparr>job_path = dir, job_conf = config, job_st = st, job_logs = [], restart_stamps = []\<rparr>"

definition set_active :: "nat \<Rightarrow> nat \<Rightarrow> job \<Rightarrow> job" where
  "set_active now pid j = j\<lparr>job_st := Active pid now\<rparr>"

definition set_inactive :: "nat \<Rightarrow> job_status \<Rightarrow> job \<Rightarrow> job" where
  "set_inactive now status j = j\<lparr>job_st := Inactive status now\<rparr>"

definition is_active :: "job \<Rightarrow> bool" where
  "is_active j = (case job_st j of Active _ _ \<Rightarrow> True | Inactive _ _ \<Rightarrow> False)"

section \<open>Logs and restarts\<close>

definition LOG_EXPIRE_DAYS :: nat where "LOG_EXPIRE_DAYS = 1"
definition MAX_JOB_LOGS :: nat where "MAX_JOB_LOGS = 1024"
definition MAX_LOG_ENTRY_LEN :: nat where "MAX_LOG_ENTRY_LEN = 1024"
definition MS_PER_DAY :: nat where "MS_PER_DAY = 86400000"

definition not_old :: "nat \<Rightarrow> nat \<Rightarrow> bool" where
  "not_old now stamp \<longleftrightarrow> (now - stamp) div MS_PER_DAY < LOG_EXPIRE_DAYS"

text \<open>\<open>Job::update\<close>. \<open>split_off(n)\<close> keeps what comes after the first \<open>n\<close> entries.\<close>

definition update_job :: "nat \<Rightarrow> job \<Rightarrow> job" where
  "update_job now j =
     (let stamps = filter (not_old now) (restart_stamps j);
          logs = filter (\<lambda>(stamp, _). not_old now stamp) (job_logs j);
          logs = (if length logs \<ge> MAX_JOB_LOGS then drop (MAX_JOB_LOGS - 1) logs else logs)
      in j\<lparr>restart_stamps := stamps, job_logs := logs\<rparr>)"

definition register_restart :: "nat \<Rightarrow> job \<Rightarrow> job" where
  "register_restart now j =
     (let j' = update_job now j in j'\<lparr>restart_stamps := List.insert now (restart_stamps j')\<rparr>)"

text \<open>\<open>Job::push_log\<close>. The code truncates a copy of the message and then logs the message itself.\<close>

definition push_log :: "(nat \<Rightarrow> string) \<Rightarrow> nat \<Rightarrow> string \<Rightarrow> job \<Rightarrow> job" where
  "push_log show_time now message j =
     (let j' = update_job now j
      in j'\<lparr>job_logs := job_logs j' @ [(now, show_time now @ ''| '' @ message)]\<rparr>)"

section \<open>The directory of a job\<close>

datatype 'a stored = Valid 'a | Corrupt

record job_files =
  config_file :: "job_config stored option"
  status_file :: "(job_status \<times> nat) stored option"
    \<comment> \<open>with the modification time of the file\<close>

type_synonym job_disk = "path \<Rightarrow> job_files option"

definition empty_job_files :: job_files where
  "empty_job_files = \<lparr>config_file = None, status_file = None\<rparr>"

text \<open>Answers of the operating system for the files of one job: \<open>None\<close> when the call succeeds.\<close>

record job_io =
  status_write_error :: "path \<Rightarrow> string option"
  status_remove_error :: "path \<Rightarrow> string option"
  config_write_error :: "path \<Rightarrow> string option"
  dir_create_error :: "path \<Rightarrow> string option"

definition no_job_io_errors :: job_io where
  "no_job_io_errors = \<lparr>status_write_error = (\<lambda>_. None), status_remove_error = (\<lambda>_. None),
     config_write_error = (\<lambda>_. None), dir_create_error = (\<lambda>_. None)\<rparr>"

definition update_dir :: "path \<Rightarrow> (job_files \<Rightarrow> job_files) \<Rightarrow> job_disk \<Rightarrow> job_disk" where
  "update_dir dir f disk = disk(dir := map_option f (disk dir))"

definition save_status_file :: "job_io \<Rightarrow> nat \<Rightarrow> job_status \<Rightarrow> path \<Rightarrow> (job_disk, string, unit) action" where
  "save_status_file io now status dir disk =
     (case (status_write_error io dir, disk dir) of
        (None, Some files) \<Rightarrow> (Inr (), disk(dir \<mapsto> files\<lparr>status_file := Some (Valid (status, now))\<rparr>))
      | (Some e, _) \<Rightarrow> (Inl (''failed to save job status: '' @ e), disk)
      | (None, None) \<Rightarrow> (Inl ''failed to save job status: No such file or directory'', disk))"

definition save_config_file :: "job_io \<Rightarrow> job_config \<Rightarrow> path \<Rightarrow> (job_disk, string, unit) action" where
  "save_config_file io config dir disk =
     (case (config_write_error io dir, disk dir) of
        (None, Some files) \<Rightarrow> (Inr (), disk(dir \<mapsto> files\<lparr>config_file := Some (Valid config)\<rparr>))
      | (Some e, _) \<Rightarrow> (Inl e, disk)
      | (None, None) \<Rightarrow> (Inl ''No such file or directory'', disk))"

definition clear_status :: "job_io \<Rightarrow> job \<Rightarrow> (job_disk, string, unit) action" where
  "clear_status io j disk =
     (case disk (job_path j) of
        None \<Rightarrow> (Inr (), disk)
      | Some files \<Rightarrow>
          if status_file files = None then (Inr (), disk)
          else case status_remove_error io (job_path j) of
                 Some e \<Rightarrow> (Inl e, disk)
               | None \<Rightarrow> (Inr (), disk(job_path j \<mapsto> files\<lparr>status_file := None\<rparr>)))"

definition save_status :: "job_io \<Rightarrow> nat \<Rightarrow> job \<Rightarrow> (job_disk, string, unit) action" where
  "save_status io now j =
     (case job_st j of
        Active _ _ \<Rightarrow> ok ()
      | Inactive Running _ \<Rightarrow> clear_status io j
      | Inactive status _ \<Rightarrow> save_status_file io now status (job_path j))"

definition save_config :: "job_io \<Rightarrow> job \<Rightarrow> (job_disk, string, unit) action" where
  "save_config io j = save_config_file io (job_conf j) (job_path j)"

definition load_status :: "path \<Rightarrow> job_disk \<Rightarrow> string + job_status \<times> nat" where
  "load_status dir disk =
     (case disk dir of
        Some files \<Rightarrow>
          (case status_file files of
             Some (Valid st) \<Rightarrow> Inr st
           | _ \<Rightarrow> Inl (''Failed to read job status file `'' @ dir @ ''`''))
      | None \<Rightarrow> Inl (''Failed to read job status file `'' @ dir @ ''`''))"

definition load_config :: "path \<Rightarrow> job_disk \<Rightarrow> string + job_config" where
  "load_config dir disk =
     (case disk dir of
        Some files \<Rightarrow>
          (case config_file files of
             Some (Valid c) \<Rightarrow> Inr c
           | _ \<Rightarrow> Inl (''failed to read job config file `'' @ dir @ ''`''))
      | None \<Rightarrow> Inl (''failed to read job config file `'' @ dir @ ''`''))"

section \<open>Progress and cleanup\<close>

definition is_multi_client_download :: "job_config \<Rightarrow> bool" where
  "is_multi_client_download c = (case job_type c of MultiClientDownload _ _ \<Rightarrow> True | _ \<Rightarrow> False)"

text \<open>\<open>Job::load_progress\<close>; the progress file of a job is part of the archive file system.\<close>

definition load_progress ::
  "io_env \<Rightarrow> (path \<Rightarrow> (string \<times> bool) list option) \<Rightarrow> node_env option \<Rightarrow> job \<Rightarrow> fs \<Rightarrow>
     job_progress option \<times> fs" where
  "load_progress io read_dir env j fs =
     (let progress_path = path_join (job_path j) ''progress.json'';
          read = (\<lambda>fs. case load_progress_file progress_path fs of Inr p \<Rightarrow> Some p | Inl _ \<Rightarrow> None)
      in if is_multi_client_download (job_conf j)
         then case env of
                Some env \<Rightarrow>
                  let dir = path_join (data_mount_point env) PERSISTENT_JOBS_META_DIR;
                      (_, fs') = aggregate_multi_client_progress io (read_dir dir) dir progress_path fs
                  in (read fs', fs')
              | None \<Rightarrow> (read fs, fs)
         else (read fs, fs))"

text \<open>\<open>Job::cleanup\<close>: the metadata of archive jobs, for multi-client jobs in each subdirectory.\<close>

definition cleanup_subdirs ::
  "(path \<Rightarrow> (fs, string, unit) action) \<Rightarrow> (path \<Rightarrow> (string \<times> bool) list option) \<Rightarrow> path \<Rightarrow> (fs, string, unit) action" where
  "cleanup_subdirs cleanup read_dir dir =
     (case read_dir dir of
        None \<Rightarrow> ok ()
      | Some entries \<Rightarrow>
          for_each (\<lambda>(name, is_dir). if is_dir then cleanup (path_join dir name) else ok ()) entries)"

definition job_cleanup ::
  "io_env \<Rightarrow> (path \<Rightarrow> (string \<times> bool) list option) \<Rightarrow> node_env \<Rightarrow> job_config \<Rightarrow> (fs, string, unit) action" where
  "job_cleanup io read_dir env c =
     (let dir = path_join (data_mount_point env) PERSISTENT_JOBS_META_DIR
      in case job_type c of
           Download _ _ \<Rightarrow> cleanup_job io dir (protocol_data_path env)
         | Upload _ _ _ _ _ _ _ \<Rightarrow> upload_cleanup_job io dir
         | MultiClientUpload _ _ _ _ \<Rightarrow> cleanup_subdirs (upload_cleanup_job io) read_dir dir
         | MultiClientDownload _ _ \<Rightarrow> cleanup_subdirs (\<lambda>d. cleanup_job io d (protocol_data_path env)) read_dir dir
         | RunSh _ \<Rightarrow> ok ())"

section \<open>One-time jobs\<close>

definition over :: "'a option \<Rightarrow> 'a option \<Rightarrow> 'a option" where
  "over new old = (case new of Some x \<Rightarrow> Some x | None \<Rightarrow> old)"

text \<open>\<open>fs_extra::dir::copy\<close> of the content, overwriting.\<close>

definition copy_dir :: "path \<Rightarrow> path \<Rightarrow> job_disk \<Rightarrow> job_disk" where
  "copy_dir src dst disk =
     (case disk src of
        None \<Rightarrow> disk
      | Some s \<Rightarrow>
          let d = unwrap_or (disk dst) empty_job_files
          in disk(dst \<mapsto> \<lparr>config_file = over (config_file s) (config_file d),
                          status_file = over (status_file s) (status_file d)\<rparr>))"

definition backup_path :: "path \<Rightarrow> string \<Rightarrow> path" where
  "backup_path mount name = path_join (path_join mount PERSISTENT_JOBS_META_DIR) name"

definition ONE_TIME_STARTED :: string where
  "ONE_TIME_STARTED = ''one-time job started, but not finished''"

definition restore_job :: "job_io \<Rightarrow> nat \<Rightarrow> path \<Rightarrow> string \<Rightarrow> path \<Rightarrow> (job_disk, string, bool) action" where
  "restore_job io now mount name dir disk =
     (let backup = backup_path mount name
      in if disk backup \<noteq> None then (Inr True, copy_dir backup dir disk)
         else case dir_create_error io backup of
                Some e \<Rightarrow> (Inl e, disk)
              | None \<Rightarrow>
                  try_then (save_status_file io now (Finished None ONE_TIME_STARTED) backup)
                    (\<lambda>_ disk. (Inr False, copy_dir backup dir disk)) (disk(backup \<mapsto> empty_job_files)))"

definition backup_job :: "path \<Rightarrow> string \<Rightarrow> path \<Rightarrow> job_disk \<Rightarrow> job_disk" where
  "backup_job mount name dir disk = copy_dir dir (backup_path mount name) disk"

text \<open>One life of the runner process of a one-time job: whether the payload ran, and the disk after
  it. The process may die while the payload runs (\<open>completes = False\<close>), and the payload may do
  anything to the job's own directory.\<close>

definition one_time_run ::
  "job_io \<Rightarrow> nat \<Rightarrow> path \<Rightarrow> string \<Rightarrow> path \<Rightarrow> (job_files option \<Rightarrow> job_files option) \<Rightarrow> bool \<Rightarrow> job_disk \<Rightarrow> bool \<times> job_disk" where
  "one_time_run io now mount name dir payload completes disk =
     (case restore_job io now mount name dir disk of
        (Inr False, d) \<Rightarrow>
          let d = d(dir := payload (d dir)) in (True, if completes then backup_job mount name dir d else d)
      | (_, d) \<Rightarrow> (False, d))"

fun count_runs :: "job_io \<Rightarrow> path \<Rightarrow> string \<Rightarrow> path \<Rightarrow> (nat \<times> (job_files option \<Rightarrow> job_files option) \<times> bool) list \<Rightarrow> job_disk \<Rightarrow> nat" where
  "count_runs io mount name dir [] disk = 0"
| "count_runs io mount name dir ((now, payload, completes) # lives) disk =
     (let (ran, d) = one_time_run io now mount name dir payload completes disk
      in (if ran then 1 else 0) + count_runs io mount name dir lives d)"

lemma one_time_run_backup:
  assumes "dir \<noteq> backup_path mount name"
  shows "(fst (one_time_run io now mount name dir payload completes disk) \<longrightarrow> disk (backup_path mount name) = None)
    \<and> (fst (one_time_run io now mount name dir payload completes disk) \<or> disk (backup_path mount name) \<noteq> None
        \<longrightarrow> snd (one_time_run io now mount name dir payload completes disk) (backup_path mount name) \<noteq> None)"
  using assms
  by (auto simp: one_time_run_def restore_job_def backup_job_def copy_dir_def save_status_file_def try_then_def
      Let_def split: option.split)

text \<open>
  C9: a one-time job runs at most once, however often its runner process is started, killed in the
  middle or fails to write its files, and whatever the job does to its own directory.
\<close>

theorem one_time_job_runs_at_most_once:
  assumes "dir \<noteq> backup_path mount name"
  shows "count_runs io mount name dir lives disk \<le> 1"
proof -
  have none: "disk (backup_path mount name) \<noteq> None \<Longrightarrow> count_runs io mount name dir lives disk = 0" for lives disk
  proof (induction lives arbitrary: disk)
    case Nil
    then show ?case by simp
  next
    case (Cons l lives)
    obtain now payload completes where l: "l = (now, payload, completes)" by (cases l)
    from one_time_run_backup [OF assms, of io now payload completes disk] Cons.prems
    have "\<not> fst (one_time_run io now mount name dir payload completes disk)"
      "snd (one_time_run io now mount name dir payload completes disk) (backup_path mount name) \<noteq> None"
      by blast+
    with Cons.IH l show ?case by (simp add: case_prod_beta Let_def)
  qed
  show ?thesis
  proof (induction lives arbitrary: disk)
    case Nil
    then show ?case by simp
  next
    case (Cons l lives)
    obtain now payload completes where l: "l = (now, payload, completes)" by (cases l)
    show ?case
    proof (cases "fst (one_time_run io now mount name dir payload completes disk)")
      case True
      with one_time_run_backup [OF assms, of io now payload completes disk] none l show ?thesis
        by (simp add: case_prod_beta Let_def)
    next
      case False
      with Cons.IH l show ?thesis by (simp add: case_prod_beta Let_def)
    qed
  qed
qed

theorem one_time_job_runs_at_most_once_witness:
  "count_runs no_job_io_errors ''/blockjoy'' ''init'' ''/var/lib/babel/jobs/init''
     [(1, id, False), (2, id, True), (3, id, True)] (\<lambda>_. None) \<le> 1"
  by (rule one_time_job_runs_at_most_once)
    (simp add: backup_path_def path_join_def PERSISTENT_JOBS_META_DIR_def)

section \<open>Properties of the logs\<close>

lemma push_log_bound:
  assumes "length (job_logs j) \<le> MAX_JOB_LOGS"
  shows "length (job_logs (push_log show_time now msg j)) \<le> MAX_JOB_LOGS"
proof -
  define kept where "kept = filter (\<lambda>(stamp, _). not_old now stamp) (job_logs j)"
  have "length kept \<le> MAX_JOB_LOGS"
    unfolding kept_def by (rule le_trans [OF length_filter_le assms])
  then have "length (if length kept \<ge> MAX_JOB_LOGS then drop (MAX_JOB_LOGS - 1) kept else kept) < MAX_JOB_LOGS"
    by (simp add: MAX_JOB_LOGS_def)
  then show ?thesis by (simp add: push_log_def update_job_def Let_def flip: kept_def)
qed

text \<open>
  a full log (1024 entries, none expired) is cut down to its last entry when the next message
  is logged, and the message is logged at full length whatever the limit on the size of an entry.
\<close>

theorem full_log_is_dropped:
  assumes "length (job_logs j) = MAX_JOB_LOGS" and "\<forall>(stamp, _) \<in> set (job_logs j). not_old now stamp"
  shows "job_logs (push_log show_time now msg j)
    = [last (job_logs j), (now, show_time now @ ''| '' @ msg)]"
proof -
  have "filter (\<lambda>(stamp, _). not_old now stamp) (job_logs j) = job_logs j"
    using assms(2) by (simp add: filter_id_conv)
  moreover have "drop (MAX_JOB_LOGS - 1) (job_logs j) = [last (job_logs j)]"
  proof -
    from assms(1) have "job_logs j \<noteq> []" by (auto simp: MAX_JOB_LOGS_def)
    then obtain ls l where "job_logs j = ls @ [l]" by (metis rev_exhaust)
    with assms(1) show ?thesis by simp
  qed
  ultimately show ?thesis using assms(1) by (simp add: push_log_def update_job_def Let_def)
qed

definition example_job :: job where
  "example_job = job_new ''/jobs/a''
     \<lparr>job_type = RunSh ''true'', restart = Never, shutdown_timeout_secs = None, shutdown_signal = None,
      needs = None, wait_for = None, run_as = None, log_buffer_capacity_mb = None, log_timestamp = None,
      use_protocol_data = None, one_time = None\<rparr> (Inactive Stopped 0)"

theorem full_log_is_dropped_witness:
  "length (job_logs (push_log (\<lambda>_. []) 5 ''m'' (example_job\<lparr>job_logs := replicate 1024 (3, ''x'')\<rparr>))) = 2"
proof -
  have "job_logs (push_log (\<lambda>_. []) 5 ''m'' (example_job\<lparr>job_logs := replicate 1024 (3, ''x'')\<rparr>))
      = [last (job_logs (example_job\<lparr>job_logs := replicate 1024 (3, ''x'')\<rparr>)), (5, [] @ ''| '' @ ''m'')]"
    by (rule full_log_is_dropped) (simp_all add: MAX_JOB_LOGS_def not_old_def MS_PER_DAY_def LOG_EXPIRE_DAYS_def)
  then show ?thesis by simp
qed

section \<open>What a runner process runs\<close>

datatype ('p, 'u) job_plan =
    AlreadyDone
  | RunShell string restart_policy nat posix_signal nat bool "string option"
      \<comment> \<open>body, restart policy, shutdown timeout and signal, log capacity, log time stamps, user\<close>
  | SaveStatus job_status
  | RunDownloader transfer_config path restart_policy
  | RunUploader transfer_config path 'u restart_policy
  | RunMultiUpload transfer_config "'p client_archive_config list" nat "nat option"
  | RunMultiDownload transfer_config "client_download_config list" restart_policy

definition DEFAULT_LOG_BUFFER_CAPACITY_MB :: nat where "DEFAULT_LOG_BUFFER_CAPACITY_MB = 128"

text \<open>What the process finds: whether a one-time job was restored, the result of touching the
  protocol data and its stamp, the directory of the transfers, the plugin configuration, and the
  uploader made from the exclude patterns and the number of chunks.\<close>

record ('p, 'd, 'u) runner_env =
  restored :: "string + bool"
  touch_result :: "string + unit"
  data_stamp :: "string + nat option"
  make_meta_dir :: "path \<Rightarrow> string + unit"
  plugin_cfg :: "string + 'd plugin_config"
  parse_pattern :: "string \<Rightarrow> 'p option"
  new_uploader :: "string list \<Rightarrow> nat option \<Rightarrow> nat option \<Rightarrow> nat option \<Rightarrow> string + 'u"

definition transfer_config_for ::
  "('p, 'd, 'u) runner_env \<Rightarrow> path \<Rightarrow> path \<Rightarrow> compression option \<Rightarrow> nat \<Rightarrow> nat \<Rightarrow> string + transfer_config" where
  "transfer_config_for env mount progress codec connections runners =
     and_then (make_meta_dir env (path_join mount PERSISTENT_JOBS_META_DIR))
       (\<lambda>_. Inr (build_transfer_config mount progress codec connections runners))"

definition codec_of :: "job_config \<Rightarrow> compression option" where
  "codec_of c = (case job_type c of Upload _ codec _ _ _ _ _ \<Rightarrow> codec | _ \<Rightarrow> None)"

fun job_type_plan ::
  "('p, 'd, 'u) runner_env \<Rightarrow> node_env \<Rightarrow> string \<Rightarrow> path \<Rightarrow> job_config \<Rightarrow> job_type \<Rightarrow> string + ('p, 'u) job_plan" where
  "job_type_plan env node name progress c (RunSh body) =
     Inr (RunShell body (restart c) (job_shutdown_timeout c)
       (unwrap_or (shutdown_signal c) DEFAULT_JOB_SHUTDOWN_SIGNAL)
       (unwrap_or (log_buffer_capacity_mb c) DEFAULT_LOG_BUFFER_CAPACITY_MB)
       (unwrap_or (log_timestamp c) False) (run_as c))"
| "job_type_plan env node name progress c (Download connections runners) =
     and_then (data_stamp env) (\<lambda>stamp.
     if stamp \<noteq> None
     then Inr (SaveStatus (Finished (Some 0) (''job '' @ quoted name @ '' finished'')))
     else and_then (transfer_config_for env (data_mount_point node) progress None
            (unwrap_or connections DEFAULT_MAX_DOWNLOAD_CONNECTIONS) (unwrap_or runners DEFAULT_MAX_RUNNERS))
            (\<lambda>cfg. Inr (RunDownloader cfg (protocol_data_path node) (restart c))))"
| "job_type_plan env node name progress c (Upload exclude codec connections runners chunks expires version) =
     and_then (transfer_config_for env (data_mount_point node) progress codec
       (unwrap_or connections DEFAULT_MAX_UPLOAD_CONNECTIONS) (unwrap_or runners DEFAULT_MAX_RUNNERS))
       (\<lambda>cfg. and_then (new_uploader env (unwrap_or exclude []) chunks expires version)
         (\<lambda>u. Inr (RunUploader cfg (protocol_data_path node) u (restart c))))"
| "job_type_plan env node name progress c (MultiClientUpload connections runners expires version) =
     and_then (plugin_cfg env) (\<lambda>plugin.
     and_then (transfer_config_for env (protocol_data_path node) progress None
       (unwrap_or connections DEFAULT_MAX_UPLOAD_CONNECTIONS) (unwrap_or runners DEFAULT_MAX_RUNNERS)) (\<lambda>cfg.
     and_then (get_archivable_clients (parse_pattern env) plugin (protocol_data_path node)
       (unwrap_or (Option.bind (upload plugin) ul_exclude) [])) (\<lambda>clients.
     if clients = []
     then Inr (SaveStatus (Finished (Some 0) ''No archivable clients found with store_key configured''))
     else Inr (RunMultiUpload cfg clients (unwrap_or expires 3600) version))))"
| "job_type_plan env node name progress c (MultiClientDownload connections runners) =
     and_then (plugin_cfg env) (\<lambda>plugin.
     and_then (get_downloadable_clients plugin (protocol_data_path node)) (\<lambda>clients.
     if clients = []
     then Inr (SaveStatus (Finished (Some 0) ''No downloadable clients found with store_key configured''))
     else and_then (transfer_config_for env (data_mount_point node) progress None
            (unwrap_or connections DEFAULT_MAX_DOWNLOAD_CONNECTIONS) (unwrap_or runners DEFAULT_MAX_RUNNERS))
            (\<lambda>cfg. Inr (RunMultiDownload cfg clients (restart c)))))"

definition run_job_plan ::
  "('p, 'd, 'u) runner_env \<Rightarrow> node_env \<Rightarrow> string \<Rightarrow> path \<Rightarrow> string + job_config \<Rightarrow> string + ('p, 'u) job_plan" where
  "run_job_plan env node name dir loaded =
     and_then loaded (\<lambda>c.
     and_then (if one_time c = Some True then restored env else Inr False) (\<lambda>done_before.
     if done_before then Inr AlreadyDone
     else and_then (if use_protocol_data c = Some True then touch_result env else Inr ())
            (\<lambda>_. job_type_plan env node name (path_join dir ''progress.json'') c (job_type c))))"

text \<open>The status a multi-client upload is saved with.\<close>

definition multi_upload_status :: "string + unit \<Rightarrow> job_status" where
  "multi_upload_status r =
     (case r of
        Inr _ \<Rightarrow> Finished (Some 0) ''Multi-client upload completed successfully''
      | Inl e \<Rightarrow> Finished (Some (-1)) (''Multi-client upload failed: '' @ e))"

text \<open>A multi-client upload keeps its metadata below the protocol data, while the cleanup of its
  job looks for it below the data mount point.\<close>

lemma multi_upload_meta_dir:
  assumes "job_type_plan env node name progress c (MultiClientUpload connections runners expires version)
      = Inr (RunMultiUpload cfg clients n v)"
  shows "archive_jobs_meta_dir cfg = path_join (protocol_data_path node) PERSISTENT_JOBS_META_DIR"
  using assms
  by (auto simp: and_then_Inr_iff transfer_config_for_def build_transfer_config_def split: if_splits)

lemma multi_upload_cleanup_dir:
  "job_type c = MultiClientUpload connections runners expires version \<Longrightarrow>
   job_cleanup io read_dir node c
     = cleanup_subdirs (upload_cleanup_job io) read_dir (path_join (data_mount_point node) PERSISTENT_JOBS_META_DIR)"
  by (simp add: job_cleanup_def Let_def)

end
