(* ===== verification/Jobs_Manager.thy ===== *)
theory Jobs_Manager
  imports Jobs
begin

text \<open>
  The jobs manager of Babel (\<open>babel/src/jobs_manager.rs\<close>): the registry of jobs shared by its
  client (the requests of the Babel service), its monitor (the reports of the runner processes) and
  the manager loop that starts runner processes and looks after jobs whose process ended.
  The state holds the registry, the files of the jobs and the live runner processes; what the
  operating system answers during an operation is an argument.
\<close>

section \<open>State\<close>

datatype manager_state = NotReady | Ready | Shutdown

record manager =
  jobs :: "(string, job) hash_map"
  manager_env :: "node_env option"
  jobs_dir :: path
  job_disk :: job_disk
  archive_fs :: fs
  runners :: "(nat \<times> string) list"
    \<comment> \<open>live runner processes: process id and the job they run\<close>
  manager_st :: manager_state
  bv_errors :: "string list"
    \<comment> \<open>errors reported to blockvisord\<close>

record os =
  os_now :: nat
  os_show_time :: "nat \<Rightarrow> string"
  os_job_io :: job_io
  os_io :: io_env
  os_read_dir :: "path \<Rightarrow> (string \<times> bool) list option"
  os_job_entries :: "string + (string + string) list"
    \<comment> \<open>reading the directory of jobs: each entry is an error or a name\<close>
  os_config_removed :: "path \<Rightarrow> bool"
    \<comment> \<open>an invalid configuration file can be removed\<close>
  os_ends :: "nat \<Rightarrow> bool"
    \<comment> \<open>a process ends after SIGTERM and, past the timeout, SIGKILL\<close>
  os_start_time :: "nat \<Rightarrow> nat"
  os_runner_bin :: bool
    \<comment> \<open>whether the lock holds a job runner binary\<close>
  os_spawn :: "string \<Rightarrow> string + nat"

definition MAX_JOBS :: nat where "MAX_JOBS = 16"

type_synonym 'a manager_action = "(manager, string, 'a) action"

definition get_job :: "string \<Rightarrow> manager \<Rightarrow> job option" where
  "get_job name s = map_of (jobs s) name"

definition put_job :: "string \<Rightarrow> job \<Rightarrow> manager \<Rightarrow> manager" where
  "put_job name j s = s\<lparr>jobs := AList.update name j (jobs s)\<rparr>"

definition bv_error :: "string \<Rightarrow> manager \<Rightarrow> manager" where
  "bv_error message s = s\<lparr>bv_errors := bv_errors s @ [message]\<rparr>"

text \<open>An action on the files of the jobs, run on the state of the manager.\<close>

definition on_disk :: "(job_disk, string, 'a) action \<Rightarrow> 'a manager_action" where
  "on_disk m s = (let (r, d) = m (job_disk s) in (r, s\<lparr>job_disk := d\<rparr>))"

definition on_archive :: "(fs, string, 'a) action \<Rightarrow> 'a manager_action" where
  "on_archive m s = (let (r, d) = m (archive_fs s) in (r, s\<lparr>archive_fs := d\<rparr>))"

text \<open>\<open>find_processes(job_runner_bin_path, &[name], ps)\<close>\<close>

definition find_runners :: "string \<Rightarrow> (nat \<times> string) list \<Rightarrow> nat list" where
  "find_runners name ps = map fst (filter (\<lambda>(_, n). n = name) ps)"

section \<open>Stopping processes\<close>

text \<open>\<open>terminate_job_process\<close>: a process that does not exist is terminated.\<close>

definition terminate_job_process :: "os \<Rightarrow> string \<Rightarrow> nat \<Rightarrow> unit manager_action" where
  "terminate_job_process os name pid s =
     (if pid \<notin> fst ` set (runners s) then (Inr (), s)
      else if os_ends os pid then (Inr (), s\<lparr>runners := filter (\<lambda>(p, _). p \<noteq> pid) (runners s)\<rparr>)
      else (Inl (''Failed to terminate job_runner for '' @ quoted name @ '' job (pid ''
                 @ show_nat pid @ ''), timeout expired!''), s))"

text \<open>\<open>kill_all_processes\<close> waits for every process it kills.\<close>

definition kill_runners :: "string \<Rightarrow> manager \<Rightarrow> manager" where
  "kill_runners name s = s\<lparr>runners := filter (\<lambda>(_, n). n \<noteq> name) (runners s)\<rparr>"

definition terminate_if_active :: "os \<Rightarrow> string \<Rightarrow> job \<Rightarrow> unit manager_action" where
  "terminate_if_active os name j =
     (case job_st j of Active pid _ \<Rightarrow> terminate_job_process os name pid | Inactive _ _ \<Rightarrow> ok ())"

section \<open>Loading jobs\<close>

definition load_job :: "os \<Rightarrow> string \<Rightarrow> manager \<Rightarrow> manager" where
  "load_job os name s =
     (let dir = path_join (jobs_dir s) name in
      case job_disk s dir of
        None \<Rightarrow> s
      | Some files \<Rightarrow>
          if config_file files = None then s
          else case load_config dir (job_disk s) of
                 Inr config \<Rightarrow>
                   let st = (case find_runners name (runners s) of
                               pid # _ \<Rightarrow> Active pid (os_start_time os pid)
                             | [] \<Rightarrow>
                                 (case load_status dir (job_disk s) of
                                    Inr (status, stamp) \<Rightarrow> Inactive status stamp
                                  | Inl _ \<Rightarrow> Inactive (Pending []) (os_now os)))
                   in put_job name (job_new dir config st) s
               | Inl err \<Rightarrow>
                   bv_error (''invalid job '' @ quoted name @ '' config file in '' @ dir @ '', load failed with: '' @ err)
                     (if os_config_removed os dir
                      then s\<lparr>job_disk := (job_disk s)(dir \<mapsto> files\<lparr>config_file := None\<rparr>)\<rparr> else s))"

fun load_entries :: "os \<Rightarrow> (string + string) list \<Rightarrow> unit manager_action" where
  "load_entries os [] s = (Inr (), s)"
| "load_entries os (Inr name # entries) s = load_entries os entries (load_job os name s)"
| "load_entries os (Inl e # entries) s = (Inl (''failed to read jobs registry entry: '' @ e), s)"

definition load_jobs :: "os \<Rightarrow> unit manager_action" where
  "load_jobs os s =
     (case os_job_entries os of
        Inl e \<Rightarrow> (Inl (''failed to read jobs from dir '' @ jobs_dir s @ '': '' @ e), s)
      | Inr entries \<Rightarrow> load_entries os entries s)"

text \<open>\<open>create\<close> of the module: the manager of a Babel that starts in the given state.\<close>

definition manager_create :: "os \<Rightarrow> node_env option \<Rightarrow> path \<Rightarrow> manager_state \<Rightarrow> job_disk \<Rightarrow> fs \<Rightarrow>
    (nat \<times> string) list \<Rightarrow> (string + unit) \<times> manager" where
  "manager_create os env dir st disk fs procs =
     (let s = \<lparr>jobs = [], manager_env = env, jobs_dir = dir, job_disk = disk, archive_fs = fs,
               runners = procs, manager_st = st, bv_errors = []\<rparr>
      in if st = Ready then load_jobs os s else (Inr (), s))"

section \<open>Requests of the client\<close>

definition startup :: "os \<Rightarrow> node_env \<Rightarrow> unit manager_action" where
  "startup os env =
     try_then (update_state (\<lambda>s. s\<lparr>manager_env := Some env\<rparr>))
       (\<lambda>_. try_then (load_jobs os) (\<lambda>_. update_state (\<lambda>s. s\<lparr>manager_st := Ready\<rparr>)))"

definition get_active_jobs_shutdown_timeout :: "manager \<Rightarrow> nat" where
  "get_active_jobs_shutdown_timeout s =
     fold (\<lambda>(_, j) acc. if is_active j then acc + job_shutdown_timeout (job_conf j) else acc) (jobs s) 0"

definition shutdown_job :: "os \<Rightarrow> bool \<Rightarrow> string \<Rightarrow> unit manager_action" where
  "shutdown_job os force name s =
     (case get_job name s of
        Some j \<Rightarrow>
          if is_active j then
            try_then (if force then update_state (kill_runners name) else terminate_if_active os name j)
              (\<lambda>_. update_state (put_job name (set_inactive (os_now os) Running j))) s
          else (Inr (), s)
      | None \<Rightarrow> (Inr (), s))"

definition shutdown :: "os \<Rightarrow> bool \<Rightarrow> unit manager_action" where
  "shutdown os force s =
     for_each (shutdown_job os force) (map fst (jobs s)) (s\<lparr>manager_st := Shutdown\<rparr>)"

definition upgrade_blocking_job :: "job_config \<Rightarrow> bool" where
  "upgrade_blocking_job c =
     (case restart c of
        Always _ \<Rightarrow> False
      | OnFailure r \<Rightarrow> max_retries r \<noteq> None
      | Never \<Rightarrow> True)"

definition build_job_info :: "os \<Rightarrow> node_env option \<Rightarrow> job \<Rightarrow> fs \<Rightarrow> job_info \<times> fs" where
  "build_job_info os env j fs =
     (let (progress, fs') = load_progress (os_io os) (os_read_dir os) env j fs;
          (status, stamp) = (case job_st j of
            Active _ start \<Rightarrow> (Running, start)
          | Inactive status stamp \<Rightarrow> (status, stamp))
      in (\<lparr>info_status = status, info_timestamp = stamp, info_progress = progress,
           restart_count = length (restart_stamps j), info_logs = rev (map snd (job_logs j)),
           upgrade_blocking = upgrade_blocking_job (job_conf j)\<rparr>, fs'))"

definition job_info_of :: "os \<Rightarrow> string \<Rightarrow> job_info manager_action" where
  "job_info_of os name s =
     (case get_job name s of
        None \<Rightarrow> (Inl (''unknown status, job '' @ quoted name @ '' not found''), s)
      | Some j \<Rightarrow>
          let j' = update_job (os_now os) j;
              (info, fs') = build_job_info os (manager_env s) j' (archive_fs s)
          in (Inr info, (put_job name j' s)\<lparr>archive_fs := fs'\<rparr>))"

fun list_jobs :: "os \<Rightarrow> string list \<Rightarrow> jobs_info manager_action" where
  "list_jobs os [] = ok []"
| "list_jobs os (name # names) =
     try_then (job_info_of os name) (\<lambda>i. try_then (list_jobs os names) (\<lambda>is. ok ((name, i) # is)))"

definition list_all_jobs :: "os \<Rightarrow> jobs_info manager_action" where
  "list_all_jobs os s = list_jobs os (map fst (jobs s)) s"

definition make_job_dir :: "os \<Rightarrow> path \<Rightarrow> (job_disk, string, unit) action" where
  "make_job_dir os dir disk =
     (if disk dir \<noteq> None then (Inr (), disk)
      else case dir_create_error (os_job_io os) dir of
             Some e \<Rightarrow> (Inl (''failed to create job dir '' @ dir @ '': '' @ e), disk)
           | None \<Rightarrow> (Inr (), disk(dir \<mapsto> empty_job_files)))"

definition create_guard :: "os \<Rightarrow> string \<Rightarrow> unit manager_action" where
  "create_guard os name s =
     (case get_job name s of
        Some j \<Rightarrow> terminate_if_active os name j s
      | None \<Rightarrow> if length (jobs s) \<ge> MAX_JOBS
                then (Inl (''Exceeded max number of supported jobs: '' @ show_nat MAX_JOBS), s)
                else (Inr (), s))"

definition store_new_job :: "os \<Rightarrow> string \<Rightarrow> job \<Rightarrow> unit manager_action" where
  "store_new_job os name j =
     try_then (on_disk (make_job_dir os (job_path j)))
       (\<lambda>_. try_then (on_disk (save_status (os_job_io os) (os_now os) j))
         (\<lambda>_. try_then (on_disk (action_context
                  (''failed to create job '' @ quoted name @ '', can't save job config to file'')
                  (save_config (os_job_io os) j)))
           (\<lambda>_. update_state (put_job name j))))"

definition create_job :: "os \<Rightarrow> string \<Rightarrow> job_config \<Rightarrow> unit manager_action" where
  "create_job os name config s =
     try_then (create_guard os name)
       (\<lambda>_. store_new_job os name (job_new (path_join (jobs_dir s) name) config (Inactive Stopped (os_now os)))) s"

definition start_request :: "string \<Rightarrow> os \<Rightarrow> unit manager_action" where
  "start_request name os s =
     (case get_job name s of
        None \<Rightarrow> (Inl (''can't start, job '' @ quoted name @ '' not found''), s)
      | Some j \<Rightarrow>
          if is_active j then (Inr (), s)
          else let j' = set_inactive (os_now os) (Pending (waiting_for (job_conf j))) j
               in on_disk (save_status (os_job_io os) (os_now os) j') (put_job name j' s))"

definition get_job_shutdown_timeout :: "string \<Rightarrow> manager \<Rightarrow> nat" where
  "get_job_shutdown_timeout name s =
     (case get_job name s of
        Some j \<Rightarrow> if is_active j then job_shutdown_timeout (job_conf j) else 0
      | None \<Rightarrow> 0)"

text \<open>\<open>stop_job\<close> and \<open>skip\<close>: end the process, then set and save the final status.\<close>

definition end_job :: "os \<Rightarrow> job_status \<Rightarrow> string \<Rightarrow> job \<Rightarrow> unit manager_action" where
  "end_job os status name j =
     try_then (terminate_if_active os name j)
       (\<lambda>_. let j' = set_inactive (os_now os) status j
            in try_then (update_state (put_job name j'))
                 (\<lambda>_. on_disk (save_status (os_job_io os) (os_now os) j')))"

definition stop_request :: "os \<Rightarrow> string \<Rightarrow> unit manager_action" where
  "stop_request os name s =
     (case get_job name s of
        Some j \<Rightarrow> end_job os Stopped name j s
      | None \<Rightarrow> (Inl (''can't stop, job '' @ quoted name @ '' not found''), s))"

definition stop_all :: "os \<Rightarrow> unit manager_action" where
  "stop_all os s = for_each (stop_request os) (map fst (jobs s)) s"

definition skip_request :: "os \<Rightarrow> string \<Rightarrow> unit manager_action" where
  "skip_request os name s =
     (case get_job name s of
        Some j \<Rightarrow> end_job os (Finished (Some 0) ''Skipped'') name j s
      | None \<Rightarrow> (Inl (''can't stop, job '' @ quoted name @ '' not found''), s))"

definition cleanup_request :: "os \<Rightarrow> string \<Rightarrow> unit manager_action" where
  "cleanup_request os name s =
     (case get_job name s of
        None \<Rightarrow> (Inl (''can't cleanup, job '' @ quoted name @ '' not found''), s)
      | Some j \<Rightarrow>
          case manager_env s of
            None \<Rightarrow> (Inl (''can't cleanup, job '' @ quoted name @ '', missing node_env''), s)
          | Some env \<Rightarrow>
              if is_active j then (Inl (''can't cleanup active job '' @ quoted name), s)
              else on_archive (job_cleanup (os_io os) (os_read_dir os) env (job_conf j)) s)"

section \<open>Dependencies between jobs\<close>

fun needs_finished :: "string \<Rightarrow> (string, job) hash_map \<Rightarrow> string list \<Rightarrow> string + bool" where
  "needs_finished name deps [] = Inr True"
| "needs_finished name deps (n # ns) =
     (case map_of deps n of
        None \<Rightarrow> Inl (''job '' @ quoted name @ '' needs '' @ quoted n @ '', but it is not defined'')
      | Some d \<Rightarrow>
          (case job_st d of
             Inactive (Finished code message) _ \<Rightarrow>
               if code = Some 0 then needs_finished name deps ns
               else Inl (''job '' @ quoted name @ '' needs '' @ quoted n @ '', but it failed with ''
                      @ show_exit_code code @ '' - '' @ message)
           | Inactive Stopped _ \<Rightarrow> Inl (''job '' @ quoted name @ '' needs '' @ quoted n @ '', but it was stopped'')
           | _ \<Rightarrow> Inr False))"

fun waits_finished :: "string \<Rightarrow> (string, job) hash_map \<Rightarrow> string list \<Rightarrow> string + bool" where
  "waits_finished name deps [] = Inr True"
| "waits_finished name deps (n # ns) =
     (case map_of deps n of
        None \<Rightarrow> Inl (''job '' @ quoted name @ '' waits for '' @ quoted n @ '', but it is not defined'')
      | Some d \<Rightarrow>
          (case job_st d of
             Inactive (Finished _ _) _ \<Rightarrow> waits_finished name deps ns
           | Inactive Stopped _ \<Rightarrow> waits_finished name deps ns
           | _ \<Rightarrow> Inr False))"

definition deps_finished :: "string \<Rightarrow> (string, job) hash_map \<Rightarrow> job_config \<Rightarrow> string + bool" where
  "deps_finished name deps c =
     and_then (needs_finished name deps (unwrap_or (needs c) []))
       (\<lambda>b. if b then waits_finished name deps (unwrap_or (wait_for c) []) else Inr False)"

section \<open>Starting runner processes\<close>

definition start_job_runner :: "os \<Rightarrow> string \<Rightarrow> nat manager_action" where
  "start_job_runner os name s =
     (if os_runner_bin os
      then case os_spawn os name of
             Inr pid \<Rightarrow> (Inr pid, s\<lparr>runners := (pid, name) # runners s\<rparr>)
           | Inl e \<Rightarrow> (Inl e, s)
      else (Inl ''missing job runner binary'', s))"

definition log_error :: "os \<Rightarrow> string \<Rightarrow> string \<Rightarrow> job \<Rightarrow> manager \<Rightarrow> manager" where
  "log_error os name message j s =
     put_job name (push_log (os_show_time os) (os_now os) message j) (bv_error message s)"

text \<open>The outcome of a failed \<open>save_status\<close> is logged and reported, never returned.\<close>

definition save_failed_status :: "os \<Rightarrow> string \<Rightarrow> (string \<Rightarrow> string) \<Rightarrow> job \<Rightarrow> (string + unit) \<Rightarrow> manager \<Rightarrow> manager" where
  "save_failed_status os name message j r s =
     (case r of Inr _ \<Rightarrow> put_job name j s | Inl e \<Rightarrow> log_error os name (message e) j s)"

definition start_job :: "os \<Rightarrow> string \<Rightarrow> job \<Rightarrow> manager \<Rightarrow> manager" where
  "start_job os name j s =
     (case on_disk (clear_status (os_job_io os) j) s of
        (Inl e, t) \<Rightarrow>
          log_error os name (''failed to clear job '' @ quoted name @ '' status, before new run: '' @ e)
            (set_inactive (os_now os) Running j) t
      | (Inr _, t) \<Rightarrow>
          (case start_job_runner os name t of
             (Inr pid, u) \<Rightarrow> put_job name (set_active (os_now os) pid j) u
           | (Inl e, u) \<Rightarrow>
               let message = ''failed to start job '' @ quoted name @ '': '' @ e;
                   j' = set_inactive (os_now os) (Finished None message)
                          (push_log (os_show_time os) (os_now os) message j);
                   (r, v) = on_disk (save_status (os_job_io os) (os_now os) j') u
               in save_failed_status os name
                    (\<lambda>_. ''failed to save failed job '' @ quoted name @ '' status: '' @ e) j' r v))"

section \<open>Jobs whose process ended\<close>

definition ended_status :: "os \<Rightarrow> string \<Rightarrow> job \<Rightarrow> manager \<Rightarrow> (job_status \<times> nat) \<times> job \<times> manager" where
  "ended_status os name j s =
     (case load_status (job_path j) (job_disk s) of
        Inr (status, stamp) \<Rightarrow> ((status, stamp), j, s)
      | Inl e \<Rightarrow>
          let message = ''can't load job '' @ quoted name @ '' status from file after it stopped, with: '' @ e
          in ((if restart (job_conf j) = Never then Finished None message else Running, os_now os),
              push_log (os_show_time os) (os_now os) message j, bv_error message s))"

fun is_final :: "job_status \<Rightarrow> bool" where
  "is_final (Finished _ _) = True"
| "is_final Stopped = True"
| "is_final _ = False"

definition handle_stopped_job :: "os \<Rightarrow> string \<Rightarrow> job \<Rightarrow> manager \<Rightarrow> manager" where
  "handle_stopped_job os name j s =
     (let ((status, stamp), j', t) = ended_status os name j s
      in if is_final status then put_job name (j'\<lparr>job_st := Inactive status stamp\<rparr>) t
         else start_job os name
                (push_log (os_show_time os) (os_now os) ''babel_job_runner process ended unexpectedly''
                  (register_restart (os_now os) j')) t)"

section \<open>The manager loop\<close>

text \<open>\<open>update_active_jobs\<close>: \<open>ps\<close> is the list of processes taken before the lock.\<close>

definition update_active_job :: "os \<Rightarrow> nat set \<Rightarrow> string \<Rightarrow> manager \<Rightarrow> manager" where
  "update_active_job os ps name s =
     (case get_job name s of
        Some j \<Rightarrow>
          (case job_st j of
             Active pid _ \<Rightarrow> if pid \<in> ps then s else handle_stopped_job os name j s
           | Inactive _ _ \<Rightarrow> s)
      | None \<Rightarrow> s)"

definition fail_pending_job :: "os \<Rightarrow> string \<Rightarrow> job \<Rightarrow> nat \<Rightarrow> string \<Rightarrow> manager \<Rightarrow> manager" where
  "fail_pending_job os name j stamp err s =
     (let j' = j\<lparr>job_st := Inactive (Finished None err) stamp\<rparr>;
          (r, t) = on_disk (save_status (os_job_io os) (os_now os) j') s
      in save_failed_status os name (\<lambda>e. ''failed to save failed job '' @ quoted name @ '' status: '' @ e)
           (push_log (os_show_time os) (os_now os) err j') r t)"

text \<open>\<open>check_inactive_jobs\<close>: dependencies are judged on the copy of the registry made first.\<close>

definition check_inactive_job :: "os \<Rightarrow> (string, job) hash_map \<Rightarrow> string \<Rightarrow> manager \<Rightarrow> manager" where
  "check_inactive_job os deps name s =
     (case get_job name s of
        Some j \<Rightarrow>
          (case job_st j of
             Inactive (Pending _) stamp \<Rightarrow>
               (case deps_finished name deps (job_conf j) of
                  Inr True \<Rightarrow> start_job os name j s
                | Inr False \<Rightarrow> s
                | Inl err \<Rightarrow> fail_pending_job os name j stamp err s)
           | Inactive Running _ \<Rightarrow> handle_stopped_job os name j s
           | _ \<Rightarrow> s)
      | None \<Rightarrow> s)"

definition update_active_jobs :: "os \<Rightarrow> nat set \<Rightarrow> manager \<Rightarrow> manager" where
  "update_active_jobs os ps s = fold (update_active_job os ps) (map fst (jobs s)) s"

definition check_inactive_jobs :: "os \<Rightarrow> manager \<Rightarrow> manager" where
  "check_inactive_jobs os s = fold (check_inactive_job os (jobs s)) (map fst (jobs s)) s"

definition update_jobs :: "os \<Rightarrow> nat set \<Rightarrow> manager \<Rightarrow> manager" where
  "update_jobs os ps s = check_inactive_jobs os (update_active_jobs os ps s)"

fun handle_job_report :: "os \<Rightarrow> job_report \<Rightarrow> manager \<Rightarrow> manager" where
  "handle_job_report os (PushLog name message) s =
     (case get_job name s of
        Some j \<Rightarrow> put_job name (push_log (os_show_time os) (os_now os) message j) s
      | None \<Rightarrow> s)"
| "handle_job_report os (RegisterRestart name) s =
     (case get_job name s of
        Some j \<Rightarrow> put_job name (register_restart (os_now os) j) s
      | None \<Rightarrow> s)"


section \<open>Registry lemmas\<close>

lemma get_job_put [simp]: "get_job m (put_job n j s) = (if m = n then Some j else get_job m s)"
  by (simp add: get_job_def put_job_def update_conv')

lemma get_job_other_fields [simp]:
  "get_job n (s\<lparr>job_disk := d\<rparr>) = get_job n s"
  "get_job n (s\<lparr>archive_fs := f\<rparr>) = get_job n s"
  "get_job n (s\<lparr>runners := r\<rparr>) = get_job n s"
  "get_job n (s\<lparr>manager_st := st\<rparr>) = get_job n s"
  "get_job n (s\<lparr>manager_env := e\<rparr>) = get_job n s"
  "get_job n (s\<lparr>bv_errors := es\<rparr>) = get_job n s"
  by (simp_all add: get_job_def)

lemma put_job_fields [simp]:
  "runners (put_job n j s) = runners s" "job_disk (put_job n j s) = job_disk s"
  "jobs_dir (put_job n j s) = jobs_dir s" "manager_st (put_job n j s) = manager_st s"
  "manager_env (put_job n j s) = manager_env s" "archive_fs (put_job n j s) = archive_fs s"
  by (simp_all add: put_job_def)

lemma bv_error_fields [simp]:
  "runners (bv_error e s) = runners s" "job_disk (bv_error e s) = job_disk s" "jobs (bv_error e s) = jobs s"
  "jobs_dir (bv_error e s) = jobs_dir s" "manager_st (bv_error e s) = manager_st s"
  "get_job n (bv_error e s) = get_job n s"
  by (simp_all add: bv_error_def get_job_def)

lemma snd_on_disk: "snd (on_disk m s) = s\<lparr>job_disk := snd (m (job_disk s))\<rparr>"
  and fst_on_disk: "fst (on_disk m s) = fst (m (job_disk s))"
  by (simp_all add: on_disk_def case_prod_beta Let_def)

lemma snd_on_archive: "snd (on_archive m s) = s\<lparr>archive_fs := snd (m (archive_fs s))\<rparr>"
  by (simp add: on_archive_def case_prod_beta Let_def)

lemma wf_map_put [simp]: "wf_map (jobs s) \<Longrightarrow> wf_map (jobs (put_job n j s))"
  by (simp add: put_job_def distinct_update)

lemma job_st_push_log [simp]: "job_st (push_log f now m j) = job_st j"
  by (simp add: push_log_def update_job_def Let_def)

lemma job_st_update_job [simp]: "job_st (update_job now j) = job_st j"
  by (simp add: update_job_def Let_def)

lemma job_st_register_restart [simp]: "job_st (register_restart now j) = job_st j"
  by (simp add: register_restart_def Let_def)

lemma job_st_set [simp]:
  "job_st (set_inactive now st j) = Inactive st now" "job_st (set_active now pid j) = Active pid now"
  by (simp_all add: set_inactive_def set_active_def)

section \<open>Live processes are recorded\<close>

text \<open>\<open>recorded s\<close>: every live runner process is the one its job records as active.\<close>

definition recorded :: "manager \<Rightarrow> bool" where
  "recorded s \<longleftrightarrow> (\<forall>(pid, n) \<in> set (runners s). \<exists>j t. get_job n s = Some j \<and> job_st j = Active pid t)"

definition one_runner_per_job :: "manager \<Rightarrow> bool" where
  "one_runner_per_job s \<longleftrightarrow> distinct (map fst (runners s)) \<and> distinct (map snd (runners s))"

lemma recordedD: "recorded s \<Longrightarrow> (pid, n) \<in> set (runners s) \<Longrightarrow> \<exists>j t. get_job n s = Some j \<and> job_st j = Active pid t"
  by (auto simp: recorded_def)

lemma recorded_cong:
  "runners t = runners s \<Longrightarrow> (\<And>n. get_job n t = get_job n s) \<Longrightarrow> recorded t = recorded s"
  by (simp add: recorded_def)

lemma recorded_fields [simp]:
  "recorded (s\<lparr>job_disk := d\<rparr>) = recorded s" "recorded (s\<lparr>archive_fs := f\<rparr>) = recorded s"
  "recorded (s\<lparr>manager_st := st\<rparr>) = recorded s" "recorded (s\<lparr>manager_env := e\<rparr>) = recorded s"
  "recorded (bv_error m s) = recorded s"
  by (simp_all add: recorded_def)

lemma recorded_filter: "recorded s \<Longrightarrow> recorded (s\<lparr>runners := filter P (runners s)\<rparr>)"
  by (auto simp: recorded_def)

lemma recorded_put_same:
  "recorded s \<Longrightarrow> get_job n s = Some j \<Longrightarrow> job_st j' = job_st j \<Longrightarrow> recorded (put_job n j' s)"
  by (auto simp: recorded_def split: if_splits)

lemma recorded_put_idle:
  "recorded s \<Longrightarrow> n \<notin> snd ` set (runners s) \<Longrightarrow> recorded (put_job n j s)"
  by (force simp: recorded_def)

lemma inactive_is_idle:
  "recorded s \<Longrightarrow> get_job n s = Some j \<Longrightarrow> job_st j = Inactive st t \<Longrightarrow> n \<notin> snd ` set (runners s)"
  by (force simp: recorded_def)

lemma absent_is_idle: "recorded s \<Longrightarrow> get_job n s = None \<Longrightarrow> n \<notin> snd ` set (runners s)"
  by (force simp: recorded_def)

section \<open>Requests keep the processes tracked\<close>

definition tidy :: "manager \<Rightarrow> bool" where
  "tidy s \<longleftrightarrow> one_runner_per_job s \<and> wf_map (jobs s)"

lemma tidy_fields [simp]:
  "tidy (s\<lparr>job_disk := d\<rparr>) = tidy s" "tidy (s\<lparr>archive_fs := f\<rparr>) = tidy s"
  "tidy (s\<lparr>manager_st := st\<rparr>) = tidy s" "tidy (s\<lparr>manager_env := e\<rparr>) = tidy s"
  "tidy (bv_error m s) = tidy s"
  by (simp_all add: tidy_def one_runner_per_job_def)

lemma tidy_put: "tidy s \<Longrightarrow> tidy (put_job n j s)"
  by (simp add: tidy_def one_runner_per_job_def)

lemma tidy_filter: "tidy s \<Longrightarrow> tidy (s\<lparr>runners := filter P (runners s)\<rparr>)"
  by (auto simp: tidy_def one_runner_per_job_def intro: distinct_map_filter)

lemma keeps_on_disk:
  "(\<And>s d. I s \<Longrightarrow> I (s\<lparr>job_disk := d\<rparr>)) \<Longrightarrow> keeps I (on_disk m)"
  by (simp add: keeps_def snd_on_disk)

lemma keeps_on_archive:
  "(\<And>s d. I s \<Longrightarrow> I (s\<lparr>archive_fs := d\<rparr>)) \<Longrightarrow> keeps I (on_archive m)"
  by (simp add: keeps_def snd_on_archive)

lemma keeps_terminate_job_process:
  "(\<And>s P. I s \<Longrightarrow> I (s\<lparr>runners := filter P (runners s)\<rparr>)) \<Longrightarrow> keeps I (terminate_job_process os n pid)"
  by (simp add: keeps_def terminate_job_process_def)

lemma keeps_terminate_if_active:
  "(\<And>s P. I s \<Longrightarrow> I (s\<lparr>runners := filter P (runners s)\<rparr>)) \<Longrightarrow> keeps I (terminate_if_active os n j)"
  by (auto simp: terminate_if_active_def split: job_state.split intro!: keeps_terminate_job_process keeps_ok)

lemma terminate_if_active_idle:
  assumes "terminate_if_active os n j s = (Inr u, t)" and "recorded s" and "get_job n s = Some j"
  shows "n \<notin> snd ` set (runners t) \<and> recorded t \<and> jobs t = jobs s \<and> job_disk t = job_disk s \<and> jobs_dir t = jobs_dir s"
proof (cases "job_st j")
  case (Inactive st x)
  with assms inactive_is_idle [OF assms(2,3)] show ?thesis by (simp add: terminate_if_active_def)
next
  case (Active pid x)
  have only: "p = pid" if "(p, n) \<in> set (runners s)" for p
    using recordedD [OF assms(2) that] assms(3) Active by auto
  show ?thesis
  proof (cases "pid \<in> fst ` set (runners s)")
    case True
    with assms(1) Active have "t = s\<lparr>runners := filter (\<lambda>(p, _). p \<noteq> pid) (runners s)\<rparr>"
      by (auto simp: terminate_if_active_def terminate_job_process_def split: if_splits)
    with only assms(2) recorded_filter [of s "\<lambda>(p, _). p \<noteq> pid"] show ?thesis by auto
  next
    case False
    with assms(1) Active have "t = s" by (simp add: terminate_if_active_def terminate_job_process_def)
    with only assms(2) False show ?thesis by force
  qed
qed

lemma terminate_if_active_error: "terminate_if_active os n j s = (Inl e, t) \<Longrightarrow> t = s"
  by (auto simp: terminate_if_active_def terminate_job_process_def split: job_state.splits if_splits)

lemma get_job_jobs: "jobs t = jobs s \<Longrightarrow> get_job n t = get_job n s"
  by (simp add: get_job_def)

subsection \<open>Stop and skip\<close>

lemma recorded_end_job:
  assumes "recorded s" and "get_job n s = Some j"
  shows "recorded (snd (end_job os st n j s))"
proof (cases "terminate_if_active os n j s")
  case (Pair r t)
  show ?thesis
  proof (cases r)
    case (Inl e)
    with Pair assms(1) terminate_if_active_error show ?thesis by (fastforce simp: end_job_def try_then_def)
  next
    case (Inr u)
    from terminate_if_active_idle [OF Pair [unfolded Inr] assms] have "recorded (put_job n (set_inactive (os_now os) st j) t)"
      by (blast intro: recorded_put_idle)
    with Pair Inr show ?thesis by (simp add: end_job_def try_then_def Let_def snd_on_disk)
  qed
qed

lemma tidy_end_job: "tidy s \<Longrightarrow> tidy (snd (end_job os st n j s))"
  unfolding end_job_def Let_def
  by (rule keepsD [where I = tidy])
    (intro keeps_rules keeps_terminate_if_active keeps_on_disk tidy_filter tidy_put; simp)

lemma recorded_stop_request: "keeps recorded (stop_request os n)"
  by (simp add: keeps_def stop_request_def recorded_end_job split: option.split)

lemma tidy_stop_request: "keeps tidy (stop_request os n)"
  by (simp add: keeps_def stop_request_def tidy_end_job split: option.split)

lemma recorded_skip_request: "keeps recorded (skip_request os n)"
  by (simp add: keeps_def skip_request_def recorded_end_job split: option.split)

lemma tidy_skip_request: "keeps tidy (skip_request os n)"
  by (simp add: keeps_def skip_request_def tidy_end_job split: option.split)

lemma keeps_stop_all:
  "(\<And>n. keeps I (stop_request os n)) \<Longrightarrow> keeps I (stop_all os)"
  unfolding stop_all_def by (rule keeps_diag) (rule keeps_for_each)

subsection \<open>Shutdown\<close>

lemma tidy_shutdown_job: "keeps tidy (shutdown_job os force n)"
proof (rule keepsI)
  fix s assume "tidy s"
  have kill: "tidy (kill_runners n t)" if "tidy t" for t
    using tidy_filter [OF that] by (simp add: kill_runners_def)
  have "tidy (snd (try_then (if force then update_state (kill_runners n) else terminate_if_active os n j)
      (\<lambda>_. update_state (put_job n (set_inactive (os_now os) Running j))) s))" for j
    using \<open>tidy s\<close>
    by (rule keepsD [rotated]) (intro keeps_rules keeps_terminate_if_active kill tidy_filter tidy_put)
  with \<open>tidy s\<close> show "tidy (snd (shutdown_job os force n s))"
    by (simp add: shutdown_job_def split: option.split)
qed

lemma recorded_shutdown_job: "keeps recorded (shutdown_job os force n)"
proof (rule keepsI)
  fix s assume s: "recorded s"
  show "recorded (snd (shutdown_job os force n s))"
  proof (cases "get_job n s")
    case None
    with s show ?thesis by (simp add: shutdown_job_def)
  next
    case (Some j)
    have "recorded (put_job n j' (kill_runners n s))" for j'
      using s by (intro recorded_put_idle) (auto simp: kill_runners_def intro: recorded_filter)
    moreover have "recorded (snd (try_then (terminate_if_active os n j)
        (\<lambda>_. update_state (put_job n (set_inactive (os_now os) Running j))) s))"
    proof (cases "terminate_if_active os n j s")
      case (Pair r t)
      then show ?thesis
        using s Some terminate_if_active_idle [of os n j s _ t] terminate_if_active_error [of os n j s _ t]
        by (cases r) (auto simp: try_then_def intro: recorded_put_idle)
    qed
    ultimately show ?thesis using s Some by (simp add: shutdown_job_def try_then_def)
  qed
qed

lemma keeps_shutdown:
  "(\<And>n. keeps I (shutdown_job os force n)) \<Longrightarrow> (\<And>s st. I s \<Longrightarrow> I (s\<lparr>manager_st := st\<rparr>)) \<Longrightarrow> keeps I (shutdown os force)"
  by (rule keepsI) (auto simp: shutdown_def intro: keepsD [OF keeps_for_each])

subsection \<open>Create, start, cleanup and information\<close>

lemma keeps_store_new_job:
  assumes "\<And>s d. I s \<Longrightarrow> I (s\<lparr>job_disk := d\<rparr>)" and "\<And>s. I s \<Longrightarrow> I (put_job n j s)"
  shows "keeps I (store_new_job os n j)"
  unfolding store_new_job_def using assms by (intro keeps_rules keeps_on_disk) simp_all

lemma tidy_create_job: "keeps tidy (create_job os n c)"
proof -
  have "keeps tidy (terminate_if_active os n j)" for j
    by (rule keeps_terminate_if_active) (rule tidy_filter)
  then have "keeps tidy (create_guard os n)"
    by (simp add: keeps_def create_guard_def split: option.split)
  moreover have "keeps tidy (store_new_job os n j)" for j
    by (rule keeps_store_new_job) (simp_all add: tidy_put)
  ultimately have "keeps tidy (try_then (create_guard os n) (\<lambda>_. store_new_job os n j))" for j
    by (rule keeps_try_then)
  then show ?thesis by (simp add: keeps_def create_job_def)
qed

definition idle :: "string \<Rightarrow> manager \<Rightarrow> bool" where
  "idle n s \<longleftrightarrow> recorded s \<and> n \<notin> snd ` set (runners s)"

lemma idle_disk [simp]: "idle n (s\<lparr>job_disk := d\<rparr>) = idle n s"
  by (simp add: idle_def)

lemma idle_put [simp]: "idle n s \<Longrightarrow> idle n (put_job n j s)"
  by (simp add: idle_def recorded_put_idle)

lemma create_guard_idle:
  assumes "recorded s" and "create_guard os n s = (r, t)"
  shows "recorded t" and "r = Inr u \<Longrightarrow> idle n t"
proof -
  have "recorded t \<and> (\<forall>u. r = Inr u \<longrightarrow> idle n t)"
  proof (cases "get_job n s")
    case None
    with assms absent_is_idle [OF assms(1) None] show ?thesis
      by (auto simp: create_guard_def idle_def split: if_splits)
  next
    case (Some j)
    with assms show ?thesis
      using terminate_if_active_idle [of os n j s _ t] terminate_if_active_error [of os n j s _ t]
      by (cases r) (auto simp: create_guard_def idle_def)
  qed
  then show "recorded t" and "r = Inr u \<Longrightarrow> idle n t" by blast+
qed

lemma recorded_create_job: "keeps recorded (create_job os n c)"
proof (rule keepsI)
  fix s assume s: "recorded s"
  obtain r t where g: "create_guard os n s = (r, t)" by (cases "create_guard os n s")
  show "recorded (snd (create_job os n c s))"
  proof (cases r)
    case (Inl e)
    with g create_guard_idle [OF s g] show ?thesis by (simp add: create_job_def try_then_def)
  next
    case (Inr u)
    with create_guard_idle [OF s g] have "idle n t" by blast
    then have "idle n (snd (store_new_job os n j t))" for j
      by (rule keepsD [OF keeps_store_new_job, rotated 2]) simp_all
    with g Inr show ?thesis by (simp add: create_job_def try_then_def idle_def)
  qed
qed

lemma keeps_start_request:
  assumes "\<And>s d. I s \<Longrightarrow> I (s\<lparr>job_disk := d\<rparr>)"
    and "\<And>s j j'. I s \<Longrightarrow> get_job n s = Some j \<Longrightarrow> \<not> is_active j \<Longrightarrow> I (put_job n j' s)"
  shows "keeps I (start_request n os)"
  using assms by (auto simp: keeps_def start_request_def Let_def snd_on_disk split: option.split)

lemma recorded_start_request: "keeps recorded (start_request n os)"
  by (rule keeps_start_request)
    (auto simp: is_active_def intro: recorded_put_idle dest: inactive_is_idle split: job_state.splits)

lemma tidy_start_request: "keeps tidy (start_request n os)"
  by (rule keeps_start_request) (simp_all add: tidy_put)

lemma keeps_cleanup_request:
  "(\<And>s d. I s \<Longrightarrow> I (s\<lparr>archive_fs := d\<rparr>)) \<Longrightarrow> keeps I (cleanup_request os n)"
  by (simp add: keeps_def cleanup_request_def snd_on_archive split: option.split)

lemma keeps_job_info_of:
  assumes "\<And>s d. I s \<Longrightarrow> I (s\<lparr>archive_fs := d\<rparr>)"
    and "\<And>s j j'. I s \<Longrightarrow> get_job n s = Some j \<Longrightarrow> job_st j' = job_st j \<Longrightarrow> I (put_job n j' s)"
  shows "keeps I (job_info_of os n)"
  using assms by (auto simp: keeps_def job_info_of_def Let_def case_prod_beta split: option.split)

lemma keeps_list_jobs: "(\<And>n. keeps I (job_info_of os n)) \<Longrightarrow> keeps I (list_jobs os ns)"
  by (induction ns) (auto intro!: keeps_rules)

lemma keeps_list_all_jobs: "(\<And>n. keeps I (job_info_of os n)) \<Longrightarrow> keeps I (list_all_jobs os)"
  unfolding list_all_jobs_def by (rule keeps_diag) (rule keeps_list_jobs)

lemma recorded_job_info_of: "keeps recorded (job_info_of os n)"
  by (rule keeps_job_info_of) (simp_all add: recorded_put_same)

lemma tidy_job_info_of: "keeps tidy (job_info_of os n)"
  by (rule keeps_job_info_of) (simp_all add: tidy_put)

lemma recorded_handle_job_report: "recorded s \<Longrightarrow> recorded (handle_job_report os r s)"
  by (cases r) (auto intro: recorded_put_same split: option.split)

lemma tidy_handle_job_report: "tidy s \<Longrightarrow> tidy (handle_job_report os r s)"
  by (cases r) (simp_all add: tidy_put split: option.split)

subsection \<open>Loading the registry\<close>

definition recorded_for :: "string \<Rightarrow> manager \<Rightarrow> bool" where
  "recorded_for n s \<longleftrightarrow> (\<forall>pid. (pid, n) \<in> set (runners s) \<longrightarrow> (\<exists>j t. get_job n s = Some j \<and> job_st j = Active pid t))"

definition configured :: "manager \<Rightarrow> string \<Rightarrow> bool" where
  "configured s n \<longleftrightarrow> (\<exists>files c. job_disk s (path_join (jobs_dir s) n) = Some files \<and> config_file files = Some (Valid c))"

lemma recorded_iff_for: "recorded s \<longleftrightarrow> (\<forall>n. recorded_for n s)"
  by (auto simp: recorded_def recorded_for_def)

lemma one_runner_find:
  assumes "one_runner_per_job s" and "(pid, n) \<in> set (runners s)"
  shows "find_runners n (runners s) = [pid]"
proof -
  have "find_runners n ps = [pid]" if "distinct (map snd ps)" "(pid, n) \<in> set ps" for ps :: "(nat \<times> string) list"
    using that
  proof (induction ps)
    case Nil
    then show ?case by simp
  next
    case (Cons p ps)
    have none: "find_runners n ps = []" if "n \<notin> snd ` set ps"
      using that by (force simp: find_runners_def filter_empty_conv)
    from Cons none show ?case by (cases p) (auto simp: find_runners_def rev_image_eqI)
  qed
  with assms show ?thesis by (simp add: one_runner_per_job_def)
qed

lemma load_job_frame [simp]:
  "runners (load_job os n s) = runners s" "jobs_dir (load_job os n s) = jobs_dir s"
  "manager_st (load_job os n s) = manager_st s"
  by (simp_all add: load_job_def Let_def split: option.split sum.split)

lemma tidy_load_job: "tidy s \<Longrightarrow> tidy (load_job os n s)"
  by (simp add: load_job_def Let_def tidy_put split: option.split sum.split)

lemma configured_load_job: "configured s m \<Longrightarrow> configured (load_job os n s) m"
  by (auto simp: configured_def load_job_def Let_def load_config_def split: option.split sum.split stored.split)

lemma load_job_configured:
  assumes "one_runner_per_job s" and "configured s n"
  shows "recorded_for n (load_job os n s)"
  using assms one_runner_find [OF assms(1), of _ n]
  by (auto simp: recorded_for_def configured_def load_job_def load_config_def job_new_def Let_def)

lemma load_job_recorded_for:
  assumes "one_runner_per_job s" and "recorded_for m s"
  shows "recorded_for m (load_job os n s)"
proof (cases "m = n")
  case True
  show ?thesis
  proof (cases "configured s n")
    case True
    with assms(1) load_job_configured \<open>m = n\<close> show ?thesis by blast
  next
    case False
    then have "get_job n (load_job os n s) = get_job n s"
      by (auto simp: configured_def load_job_def load_config_def Let_def split: option.split stored.split)
    with assms(2) True show ?thesis by (simp add: recorded_for_def)
  qed
next
  case False
  then have "get_job m (load_job os n s) = get_job m s"
    by (auto simp: load_job_def Let_def split: option.split sum.split)
  with assms(2) show ?thesis by (simp add: recorded_for_def)
qed

lemma one_runner_load_job [simp]: "one_runner_per_job (load_job os n s) = one_runner_per_job s"
  by (simp add: one_runner_per_job_def)

lemma load_entries_frame:
  "runners (snd (load_entries os es s)) = runners s \<and> manager_st (snd (load_entries os es s)) = manager_st s"
  by (induction os es s rule: load_entries.induct) simp_all

lemma tidy_load_entries: "tidy s \<Longrightarrow> tidy (snd (load_entries os es s))"
  by (induction os es s rule: load_entries.induct) (simp_all add: tidy_load_job)

lemma recorded_for_load_entries:
  "one_runner_per_job s \<Longrightarrow> recorded_for m s \<Longrightarrow> recorded_for m (snd (load_entries os es s))"
  by (induction os es s rule: load_entries.induct) (simp_all add: load_job_recorded_for)

lemma load_entries_records:
  assumes "load_entries os es s = (Inr u, t)" and "one_runner_per_job s"
    and "Inr n \<in> set es" and "configured s n"
  shows "recorded_for n t"
  using assms
proof (induction os es s rule: load_entries.induct)
  case (2 os m es s)
  show ?case
  proof (cases "n = m")
    case True
    with 2 load_job_configured [of s n os] recorded_for_load_entries [of "load_job os m s" n os es]
    show ?thesis by simp
  next
    case False
    with 2 configured_load_job [of s n os m] show ?thesis by simp
  qed
qed simp_all

text \<open>What a restarted Babel needs to find its runner processes again.\<close>

definition listed :: "os \<Rightarrow> manager \<Rightarrow> bool" where
  "listed os s \<longleftrightarrow> (\<forall>es. os_job_entries os = Inr es \<longrightarrow>
     (\<forall>n \<in> snd ` set (runners s). Inr n \<in> set es \<and> configured s n))"

lemma load_jobs_records:
  assumes "load_jobs os s = (Inr u, t)" and "one_runner_per_job s" and "listed os s"
  shows "recorded t"
proof -
  from assms(1) obtain es where es: "os_job_entries os = Inr es" and t: "load_entries os es s = (Inr u, t)"
    by (auto simp: load_jobs_def split: sum.splits)
  have run: "runners t = runners s" using load_entries_frame [of os es s] t by simp
  have "recorded_for n t" for n
  proof (cases "n \<in> snd ` set (runners s)")
    case True
    with assms(3) es have "Inr n \<in> set es" "configured s n" by (auto simp: listed_def)
    with load_entries_records [OF t assms(2)] show ?thesis by blast
  next
    case False
    with run show ?thesis by (force simp: recorded_for_def)
  qed
  then show ?thesis by (simp add: recorded_iff_for)
qed

lemma load_jobs_keeps:
  "tidy s \<Longrightarrow> tidy (snd (load_jobs os s))"
  "one_runner_per_job s \<Longrightarrow> recorded s \<Longrightarrow> recorded (snd (load_jobs os s))"
  "manager_st (snd (load_jobs os s)) = manager_st s"
  using load_entries_frame
  by (simp_all add: load_jobs_def tidy_load_entries recorded_for_load_entries recorded_iff_for split: sum.split)

lemma startup_keeps:
  assumes "tidy s" and "manager_st s = Ready \<longrightarrow> recorded s" and "listed os s"
  shows "tidy (snd (startup os env s)) \<and> (manager_st (snd (startup os env s)) = Ready \<longrightarrow> recorded (snd (startup os env s)))"
proof -
  define s' where "s' = s\<lparr>manager_env := Some env\<rparr>"
  have s': "tidy s'" "manager_st s' = Ready \<longrightarrow> recorded s'" "listed os s'" "one_runner_per_job s'"
    using assms by (simp_all add: s'_def listed_def configured_def) (simp add: tidy_def one_runner_per_job_def)
  obtain r t where l: "load_jobs os s' = (r, t)" by (cases "load_jobs os s'")
  note keeps = load_jobs_keeps [where s = s' and os = os, unfolded l]
  show ?thesis
  proof (cases r)
    case (Inl e)
    then show ?thesis using s' keeps l by (simp add: startup_def try_then_def flip: s'_def)
  next
    case (Inr u)
    with l load_jobs_records [of os s' u t] s' keeps(1) show ?thesis
      by (simp add: startup_def try_then_def flip: s'_def)
  qed
qed

subsection \<open>The manager loop\<close>

text \<open>During a pass, processes are those from before it or the ones spawned by it.\<close>

definition fresh_spawns :: "os \<Rightarrow> nat set \<Rightarrow> bool" where
  "fresh_spawns os live \<longleftrightarrow>
     (\<forall>n pid. os_spawn os n = Inr pid \<longrightarrow> pid \<notin> live) \<and>
     (\<forall>n m pid. os_spawn os n = Inr pid \<and> os_spawn os m = Inr pid \<longrightarrow> n = m)"

definition passing :: "os \<Rightarrow> nat set \<Rightarrow> string set \<Rightarrow> manager \<Rightarrow> bool" where
  "passing os live todo s \<longleftrightarrow> tidy s \<and> recorded s
     \<and> (\<forall>(pid, n) \<in> set (runners s). pid \<in> live \<or> os_spawn os n = Inr pid \<and> n \<notin> todo)"

lemma passing_put_idle:
  "passing os live todo s \<Longrightarrow> n \<notin> snd ` set (runners s) \<Longrightarrow> passing os live todo (put_job n j s)"
  by (simp add: passing_def tidy_put recorded_put_idle)

lemma passing_fields [simp]:
  "passing os live todo (s\<lparr>job_disk := d\<rparr>) = passing os live todo s"
  "passing os live todo (bv_error m s) = passing os live todo s"
  by (simp_all add: passing_def)

lemma passing_mono: "passing os live todo s \<Longrightarrow> todo' \<subseteq> todo \<Longrightarrow> passing os live todo' s"
  by (auto simp: passing_def)

lemma log_error_fields [simp]:
  "runners (log_error os n m j s) = runners s" "job_disk (log_error os n m j s) = job_disk s"
  "get_job k (log_error os n m j s) = (if k = n then Some (push_log (os_show_time os) (os_now os) m j) else get_job k s)"
  by (simp_all add: log_error_def)

lemma passing_log_error:
  "passing os live todo s \<Longrightarrow> n \<notin> snd ` set (runners s) \<Longrightarrow> passing os live todo (log_error os n m j s)"
  by (simp add: log_error_def passing_put_idle)

lemma passing_save_failed:
  "passing os live todo s \<Longrightarrow> n \<notin> snd ` set (runners s) \<Longrightarrow> passing os live todo (save_failed_status os n m j r s)"
  by (simp add: save_failed_status_def passing_put_idle passing_log_error split: sum.split)

lemma on_disk_eq: "on_disk m s = (fst (m (job_disk s)), s\<lparr>job_disk := snd (m (job_disk s))\<rparr>)"
  by (simp add: on_disk_def case_prod_beta Let_def)

lemma passing_spawn:
  assumes "passing os live todo s" and "n \<notin> snd ` set (runners s)" and "n \<notin> todo"
    and "fresh_spawns os live" and "os_spawn os n = Inr pid" and "job_st j = Active pid t"
  shows "passing os live todo (put_job n j (s\<lparr>runners := (pid, n) # runners s\<rparr>))"
proof -
  have "pid \<notin> fst ` set (runners s)"
    using assms(1,2,4,5) by (force simp: passing_def fresh_spawns_def)
  moreover have "recorded (put_job n j (s\<lparr>runners := (pid, n) # runners s\<rparr>))"
    using assms(1,2,6) by (force simp: passing_def recorded_def)
  ultimately show ?thesis
    using assms by (auto simp: passing_def tidy_def one_runner_per_job_def)
qed

lemma passing_start_job:
  assumes "passing os live todo s" and "n \<notin> snd ` set (runners s)" and "n \<notin> todo" and "fresh_spawns os live"
  shows "passing os live todo (start_job os n j s)"
proof -
  have spawn: "passing os live todo
      (put_job n (set_active (os_now os) pid j) (s\<lparr>job_disk := d, runners := (pid, n) # runners s\<rparr>))"
    if "os_spawn os n = Inr pid" for pid d
    using passing_spawn [of os live todo "s\<lparr>job_disk := d\<rparr>" n pid "set_active (os_now os) pid j"] assms that
    by simp
  show ?thesis
    using assms(1,2) spawn
    by (auto simp: start_job_def start_job_runner_def on_disk_eq Let_def passing_log_error passing_save_failed
        split: sum.split)
qed

lemma passing_handle_stopped:
  assumes "passing os live todo s" and "n \<notin> snd ` set (runners s)" and "n \<notin> todo" and "fresh_spawns os live"
  shows "passing os live todo (handle_stopped_job os n j s)"
proof -
  obtain st stamp j' t where e: "ended_status os n j s = ((st, stamp), j', t)"
    by (cases "ended_status os n j s") auto
  then have "passing os live todo t" "n \<notin> snd ` set (runners t)"
    using assms by (auto simp: ended_status_def Let_def split: sum.splits)
  with assms(3,4) show ?thesis
    by (simp add: handle_stopped_job_def e Let_def passing_put_idle passing_start_job)
qed

lemma passing_update_active:
  assumes "passing os live (insert n todo) s" and "fresh_spawns os live" and "live \<subseteq> ps" and "n \<notin> todo"
  shows "passing os live todo (update_active_job os ps n s)"
proof -
  have pass: "passing os live todo s" using assms(1) by (rule passing_mono) blast
  have idle: "n \<notin> snd ` set (runners s)" if "get_job n s = Some j" "job_st j = Active pid t" "pid \<notin> ps" for j pid t
  proof
    assume "n \<in> snd ` set (runners s)"
    then obtain p where p: "(p, n) \<in> set (runners s)" by force
    with assms(1) that(1,2) have "p = pid" by (auto simp: passing_def dest: recordedD)
    moreover from p assms(1) have "p \<in> live" by (auto simp: passing_def)
    ultimately show False using assms(3) that(3) by blast
  qed
  show ?thesis
    using pass idle passing_handle_stopped [OF pass _ assms(4,2)]
    by (auto simp: update_active_job_def split: option.split job_state.split)
qed

lemma passing_check_inactive:
  assumes "passing os live todo s" and "fresh_spawns os live" and "n \<notin> todo"
  shows "passing os live todo (check_inactive_job os deps n s)"
proof -
  have idle: "n \<notin> snd ` set (runners s)" if "get_job n s = Some j" "job_st j = Inactive st t" for j st t
    using assms(1) that by (intro inactive_is_idle) (simp_all add: passing_def)
  show ?thesis
    using assms(1) idle passing_handle_stopped [OF assms(1) _ assms(3,2)] passing_start_job [OF assms(1) _ assms(3,2)]
    by (auto simp: check_inactive_job_def fail_pending_job_def on_disk_eq Let_def passing_save_failed
        split: option.split job_state.split job_status.split sum.split bool.split)
qed

lemma passing_update_active_fold:
  "\<lbrakk>passing os live (set ns) s; fresh_spawns os live; live \<subseteq> ps; distinct ns\<rbrakk>
    \<Longrightarrow> passing os live {} (fold (update_active_job os ps) ns s)"
  by (induction ns arbitrary: s) (simp_all add: passing_update_active)

lemma passing_check_inactive_fold:
  "\<lbrakk>passing os live {} s; fresh_spawns os live\<rbrakk>
    \<Longrightarrow> passing os live {} (fold (check_inactive_job os deps) ns s)"
  by (induction ns arbitrary: s) (simp_all add: passing_check_inactive)

lemma update_jobs_tracked:
  assumes "tidy s" and "recorded s" and "fresh_spawns os (fst ` set (runners s))" and "fst ` set (runners s) \<subseteq> ps"
  shows "tidy (update_jobs os ps s) \<and> recorded (update_jobs os ps s)"
proof -
  have "passing os (fst ` set (runners s)) (set (map fst (jobs s))) s"
    using assms(1,2) by (auto simp: passing_def rev_image_eqI)
  then have "passing os (fst ` set (runners s)) {} (update_active_jobs os ps s)"
    unfolding update_active_jobs_def
    using assms by (intro passing_update_active_fold) (simp_all add: tidy_def)
  then have "passing os (fst ` set (runners s)) {} (update_jobs os ps s)"
    unfolding update_jobs_def check_inactive_jobs_def
    using assms(3) by (intro passing_check_inactive_fold)
  then show ?thesis by (simp add: passing_def)
qed

section \<open>Steps of the manager\<close>

text \<open>
  A step is a request of the client, a report of a runner, a pass of the loop (only in the state
  \<open>Ready\<close>, with a process list taken when every live runner was already there, and fresh process ids),
  the end of a runner process, a write of a runner to the files of its job, or a restart of Babel, which
  finds the files and the runner processes that are there.
\<close>

inductive manager_step :: "manager \<Rightarrow> manager \<Rightarrow> bool" where
  step_create: "manager_step s (snd (create_job os n c s))"
| step_start: "manager_step s (snd (start_request n os s))"
| step_stop: "manager_step s (snd (stop_request os n s))"
| step_stop_all: "manager_step s (snd (stop_all os s))"
| step_skip: "manager_step s (snd (skip_request os n s))"
| step_cleanup: "manager_step s (snd (cleanup_request os n s))"
| step_info: "manager_step s (snd (job_info_of os n s))"
| step_list: "manager_step s (snd (list_all_jobs os s))"
| step_shutdown: "manager_step s (snd (shutdown os force s))"
| step_startup: "listed os s \<Longrightarrow> manager_step s (snd (startup os env s))"
| step_report: "manager_step s (handle_job_report os r s)"
| step_pass: "\<lbrakk>manager_st s = Ready; fresh_spawns os (fst ` set (runners s)); fst ` set (runners s) \<subseteq> ps\<rbrakk>
    \<Longrightarrow> manager_step s (update_jobs os ps s)"
| step_exit: "manager_step s (s\<lparr>runners := filter (\<lambda>(p, _). p \<noteq> pid) (runners s)\<rparr>)"
| step_files: "manager_step s (s\<lparr>job_disk := d, archive_fs := f\<rparr>)"
| step_restart: "\<lbrakk>st = Ready \<longrightarrow> listed os s;
      manager_create os env (jobs_dir s) st (job_disk s) (archive_fs s) (runners s) = (Inr (), t)\<rbrakk>
    \<Longrightarrow> manager_step s t"

text \<open>A manager starts with the processes an earlier Babel left, at most one for each job.\<close>

inductive manager_reachable :: "manager \<Rightarrow> bool" where
  reach_created: "one_runner_per_job \<lparr>jobs = [], manager_env = env, jobs_dir = dir, job_disk = disk,
      archive_fs = fs, runners = procs, manager_st = st, bv_errors = []\<rparr>
    \<Longrightarrow> st = Ready \<longrightarrow> listed os \<lparr>jobs = [], manager_env = env, jobs_dir = dir, job_disk = disk,
      archive_fs = fs, runners = procs, manager_st = st, bv_errors = []\<rparr>
    \<Longrightarrow> manager_create os env dir st disk fs procs = (Inr (), s) \<Longrightarrow> manager_reachable s"
| reach_step: "manager_reachable s \<Longrightarrow> manager_step s t \<Longrightarrow> manager_reachable t"

inductive_cases manager_stepE: "manager_step s t"

definition tracked :: "manager \<Rightarrow> bool" where
  "tracked s \<longleftrightarrow> tidy s \<and> (manager_st s = Ready \<longrightarrow> recorded s)"

definition not_ready :: "manager \<Rightarrow> bool" where
  "not_ready s \<longleftrightarrow> manager_st s \<noteq> Ready"

lemma not_ready_fields [simp]:
  "not_ready (s\<lparr>job_disk := d\<rparr>) = not_ready s" "not_ready (s\<lparr>archive_fs := f\<rparr>) = not_ready s"
  "not_ready (s\<lparr>runners := r\<rparr>) = not_ready s" "not_ready (put_job n j s) = not_ready s"
  "not_ready (kill_runners n s) = not_ready s"
  by (simp_all add: not_ready_def kill_runners_def)

lemma keeps_tracked:
  assumes "keeps tidy m" and "keeps recorded m" and "keeps not_ready m"
  shows "keeps tracked m"
  using assms by (auto simp: keeps_def tracked_def not_ready_def)

lemma not_ready_terminate: "keeps not_ready (terminate_if_active os n j)"
  by (rule keeps_terminate_if_active) simp

lemma not_ready_end_job: "not_ready s \<Longrightarrow> not_ready (snd (end_job os st n j s))"
  unfolding end_job_def Let_def
  by (rule keepsD [where I = not_ready])
    (intro keeps_rules not_ready_terminate keeps_on_disk; simp)

lemma not_ready_stop: "keeps not_ready (stop_request os n)"
  by (simp add: keeps_def stop_request_def not_ready_end_job split: option.split)

lemma not_ready_skip: "keeps not_ready (skip_request os n)"
  by (simp add: keeps_def skip_request_def not_ready_end_job split: option.split)

lemma not_ready_create: "keeps not_ready (create_job os n c)"
proof -
  have "keeps not_ready (create_guard os n)"
    using not_ready_terminate [of os n] by (simp add: keeps_def create_guard_def split: option.split)
  moreover have "keeps not_ready (store_new_job os n j)" for j
    by (rule keeps_store_new_job) simp_all
  ultimately have "keeps not_ready (try_then (create_guard os n) (\<lambda>_. store_new_job os n j))" for j
    by (rule keeps_try_then)
  then show ?thesis by (simp add: keeps_def create_job_def)
qed

lemma not_ready_shutdown_job: "keeps not_ready (shutdown_job os force n)"
proof (rule keepsI)
  fix s assume "not_ready s"
  have "not_ready (snd (try_then (if force then update_state (kill_runners n) else terminate_if_active os n j)
      (\<lambda>_. update_state (put_job n (set_inactive (os_now os) Running j))) s))" for j
    using \<open>not_ready s\<close>
    by (rule keepsD [rotated]) (intro keeps_rules not_ready_terminate; simp)
  with \<open>not_ready s\<close> show "not_ready (snd (shutdown_job os force n s))"
    by (simp add: shutdown_job_def split: option.split)
qed

lemma tracked_shutdown: "tracked s \<Longrightarrow> tracked (snd (shutdown os force s))"
proof -
  assume "tracked s"
  then have "tidy (s\<lparr>manager_st := Shutdown\<rparr>)" "not_ready (s\<lparr>manager_st := Shutdown\<rparr>)"
    by (simp_all add: tracked_def not_ready_def)
  note keepsD [OF keeps_for_each [OF tidy_shutdown_job] this(1)]
    keepsD [OF keeps_for_each [OF not_ready_shutdown_job] this(2)]
  then have "tidy (snd (shutdown os force s))" "not_ready (snd (shutdown os force s))"
    by (simp_all add: shutdown_def)
  then show ?thesis by (simp add: tracked_def not_ready_def)
qed

lemma tracked_request:
  "keeps tracked (create_job os n c)" "keeps tracked (start_request n os)" "keeps tracked (stop_request os n)"
  "keeps tracked (skip_request os n)" "keeps tracked (cleanup_request os n)" "keeps tracked (job_info_of os n)"
  "keeps tracked (stop_all os)" "keeps tracked (list_all_jobs os)"
proof -
  note stop = keeps_tracked [OF tidy_stop_request recorded_stop_request not_ready_stop]
  have info: "keeps tracked (job_info_of os m)" for m
    by (rule keeps_tracked [OF tidy_job_info_of recorded_job_info_of keeps_job_info_of]) simp_all
  show "keeps tracked (create_job os n c)"
    by (rule keeps_tracked [OF tidy_create_job recorded_create_job not_ready_create])
  show "keeps tracked (start_request n os)"
    by (rule keeps_tracked [OF tidy_start_request recorded_start_request keeps_start_request]) simp_all
  show "keeps tracked (stop_request os n)" by (rule stop)
  show "keeps tracked (skip_request os n)"
    by (rule keeps_tracked [OF tidy_skip_request recorded_skip_request not_ready_skip])
  show "keeps tracked (cleanup_request os n)"
    by (intro keeps_tracked keeps_cleanup_request) simp_all
  show "keeps tracked (job_info_of os n)" by (rule info)
  show "keeps tracked (stop_all os)" by (rule keeps_stop_all [OF stop])
  show "keeps tracked (list_all_jobs os)" by (rule keeps_list_all_jobs [OF info])
qed

lemmas tracked_requests = tracked_request [THEN keepsD]


lemma created_tracked:
  assumes "one_runner_per_job s0" and "st = Ready \<longrightarrow> listed os s0" and "jobs s0 = []" and "manager_st s0 = st"
    and "(if st = Ready then load_jobs os s0 else (Inr (), s0)) = (Inr (), s)"
  shows "tracked s"
proof -
  have tidy: "tidy s0" using assms(1,3) by (simp add: tidy_def)
  show ?thesis
  proof (cases "st = Ready")
    case True
    with assms(5) have "load_jobs os s0 = (Inr (), s)" by simp
    with load_jobs_records [of os s0 "()" s] load_jobs_keeps(1) [OF tidy, of os] assms(1,2) True
    show ?thesis by (simp add: tracked_def)
  next
    case False
    with assms(4,5) tidy show ?thesis by (auto simp: tracked_def)
  qed
qed

lemma tracked_step: "manager_step s t \<Longrightarrow> tracked s \<Longrightarrow> tracked t"
proof (induction rule: manager_step.induct)
  case (step_startup os s env)
  then show ?case using startup_keeps [of s os env] by (simp add: tracked_def)
next
  case (step_report s os r)
  moreover have "manager_st (handle_job_report os r s) = manager_st s"
    by (cases r) (simp_all split: option.split)
  ultimately show ?case by (simp add: tracked_def tidy_handle_job_report recorded_handle_job_report)
next
  case (step_pass s os ps)
  then show ?case using update_jobs_tracked [of s os ps] by (simp add: tracked_def)
next
  case (step_exit s pid)
  then show ?case by (simp add: tracked_def tidy_filter recorded_filter)
next
  case (step_files s d f)
  then show ?case by (simp add: tracked_def)
next
  case (step_restart st os s env t)
  define s0 where "s0 = \<lparr>jobs = [], manager_env = env, jobs_dir = jobs_dir s, job_disk = job_disk s,
      archive_fs = archive_fs s, runners = runners s, manager_st = st, bv_errors = []\<rparr>"
  from step_restart(3) have "one_runner_per_job s0" by (simp add: s0_def tracked_def tidy_def one_runner_per_job_def)
  moreover from step_restart(1) have "st = Ready \<longrightarrow> listed os s0"
    by (simp add: s0_def listed_def configured_def)
  ultimately show ?case
    using step_restart(2) by (intro created_tracked [of s0 st os]) (simp_all add: s0_def manager_create_def Let_def split: if_splits)
qed (blast intro: tracked_requests tracked_shutdown)+

lemma tracked_reachable: "manager_reachable s \<Longrightarrow> tracked s"
proof (induction rule: manager_reachable.induct)
  case (reach_created env dir disk fs procs st os s)
  then show ?case by (intro created_tracked [OF reach_created(1,2)]) (simp_all add: manager_create_def Let_def split: if_splits)
qed (rule tracked_step)

text \<open>
  C1: in every state the jobs manager can reach, whatever requests, reports, process ends, file
  writes and restarts of Babel are interleaved, no two runner processes run the same job, and as long as the manager is
  ready the registry records every live runner as the active process of its job.
\<close>

theorem at_most_one_runner_per_job:
  assumes "manager_reachable s"
  shows "distinct (map snd (runners s)) \<and> (manager_st s = Ready \<longrightarrow>
    (\<forall>(pid, n) \<in> set (runners s). \<exists>j t. get_job n s = Some j \<and> job_st j = Active pid t))"
  using tracked_reachable [OF assms]
  by (auto simp: tracked_def tidy_def one_runner_per_job_def dest: recordedD)

definition example_os :: os where
  "example_os = \<lparr>os_now = 5, os_show_time = (\<lambda>_. []),
     os_job_io = no_job_io_errors, os_io = no_io_errors, os_read_dir = (\<lambda>_. None),
     os_job_entries = Inr [Inr ''a''], os_config_removed = (\<lambda>_. True), os_ends = (\<lambda>_. True),
     os_start_time = (\<lambda>_. 1), os_runner_bin = True, os_spawn = (\<lambda>n. if n = ''a'' then Inr 9 else Inl ''no'')\<rparr>"

definition example_disk :: job_disk where
  "example_disk = [''/jobs/a'' \<mapsto> \<lparr>config_file = Some (Valid (job_conf example_job)), status_file = None\<rparr>]"

definition example_manager :: "(nat \<times> string) list \<Rightarrow> manager" where
  "example_manager procs = snd (manager_create example_os None ''/jobs'' Ready example_disk (\<lambda>_. None) procs)"

lemma example_manager_reachable: "manager_reachable (example_manager [(7, ''a'')])"
proof (rule reach_created)
  show "manager_create example_os None ''/jobs'' Ready example_disk (\<lambda>_. None) [(7, ''a'')]
      = (Inr (), example_manager [(7, ''a'')])"
    by (simp add: example_manager_def manager_create_def load_jobs_def example_os_def)
qed (simp_all add: one_runner_per_job_def listed_def configured_def example_os_def example_disk_def path_join_def)

lemma example_manager_eq:
  "example_manager procs =
     \<lparr>jobs = [(''a'', job_new ''/jobs/a'' (job_conf example_job)
        (case find_runners ''a'' procs of pid # _ \<Rightarrow> Active pid 1 | [] \<Rightarrow> Inactive (Pending []) 5))],
      manager_env = None, jobs_dir = ''/jobs'', job_disk = example_disk, archive_fs = (\<lambda>_. None), runners = procs,
      manager_st = Ready, bv_errors = []\<rparr>"
  by (simp add: example_manager_def manager_create_def load_jobs_def example_os_def load_job_def load_config_def
      example_disk_def path_join_def put_job_def load_status_def Let_def split: list.split)

theorem at_most_one_runner_per_job_witness:
  "distinct (map snd (runners (example_manager [(7, ''a'')])))"
  using at_most_one_runner_per_job [OF example_manager_reachable] by blast

section \<open>Dependencies\<close>

definition job_done :: "(string, job) hash_map \<Rightarrow> string \<Rightarrow> bool" where
  "job_done deps n \<longleftrightarrow> (\<exists>d st t. map_of deps n = Some d \<and> job_st d = Inactive st t \<and> is_final st)"

definition job_succeeded :: "(string, job) hash_map \<Rightarrow> string \<Rightarrow> bool" where
  "job_succeeded deps n \<longleftrightarrow> (\<exists>d m t. map_of deps n = Some d \<and> job_st d = Inactive (Finished (Some 0) m) t)"

lemma needs_finished_iff: "needs_finished name deps ns = Inr True \<longleftrightarrow> (\<forall>n \<in> set ns. job_succeeded deps n)"
  by (induction ns) (auto simp: job_succeeded_def split: option.split job_state.split job_status.split)

lemma waits_finished_iff: "waits_finished name deps ns = Inr True \<longleftrightarrow> (\<forall>n \<in> set ns. job_done deps n)"
  by (induction ns) (auto simp: job_done_def split: option.split job_state.split job_status.split)

lemma deps_finished_iff:
  "deps_finished name deps c = Inr True \<longleftrightarrow>
     (\<forall>n \<in> set (unwrap_or (needs c) []). job_succeeded deps n) \<and> (\<forall>n \<in> set (unwrap_or (wait_for c) []). job_done deps n)"
  by (auto simp: deps_finished_def and_then_Inr_iff needs_finished_iff waits_finished_iff split: if_splits)

text \<open>
  C29: the dependencies of a job are finished exactly when every job it needs finished with exit
  code 0 and every job it waits for finished or was stopped, all of them being defined.
\<close>

theorem deps_finished_correct:
  "deps_finished name deps c = Inr True \<longleftrightarrow>
     (\<forall>n \<in> set (unwrap_or (needs c) []).
        \<exists>d m t. map_of deps n = Some d \<and> job_st d = Inactive (Finished (Some 0) m) t) \<and>
     (\<forall>n \<in> set (unwrap_or (wait_for c) []).
        \<exists>d st t. map_of deps n = Some d \<and> job_st d = Inactive st t \<and> is_final st)"
  by (simp add: deps_finished_iff job_succeeded_def job_done_def)

theorem deps_finished_correct_witness:
  "deps_finished ''b'' [(''a'', set_inactive 3 (Finished (Some 0) []) example_job)]
     ((job_conf example_job)\<lparr>needs := Some [''a'']\<rparr>) = Inr True"
  by (subst deps_finished_correct) (simp add: example_job_def job_new_def)

section \<open>One pass over the inactive jobs\<close>

lemma get_job_on_disk [simp]: "get_job m (snd (on_disk f s)) = get_job m s"
  by (simp add: snd_on_disk)

lemma start_job_frame: "m \<noteq> n \<Longrightarrow> get_job m (start_job os n j s) = get_job m s"
  by (simp add: start_job_def start_job_runner_def on_disk_eq Let_def save_failed_status_def split: sum.split)

lemma handle_stopped_frame: "m \<noteq> n \<Longrightarrow> get_job m (handle_stopped_job os n j s) = get_job m s"
  by (simp add: handle_stopped_job_def ended_status_def start_job_frame Let_def case_prod_beta split: sum.split)

lemma check_inactive_frame: "m \<noteq> n \<Longrightarrow> get_job m (check_inactive_job os deps n s) = get_job m s"
  by (simp add: check_inactive_job_def fail_pending_job_def on_disk_eq Let_def save_failed_status_def
      start_job_frame handle_stopped_frame
      split: option.split job_state.split job_status.split sum.split bool.split)

lemma check_inactive_fold_frame:
  "m \<notin> set ns \<Longrightarrow> get_job m (fold (check_inactive_job os deps) ns s) = get_job m s"
  by (induction ns arbitrary: s) (simp_all add: check_inactive_frame)

lemma check_inactive_split:
  assumes "wf_map (jobs s)" and "get_job n s = Some j"
  obtains t where "get_job n t = Some j"
    and "get_job n (check_inactive_jobs os s) = get_job n (check_inactive_job os (jobs s) n t)"
proof -
  from assms(2) have "n \<in> set (map fst (jobs s))" by (force simp: get_job_def dest: map_of_SomeD)
  then obtain xs ys where ns: "map fst (jobs s) = xs @ n # ys" by (metis split_list)
  with assms(1) have "n \<notin> set xs" "n \<notin> set ys" by auto
  with assms(2) show ?thesis
    by (intro that [of "fold (check_inactive_job os (jobs s)) xs s"])
      (simp_all add: check_inactive_jobs_def ns check_inactive_fold_frame)
qed

text \<open>What a start leaves: an active job, or the reason it could not start.\<close>

lemma start_job_state:
  "\<exists>j'. get_job n (start_job os n j s) = Some j' \<and>
     (if fst (clear_status (os_job_io os) j (job_disk s)) \<noteq> Inr () then job_st j' = Inactive Running (os_now os)
      else if \<not> os_runner_bin os
        then job_st j' = Inactive (Finished None (''failed to start job '' @ quoted n @ '': missing job runner binary'')) (os_now os)
      else case os_spawn os n of
             Inr pid \<Rightarrow> job_st j' = Active pid (os_now os)
           | Inl e \<Rightarrow> job_st j' = Inactive (Finished None (''failed to start job '' @ quoted n @ '': '' @ e)) (os_now os))"
  by (auto simp: start_job_def start_job_runner_def on_disk_eq Let_def save_failed_status_def split: sum.split)

text \<open>
  C10: in a pass of the manager loop a pending job whose dependencies are finished is started (it
  becomes active with the process id of its runner, or the reason it could not be started is its
  status), one with unfinished dependencies is left untouched, and one with a failed or missing
  dependency finishes with the error; all judged on the registry as it was when the pass began.
\<close>

theorem pending_jobs_follow_dependencies:
  assumes "wf_map (jobs s)" and "get_job n s = Some j" and "job_st j = Inactive (Pending w) stamp"
    and "\<And>dir. status_remove_error (os_job_io os) dir = None" and "os_runner_bin os" and "os_spawn os n = Inr pid"
  shows "\<exists>j'. get_job n (check_inactive_jobs os s) = Some j' \<and>
    (case deps_finished n (jobs s) (job_conf j) of
       Inr True \<Rightarrow> job_st j' = Active pid (os_now os)
     | Inr False \<Rightarrow> j' = j
     | Inl e \<Rightarrow> job_st j' = Inactive (Finished None e) stamp)"
proof -
  obtain t where t: "get_job n t = Some j"
    "get_job n (check_inactive_jobs os s) = get_job n (check_inactive_job os (jobs s) n t)"
    by (rule check_inactive_split [OF assms(1,2)])
  have "fst (clear_status (os_job_io os) j (job_disk t)) = Inr ()"
    using assms(4) by (simp add: clear_status_def split: option.split)
  with start_job_state [of n os j t] assms(5,6)
  have started: "\<exists>j'. get_job n (start_job os n j t) = Some j' \<and> job_st j' = Active pid (os_now os)" by simp
  show ?thesis
    using assms(3) started
    by (simp add: t check_inactive_job_def fail_pending_job_def on_disk_eq Let_def save_failed_status_def
        split: sum.split bool.split)
qed

definition pending_registry :: manager where
  "pending_registry = put_job ''a'' (set_inactive 4 (Pending []) example_job) (example_manager [])"

theorem pending_jobs_follow_dependencies_witness:
  "\<exists>j'. get_job ''a'' (check_inactive_jobs example_os pending_registry) = Some j' \<and> job_st j' = Active 9 5"
proof -
  have "\<exists>j'. get_job ''a'' (check_inactive_jobs example_os pending_registry) = Some j' \<and>
    (case deps_finished ''a'' (jobs pending_registry) (job_conf (set_inactive 4 (Pending []) example_job)) of
       Inr True \<Rightarrow> job_st j' = Active 9 (os_now example_os)
     | Inr False \<Rightarrow> j' = set_inactive 4 (Pending []) example_job
     | Inl e \<Rightarrow> job_st j' = Inactive (Finished None e) 4)"
    by (rule pending_jobs_follow_dependencies)
      (simp_all add: pending_registry_def example_manager_def manager_create_def load_jobs_def example_os_def
        no_job_io_errors_def load_job_def example_disk_def load_config_def path_join_def put_job_def distinct_update
        set_inactive_def find_runners_def load_status_def get_job_def update_conv' Let_def)
  then show ?thesis
    by (simp add: deps_finished_def example_job_def job_new_def set_inactive_def example_os_def)
qed

section \<open>What survives a restart of Babel\<close>

text \<open>The registry a new Babel loads from the files when no runner of the job is left.\<close>

lemma load_job_reads_status:
  assumes "job_disk s (path_join (jobs_dir s) n) = Some files" and "config_file files = Some (Valid c)"
    and "n \<notin> snd ` set (runners s)"
  shows "get_job n (load_job os n s) = Some (job_new (path_join (jobs_dir s) n) c
    (case status_file files of
       Some (Valid (st, t)) \<Rightarrow> Inactive st t
     | _ \<Rightarrow> Inactive (Pending []) (os_now os)))"
proof -
  have "find_runners n (runners s) = []"
    using assms(3) by (force simp: find_runners_def filter_empty_conv)
  with assms(1,2) show ?thesis
    by (simp add: load_job_def Let_def load_config_def load_status_def split: option.split stored.split)
qed

text \<open>What the entries before and after that of a job load does not touch it.\<close>

lemma load_job_other:
  assumes "m \<noteq> n" and "\<not> prefix ''/'' m" and "\<not> prefix ''/'' n"
  shows "get_job n (load_job os m s) = get_job n s"
    and "job_disk (load_job os m s) (path_join (jobs_dir s) n) = job_disk s (path_join (jobs_dir s) n)"
    and "jobs_dir (load_job os m s) = jobs_dir s" and "runners (load_job os m s) = runners s"
  using assms path_join_inject [of m n "jobs_dir s"]
  by (auto simp: load_job_def Let_def split: option.split sum.split)

lemma load_entries_other:
  assumes "Inr n \<notin> set es" and "\<forall>m. Inr m \<in> set es \<longrightarrow> \<not> prefix ''/'' m" and "\<not> prefix ''/'' n"
  shows "get_job n (snd (load_entries os es s)) = get_job n s"
  using assms by (induction os es s rule: load_entries.induct) (auto simp: load_job_other(1))

lemma load_entries_before:
  assumes "n \<notin> set ns" and "\<forall>m \<in> set ns. \<not> prefix ''/'' m" and "\<not> prefix ''/'' n"
  shows "\<exists>t. load_entries os (map Inr ns @ es) s = load_entries os es t \<and> jobs_dir t = jobs_dir s \<and> runners t = runners s \<and>
    job_disk t (path_join (jobs_dir s) n) = job_disk s (path_join (jobs_dir s) n)"
  using assms
proof (induction ns arbitrary: s)
  case (Cons m ns)
  then have "m \<noteq> n" "\<not> prefix ''/'' m" by auto
  note other = load_job_other [OF this Cons.prems(3), of os s]
  from Cons obtain t where "load_entries os (map Inr ns @ es) (load_job os m s) = load_entries os es t"
    "jobs_dir t = jobs_dir (load_job os m s)" "runners t = runners (load_job os m s)"
    "job_disk t (path_join (jobs_dir (load_job os m s)) n) = job_disk (load_job os m s) (path_join (jobs_dir (load_job os m s)) n)"
    by fastforce
  with other show ?case by auto
qed auto

lemma restart_reads_status:
  assumes "disk (path_join dir n) = Some files" and "config_file files = Some (Valid c)"
    and "n \<notin> snd ` set procs" and "os_job_entries os = Inr (map Inr pre @ Inr n # post)"
    and "n \<notin> set pre" and "Inr n \<notin> set post"
    and "\<forall>m. Inr m \<in> set (map Inr pre @ Inr n # post) \<longrightarrow> \<not> prefix ''/'' m"
  shows "get_job n (snd (manager_create os env dir Ready disk fs procs)) = Some (job_new (path_join dir n) c
    (case status_file files of
       Some (Valid (st, t)) \<Rightarrow> Inactive st t
     | _ \<Rightarrow> Inactive (Pending []) (os_now os)))"
proof -
  let ?s = "\<lparr>jobs = [], manager_env = env, jobs_dir = dir, job_disk = disk,
      archive_fs = fs, runners = procs, manager_st = Ready, bv_errors = []\<rparr>"
  have names: "\<forall>m \<in> set pre. \<not> prefix ''/'' m" "\<not> prefix ''/'' n" "\<forall>m. Inr m \<in> set post \<longrightarrow> \<not> prefix ''/'' m"
    using assms(7) by auto
  from load_entries_before [OF assms(5) names(1,2), of os "Inr n # post" ?s] obtain t where
    t: "load_entries os (map Inr pre @ Inr n # post) ?s = load_entries os post (load_job os n t)"
      "jobs_dir t = dir" "runners t = procs" "job_disk t (path_join dir n) = Some files"
    using assms(1) by auto
  from load_entries_other [OF assms(6) names(3,2)] load_job_reads_status [of t n files c os] t assms(2,3,4)
  show ?thesis by (simp add: manager_create_def load_jobs_def)
qed

lemma end_job_ok:
  assumes "end_job os st n j s = (Inr u, t)" and "recorded s" and "get_job n s = Some j" and "is_final st"
  shows "n \<notin> snd ` set (runners t)"
    and "get_job n t = Some (set_inactive (os_now os) st j)"
    and "\<exists>files. job_disk s (job_path j) = Some files \<and>
      job_disk t = (job_disk s)(job_path j \<mapsto> files\<lparr>status_file := Some (Valid (st, os_now os))\<rparr>)"
    and "jobs_dir t = jobs_dir s"
proof -
  from assms(1) obtain v where v: "terminate_if_active os n j s = (Inr (), v)"
    by (auto simp: end_job_def try_then_def split: prod.splits sum.splits)
  note gone = terminate_if_active_idle [OF v assms(2,3)]
  from assms(1) v have t: "on_disk (save_status (os_job_io os) (os_now os) (set_inactive (os_now os) st j))
      (put_job n (set_inactive (os_now os) st j) v) = (Inr u, t)"
    by (simp add: end_job_def try_then_def Let_def)
  have "save_status (os_job_io os) (os_now os) (set_inactive (os_now os) st j)
      = save_status_file (os_job_io os) (os_now os) st (job_path j)"
    using assms(4) by (cases st) (simp_all add: save_status_def set_inactive_def)
  with t gone show "n \<notin> snd ` set (runners t)" "get_job n t = Some (set_inactive (os_now os) st j)"
    "\<exists>files. job_disk s (job_path j) = Some files \<and>
      job_disk t = (job_disk s)(job_path j \<mapsto> files\<lparr>status_file := Some (Valid (st, os_now os))\<rparr>)"
    "jobs_dir t = jobs_dir s"
    by (auto simp: on_disk_eq save_status_file_def split: option.splits)
qed

text \<open>
  C23: when a stop request succeeds the job has no runner process, is recorded as stopped, and stays
  stopped when Babel is restarted from the files: the new registry loads it as stopped, whatever other
  jobs the directory of the jobs lists before or after it and whatever state their files are in.
\<close>

theorem stop_is_durable:
  assumes "stop_request os n s = (Inr u, t)" and "manager_reachable s" and "manager_st s = Ready"
    and "get_job n s = Some j" and "job_path j = path_join (jobs_dir s) n"
    and "configured s n" and "os_job_entries os' = Inr (map Inr before @ Inr n # after)"
    and "n \<notin> set before" and "Inr n \<notin> set after"
    and "\<forall>m. Inr m \<in> set (map Inr before @ Inr n # after) \<longrightarrow> \<not> prefix ''/'' m"
  shows "n \<notin> snd ` set (runners t) \<and> get_job n t = Some (set_inactive (os_now os) Stopped j) \<and>
    (\<exists>c. get_job n (snd (manager_create os' env (jobs_dir s) Ready (job_disk t) fs (runners t)))
      = Some (job_new (path_join (jobs_dir s) n) c (Inactive Stopped (os_now os))))"
proof -
  from tracked_reachable [OF assms(2)] assms(3) have rec: "recorded s" by (simp add: tracked_def)
  from assms(1,4) have stop: "end_job os Stopped n j s = (Inr u, t)" by (simp add: stop_request_def)
  note ended = end_job_ok [OF stop rec assms(4)]
  from ended(3) assms(5) obtain files where files: "job_disk s (path_join (jobs_dir s) n) = Some files"
    "job_disk t (path_join (jobs_dir s) n) = Some (files\<lparr>status_file := Some (Valid (Stopped, os_now os))\<rparr>)"
    by auto
  with assms(6) obtain c where "config_file files = Some (Valid c)" by (auto simp: configured_def)
  then have config: "config_file (files\<lparr>status_file := Some (Valid (Stopped, os_now os))\<rparr>) = Some (Valid c)" by simp
  have "n \<notin> snd ` set (runners t)" using ended(1) by simp
  from restart_reads_status [where disk = "job_disk t" and dir = "jobs_dir s" and n = n and os = os' and pre = before and post = after and env = env and fs = fs,
      OF files(2) config this assms(7-10)] ended(1,2)
  show ?thesis by auto
qed

text \<open>
  C39: a job that must never be restarted, and whose runner process died without saving a status, is
  recorded as finished, but only in memory: when Babel restarts from the same files, the job is
  pending again, and the next pass of the manager loop runs it once more.
\<close>

theorem lost_job_is_run_again:
  assumes "get_job n s = Some j" and "job_path j = path_join (jobs_dir s) n" and "restart (job_conf j) = Never"
    and "needs (job_conf j) = None" and "wait_for (job_conf j) = None"
    and "job_disk s (job_path j) = Some \<lparr>config_file = Some (Valid (job_conf j)), status_file = None\<rparr>"
    and "n \<notin> snd ` set (runners s)" and "os_job_entries os' = Inr [Inr n]" and "\<not> prefix ''/'' n"
    and "os_runner_bin os'" and "os_spawn os' n = Inr pid"
  shows "(\<exists>j' m t. get_job n (handle_stopped_job os n j s) = Some j' \<and> job_st j' = Inactive (Finished None m) t) \<and>
    (\<exists>j'. get_job n (check_inactive_jobs os' (snd (manager_create os' env (jobs_dir s) Ready
        (job_disk (handle_stopped_job os n j s)) fs (runners (handle_stopped_job os n j s))))) = Some j' \<and>
      job_st j' = Active pid (os_now os'))"
proof -
  define v where "v = handle_stopped_job os n j s"
  have v: "job_disk v = job_disk s" "runners v = runners s"
    "\<exists>j' m t. get_job n v = Some j' \<and> job_st j' = Inactive (Finished None m) t"
    using assms(3,6) by (simp_all add: v_def handle_stopped_job_def ended_status_def load_status_def Let_def)
  define c where "c = snd (manager_create os' env (jobs_dir s) Ready (job_disk v) fs (runners v))"
  have job: "get_job n c = Some (job_new (path_join (jobs_dir s) n) (job_conf j) (Inactive (Pending []) (os_now os')))"
    using restart_reads_status [of "job_disk v" "jobs_dir s" n _ "job_conf j" "runners v" os' "[]" "[]" env fs] assms v
    by (simp add: c_def)
  have disk: "job_disk c = job_disk s" "jobs c = [(n, job_new (path_join (jobs_dir s) n) (job_conf j) (Inactive (Pending []) (os_now os')))]"
  proof -
    have "find_runners n (runners s) = []"
      using assms(7) by (force simp: find_runners_def filter_empty_conv)
    with assms(2,6,8) v(1,2) show "job_disk c = job_disk s"
      "jobs c = [(n, job_new (path_join (jobs_dir s) n) (job_conf j) (Inactive (Pending []) (os_now os')))]"
      by (simp_all add: c_def manager_create_def load_jobs_def load_job_def load_config_def load_status_def
          put_job_def Let_def)
  qed
  have "check_inactive_jobs os' c = start_job os' n
      (job_new (path_join (jobs_dir s) n) (job_conf j) (Inactive (Pending []) (os_now os'))) c"
    using assms(4,5) job
    by (simp add: check_inactive_jobs_def disk(2) check_inactive_job_def job_new_def deps_finished_def)
  moreover have "clear_status (os_job_io os') (job_new (path_join (jobs_dir s) n) (job_conf j) (Inactive (Pending []) (os_now os'))) (job_disk c) = (Inr (), job_disk c)"
    using assms(2,6) by (simp add: disk clear_status_def job_new_def)
  ultimately have "\<exists>j'. get_job n (check_inactive_jobs os' c) = Some j' \<and> job_st j' = Active pid (os_now os')"
    using start_job_state [of n os' "job_new (path_join (jobs_dir s) n) (job_conf j) (Inactive (Pending []) (os_now os'))" c]
      assms(10,11) by simp
  with v(3) show ?thesis by (simp add: c_def v_def)
qed


theorem stop_is_durable_witness:
  "\<exists>t. stop_request example_os ''a'' (example_manager [(7, ''a'')]) = (Inr (), t) \<and> ''a'' \<notin> snd ` set (runners t) \<and>
     (\<exists>c. get_job ''a'' (snd (manager_create (example_os\<lparr>os_job_entries := Inr [Inr ''b'', Inr ''a'', Inl ''unreadable'']\<rparr>) None
        (jobs_dir (example_manager [(7, ''a'')])) Ready (job_disk t) (\<lambda>_. None) (runners t))) =
      Some (job_new (path_join (jobs_dir (example_manager [(7, ''a'')])) ''a'') c (Inactive Stopped 5)))"
proof -
  obtain t where t: "stop_request example_os ''a'' (example_manager [(7, ''a'')]) = (Inr (), t)"
    by (simp add: stop_request_def example_manager_eq get_job_def find_runners_def end_job_def job_new_def
        terminate_if_active_def terminate_job_process_def example_os_def try_then_def put_job_def set_inactive_def
        on_disk_def save_status_def save_status_file_def no_job_io_errors_def example_disk_def Let_def)
  have "''a'' \<notin> snd ` set (runners t) \<and> get_job ''a'' t
      = Some (set_inactive (os_now example_os) Stopped (job_new ''/jobs/a'' (job_conf example_job) (Active 7 1))) \<and>
    (\<exists>c. get_job ''a'' (snd (manager_create (example_os\<lparr>os_job_entries := Inr [Inr ''b'', Inr ''a'', Inl ''unreadable'']\<rparr>) None
        (jobs_dir (example_manager [(7, ''a'')])) Ready (job_disk t) (\<lambda>_. None) (runners t)))
      = Some (job_new (path_join (jobs_dir (example_manager [(7, ''a'')])) ''a'') c (Inactive Stopped (os_now example_os))))"
    by (rule stop_is_durable [OF t example_manager_reachable, where before = "[''b'']" and after = "[Inl ''unreadable'']"])
      (auto simp: example_manager_eq get_job_def find_runners_def job_new_def path_join_def configured_def
        example_disk_def example_os_def)
  moreover have "os_now example_os = 5" by (simp add: example_os_def)
  ultimately show ?thesis using t by auto
qed

theorem lost_job_is_run_again_witness:
  "\<exists>j'. get_job ''a'' (check_inactive_jobs example_os (snd (manager_create example_os None ''/jobs'' Ready
      (job_disk (handle_stopped_job example_os ''a'' (job_new ''/jobs/a'' (job_conf example_job) (Active 7 1))
        (put_job ''a'' (job_new ''/jobs/a'' (job_conf example_job) (Active 7 1)) (example_manager [])))) (\<lambda>_. None) []))) = Some j'
    \<and> job_st j' = Active 9 5"
proof -
  let ?j = "job_new ''/jobs/a'' (job_conf example_job) (Active 7 1)"
  let ?s = "put_job ''a'' ?j (example_manager [])"
  let ?v = "handle_stopped_job example_os ''a'' ?j ?s"
  have dir: "jobs_dir ?s = ''/jobs''" by (simp add: example_manager_eq)
  have run: "runners ?v = []"
    by (simp add: handle_stopped_job_def ended_status_def load_status_def example_manager_eq example_disk_def
        job_new_def example_job_def Let_def)
  have "(\<exists>j' m t. get_job ''a'' ?v = Some j' \<and> job_st j' = Inactive (Finished None m) t) \<and>
    (\<exists>j'. get_job ''a'' (check_inactive_jobs example_os (snd (manager_create example_os None (jobs_dir ?s) Ready
        (job_disk ?v) (\<lambda>_. None) (runners ?v)))) = Some j' \<and> job_st j' = Active 9 (os_now example_os))"
    by (rule lost_job_is_run_again)
      (simp_all add: dir path_join_def job_new_def example_job_def example_disk_def example_manager_eq example_os_def)
  then have "\<exists>j'. get_job ''a'' (check_inactive_jobs example_os (snd (manager_create example_os None (jobs_dir ?s) Ready
        (job_disk ?v) (\<lambda>_. None) (runners ?v)))) = Some j' \<and> job_st j' = Active 9 (os_now example_os)"
    by (rule conjunct2)
  moreover have "os_now example_os = 5" by (simp add: example_os_def)
  ultimately show ?thesis unfolding dir run by simp
qed

end
