(* ===== verification/Binary_Stream.thy ===== *)
theory Binary_Stream
  imports Transfers
begin

text \<open>
  Files sent over gRPC as streams of parts with a CRC-32 checksum: \<open>load_bin\<close> and \<open>bytes_into_bin\<close>
  of \<open>bv_utils/src/system.rs\<close>, \<open>save_bin_stream\<close> and \<open>file_checksum\<close> of \<open>babel/src/utils.rs\<close>. The
  checksum function is the \<open>crc\<close> crate's and a parameter. What reads and writes of files return is a
  parameter as well: a read may fail and a write may be short.
\<close>

datatype binary = Destination path | Bin "byte list" | Checksum "32 word"

datatype binary_status = BinaryOk | ChecksumMismatch | BinaryMissing

record bin_io =
  open_failure :: "path \<Rightarrow> string option"
  write_result :: "nat \<Rightarrow> byte list \<Rightarrow> string + nat"
    \<comment> \<open>how many bytes the write at this position of the stream accepts\<close>
  flush_failure :: "string option"
  read_results :: "byte list \<Rightarrow> (string + byte list) list"
    \<comment> \<open>the results of reading a file of this content until its end\<close>

definition BIN_BUFFER :: nat where "BIN_BUFFER = 16384"

text \<open>\<open>while let Ok(size) = reader.read(..)\<close>: reading ends at the end of the file and at an error alike.\<close>

fun read_parts :: "(string + byte list) list \<Rightarrow> byte list list" where
  "read_parts (Inr p # rs) = (if p = [] then [] else p # read_parts rs)"
| "read_parts _ = []"

definition file_checksum :: "(byte list \<Rightarrow> 32 word) \<Rightarrow> (string + byte list) list \<Rightarrow> 32 word" where
  "file_checksum crc rs = crc (concat (read_parts rs))"

definition load_bin :: "(byte list \<Rightarrow> 32 word) \<Rightarrow> (string + byte list) list \<Rightarrow> binary list \<times> 32 word" where
  "load_bin crc rs =
     (let parts = read_parts rs; checksum = crc (concat parts) in (map Bin parts @ [Checksum checksum], checksum))"

fun chunks_of :: "nat \<Rightarrow> 'a list \<Rightarrow> 'a list list" where
  "chunks_of n [] = []"
| "chunks_of n (x # xs) = take (Suc n) (x # xs) # chunks_of n (drop n xs)"

text \<open>\<open>bytes.chunks(16384)\<close>: \<open>chunks_of n\<close> makes chunks of \<open>n + 1\<close> bytes.\<close>

definition bytes_into_bin :: "(byte list \<Rightarrow> 32 word) \<Rightarrow> path \<Rightarrow> byte list \<Rightarrow> binary list" where
  "bytes_into_bin crc destination bytes =
     Destination destination # map Bin (chunks_of (BIN_BUFFER - 1) bytes) @ [Checksum (crc bytes)]"

text \<open>
  The loop over a stream: what was written, and the last checksum received. When it fails, the file
  may still miss the end of what was written, which the writer buffers.
\<close>

fun receive_parts :: "bin_io \<Rightarrow> nat \<Rightarrow> (string + binary) list \<Rightarrow> 32 word option \<Rightarrow>
    (byte list, string, 32 word option) action" where
  "receive_parts io k [] expected content = (Inr expected, content)"
| "receive_parts io k (Inl e # ps) expected content = (Inl e, content)"
| "receive_parts io k (Inr (Bin bin) # ps) expected content =
     (case write_result io k bin of
        Inl e \<Rightarrow> (Inl (''failed to save binary: '' @ e), content)
      | Inr n \<Rightarrow> receive_parts io (Suc k) ps expected (content @ take n bin))"
| "receive_parts io k (Inr (Checksum c) # ps) expected content = receive_parts io (Suc k) ps (Some c) content"
| "receive_parts io k (Inr (Destination _) # ps) expected content = receive_parts io (Suc k) ps expected content"

type_synonym plain_files = "path \<Rightarrow> byte list option"

definition save_bin_stream ::
  "(byte list \<Rightarrow> 32 word) \<Rightarrow> bin_io \<Rightarrow> path \<Rightarrow> (string + binary) list \<Rightarrow> (plain_files, string, 32 word) action" where
  "save_bin_stream crc io p stream files =
     (case open_failure io p of
        Some e \<Rightarrow> (Inl (''failed to open binary file '' @ quoted p @ '': '' @ e), files(p := None))
      | None \<Rightarrow>
          (case receive_parts io 0 stream None [] of
             (Inl e, content) \<Rightarrow> (Inl e, files(p \<mapsto> content))
           | (Inr expected, content) \<Rightarrow>
               (case flush_failure io of
                  Some e \<Rightarrow> (Inl (''failed to save binary: '' @ e), files(p \<mapsto> content))
                | None \<Rightarrow>
                    (case expected of
                       None \<Rightarrow> (Inl ''incomplete binary stream - missing checksum'', files(p \<mapsto> content))
                     | Some c \<Rightarrow>
                         let checksum = file_checksum crc (read_results io content)
                         in (if c \<noteq> checksum
                             then Inl (''received binary checksum ('' @ show_nat (unat checksum) @ '') doesn't match expected ('' @
                                       show_nat (unat c) @ '')'')
                             else Inr checksum, files(p \<mapsto> content))))))"

section \<open>What arrives\<close>

text \<open>Reads return the whole content, in parts, and writes accept what they are given.\<close>

definition faithful_io :: "bin_io \<Rightarrow> bool" where
  "faithful_io io \<longleftrightarrow>
     (\<forall>content. concat (read_parts (read_results io content)) = content) \<and>
     (\<forall>k bin. write_result io k bin = Inr (length bin)) \<and> flush_failure io = None"

lemma concat_chunks_of: "concat (chunks_of n xs) = xs"
  by (induction n xs rule: chunks_of.induct) simp_all

lemma chunk_sizes: "p \<in> set (chunks_of n xs) \<Longrightarrow> p \<noteq> [] \<and> length p \<le> Suc n"
  by (induction n xs rule: chunks_of.induct) auto

lemma receive_whole:
  assumes "faithful_io io"
  shows "receive_parts io k (map Inr (map Bin parts @ [Checksum c])) expected content = (Inr (Some c), content @ concat parts)"
  using assms by (induction parts arbitrary: k content) (auto simp: faithful_io_def)

lemma save_whole:
  assumes "faithful_io io" and "open_failure io p = None"
  shows "save_bin_stream crc io p (map Inr (map Bin parts @ [Checksum (crc (concat parts))])) files =
    (Inr (crc (concat parts)), files(p \<mapsto> concat parts))"
proof -
  have "flush_failure io = None" "concat (read_parts (read_results io (concat parts))) = concat parts"
    using assms(1) by (simp_all add: faithful_io_def)
  with assms(2) show ?thesis
    unfolding save_bin_stream_def receive_whole [OF assms(1)] by (simp add: file_checksum_def)
qed

text \<open>
  C21: A file that is loaded, streamed and saved arrives unchanged with its checksum, whether it is
  sent from a file or from memory.
\<close>

theorem binary_roundtrip:
  assumes "faithful_io io" and "open_failure io p = None"
  shows "save_bin_stream crc io p (map Inr (fst (load_bin crc (read_results io content)))) files = (Inr (crc content), files(p \<mapsto> content)) \<and>
    save_bin_stream crc io p (map Inr (tl (bytes_into_bin crc p content))) files = (Inr (crc content), files(p \<mapsto> content))"
proof
  have whole: "concat (read_parts (read_results io content)) = content"
    using assms(1) by (simp add: faithful_io_def)
  from save_whole [OF assms, of crc "read_parts (read_results io content)" files]
  show "save_bin_stream crc io p (map Inr (fst (load_bin crc (read_results io content)))) files = (Inr (crc content), files(p \<mapsto> content))"
    by (simp add: load_bin_def Let_def whole)
  from save_whole [OF assms, of crc "chunks_of (BIN_BUFFER - 1) content" files]
  show "save_bin_stream crc io p (map Inr (tl (bytes_into_bin crc p content))) files = (Inr (crc content), files(p \<mapsto> content))"
    by (simp add: bytes_into_bin_def concat_chunks_of)
qed

definition example_bin_io :: bin_io where
  "example_bin_io =
     \<lparr>open_failure = \<lambda>_. None, write_result = \<lambda>_ bin. Inr (length bin), flush_failure = None,
      read_results = \<lambda>content. map Inr (chunks_of (BIN_BUFFER - 1) content) @ [Inr []]\<rparr>"

lemma read_parts_whole: "[] \<notin> set ps \<Longrightarrow> read_parts (map Inr ps @ Inr [] # rs) = ps"
  by (induction ps) auto

lemma example_bin_io_faithful: "faithful_io example_bin_io"
proof -
  have "[] \<notin> set (chunks_of n xs)" for n and xs :: "byte list"
    using chunk_sizes by blast
  then show ?thesis
    by (simp add: faithful_io_def example_bin_io_def read_parts_whole concat_chunks_of)
qed

theorem binary_roundtrip_witness:
  "save_bin_stream (\<lambda>bs. of_nat (length bs)) example_bin_io ''/bin/x''
     (map Inr (fst (load_bin (\<lambda>bs. of_nat (length bs)) (read_results example_bin_io [1, 2, 3])))) Map.empty =
     (Inr 3, [''/bin/x'' \<mapsto> [1, 2, 3]])"
  using binary_roundtrip [OF example_bin_io_faithful, of "''/bin/x''" "\<lambda>bs. of_nat (length bs)" "[1, 2, 3]" Map.empty]
  by (simp add: example_bin_io_def)

text \<open>
  A success means that the checksum announced last is that of what was read back; but a read error
  while a file is loaded ends it silently: what follows is not sent, and the checksum is that of the
  rest.
\<close>

lemma saved_checksum:
  assumes "save_bin_stream crc io p stream files = (Inr c, files')"
  shows "\<exists>content. files' = files(p \<mapsto> content) \<and> c = crc (concat (read_parts (read_results io content)))"
  using assms by (auto simp: save_bin_stream_def file_checksum_def Let_def split: option.splits sum.splits prod.splits if_splits)

lemma read_error_truncates:
  "load_bin crc (Inr [a] # Inl e # rs) = ([Bin [a], Checksum (crc [a])], crc [a])"
  by (simp add: load_bin_def Let_def)

end
