(* ===== verification/Rhai_Plugin.thy ===== *)
theory Rhai_Plugin
  imports Plugin_Config Transfers
begin

text \<open>
  \<open>babel_api/src/rhai_plugin.rs\<close>: the plugin of a node, a Rhai script with its configuration. The
  default \<open>init\<close> and \<open>upload\<close> build the jobs of a node from the configuration and start them on an
  engine, which is a parameter: a record of operations on a state of its own, as the \<open>Engine\<close> trait
  is. The Rhai interpreter is a library: a script is the list of its functions and what calling
  them does, and its \<open>Dynamic\<close> values are opaque (type variable \<open>'y\<close>) up to the conversions the
  code asks for.
\<close>

section \<open>The engine\<close>

record http_response =
  http_status_code :: nat
  http_body :: string

record sh_response =
  sh_exit_code :: int
  sh_stdout :: string
  sh_stderr :: string

text \<open>The operations of \<open>trait Engine\<close> the plugin uses on its own.\<close>

record ('s, 'd) engine_ops =
  op_create_job :: "string \<Rightarrow> job_config \<Rightarrow> ('s, string, unit) action"
  op_start_job :: "string \<Rightarrow> ('s, string, unit) action"
  op_stop_job :: "string \<Rightarrow> ('s, string, unit) action"
  op_stop_all_jobs :: "('s, string, unit) action"
  op_get_jobs :: "('s, string, jobs_info) action"
  op_run_sh :: "string \<Rightarrow> nat option \<Rightarrow> ('s, string, sh_response) action"
  op_render_template :: "path \<Rightarrow> path \<Rightarrow> string \<Rightarrow> ('s, string, unit) action"
  op_add_task :: "string \<Rightarrow> string \<Rightarrow> string \<Rightarrow> string \<Rightarrow> ('s, string, unit) action"
  op_protocol_data_stamp :: "('s, string, nat option) action"
  op_save_config :: "'d plugin_config \<Rightarrow> ('s, string, unit) action"
  op_load_config :: "('s, string, 'd plugin_config) action"
  op_node_params :: "(string, string) hash_map"

datatype node_health = Healthy | Neutral | Unhealthy

record protocol_status =
  ps_state :: string
  ps_health :: node_health

text \<open>
  A compiled script: its functions with their numbers of parameters, running its top level with the
  parameters of the node as a constant, and calling one of its functions. A call gets the two
  functions \<open>register_defaults\<close> made available to the script.
\<close>

record ('s, 'd, 'y) script =
  script_functions :: "(string \<times> nat) list"
  script_run :: "(string, string) hash_map \<Rightarrow> ('s, string, unit) action"
  script_call :: "('s, string, unit) action \<Rightarrow> ('s, string, unit) action \<Rightarrow> string \<Rightarrow> string list \<Rightarrow> ('s, string, 'y) action"
  as_unit :: "'y \<Rightarrow> string + unit"
  as_int :: "'y \<Rightarrow> string + int"
  as_bool :: "'y \<Rightarrow> string + bool"
  as_string :: "'y \<Rightarrow> string + string"
  as_status :: "'y \<Rightarrow> string + protocol_status"
  as_config :: "'y \<Rightarrow> string + 'd plugin_config"
  params_json :: "'d \<Rightarrow> string + string"
    \<comment> \<open>\<open>serde_json::to_string\<close> of template parameters\<close>
  sh_debug :: "sh_response \<Rightarrow> string"
    \<comment> \<open>the derived \<open>Debug\<close> text\<close>

section \<open>Jobs and actions of the default implementations\<close>

definition create_and_start_job :: "('s, 'd) engine_ops \<Rightarrow> string \<times> job_config \<Rightarrow> ('s, string, unit) action" where
  "create_and_start_job ops nc =
     (case nc of (name, config) \<Rightarrow> try_then (op_create_job ops name config) (\<lambda>_. op_start_job ops name))"

definition job_with_needs :: "plugin_job \<Rightarrow> string list \<Rightarrow> plugin_job" where
  "job_with_needs job required = job\<lparr>pj_needs := Some (unwrap_or (pj_needs job) [] @ required)\<rparr>"

definition run_jobs :: "('s, 'd) engine_ops \<Rightarrow> plugin_job list option \<Rightarrow> string list \<Rightarrow> ('s, string, string list) action" where
  "run_jobs ops js required =
     (case js of
        None \<Rightarrow> ok required
      | Some js \<Rightarrow>
          try_then (for_each (\<lambda>job. create_and_start_job ops (pj_name job, build_job_config (job_with_needs job required))) js)
            (\<lambda>_. ok (if js = [] then required else map pj_name js)))"

definition run_command :: "('s, 'd) engine_ops \<Rightarrow> ('s, 'd, 'y) script \<Rightarrow> string \<Rightarrow> ('s, string, unit) action" where
  "run_command ops sc command =
     try_then (op_run_sh ops command None) (\<lambda>resp.
       if sh_exit_code resp \<noteq> 0
       then fail (''init command '' @ quoted command @ '' failed with exit_code: '' @ sh_debug sc resp)
       else ok ())"

definition run_actions ::
  "('s, 'd) engine_ops \<Rightarrow> ('s, 'd, 'y) script \<Rightarrow> actions option \<Rightarrow> string list \<Rightarrow> ('s, string, string list) action" where
  "run_actions ops sc acts required =
     (case acts of
        None \<Rightarrow> ok required
      | Some a \<Rightarrow>
          try_then (for_each (run_command ops sc) (act_commands a))
            (\<lambda>_. run_jobs ops (Some (act_jobs a)) required))"

definition render_configs_files ::
  "('s, 'd) engine_ops \<Rightarrow> ('s, 'd, 'y) script \<Rightarrow> 'd config_file list option \<Rightarrow> ('s, string, unit) action" where
  "render_configs_files ops sc files =
     for_each (\<lambda>f. case params_json sc (params f) of
         Inl e \<Rightarrow> fail e
       | Inr json \<Rightarrow> op_render_template ops (template f) (destination f) json) (unwrap_or files [])"

definition service_of_aux :: "aux_service \<Rightarrow> service" where
  "service_of_aux s =
     \<lparr>svc_name = aux_name s, svc_run_sh = aux_run_sh s, svc_restart_config = aux_restart_config s,
      svc_shutdown_timeout_secs = aux_shutdown_timeout_secs s, svc_shutdown_signal = aux_shutdown_signal s,
      svc_run_as = aux_run_as s, svc_use_protocol_data = False,
      svc_log_buffer_capacity_mb = aux_log_buffer_capacity_mb s, svc_log_timestamp = aux_log_timestamp s,
      svc_data_dir = None, svc_store_key = None, svc_archive = False\<rparr>"

definition start_aux_services :: "('s, 'd) engine_ops \<Rightarrow> aux_service list option \<Rightarrow> ('s, string, unit) action" where
  "start_aux_services ops ss =
     for_each (\<lambda>s. create_and_start_job ops (aux_name s, build_service_job_config (service_of_aux s) [] [])) (unwrap_or ss [])"

definition start_services ::
  "('s, 'd) engine_ops \<Rightarrow> service list \<Rightarrow> string list \<Rightarrow> string list \<Rightarrow> ('s, string, unit) action" where
  "start_services ops ss required awaited =
     for_each (\<lambda>s. create_and_start_job ops (svc_name s, build_service_job_config s required awaited)) ss"

section \<open>Default \<open>init\<close> and \<open>upload\<close>\<close>

definition COLD_INIT_JOB_NAME :: string where "COLD_INIT_JOB_NAME = ''download''"

definition has_multi_client_services :: "service list \<Rightarrow> bool" where
  "has_multi_client_services ss = list_ex (\<lambda>s. svc_archive s \<and> svc_store_key s \<noteq> None) ss"

definition missing_config :: string where "missing_config = ''Missing plugin_config function''"

text \<open>The download part of \<open>default_init\<close>: what the services have to wait for.\<close>

definition init_data :: "('s, 'd) engine_ops \<Rightarrow> 'd plugin_config \<Rightarrow> string list \<Rightarrow> ('s, string, string list) action" where
  "init_data ops c required =
     (if has_multi_client_services (services c)
      then try_then (create_and_start_job ops (DOWNLOAD_JOB_NAME, build_multi_client_download_job_config (download c) required))
             (\<lambda>_. run_jobs ops (post_download c) [DOWNLOAD_JOB_NAME])
      else try_then (op_protocol_data_stamp ops) (\<lambda>stamp.
        if stamp \<noteq> None then ok required
        else case alternative_download c of
          Some alt \<Rightarrow>
            try_then (create_and_start_job ops (DOWNLOAD_JOB_NAME, build_alternative_download_job_config alt required))
              (\<lambda>_. run_jobs ops (post_download c) [DOWNLOAD_JOB_NAME])
        | None \<Rightarrow>
            (case cold_init c of
               Some ci \<Rightarrow>
                 try_then (create_and_start_job ops (COLD_INIT_JOB_NAME, build_cold_init_job_config ci required))
                   (\<lambda>_. ok [COLD_INIT_JOB_NAME])
             | None \<Rightarrow> ok required)))"

definition add_tasks :: "('s, 'd) engine_ops \<Rightarrow> plugin_task list option \<Rightarrow> ('s, string, unit) action" where
  "add_tasks ops ts =
     for_each (\<lambda>t. op_add_task ops (task_name t) (task_schedule t) (task_function t) (unwrap_or (task_param t) '''')) (unwrap_or ts [])"

definition default_init ::
  "('s, 'd) engine_ops \<Rightarrow> ('s, 'd, 'y) script \<Rightarrow> 'd plugin_config option \<Rightarrow> ('s, string, unit) action" where
  "default_init ops sc cfg =
     (case cfg of
        None \<Rightarrow> fail missing_config
      | Some c \<Rightarrow>
          try_then (op_stop_all_jobs ops) (\<lambda>_.
          try_then (render_configs_files ops sc (config_files c)) (\<lambda>_.
          try_then (start_aux_services ops (aux_services c)) (\<lambda>_.
          try_then (run_actions ops sc (init c) []) (\<lambda>required.
          try_then (init_data ops c required) (\<lambda>required.
          try_then (start_services ops (services c) required []) (\<lambda>_.
          add_tasks ops (scheduled c))))))))"

definition has_archivable_services :: "service list \<Rightarrow> bool" where
  "has_archivable_services ss = list_ex (\<lambda>s. svc_archive s \<and> svc_use_protocol_data s \<and> svc_store_key s \<noteq> None) ss"

text \<open>The upload job of \<open>default_upload\<close> for the services \<open>ss\<close> that use protocol data.\<close>

definition upload_data ::
  "('s, 'd) engine_ops \<Rightarrow> 'd plugin_config \<Rightarrow> service list \<Rightarrow> string list \<Rightarrow> ('s, string, string list) action" where
  "upload_data ops c ss required =
     (if has_archivable_services ss
      then try_then
             (if has_multi_client_services ss
              then create_and_start_job ops (UPLOAD_JOB_NAME, build_multi_client_upload_job_config (upload c) required)
              else create_and_start_job ops (UPLOAD_JOB_NAME, build_upload_job_config (upload c) required))
             (\<lambda>_. ok [UPLOAD_JOB_NAME])
      else ok required)"

definition default_upload ::
  "('s, 'd) engine_ops \<Rightarrow> ('s, 'd, 'y) script \<Rightarrow> 'd plugin_config option \<Rightarrow> ('s, string, unit) action" where
  "default_upload ops sc cfg =
     (case cfg of
        None \<Rightarrow> fail missing_config
      | Some c \<Rightarrow>
          let ss = filter svc_use_protocol_data (services c)
          in try_then (for_each (\<lambda>s. op_stop_job ops (svc_name s)) ss) (\<lambda>_.
             try_then (run_actions ops sc (pre_upload c) []) (\<lambda>required.
             try_then (upload_data ops c ss required) (\<lambda>required.
             try_then (run_jobs ops (post_upload c) required) (\<lambda>awaited.
             start_services ops ss [] awaited)))))"

section \<open>The plugin\<close>

text \<open>
  \<open>BarePlugin\<close> with what its default functions captured: \<open>register_defaults\<close> clones the plugin, so
  the functions a script can call keep the configuration of that moment.
\<close>

record 'd rhai_plugin =
  plugin_config_of :: "'d plugin_config option"
  defaults_config :: "'d plugin_config option"

type_synonym ('s, 'd, 'a) plugin_action = "('d rhai_plugin \<times> 's, string, 'a) action"

definition on_engine :: "('s, string, 'a) action \<Rightarrow> ('s, 'd, 'a) plugin_action" where
  "on_engine m ps = (let (r, t) = m (snd ps) in (r, (fst ps, t)))"

definition register_defaults :: "'d rhai_plugin \<Rightarrow> 'd rhai_plugin" where
  "register_defaults p = p\<lparr>defaults_config := plugin_config_of p\<rparr>"

definition plugin_new :: "('s, 'd) engine_ops \<Rightarrow> 's \<Rightarrow> 'd rhai_plugin \<times> 's" where
  "plugin_new ops s =
     (let (r, t) = op_load_config ops s
      in (register_defaults \<lparr>plugin_config_of = (case r of Inl _ \<Rightarrow> None | Inr c \<Rightarrow> Some c), defaults_config = None\<rparr>, t))"

text \<open>\<open>Clone for RhaiPlugin\<close>: a new engine on which the defaults are registered again.\<close>

definition plugin_clone :: "'d rhai_plugin \<Rightarrow> 'd rhai_plugin" where
  "plugin_clone p = register_defaults p"

definition call_fn ::
  "('s, 'd) engine_ops \<Rightarrow> ('s, 'd, 'y) script \<Rightarrow> (('s, 'd, 'y) script \<Rightarrow> 'y \<Rightarrow> string + 'a) \<Rightarrow> string \<Rightarrow> string list \<Rightarrow>
     ('s, 'd, 'a) plugin_action" where
  "call_fn ops sc conv name args = with_state (\<lambda>(p, _).
     on_engine (action_context (''Rhai function '' @ quoted name @ '' returned error'')
       (try_then (script_call sc (default_init ops sc (defaults_config p)) (default_upload ops sc (defaults_config p)) name args)
          (\<lambda>v. lift_result (\<lambda>_. conv sc v)))))"

definition has_function :: "('s, 'd, 'y) script \<Rightarrow> string \<Rightarrow> bool" where
  "has_function sc name \<longleftrightarrow> name \<in> fst ` set (script_functions sc)"

definition has_function_with :: "('s, 'd, 'y) script \<Rightarrow> string \<Rightarrow> nat \<Rightarrow> bool" where
  "has_function_with sc name arity \<longleftrightarrow> (name, arity) \<in> set (script_functions sc)"

definition PLUGIN_CONFIG_FN_NAME :: string where "PLUGIN_CONFIG_FN_NAME = ''plugin_config''"
definition INIT_FN_NAME :: string where "INIT_FN_NAME = ''init''"
definition PROTOCOL_STATUS_FN_NAME :: string where "PROTOCOL_STATUS_FN_NAME = ''protocol_status''"

definition get_config :: "('s, 'd) engine_ops \<Rightarrow> ('s, 'd, 'y) script \<Rightarrow> ('s, 'd, 'd plugin_config option) plugin_action" where
  "get_config ops sc =
     (if has_function_with sc PLUGIN_CONFIG_FN_NAME 0
      then try_then (call_fn ops sc (\<lambda>_. Inr) PLUGIN_CONFIG_FN_NAME [])
             (\<lambda>v. lift_result (\<lambda>_. with_context (''Invalid Rhai script - failed to deserialize '' @ PLUGIN_CONFIG_FN_NAME)
                                   (map_sum (\<lambda>e. e) Some (as_config sc v))))
      else ok None)"

fun validate_text :: "validate_error \<Rightarrow> string" where
  "validate_text ScheduledNotUnique = ''Scheduled tasks names are not unique''"
| "validate_text AuxServicesNotUnique = ''Auxiliary services names are not unique''"
| "validate_text InitJobsNotUnique = ''Init jobs names are not unique''"
| "validate_text PostDownloadNotUnique = ''Post-download jobs names are not unique''"
| "validate_text ServicesNotUnique = ''Services names are not unique''"
| "validate_text (MissingStoreKey n) = ''Service '' @ quoted n @ '' has archive=true but no store_key specified''"
| "validate_text (InvalidDataDir n d) =
     ''Service '' @ quoted n @ '' data_dir '' @ quoted d @ '' must be a relative path without '' @ quoted ''..'' @ '' components''"
| "validate_text (InvalidStoreKey n k) =
     ''Service '' @ quoted n @ '' store_key '' @ quoted k @ '' must contain only alphanumeric characters, hyphens, and underscores''"
| "validate_text PreUploadNotUnique = ''Pre-upload jobs names are not unique''"
| "validate_text PostUploadNotUnique = ''Post-upload jobs names are not unique''"

definition recreate_services :: "('s, 'd) engine_ops \<Rightarrow> ('s, 'd, unit) plugin_action" where
  "recreate_services ops = with_state (\<lambda>(p, _).
     case plugin_config_of p of
       None \<Rightarrow> ok ()
     | Some c \<Rightarrow> on_engine
         (try_then (op_get_jobs ops) (\<lambda>current.
          try_then (for_each (\<lambda>s. if map_of current (svc_name s) \<noteq> None
                                  then ignore_result (op_stop_job ops (svc_name s)) else ok ()) (services c))
            (\<lambda>_. start_services ops (services c) [] []))))"

definition set_config :: "'d plugin_config option \<Rightarrow> ('s, 'd, unit) plugin_action" where
  "set_config c = update_state (\<lambda>(p, s). (p\<lparr>plugin_config_of := c\<rparr>, s))"

definition reload_plugin_config :: "('s, 'd) engine_ops \<Rightarrow> ('s, 'd, 'y) script \<Rightarrow> ('s, 'd, unit) plugin_action" where
  "reload_plugin_config ops sc =
     try_then (on_engine (script_run sc (op_node_params ops))) (\<lambda>_.
     try_then (get_config ops sc) (\<lambda>cfg.
     try_then (set_config cfg) (\<lambda>_.
     try_then (case cfg of
         None \<Rightarrow> ok ()
       | Some c \<Rightarrow> try_then (lift_result (\<lambda>_. map_sum validate_text (\<lambda>u. u) (validate c)))
                     (\<lambda>_. on_engine (op_save_config ops c)))
       (\<lambda>_. recreate_services ops))))"

definition rhai_init :: "('s, 'd) engine_ops \<Rightarrow> ('s, 'd, 'y) script \<Rightarrow> ('s, 'd, unit) plugin_action" where
  "rhai_init ops sc =
     try_then (reload_plugin_config ops sc) (\<lambda>_.
       if has_function sc INIT_FN_NAME then call_fn ops sc as_unit INIT_FN_NAME []
       else with_state (\<lambda>(p, _). on_engine (default_init ops sc (plugin_config_of p))))"

definition rhai_upload :: "('s, 'd) engine_ops \<Rightarrow> ('s, 'd, 'y) script \<Rightarrow> ('s, 'd, unit) plugin_action" where
  "rhai_upload ops sc =
     (if has_function sc UPLOAD_JOB_NAME then call_fn ops sc as_unit UPLOAD_JOB_NAME []
      else with_state (\<lambda>(p, _). on_engine (default_upload ops sc (plugin_config_of p))))"

definition push_missing :: "string \<Rightarrow> string list \<Rightarrow> string list" where
  "push_missing x xs = (if x \<in> set xs then xs else xs @ [x])"

definition plugin_capabilities :: "('s, 'd, 'y) script \<Rightarrow> 'd rhai_plugin \<Rightarrow> string list" where
  "plugin_capabilities sc p =
     (let fs = map fst (script_functions sc)
      in if plugin_config_of p = None then fs else push_missing INIT_FN_NAME (push_missing UPLOAD_JOB_NAME fs))"

text \<open>\<open>i64\<close> values of the script that must be \<open>u64\<close>.\<close>

definition call_u64 :: "('s, 'd) engine_ops \<Rightarrow> ('s, 'd, 'y) script \<Rightarrow> string \<Rightarrow> ('s, 'd, nat) plugin_action" where
  "call_u64 ops sc name =
     try_then (call_fn ops sc as_int name []) (\<lambda>i.
       if i < 0 then fail ''out of range integral type conversion attempted'' else ok (nat i))"

definition rhai_height :: "('s, 'd) engine_ops \<Rightarrow> ('s, 'd, 'y) script \<Rightarrow> ('s, 'd, nat) plugin_action" where
  "rhai_height ops sc = call_u64 ops sc ''height''"

definition rhai_block_age :: "('s, 'd) engine_ops \<Rightarrow> ('s, 'd, 'y) script \<Rightarrow> ('s, 'd, nat) plugin_action" where
  "rhai_block_age ops sc = call_u64 ops sc ''block_age''"

definition rhai_jailed :: "('s, 'd) engine_ops \<Rightarrow> ('s, 'd, 'y) script \<Rightarrow> ('s, 'd, bool) plugin_action" where
  "rhai_jailed ops sc =
     try_then (call_fn ops sc as_string ''jailed'' []) (\<lambda>b.
       if b = ''true'' then ok True else if b = ''false'' then ok False
       else fail (''provided string was not `true` or `false`''))"

definition rhai_string :: "('s, 'd) engine_ops \<Rightarrow> ('s, 'd, 'y) script \<Rightarrow> string \<Rightarrow> ('s, 'd, string) plugin_action" where
  "rhai_string ops sc name = call_fn ops sc as_string name []"

definition rhai_consensus :: "('s, 'd) engine_ops \<Rightarrow> ('s, 'd, 'y) script \<Rightarrow> ('s, 'd, bool) plugin_action" where
  "rhai_consensus ops sc = call_fn ops sc as_bool ''consensus'' []"

definition job_status_is :: "jobs_info \<Rightarrow> (job_status \<Rightarrow> bool) \<Rightarrow> string \<Rightarrow> bool" where
  "job_status_is js check name = (case map_of js name of None \<Rightarrow> False | Some i \<Rightarrow> check (info_status i))"

definition is_pending :: "job_status \<Rightarrow> bool" where
  "is_pending st = (case st of Pending _ \<Rightarrow> True | _ \<Rightarrow> False)"

definition rhai_protocol_status :: "('s, 'd) engine_ops \<Rightarrow> ('s, 'd, 'y) script \<Rightarrow> ('s, 'd, protocol_status) plugin_action" where
  "rhai_protocol_status ops sc =
     try_then (on_engine (op_get_jobs ops)) (\<lambda>js. with_state (\<lambda>(p, _).
       if job_status_is js (\<lambda>st. st = job_status.Running) UPLOAD_JOB_NAME
       then ok \<lparr>ps_state = ''uploading'', ps_health = Neutral\<rparr>
       else if job_status_is js (\<lambda>st. st = job_status.Running) DOWNLOAD_JOB_NAME
       then ok \<lparr>ps_state = ''downloading'', ps_health = Neutral\<rparr>
       else if (case plugin_config_of p of None \<Rightarrow> False
                | Some c \<Rightarrow> list_ex (\<lambda>s. job_status_is js is_pending (svc_name s)) (services c))
       then ok \<lparr>ps_state = ''starting'', ps_health = Neutral\<rparr>
       else try_then (call_fn ops sc (\<lambda>_. Inr) PROTOCOL_STATUS_FN_NAME []) (\<lambda>v. lift_result (\<lambda>_. as_status sc v))))"

definition call_custom_method ::
  "('s, 'd) engine_ops \<Rightarrow> ('s, 'd, 'y) script \<Rightarrow> string \<Rightarrow> string \<Rightarrow> ('s, 'd, string) plugin_action" where
  "call_custom_method ops sc name param =
     (if has_function_with sc name 1 then call_fn ops sc as_string name [param]
      else if param = [] \<and> has_function_with sc name 0 then call_fn ops sc as_string name []
      else fail (''no matching method '' @ quoted name @ '' found''))"

end
