(* ===== verification/Firewall.thy ===== *)
theory Firewall
  imports Prelude
begin

text \<open>
  The firewall of a node: its configuration (\<open>bv/src/firewall.rs\<close>) and how it is turned into rules
  of the \<open>ufw\<close> tool (\<open>bv/src/ufw_wrapper.rs\<close>). The tool is a parameter: a function from its
  arguments and the state of the host firewall to its output.
\<close>

section \<open>Configuration\<close>

datatype fw_action = Allow | Deny | Reject

datatype fw_direction = Out | In

datatype fw_protocol = Tcp | Udp | Both

record fw_rule =
  rule_name :: string
  rule_action :: fw_action
  rule_direction :: fw_direction
  rule_protocol :: "fw_protocol option"
  rule_ips :: "string list"
  rule_ports :: "nat list"

record fw_config =
  default_in :: fw_action
  default_out :: fw_action
  fw_rules :: "fw_rule list"

definition fw_config_default :: fw_config where
  "fw_config_default = \<lparr>default_in = Reject, default_out = Allow, fw_rules = []\<rparr>"

text \<open>\<open>check_rules\<close>; what a CIDR address is comes from the library the code uses.\<close>

fun check_ips :: "(string \<Rightarrow> bool) \<Rightarrow> string \<Rightarrow> string list \<Rightarrow> string + unit" where
  "check_ips is_cidr name [] = Inr ()"
| "check_ips is_cidr name (ip # ips) =
     (if is_cidr ip then check_ips is_cidr name ips
      else Inl (''invalid ip address `'' @ ip @ ''` in firewall rule `'' @ name @ ''`''))"

fun check_rules :: "(string \<Rightarrow> bool) \<Rightarrow> fw_rule list \<Rightarrow> string + unit" where
  "check_rules is_cidr [] = Inr ()"
| "check_rules is_cidr (r # rs) =
     and_then (check_ips is_cidr (rule_name r) (rule_ips r)) (\<lambda>_. check_rules is_cidr rs)"

lemma check_ips_Inr_iff: "check_ips is_cidr name ips = Inr u \<longleftrightarrow> (\<forall>ip \<in> set ips. is_cidr ip)"
  by (induction ips) auto

lemma check_rules_Inr_iff:
  "check_rules is_cidr rs = Inr u \<longleftrightarrow> (\<forall>r \<in> set rs. \<forall>ip \<in> set (rule_ips r). is_cidr ip)"
  by (induction rs) (auto simp: and_then_Inr_iff check_ips_Inr_iff)

section \<open>Rules as arguments of ufw\<close>

fun action_name :: "fw_action \<Rightarrow> string" where
  "action_name Allow = ''allow''"
| "action_name Deny = ''deny''"
| "action_name Reject = ''reject''"


fun protocol_name :: "fw_protocol \<Rightarrow> string" where
  "protocol_name Tcp = ''tcp''"
| "protocol_name Udp = ''udp''"
| "protocol_name Both = ''both''"

record node_firewall_config =
  nfc_id :: string
  nfc_ip :: string
  nfc_bridge :: "string option"
  nfc_config :: fw_config

record rule_args =
  arg_policy :: string
  arg_direction :: fw_direction
  arg_protocol :: "string option"
  arg_from :: string
  arg_to :: string
  arg_port :: "string option"
  arg_name :: string

definition rule_proto :: "fw_rule \<Rightarrow> string option" where
  "rule_proto r = (case rule_protocol r of
     Some p \<Rightarrow> if p \<noteq> Both then Some (protocol_name p) else None
   | None \<Rightarrow> None)"

definition args_from_rule :: "node_firewall_config \<Rightarrow> fw_rule \<Rightarrow> string option \<Rightarrow> string \<Rightarrow> rule_args list" where
  "args_from_rule cfg r proto ip =
     (let (from, to) = (case rule_direction r of Out \<Rightarrow> (nfc_ip cfg, ip) | In \<Rightarrow> (ip, nfc_ip cfg));
          args = (\<lambda>port. \<lparr>arg_policy = action_name (rule_action r), arg_direction = rule_direction r,
            arg_protocol = proto, arg_from = from, arg_to = to, arg_port = port,
            arg_name = nfc_id cfg @ '' '' @ rule_name r\<rparr>)
      in if rule_ports r = [] then [args None] else map (\<lambda>p. args (Some (show_nat p))) (rule_ports r))"

definition args_of_rule :: "node_firewall_config \<Rightarrow> fw_rule \<Rightarrow> rule_args list" where
  "args_of_rule cfg r =
     (if rule_ips r = [] then args_from_rule cfg r (rule_proto r) ''any''
      else concat (map (args_from_rule cfg r (rule_proto r)) (rule_ips r)))"

definition default_in_args :: "node_firewall_config \<Rightarrow> rule_args" where
  "default_in_args cfg =
     \<lparr>arg_policy = action_name (default_in (nfc_config cfg)), arg_direction = In, arg_protocol = None,
      arg_from = ''any'', arg_to = nfc_ip cfg, arg_port = None, arg_name = nfc_id cfg @ '' default in''\<rparr>"

definition default_out_args :: "node_firewall_config \<Rightarrow> rule_args" where
  "default_out_args cfg =
     \<lparr>arg_policy = action_name (default_out (nfc_config cfg)), arg_direction = Out, arg_protocol = None,
      arg_from = nfc_ip cfg, arg_to = ''any'', arg_port = None, arg_name = nfc_id cfg @ '' default out''\<rparr>"

definition args_from_rules :: "node_firewall_config \<Rightarrow> rule_args list" where
  "args_from_rules cfg =
     concat (map (args_of_rule cfg) (rev (fw_rules (nfc_config cfg)))) @ [default_in_args cfg, default_out_args cfg]"


section \<open>Applying and cleaning up rules\<close>

type_synonym 's ufw = "string list \<Rightarrow> ('s, string, string) action"

definition run_ufw :: "'s ufw \<Rightarrow> string list \<Rightarrow> ('s, string, unit) action" where
  "run_ufw run args = try_then (run args) (\<lambda>_. ok ())"






section \<open>What the rules of a node decide\<close>

text \<open>
  The host firewall takes the first rule that matches a packet. An address of a rule is \<open>any\<close> or one
  the tool matches in its own way (\<open>addr\<close>); the packet is one of the node: its own address is the
  destination of an inbound and the source of an outbound one.
\<close>

record packet =
  pkt_direction :: fw_direction
  pkt_protocol :: fw_protocol
  pkt_peer :: string
  pkt_port :: nat

definition addr_matches :: "(string \<Rightarrow> string \<Rightarrow> bool) \<Rightarrow> string \<Rightarrow> string \<Rightarrow> bool" where
  "addr_matches addr pattern ip \<longleftrightarrow> pattern = ''any'' \<or> addr pattern ip"

definition args_match :: "(string \<Rightarrow> string \<Rightarrow> bool) \<Rightarrow> string \<Rightarrow> packet \<Rightarrow> rule_args \<Rightarrow> bool" where
  "args_match addr node_ip p a \<longleftrightarrow>
     arg_direction a = pkt_direction p \<and>
     (arg_protocol a = None \<or> arg_protocol a = Some (protocol_name (pkt_protocol p))) \<and>
     (arg_port a = None \<or> arg_port a = Some (show_nat (pkt_port p))) \<and>
     (case pkt_direction p of
        In \<Rightarrow> addr_matches addr (arg_from a) (pkt_peer p) \<and> addr_matches addr (arg_to a) node_ip
      | Out \<Rightarrow> addr_matches addr (arg_from a) node_ip \<and> addr_matches addr (arg_to a) (pkt_peer p))"

definition chain_verdict :: "(string \<Rightarrow> string \<Rightarrow> bool) \<Rightarrow> string \<Rightarrow> packet \<Rightarrow> rule_args list \<Rightarrow> string option" where
  "chain_verdict addr node_ip p as = map_option arg_policy (find (args_match addr node_ip p) as)"

definition rule_matches :: "(string \<Rightarrow> string \<Rightarrow> bool) \<Rightarrow> packet \<Rightarrow> fw_rule \<Rightarrow> bool" where
  "rule_matches addr p r \<longleftrightarrow>
     rule_direction r = pkt_direction p \<and>
     (rule_protocol r = None \<or> rule_protocol r = Some Both \<or> rule_protocol r = Some (pkt_protocol p)) \<and>
     (rule_ips r = [] \<or> (\<exists>ip \<in> set (rule_ips r). addr_matches addr ip (pkt_peer p))) \<and>
     (rule_ports r = [] \<or> pkt_port p \<in> set (rule_ports r))"

text \<open>The verdict of a configuration: its last matching rule, else the default of the direction.\<close>

definition config_verdict :: "(string \<Rightarrow> string \<Rightarrow> bool) \<Rightarrow> packet \<Rightarrow> fw_config \<Rightarrow> fw_action" where
  "config_verdict addr p c =
     (case find (rule_matches addr p) (rev (fw_rules c)) of
        Some r \<Rightarrow> rule_action r
      | None \<Rightarrow> (case pkt_direction p of In \<Rightarrow> default_in c | Out \<Rightarrow> default_out c))"

lemma protocol_name_inject [simp]: "protocol_name a = protocol_name b \<longleftrightarrow> a = b"
  by (cases a; cases b) simp_all

lemma args_from_rule_policy: "a \<in> set (args_from_rule cfg r proto ip) \<Longrightarrow> arg_policy a = action_name (rule_action r)"
  by (auto simp: args_from_rule_def Let_def split: if_splits prod.splits)

lemma args_of_rule_policy: "a \<in> set (args_of_rule cfg r) \<Longrightarrow> arg_policy a = action_name (rule_action r)"
  by (auto simp: args_of_rule_def dest: args_from_rule_policy split: if_splits)

lemma args_from_rule_match:
  assumes "addr (nfc_ip cfg) node_ip" and "pkt_protocol p \<noteq> Both"
  shows "(\<exists>a \<in> set (args_from_rule cfg r (rule_proto r) ip). args_match addr node_ip p a) \<longleftrightarrow>
     rule_direction r = pkt_direction p \<and>
     (rule_protocol r = None \<or> rule_protocol r = Some Both \<or> rule_protocol r = Some (pkt_protocol p)) \<and>
     addr_matches addr ip (pkt_peer p) \<and> (rule_ports r = [] \<or> pkt_port p \<in> set (rule_ports r))"
proof -
  have proto: "rule_proto r = None \<or> rule_proto r = Some (protocol_name (pkt_protocol p)) \<longleftrightarrow>
      rule_protocol r = None \<or> rule_protocol r = Some Both \<or> rule_protocol r = Some (pkt_protocol p)"
    using assms(2) by (auto simp: rule_proto_def split: option.split)
  have own: "addr_matches addr (nfc_ip cfg) node_ip" using assms(1) by (simp add: addr_matches_def)
  show ?thesis
    unfolding proto [symmetric]
    by (cases "rule_direction r"; cases "pkt_direction p")
      (auto simp: args_from_rule_def args_match_def own)
qed

lemma args_of_rule_match:
  assumes "addr (nfc_ip cfg) node_ip" and "pkt_protocol p \<noteq> Both"
  shows "(\<exists>a \<in> set (args_of_rule cfg r). args_match addr node_ip p a) \<longleftrightarrow> rule_matches addr p r"
  using args_from_rule_match [of addr cfg node_ip p r] assms
  by (auto simp: args_of_rule_def rule_matches_def addr_matches_def)

lemma find_concat:
  assumes "\<And>x. (\<exists>a \<in> set (f x). P a) \<longleftrightarrow> Q x" and "\<And>x a. a \<in> set (f x) \<Longrightarrow> g a = h x"
  shows "map_option g (find P (concat (map f xs))) = map_option h (find Q xs)"
proof (induction xs)
  case Nil
  then show ?case by simp
next
  case (Cons x xs)
  have append: "find P (as @ bs) = (case find P as of Some a \<Rightarrow> Some a | None \<Rightarrow> find P bs)" for as bs
    by (induction as) simp_all
  show ?case
  proof (cases "find P (f x)")
    case None
    then have "\<not> Q x" using assms(1) [of x] by (auto simp: find_None_iff)
    with None Cons.IH show ?thesis by (simp add: append)
  next
    case (Some a)
    then have "a \<in> set (f x)" "P a" by (auto simp: find_Some_iff)
    with assms Some show ?thesis by (auto simp: append)
  qed
qed

text \<open>
  C13: the rules handed to the host firewall for a node decide its packets as the configuration
  says: the last rule of the configuration that matches the packet, and the default of the
  direction when none does.
\<close>

theorem chain_decides_like_config:
  assumes "addr (nfc_ip cfg) node_ip" and "pkt_protocol p \<noteq> Both"
  shows "chain_verdict addr node_ip p (args_from_rules cfg) = Some (action_name (config_verdict addr p (nfc_config cfg)))"
proof -
  let ?as = "concat (map (args_of_rule cfg) (rev (fw_rules (nfc_config cfg))))"
  have rules: "map_option arg_policy (find (args_match addr node_ip p) ?as)
      = map_option (action_name \<circ> rule_action) (find (rule_matches addr p) (rev (fw_rules (nfc_config cfg))))"
    using args_of_rule_match [of addr cfg node_ip p] assms args_of_rule_policy by (intro find_concat) auto
  have append: "find P (as @ bs) = (case find P as of Some a \<Rightarrow> Some a | None \<Rightarrow> find P bs)" for P and as bs :: "rule_args list"
    by (induction as) simp_all
  show ?thesis
  proof (cases "find (rule_matches addr p) (rev (fw_rules (nfc_config cfg)))")
    case None
    with rules have none: "find (args_match addr node_ip p) ?as = None" by simp
    show ?thesis
      using assms(1) None
      by (cases "pkt_direction p")
        (simp_all add: chain_verdict_def args_from_rules_def append none config_verdict_def args_match_def
          default_in_args_def default_out_args_def addr_matches_def)
  next
    case (Some r)
    with rules obtain a where "find (args_match addr node_ip p) ?as = Some a" "arg_policy a = action_name (rule_action r)"
      by auto
    with Some show ?thesis by (simp add: chain_verdict_def args_from_rules_def append config_verdict_def)
  qed
qed

definition example_firewall :: node_firewall_config where
  "example_firewall = \<lparr>nfc_id = ''node-1'', nfc_ip = ''10.0.0.2'', nfc_bridge = None,
     nfc_config = \<lparr>default_in = Deny, default_out = Allow, fw_rules =
       [\<lparr>rule_name = ''p2p'', rule_action = Allow, rule_direction = In, rule_protocol = Some Both,
          rule_ips = [], rule_ports = [30303]\<rparr>,
        \<lparr>rule_name = ''blocked'', rule_action = Reject, rule_direction = In, rule_protocol = None,
          rule_ips = [''1.2.3.4''], rule_ports = []\<rparr>]\<rparr>\<rparr>"

theorem chain_decides_like_config_witness:
  "chain_verdict (=) ''10.0.0.2'' \<lparr>pkt_direction = In, pkt_protocol = Tcp, pkt_peer = ''1.2.3.4'', pkt_port = 30303\<rparr>
     (args_from_rules example_firewall) = Some ''reject''"
  by (subst chain_decides_like_config)
    (simp_all add: example_firewall_def config_verdict_def rule_matches_def addr_matches_def)

section \<open>What the tool does, and what cleaning up and applying do with it\<close>










lemma run_ufw_then:
  "try_then (run_ufw run args) k s = (Inr y, t) \<longleftrightarrow> (\<exists>out u. run args s = (Inr out, u) \<and> k () u = (Inr y, t))"
  by (auto simp: run_ufw_def try_then_def split: prod.split sum.split)
























end
