(* ===== verification/Cpu_Registry.thy ===== *)
theory Cpu_Registry
  imports Prelude
begin

text \<open>
  The registry of free CPU cores shared by the nodes of a host (\<open>bv/src/cpu_registry.rs\<close>). It is a
  list of core numbers: cores are taken from its end and returned to it.
\<close>

section \<open>The interface\<close>

text \<open>
  A pool lends items: what is acquired leaves the pool, what is released comes back, and nothing is
  created or lost. The clients only rely on these laws.
\<close>

locale pool =
  fixes acquire :: "nat \<Rightarrow> 'r \<Rightarrow> (string + 'c list) \<times> 'r"
    and release :: "'c list \<Rightarrow> 'r \<Rightarrow> 'r"
    and free :: "'r \<Rightarrow> 'c multiset"
  assumes acquire_Inr: "acquire k r = (Inr cs, r') \<Longrightarrow> length cs = k \<and> free r = free r' + mset cs"
    and acquire_Inl: "acquire k r = (Inl e, r') \<Longrightarrow> r' = r"
    and acquire_enough: "(\<exists>cs r'. acquire k r = (Inr cs, r')) \<longleftrightarrow> k \<le> size (free r)"
    and free_release: "free (release cs r) = free r + mset cs"
begin

text \<open>What is free and what is lent.\<close>

definition total :: "'r \<Rightarrow> 'c list \<Rightarrow> 'c multiset" where
  "total r lent = free r + mset lent"

lemma acquire_total: "acquire k r = (Inr cs, r') \<Longrightarrow> total r' (lent @ cs) = total r lent"
  using acquire_Inr by (fastforce simp: total_def)

lemma release_total: "total (release cs r) lent = total r (lent @ cs)"
  by (simp add: total_def free_release)

lemma acquire_release: "acquire k r = (Inr cs, r') \<Longrightarrow> free (release cs r') = free r"
  using acquire_Inr by (simp add: free_release)

lemma acquire_fails: "size (free r) < k \<Longrightarrow> \<exists>e. acquire k r = (Inl e, r)"
  using acquire_enough [of k r] acquire_Inl [of k r]
  by (cases "acquire k r") (metis linorder_not_le sum.exhaust)

end

section \<open>The registry\<close>

type_synonym cpu_registry = "nat list"

definition cpu_registry_new :: "nat \<Rightarrow> cpu_registry" where
  "cpu_registry_new available = [0..<available]"

definition cpu_acquire :: "nat \<Rightarrow> (cpu_registry, string, nat list) action" where
  "cpu_acquire n r =
     (if n > length r then (Inl ''not enough cpu cores'', r)
      else (Inr (drop (length r - n) r), take (length r - n) r))"

definition mark_acquired :: "nat list \<Rightarrow> cpu_registry \<Rightarrow> cpu_registry" where
  "mark_acquired cpus r = filter (\<lambda>c. c \<notin> set cpus) r"

definition cpu_release :: "nat list \<Rightarrow> cpu_registry \<Rightarrow> cpu_registry" where
  "cpu_release cpus r = r @ cpus"

definition cpu_len :: "cpu_registry \<Rightarrow> nat" where
  "cpu_len r = length r"

interpretation cpus: pool cpu_acquire cpu_release mset
proof
  fix k and r cs r' :: "nat list" and e :: string
  show "cpu_acquire k r = (Inr cs, r') \<Longrightarrow> length cs = k \<and> mset r = mset r' + mset cs"
    by (auto simp: cpu_acquire_def simp flip: mset_append split: if_splits)
  show "cpu_acquire k r = (Inl e, r') \<Longrightarrow> r' = r"
    by (simp add: cpu_acquire_def split: if_splits)
  show "(\<exists>cs r'. cpu_acquire k r = (Inr cs, r')) \<longleftrightarrow> k \<le> size (mset r)"
    by (simp add: cpu_acquire_def)
  show "mset (cpu_release cs r) = mset r + mset cs"
    by (simp add: cpu_release_def)
qed

text \<open>Attaching nodes: a fresh registry with the cores of the nodes marked holds exactly the others.\<close>

lemma mark_acquired_new:
  "set (fold mark_acquired cpuss (cpu_registry_new n)) = {0..<n} - \<Union> (set ` set cpuss)"
  and distinct_mark_acquired: "distinct (fold mark_acquired cpuss (cpu_registry_new n))"
proof -
  have "set (fold mark_acquired cpuss r) = set r - \<Union> (set ` set cpuss) \<and>
      (distinct r \<longrightarrow> distinct (fold mark_acquired cpuss r))" for r
    by (induction cpuss arbitrary: r) (auto simp: mark_acquired_def)
  then show "set (fold mark_acquired cpuss (cpu_registry_new n)) = {0..<n} - \<Union> (set ` set cpuss)"
    "distinct (fold mark_acquired cpuss (cpu_registry_new n))"
    by (simp_all add: cpu_registry_new_def)
qed

text \<open>A registry rebuilt by marking has the same free cores as the one that lent them.\<close>

lemma rebuilt_registry:
  assumes "mset r + mset (concat cpuss) = mset [0..<n]"
  shows "mset (fold mark_acquired cpuss (cpu_registry_new n)) = mset r"
proof -
  have dist: "distinct (r @ concat cpuss)" and all: "set (r @ concat cpuss) = {0..<n}"
    using assms
    by (metis distinct_upt mset_append mset_eq_imp_distinct_iff)
       (metis assms atLeastLessThan_upt mset_append set_mset_mset)
  then have "set (fold mark_acquired cpuss (cpu_registry_new n)) = set r"
    by (auto simp: mark_acquired_new)
  with dist distinct_mark_acquired [of cpuss n] show ?thesis
    by (simp add: set_eq_iff_mset_eq_distinct)
qed

end
