(* ===== verification/Node_State.thy ===== *)
theory Node_State
  imports Firewall Cpu_Registry Engine
begin

text \<open>
  The persistent state of a node (\<open>bv/src/node_state.rs\<close>), with the bookkeeping of an upgrade, and the
  errors of node commands (\<open>bv/src/commands.rs\<close>).
\<close>

section \<open>Data\<close>

datatype vm_status = Running | Stopped | Busy | Failed

text \<open>The derived order of the code is the order of the constructors.\<close>

instantiation vm_status :: linorder
begin

fun vm_status_rank :: "vm_status \<Rightarrow> nat" where
  "vm_status_rank Running = 0"
| "vm_status_rank Stopped = 1"
| "vm_status_rank Busy = 2"
| "vm_status_rank Failed = 3"

definition less_eq_vm_status :: "vm_status \<Rightarrow> vm_status \<Rightarrow> bool" where
  "less_eq_vm_status a b \<longleftrightarrow> vm_status_rank a \<le> vm_status_rank b"

definition less_vm_status :: "vm_status \<Rightarrow> vm_status \<Rightarrow> bool" where
  "less_vm_status a b \<longleftrightarrow> vm_status_rank a < vm_status_rank b"

instance
proof
  fix a b c :: vm_status
  show "a < b \<longleftrightarrow> a \<le> b \<and> \<not> b \<le> a" by (auto simp: less_eq_vm_status_def less_vm_status_def)
  show "a \<le> a" by (simp add: less_eq_vm_status_def)
  show "a \<le> b \<Longrightarrow> b \<le> c \<Longrightarrow> a \<le> c" by (simp add: less_eq_vm_status_def)
  show "a \<le> b \<Longrightarrow> b \<le> a \<Longrightarrow> a = b" by (cases a; cases b) (simp_all add: less_eq_vm_status_def)
  show "a \<le> b \<or> b \<le> a" by (auto simp: less_eq_vm_status_def)
qed

end

type_synonym uuid = string
type_synonym node_properties = "(string, string) hash_map"

record node_image =
  image_id :: string
  image_version :: string
  image_config_id :: string
  image_archive_id :: string
  image_store_key :: string
  image_uri :: string
  min_babel_version :: string

record protocol_image_key =
  protocol_key :: string
  variant_key :: string

record ramdisk =
  ram_disk_mount_point :: string
  ram_disk_size_mb :: nat

record vm_config =
  vcpu_count :: nat
  mem_size_mb :: nat
  disk_size_gb :: nat
  ramdisks :: "ramdisk list"

datatype cpu_assignment_update = NoCpuUpdate | AcquiredCpus nat | ReleasedCpus "nat list"

datatype upgrade_step =
    StepStop
  | StepCpuAssignment cpu_assignment_update
  | StepVm
  | StepPlugin
  | StepFirewall
  | StepRestart

record state_backup =
  backup_properties :: node_properties
  backup_firewall :: fw_config
  backup_display_name :: string
  backup_org_id :: string
  backup_org_name :: string
  backup_protocol_name :: string
  backup_dns_name :: string
  backup_tags :: "string list"
  backup_vm_config :: vm_config
  backup_image :: node_image
  backup_initialized :: bool

record upgrade_state =
  upgrade_active :: bool
  upgrade_backup :: "state_backup option"
  need_rollback :: "string option"
  upgrade_steps :: "upgrade_step list"
  upgrade_data_stamp :: "nat option"

definition upgrade_state_default :: upgrade_state where
  "upgrade_state_default = \<lparr>upgrade_active = False, upgrade_backup = None, need_rollback = None,
     upgrade_steps = [], upgrade_data_stamp = None\<rparr>"

record node_state =
  node_id :: uuid
  node_name :: string
  protocol_id :: string
  image_key :: protocol_image_key
  node_dev_mode :: bool
  node_ip :: string
  node_gateway :: string
  properties :: node_properties
  node_firewall :: fw_config
  display_name :: string
  org_id :: string
  org_name :: string
  protocol_name_of :: string
  dns_name :: string
  tags :: "string list"
  node_vm_config :: vm_config
  node_image :: node_image
  assigned_cpus :: "nat list"
  node_expected :: vm_status
  started_at :: "nat option"
  initialized :: bool
  restarting :: bool
  upgrade_st :: upgrade_state
  apptainer_config :: "string option"

record config_update =
  new_config_id :: string
  new_org_id :: "string option"
  new_org_name :: "string option"
  new_display_name :: "string option"
  new_values :: node_properties
  new_firewall :: "fw_config option"

section \<open>Backup and upgrade steps\<close>

text \<open>\<open>From<NodeState>\<close>: a backup made from a state is never initialized.\<close>

definition backup_from :: "node_state \<Rightarrow> state_backup" where
  "backup_from s =
     \<lparr>backup_properties = properties s, backup_firewall = node_firewall s, backup_display_name = display_name s,
      backup_org_id = org_id s, backup_org_name = org_name s, backup_protocol_name = protocol_name_of s,
      backup_dns_name = dns_name s, backup_tags = tags s, backup_vm_config = node_vm_config s,
      backup_image = node_image s, backup_initialized = False\<rparr>"

text \<open>\<open>StateBackup::swap_state\<close> exchanges the two, returning both.\<close>

definition swap_state :: "state_backup \<Rightarrow> node_state \<Rightarrow> state_backup \<times> node_state" where
  "swap_state b s =
     (\<lparr>backup_properties = properties s, backup_firewall = node_firewall s, backup_display_name = display_name s,
       backup_org_id = org_id s, backup_org_name = org_name s, backup_protocol_name = protocol_name_of s,
       backup_dns_name = dns_name s, backup_tags = tags s, backup_vm_config = node_vm_config s,
       backup_image = node_image s, backup_initialized = initialized s\<rparr>,
      s\<lparr>properties := backup_properties b, node_firewall := backup_firewall b, display_name := backup_display_name b,
        org_id := backup_org_id b, org_name := backup_org_name b, protocol_name_of := backup_protocol_name b,
        dns_name := backup_dns_name b, tags := backup_tags b, node_vm_config := backup_vm_config b,
        node_image := backup_image b, initialized := backup_initialized b\<rparr>)"

lemma swap_state_involution:
  "swap_state b s = (b', s') \<Longrightarrow> swap_state b' s' = (b, s)"
  by (auto simp: swap_state_def)

text \<open>\<open>UpgradeState::insert_step\<close>\<close>

definition insert_step :: "upgrade_step \<Rightarrow> upgrade_step list \<Rightarrow> bool \<times> upgrade_step list" where
  "insert_step step done_steps = (if step \<in> set done_steps then (False, done_steps) else (True, done_steps @ [step]))"

text \<open>\<open>Vec::swap_remove\<close>: the last element takes the place of the removed one.\<close>

definition swap_remove :: "nat \<Rightarrow> 'a list \<Rightarrow> 'a list" where
  "swap_remove i xs = (if i = length xs - 1 then butlast xs else (butlast xs)[i := last xs])"

lemma mset_swap_remove: "i < length xs \<Longrightarrow> add_mset (xs ! i) (mset (swap_remove i xs)) = mset xs"
proof -
  assume i: "i < length xs"
  then obtain ys y where xs: "xs = ys @ [y]" by (cases xs rule: rev_cases) auto
  show ?thesis
  proof (cases "i < length ys")
    case True
    then have "ys ! i \<in># mset ys" by simp
    with True xs show ?thesis
      by (simp add: swap_remove_def nth_append mset_update)
  next
    case False
    with i xs have "i = length ys" by simp
    with xs show ?thesis by (simp add: swap_remove_def)
  qed
qed

text \<open>\<open>Iterator::position\<close>\<close>

fun position :: "('a \<Rightarrow> bool) \<Rightarrow> 'a list \<Rightarrow> nat option" where
  "position P [] = None"
| "position P (x # xs) = (if P x then Some 0 else map_option Suc (position P xs))"

lemma position_Some: "position P xs = Some i \<Longrightarrow> i < length xs \<and> P (xs ! i) \<and> find P xs = Some (xs ! i)"
  by (induction xs arbitrary: i) (auto split: if_splits)

lemma position_None: "position P xs = None \<longleftrightarrow> (\<forall>x \<in> set xs. \<not> P x)"
  by (induction xs) auto

fun is_cpu_step :: "upgrade_step \<Rightarrow> bool" where
  "is_cpu_step (StepCpuAssignment _) = True"
| "is_cpu_step _ = False"

section \<open>Errors of commands\<close>

datatype command_error =
    Internal string
  | ServiceNotReady
  | ServiceBroken
  | NotSupported
  | NodeNotFound
  | BlockingJobRunning nat
  | NodeUpgradeRollback string
  | NodeUpgradeFailure string string

definition into_internal :: "string + 'a \<Rightarrow> command_error + 'a" where
  "into_internal r = (case r of Inl e \<Rightarrow> Inl (Internal e) | Inr x \<Rightarrow> Inr x)"

end
