(* ===== verification/Babel_Service.thy ===== *)
theory Babel_Service
  imports Jobs_Manager Binary_Stream Rhai_Plugin Node_State
begin

text \<open>
  The gRPC service Babel offers inside the node (\<open>babel/src/babel_service.rs\<close>), its configuration
  (\<open>babel/src/lib.rs\<close>, \<open>babel_api/src/utils.rs\<close>) and request timeouts (\<open>bv_utils/src/rpc.rs\<close>). A
  handler acts on the jobs manager, the lock of the job runner binary and the files of the node; an
  error becomes a gRPC status.
\<close>

section \<open>gRPC statuses and timeouts\<close>

datatype rpc_code =
    CodeCancelled | CodeUnknown | CodeInvalidArgument | CodeDeadlineExceeded | CodeNotFound | CodeAlreadyExists
  | CodePermissionDenied | CodeResourceExhausted | CodeFailedPrecondition | CodeAborted | CodeOutOfRange
  | CodeUnimplemented | CodeInternal | CodeUnavailable | CodeDataLoss | CodeUnauthenticated

record rpc_status =
  rpc_code :: rpc_code
  rpc_message :: string

definition internal_status :: "string \<Rightarrow> rpc_status" where
  "internal_status msg = \<lparr>rpc_code = CodeInternal, rpc_message = msg\<rparr>"

text \<open>The header value of a timeout, in nanoseconds; the multiplications are on \<open>u64\<close>.\<close>

definition extract_grpc_timeout :: "string option \<Rightarrow> string + nat" where
  "extract_grpc_timeout header =
     (case header of
        None \<Rightarrow> Inl ''grpc-timeout header not set''
      | Some t \<Rightarrow>
          if t = [] then Inl ''empty timeout value''
          else (case parse_usize (butlast t) of
            None \<Rightarrow> Inl (''invalid timeout value: '' @ butlast t)
          | Some v \<Rightarrow>
              let value = (of_nat v :: 64 word); secs = (\<lambda>w. unat (w :: 64 word) * 1000000000); unit = last t
              in if unit = CHR ''H'' then Inr (secs (value * 3600))
                 else if unit = CHR ''M'' then Inr (secs (value * 60))
                 else if unit = CHR ''S'' then Inr (secs value)
                 else if unit = CHR ''m'' then Inr (unat value * 1000000)
                 else if unit = CHR ''u'' then Inr (unat value * 1000)
                 else if unit = CHR ''n'' then Inr (unat value)
                 else Inl (''invalid unit: '' @ [unit])))"

section \<open>Service state and environment\<close>

record babel_config =
  bc_node_env :: node_env
  bc_ramdisks :: "ramdisk list"

record babel_service =
  bs_manager :: manager
  job_runner_lock :: "32 word option"
  babel_conf :: "babel_config option"
    \<comment> \<open>the configuration file, when it can be read\<close>
  bs_files :: plain_files
  plugin_configs :: "path \<Rightarrow> string option"
    \<comment> \<open>plugin configurations saved for jobs, by path\<close>

record http_request =
  rq_post :: bool
  rq_url :: string
  rq_json :: "(string \<times> string option) option"
    \<comment> \<open>method and parameters of a JSON-RPC body\<close>
  rq_headers :: "(string \<times> string) list"
  rq_timeout :: "nat option"

record sh_output =
  out_code :: "int option"
  out_stdout :: string
  out_stderr :: string

record babel_env =
  be_os :: os
  be_crc :: "byte list \<Rightarrow> 32 word"
  be_bin_io :: bin_io
  set_ram_disks_error :: "ramdisk list \<Rightarrow> string option"
  setup_node_error :: "string option"
  conf_write_error :: "string option"
  data_lock :: "path \<Rightarrow> (string + nat) option"
    \<comment> \<open>modification time of the lock file of the protocol data, when it exists\<close>
  plugin_config_write_error :: "path \<Rightarrow> string option"
  be_render :: "path \<Rightarrow> path \<Rightarrow> string \<Rightarrow> string + string"
    \<comment> \<open>the Tera template engine\<close>
  be_header_error :: "string \<times> string \<Rightarrow> string option"
  be_json_error :: "string \<Rightarrow> string option"
  be_http :: "http_request \<Rightarrow> string + http_response"
  be_sh :: "string \<times> string list \<Rightarrow> nat option \<Rightarrow> string + sh_output"
  bv_user :: "string option"

type_synonym 'a service_action = "(babel_service, rpc_status, 'a) action"

definition on_jobs :: "'a manager_action \<Rightarrow> (babel_service, string, 'a) action" where
  "on_jobs m s = (let (r, t) = m (bs_manager s) in (r, s\<lparr>bs_manager := t\<rparr>))"

definition as_internal :: "string \<Rightarrow> (babel_service, string, 'a) action \<Rightarrow> 'a service_action" where
  "as_internal what m = map_error (\<lambda>e. internal_status (what @ '': '' @ e)) m"

section \<open>Handlers\<close>

definition BABEL_SHUTDOWN_TIMEOUT :: nat where "BABEL_SHUTDOWN_TIMEOUT = 15"

definition apply_babel_config :: "babel_env \<Rightarrow> babel_config \<Rightarrow> (babel_service, string, unit) action" where
  "apply_babel_config env c =
     (case set_ram_disks_error env (bc_ramdisks c) of
        Some e \<Rightarrow> fail (''failed to add ram disks: '' @ e)
      | None \<Rightarrow> ok ())"

definition save_babel_conf :: "babel_env \<Rightarrow> babel_config \<Rightarrow> unit service_action" where
  "save_babel_conf env c =
     (case conf_write_error env of
        Some e \<Rightarrow> steps [update_state (\<lambda>s. s\<lparr>babel_conf := None\<rparr>),
                    fail (internal_status (''failed to save babel config into /etc/babel.conf: '' @ e))]
      | None \<Rightarrow> update_state (\<lambda>s. s\<lparr>babel_conf := Some c\<rparr>))"

definition setup_babel :: "babel_env \<Rightarrow> babel_config \<Rightarrow> unit service_action" where
  "setup_babel env c =
     steps [map_error internal_status (apply_babel_config env c),
       save_babel_conf env c,
       (case setup_node_error env of
          Some e \<Rightarrow> fail (internal_status (''failed to setup node with: '' @ e)) | None \<Rightarrow> ok ()),
       as_internal ''failed to startup jobs_manger'' (on_jobs (startup (be_os env) (bc_node_env c)))]"

definition get_babel_shutdown_timeout :: "nat service_action" where
  "get_babel_shutdown_timeout = read_state (\<lambda>s. get_active_jobs_shutdown_timeout (bs_manager s) + BABEL_SHUTDOWN_TIMEOUT)"

definition shutdown_babel :: "babel_env \<Rightarrow> bool \<Rightarrow> unit service_action" where
  "shutdown_babel env force = as_internal ''failed to shutdown jobs_manger'' (on_jobs (shutdown (be_os env) force))"

definition check_job_runner :: "32 word \<Rightarrow> binary_status service_action" where
  "check_job_runner expected = read_state (\<lambda>s.
     case job_runner_lock s of
       Some c \<Rightarrow> if c = expected then BinaryOk else ChecksumMismatch
     | None \<Rightarrow> BinaryMissing)"

definition on_files :: "(plain_files, string, 'a) action \<Rightarrow> (babel_service, string, 'a) action" where
  "on_files m s = (let (r, t) = m (bs_files s) in (r, s\<lparr>bs_files := t\<rparr>))"

definition JOB_RUNNER_BIN_PATH :: path where "JOB_RUNNER_BIN_PATH = ''/usr/bin/babel_job_runner''"

definition upload_job_runner :: "babel_env \<Rightarrow> (string + binary) list \<Rightarrow> unit service_action" where
  "upload_job_runner env stream =
     try_then (as_internal ''upload_job_runner failed''
                 (on_files (save_bin_stream (be_crc env) (be_bin_io env) JOB_RUNNER_BIN_PATH stream)))
       (\<lambda>checksum. update_state (\<lambda>s. s\<lparr>job_runner_lock := Some checksum\<rparr>))"

definition service_create_job :: "babel_env \<Rightarrow> string \<Rightarrow> job_config \<Rightarrow> unit service_action" where
  "service_create_job env name config = as_internal ''create_job failed'' (on_jobs (create_job (be_os env) name config))"

definition service_start_job :: "babel_env \<Rightarrow> string \<Rightarrow> unit service_action" where
  "service_start_job env name = as_internal ''start_job failed'' (on_jobs (start_request name (be_os env)))"

definition service_stop_job :: "babel_env \<Rightarrow> string \<Rightarrow> unit service_action" where
  "service_stop_job env name = as_internal ''stop_job failed'' (on_jobs (stop_request (be_os env) name))"

definition service_stop_all_jobs :: "babel_env \<Rightarrow> unit service_action" where
  "service_stop_all_jobs env = as_internal ''stop_all_jobs failed'' (on_jobs (stop_all (be_os env)))"

definition service_skip_job :: "babel_env \<Rightarrow> string \<Rightarrow> unit service_action" where
  "service_skip_job env name = as_internal ''stop_job failed'' (on_jobs (skip_request (be_os env) name))"

definition service_cleanup_job :: "babel_env \<Rightarrow> string \<Rightarrow> unit service_action" where
  "service_cleanup_job env name = as_internal ''cleanup_job failed'' (on_jobs (cleanup_request (be_os env) name))"

definition service_job_info :: "babel_env \<Rightarrow> string \<Rightarrow> job_info service_action" where
  "service_job_info env name = as_internal ''job_status failed'' (on_jobs (job_info_of (be_os env) name))"

definition service_job_timeout :: "string \<Rightarrow> nat service_action" where
  "service_job_timeout name = read_state (\<lambda>s. get_job_shutdown_timeout name (bs_manager s))"

definition service_jobs_timeout :: "nat service_action" where
  "service_jobs_timeout = read_state (\<lambda>s. get_active_jobs_shutdown_timeout (bs_manager s))"

definition service_get_jobs :: "babel_env \<Rightarrow> jobs_info service_action" where
  "service_get_jobs env = as_internal ''list jobs failed'' (on_jobs (list_all_jobs (be_os env)))"

definition JOBS_DIR :: path where "JOBS_DIR = ''/var/lib/babel/jobs''"
definition PLUGIN_CONFIG_FILENAME :: string where "PLUGIN_CONFIG_FILENAME = ''plugin_config.json''"

text \<open>The directory of the job is made when it is missing; the jobs manager keeps it afterwards.\<close>

definition save_plugin_config_for_job :: "babel_env \<Rightarrow> string \<Rightarrow> string \<Rightarrow> unit service_action" where
  "save_plugin_config_for_job env name json =
     (let dir = path_join JOBS_DIR name; file = path_join dir PLUGIN_CONFIG_FILENAME
      in steps [
        as_internal (''Failed to create job directory '' @ dir)
          (on_jobs (on_disk (\<lambda>disk.
             if disk dir \<noteq> None then (Inr (), disk)
             else case dir_create_error (os_job_io (be_os env)) dir of
                    Some e \<Rightarrow> (Inl e, disk)
                  | None \<Rightarrow> (Inr (), disk(dir \<mapsto> empty_job_files))))),
        (case plugin_config_write_error env file of
           Some e \<Rightarrow> fail (internal_status (''Failed to save plugin config to '' @ file @ '': '' @ e))
         | None \<Rightarrow> update_state (\<lambda>s. s\<lparr>plugin_configs := (plugin_configs s)(file \<mapsto> json)\<rparr>))])"

definition service_render_template :: "babel_env \<Rightarrow> path \<Rightarrow> path \<Rightarrow> string \<Rightarrow> unit service_action" where
  "service_render_template env tmpl dest params_text =
     (case be_render env tmpl dest params_text of
        Inl e \<Rightarrow> fail (internal_status (''failed to render template file with: '' @ e))
      | Inr text \<Rightarrow> update_state (\<lambda>s. s\<lparr>bs_files := (bs_files s)(dest \<mapsto> map of_char text)\<rparr>))"

definition service_file_write :: "babel_env \<Rightarrow> (string + binary) list \<Rightarrow> unit service_action" where
  "service_file_write env stream =
     (case stream of
        Inr (Destination p) # rest \<Rightarrow>
          try_then (as_internal (''file_write '' @ p @ '' failed'')
                      (on_files (save_bin_stream (be_crc env) (be_bin_io env) p rest))) (\<lambda>_. ok ())
      | _ \<Rightarrow> fail (internal_status ''missing file destination''))"

definition service_file_read :: "babel_env \<Rightarrow> path \<Rightarrow> binary list service_action" where
  "service_file_read env p = with_state (\<lambda>s.
     case bs_files s p of
       None \<Rightarrow> fail (internal_status (''file_read '' @ p @ '' failed: failed to load binary '' @ p))
     | Some content \<Rightarrow> ok (fst (load_bin (be_crc env) (read_results (be_bin_io env) content))))"

definition PROTOCOL_DATA_LOCK_FILENAME :: string where "PROTOCOL_DATA_LOCK_FILENAME = ''.protocol_data.lock''"

definition protocol_data_stamp :: "babel_env \<Rightarrow> path \<Rightarrow> string + nat option" where
  "protocol_data_stamp env mount =
     (case data_lock env (path_join mount PROTOCOL_DATA_LOCK_FILENAME) of
        None \<Rightarrow> Inr None
      | Some (Inl e) \<Rightarrow> Inl (''failed to check .protocol_data.lock timestamp: '' @ e)
      | Some (Inr stamp) \<Rightarrow> Inr (Some stamp))"

definition service_data_stamp :: "babel_env \<Rightarrow> nat option service_action" where
  "service_data_stamp env = with_state (\<lambda>s.
     case babel_conf s of
       None \<Rightarrow> fail (internal_status ''failed to read babel config'')
     | Some c \<Rightarrow>
         (case protocol_data_stamp env (data_mount_point (bc_node_env c)) of
            Inl e \<Rightarrow> fail (internal_status (''failed to get protocol data stamp: '' @ e))
          | Inr stamp \<Rightarrow> ok stamp))"

section \<open>Shell commands and HTTP requests\<close>

definition trim_end :: "string \<Rightarrow> string" where
  "trim_end s = rev (dropWhile is_whitespace (rev s))"

text \<open>\<open>trim_end_matches\<close> with a pattern of one and of two characters.\<close>

definition trim_end_char :: "char \<Rightarrow> string \<Rightarrow> string" where
  "trim_end_char c s = rev (dropWhile (\<lambda>x. x = c) (rev s))"

fun drop_pairs :: "char \<Rightarrow> string \<Rightarrow> string" where
  "drop_pairs c (x # y # xs) = (if x = c \<and> y = c then drop_pairs c xs else x # y # xs)"
| "drop_pairs c xs = xs"

definition bv_shell :: "babel_env \<Rightarrow> string \<Rightarrow> string \<times> string list" where
  "bv_shell env text =
     (let body = trim_end (rev (drop_pairs (CHR ''&'') (rev (trim_end (trim_end_char (CHR 92) (trim text))))))
      in case bv_user env of
           Some user \<Rightarrow> (''su'', [''-'', user, ''-c'', body])
         | None \<Rightarrow> (''sh'', [''-c'', body]))"

definition timeout_of :: "string option \<Rightarrow> nat option" where
  "timeout_of header = (case extract_grpc_timeout header of Inl _ \<Rightarrow> None | Inr t \<Rightarrow> Some t)"

definition handle_sh :: "babel_env \<Rightarrow> string option \<Rightarrow> string \<Rightarrow> string + sh_response" where
  "handle_sh env header body =
     and_then (be_sh env (bv_shell env body) (timeout_of header)) (\<lambda>out.
       case out_code out of
         None \<Rightarrow> Inl (''Failed to run command `'' @ body @ ''`'')
       | Some code \<Rightarrow> Inr \<lparr>sh_exit_code = code, sh_stdout = out_stdout out, sh_stderr = out_stderr out\<rparr>)"

definition send_http_request :: "babel_env \<Rightarrow> http_request \<Rightarrow> (string \<times> string) list option \<Rightarrow> string option \<Rightarrow> string + http_response" where
  "send_http_request env rq headers header =
     (let hs = unwrap_or headers []
      in and_then (check_all (\<lambda>h. case be_header_error env h of Some e \<Rightarrow> Inl e | None \<Rightarrow> Inr ()) hs)
           (\<lambda>_. be_http env (rq\<lparr>rq_headers := hs, rq_timeout := timeout_of header\<rparr>)))"

record jrpc_request =
  jr_host :: string
  jr_method :: string
  jr_params :: "string option"
  jr_headers :: "(string \<times> string) list option"

record rest_request =
  rr_url :: string
  rr_headers :: "(string \<times> string) list option"

definition handle_jrpc :: "babel_env \<Rightarrow> string option \<Rightarrow> jrpc_request \<Rightarrow> string + http_response" where
  "handle_jrpc env header rq =
     and_then (case jr_params rq of
         None \<Rightarrow> Inr ()
       | Some p \<Rightarrow> (case be_json_error env p of Some e \<Rightarrow> Inl e | None \<Rightarrow> Inr ()))
       (\<lambda>_. send_http_request env
              \<lparr>rq_post = True, rq_url = jr_host rq, rq_json = Some (jr_method rq, jr_params rq), rq_headers = [], rq_timeout = None\<rparr>
              (jr_headers rq) header)"

definition handle_rest :: "babel_env \<Rightarrow> string option \<Rightarrow> rest_request \<Rightarrow> string + http_response" where
  "handle_rest env header rq =
     send_http_request env \<lparr>rq_post = False, rq_url = rr_url rq, rq_json = None, rq_headers = [], rq_timeout = None\<rparr>
       (rr_headers rq) header"

definition to_protocol_err :: "string + 'a \<Rightarrow> 'a service_action" where
  "to_protocol_err r = (case r of Inl e \<Rightarrow> fail (internal_status e) | Inr x \<Rightarrow> ok x)"

definition service_run_sh :: "babel_env \<Rightarrow> string option \<Rightarrow> string \<Rightarrow> sh_response service_action" where
  "service_run_sh env header body = to_protocol_err (handle_sh env header body)"

definition service_run_jrpc :: "babel_env \<Rightarrow> string option \<Rightarrow> jrpc_request \<Rightarrow> http_response service_action" where
  "service_run_jrpc env header rq = to_protocol_err (handle_jrpc env header rq)"

definition service_run_rest :: "babel_env \<Rightarrow> string option \<Rightarrow> rest_request \<Rightarrow> http_response service_action" where
  "service_run_rest env header rq = to_protocol_err (handle_rest env header rq)"

end
