(* ===== verification/Job_Confs.thy ===== *)
theory Job_Confs
  imports Jobs_Manager
begin

text \<open>
  The configurations of the jobs in the registry of the jobs manager: only the creation of a job sets
  one. Every other request, the reports of the runners and the passes of the manager loop keep them.
\<close>

definition job_confs :: "manager \<Rightarrow> string \<Rightarrow> job_config option" where
  "job_confs s name = map_option job_conf (get_job name s)"

lemma job_confs_put: "job_confs (put_job name j s) = (job_confs s)(name \<mapsto> job_conf j)"
  by (rule ext) (simp add: job_confs_def)

lemma job_confs_put_same:
  assumes "get_job name s = Some j" and "job_conf j' = job_conf j"
  shows "job_confs (put_job name j' s) = job_confs s"
  using assms by (auto simp: job_confs_def)

lemma job_confs_jobs: "jobs t = jobs s \<Longrightarrow> job_confs t = job_confs s"
  by (rule ext) (simp add: job_confs_def get_job_def)

lemma job_confs_fields [simp]:
  "job_confs (s\<lparr>job_disk := d\<rparr>) = job_confs s" "job_confs (s\<lparr>archive_fs := f\<rparr>) = job_confs s"
  "job_confs (s\<lparr>runners := r\<rparr>) = job_confs s" "job_confs (bv_error e s) = job_confs s"
  "job_confs (s\<lparr>manager_st := st\<rparr>) = job_confs s" "job_confs (s\<lparr>manager_env := env\<rparr>) = job_confs s"
  by (rule job_confs_jobs; simp)+

lemma job_conf_changes [simp]:
  "job_conf (push_log f now m j) = job_conf j" "job_conf (update_job now j) = job_conf j"
  "job_conf (register_restart now j) = job_conf j" "job_conf (set_inactive now st j) = job_conf j"
  "job_conf (set_active now pid j) = job_conf j" "job_conf (j\<lparr>job_st := js\<rparr>) = job_conf j"
  by (simp_all add: push_log_def update_job_def register_restart_def set_inactive_def set_active_def Let_def)

lemma job_confs_on_disk: "job_confs (snd (on_disk m s)) = job_confs s"
  by (simp add: snd_on_disk)

lemma job_confs_terminate: "job_confs (snd (terminate_if_active os name j s)) = job_confs s"
  by (auto simp: terminate_if_active_def terminate_job_process_def intro!: job_confs_jobs
      split: job_state.split)

section \<open>Requests\<close>

lemma job_confs_end_job:
  assumes "get_job name s = Some j"
  shows "job_confs (snd (end_job os status name j s)) = job_confs s"
proof -
  obtain r u where u: "terminate_if_active os name j s = (r, u)" by (cases "terminate_if_active os name j s")
  with job_confs_terminate [of os name j s] have "job_confs u = job_confs s" by simp
  moreover from this assms have "job_confs u name = Some (job_conf j)"
    by (simp add: job_confs_def)
  ultimately show ?thesis
    using u by (cases r) (auto simp: end_job_def try_then_def Let_def job_confs_on_disk job_confs_put fun_upd_idem)
qed

lemma job_confs_stop: "job_confs (snd (stop_request os name s)) = job_confs s"
  by (simp add: stop_request_def job_confs_end_job split: option.split)

lemma job_confs_skip: "job_confs (snd (skip_request os name s)) = job_confs s"
  by (simp add: skip_request_def job_confs_end_job split: option.split)

lemma job_confs_for_each: "(\<And>x s. job_confs (snd (f x s)) = job_confs s) \<Longrightarrow> job_confs (snd (for_each f xs s)) = job_confs s"
proof (induction xs arbitrary: s)
  case (Cons x xs)
  obtain r t where t: "f x s = (r, t)" by (cases "f x s")
  with Cons.prems [of x s] Cons.IH [OF Cons.prems, of t] show ?case
    by (cases r) (simp_all add: try_then_def)
qed simp

lemma job_confs_stop_all: "job_confs (snd (stop_all os s)) = job_confs s"
  unfolding stop_all_def by (rule job_confs_for_each) (rule job_confs_stop)

lemma job_confs_start_request: "job_confs (snd (start_request name os s)) = job_confs s"
  by (auto simp: start_request_def Let_def job_confs_on_disk job_confs_put_same split: option.split)

lemma job_confs_job_info: "job_confs (snd (job_info_of os name s)) = job_confs s"
  by (auto simp: job_info_of_def Let_def case_prod_beta job_confs_put_same split: option.split)

lemma job_confs_list: "job_confs (snd (list_jobs os names s)) = job_confs s"
proof (induction names arbitrary: s)
  case (Cons name names)
  obtain r t where t: "job_info_of os name s = (r, t)" by (cases "job_info_of os name s")
  with job_confs_job_info [of os name s] have "job_confs t = job_confs s" by simp
  moreover obtain r' u where "list_jobs os names t = (r', u)" by (cases "list_jobs os names t")
  ultimately show ?case
    using t Cons.IH [of t] by (cases r; cases r') (simp_all add: try_then_def)
qed simp

lemma job_confs_list_all: "job_confs (snd (list_all_jobs os s)) = job_confs s"
  by (simp add: list_all_jobs_def job_confs_list)

lemma job_confs_create:
  "create_job os name c s = (Inr (), t) \<Longrightarrow> job_confs t = (job_confs s)(name \<mapsto> c)"
  "create_job os name c s = (Inl e, t) \<Longrightarrow> job_confs t = job_confs s"
proof -
  have guard: "job_confs (snd (create_guard os name u)) = job_confs u" for u
    by (simp add: create_guard_def job_confs_terminate split: option.split)
  let ?store = "\<lambda>m. on_disk m :: unit manager_action"
  have disk: "job_confs u' = job_confs u" if "on_disk m u = (r, u')" for m :: "(job_disk, string, unit) action" and r u u'
    using that job_confs_on_disk [of m u] by simp
  have guarded: "job_confs u' = job_confs u" if "create_guard os name u = (r, u')" for r u u'
    using that guard [of u] by simp
  note unfold = create_job_def store_new_job_def
  show "job_confs t = (job_confs s)(name \<mapsto> c)" if "create_job os name c s = (Inr (), t)"
    using that by (auto simp: unfold try_then_Inr_iff job_confs_put job_new_def dest!: guarded disk)
  show "job_confs t = job_confs s" if "create_job os name c s = (Inl e, t)"
    using that by (auto simp: unfold try_then_Inl_iff job_new_def dest!: guarded disk)
qed

section \<open>The manager loop\<close>

lemma job_confs_start_job:
  assumes "get_job name s = Some j" and "job_conf j' = job_conf j"
  shows "job_confs (start_job os name j' s) = job_confs s"
proof -
  have idem: "(job_confs s)(name \<mapsto> job_conf j) = job_confs s"
    using assms(1) by (auto simp: job_confs_def)
  show ?thesis
    using assms(2)
    by (auto simp: start_job_def on_disk_def start_job_runner_def log_error_def save_failed_status_def Let_def case_prod_beta
        job_confs_put idem split: sum.split prod.split)
qed

lemma job_confs_stopped: "get_job name s = Some j \<Longrightarrow> job_confs (handle_stopped_job os name j s) = job_confs s"
  using job_confs_start_job
  by (auto simp: handle_stopped_job_def ended_status_def Let_def job_confs_put_same split: sum.split)

lemma job_confs_update_active: "job_confs (update_active_job os ps name s) = job_confs s"
  by (simp add: update_active_job_def job_confs_stopped split: option.split job_state.split)

lemma job_confs_fail_pending: "get_job name s = Some j \<Longrightarrow> job_confs (fail_pending_job os name j stamp err s) = job_confs s"
  by (auto simp: fail_pending_job_def on_disk_def save_failed_status_def log_error_def Let_def case_prod_beta job_confs_put
      job_confs_def split: sum.split)

lemma job_confs_check_inactive: "job_confs (check_inactive_job os deps name s) = job_confs s"
  by (auto simp: check_inactive_job_def job_confs_start_job job_confs_stopped job_confs_fail_pending
      split: option.split job_state.split job_status.split sum.split bool.split)

lemma job_confs_fold: "(\<And>x s. job_confs (f x s) = job_confs s) \<Longrightarrow> job_confs (fold f xs s) = job_confs s"
  by (induction xs arbitrary: s) simp_all

lemma job_confs_update_jobs: "job_confs (update_jobs os ps s) = job_confs s"
  by (simp add: update_jobs_def check_inactive_jobs_def update_active_jobs_def job_confs_fold
      job_confs_update_active job_confs_check_inactive)

end
