(* ===== verification/Plugin_Plan.thy ===== *)
theory Plugin_Plan
  imports Rhai_Plugin
begin

text \<open>
  What the default \<open>init\<close> and \<open>upload\<close> of a plugin are meant to do, as a plan: the list of jobs, in
  the order in which they are created, with their configurations. The interface \<open>job_engine\<close> states
  what an engine promises about the configurations of its jobs; over any such engine the default
  functions carry out the plan.
\<close>

section \<open>Plans\<close>

type_synonym plan = "(string \<times> job_config) list"

definition aux_plan :: "aux_service list option \<Rightarrow> plan" where
  "aux_plan ss = map (\<lambda>s. (aux_name s, build_service_job_config (service_of_aux s) [] [])) (unwrap_or ss [])"

definition jobs_plan :: "plugin_job list option \<Rightarrow> string list \<Rightarrow> plan" where
  "jobs_plan js required = map (\<lambda>j. (pj_name j, build_job_config (job_with_needs j required))) (unwrap_or js [])"

definition services_plan :: "service list \<Rightarrow> string list \<Rightarrow> string list \<Rightarrow> plan" where
  "services_plan ss required awaited = map (\<lambda>s. (svc_name s, build_service_job_config s required awaited)) ss"

text \<open>What the next jobs need: the last jobs started, or what these were to need when there are none.\<close>

definition after_jobs :: "plugin_job list option \<Rightarrow> string list \<Rightarrow> string list" where
  "after_jobs js required = (if unwrap_or js [] = [] then required else map pj_name (unwrap_or js []))"

definition data_plan :: "'d plugin_config \<Rightarrow> bool \<Rightarrow> string list \<Rightarrow> plan" where
  "data_plan c has_data required =
     (if has_multi_client_services (services c)
      then (DOWNLOAD_JOB_NAME, build_multi_client_download_job_config (download c) required)
             # jobs_plan (post_download c) [DOWNLOAD_JOB_NAME]
      else if has_data then []
      else case alternative_download c of
        Some alt \<Rightarrow> (DOWNLOAD_JOB_NAME, build_alternative_download_job_config alt required)
                      # jobs_plan (post_download c) [DOWNLOAD_JOB_NAME]
      | None \<Rightarrow> (case cold_init c of
          Some ci \<Rightarrow> [(COLD_INIT_JOB_NAME, build_cold_init_job_config ci required)]
        | None \<Rightarrow> []))"

definition after_data :: "'d plugin_config \<Rightarrow> bool \<Rightarrow> string list \<Rightarrow> string list" where
  "after_data c has_data required =
     (if has_multi_client_services (services c) \<or> (\<not> has_data \<and> alternative_download c \<noteq> None)
      then after_jobs (post_download c) [DOWNLOAD_JOB_NAME]
      else if \<not> has_data \<and> cold_init c \<noteq> None then [COLD_INIT_JOB_NAME]
      else required)"

definition init_jobs :: "'d plugin_config \<Rightarrow> plugin_job list option" where
  "init_jobs c = map_option act_jobs (init c)"

definition init_plan :: "'d plugin_config \<Rightarrow> bool \<Rightarrow> plan" where
  "init_plan c has_data =
     (let required = after_jobs (init_jobs c) []
      in aux_plan (aux_services c) @ jobs_plan (init_jobs c) [] @ data_plan c has_data required
           @ services_plan (services c) (after_data c has_data required) [])"

text \<open>The needs the author of the plugin declared for jobs that run on \<open>init\<close>.\<close>

definition declared_needs :: "'d plugin_config \<Rightarrow> string set" where
  "declared_needs c =
     (\<Union>j \<in> set (unwrap_or (init_jobs c) []) \<union> set (unwrap_or (post_download c) []). set (unwrap_or (pj_needs j) []))"

text \<open>Each job of a plan waits only for \<open>known\<close> jobs and for jobs planned before it.\<close>

fun in_order :: "string set \<Rightarrow> plan \<Rightarrow> bool" where
  "in_order known [] = True"
| "in_order known ((n, c) # p) \<longleftrightarrow> set (waiting_for c) \<subseteq> known \<and> in_order (insert n known) p"

lemma in_order_append: "in_order known (p @ q) \<longleftrightarrow> in_order known p \<and> in_order (known \<union> fst ` set p) q"
  by (induction known p rule: in_order.induct) auto

lemma in_order_mono: "in_order known p \<Longrightarrow> known \<subseteq> known' \<Longrightarrow> in_order known' p"
  by (induction known p arbitrary: known' rule: in_order.induct) (simp, metis in_order.simps(2) insert_mono order_trans)

lemma in_order_free: "(\<And>n c. (n, c) \<in> set p \<Longrightarrow> set (waiting_for c) \<subseteq> known) \<Longrightarrow> in_order known p"
  by (induction known p rule: in_order.induct) (auto intro: in_order_mono)

lemma in_order_deps: "in_order known p \<Longrightarrow> (n, c) \<in> set p \<Longrightarrow> set (waiting_for c) \<subseteq> known \<union> fst ` set p"
  by (induction known p rule: in_order.induct) force+

lemma waiting_for_service: "set (waiting_for (build_service_job_config s required awaited)) \<subseteq> set required \<union> set awaited"
  by (simp add: waiting_for_def build_service_job_config_def)

lemma waiting_for_job:
  "set (waiting_for (build_job_config (job_with_needs j required))) = set (unwrap_or (pj_needs j) []) \<union> set required"
  by (simp add: waiting_for_def build_job_config_def job_with_needs_def)

lemma waiting_for_archive: "waiting_for (archive_job_config t r required) = required"
  by (simp add: waiting_for_def archive_job_config_def)

lemma waiting_for_download: "waiting_for (build_multi_client_download_job_config d required) = required"
  by (simp add: build_multi_client_download_job_config_def waiting_for_archive split: option.split)

lemma waiting_for_alternatives:
  "waiting_for (build_alternative_download_job_config alt required) = required"
  "waiting_for (build_cold_init_job_config ci required) = required"
  by (simp_all add: waiting_for_def build_alternative_download_job_config_def build_cold_init_job_config_def)

lemmas waiting_rules = waiting_for_job waiting_for_download waiting_for_alternatives

lemma jobs_plan_in_order:
  assumes "set required \<subseteq> known" and "\<And>j. j \<in> set (unwrap_or js []) \<Longrightarrow> set (unwrap_or (pj_needs j) []) \<subseteq> known"
  shows "in_order known (jobs_plan js required)"
  using assms by (intro in_order_free) (fastforce simp: jobs_plan_def waiting_rules)

lemma services_plan_in_order:
  "set required \<subseteq> known \<Longrightarrow> set awaited \<subseteq> known \<Longrightarrow> in_order known (services_plan ss required awaited)"
  using waiting_for_service by (intro in_order_free) (fastforce simp: services_plan_def)

lemma names_of_jobs_plan: "fst ` set (jobs_plan js required) = pj_name ` set (unwrap_or js [])"
  by (force simp: jobs_plan_def)

lemma after_jobs_planned: "set (after_jobs js required) \<subseteq> set required \<union> pj_name ` set (unwrap_or js [])"
  by (auto simp: after_jobs_def)

lemma after_data_planned: "set (after_data c h required) \<subseteq> set required \<union> fst ` set (data_plan c h required)"
  using after_jobs_planned [of "post_download c" "[DOWNLOAD_JOB_NAME]"]
  by (auto simp: after_data_def data_plan_def names_of_jobs_plan split: option.split)

lemma data_plan_in_order:
  assumes "set required \<subseteq> known" and "declared_needs c \<subseteq> known"
  shows "in_order known (data_plan c h required)"
proof -
  have "in_order (insert DOWNLOAD_JOB_NAME known) (jobs_plan (post_download c) [DOWNLOAD_JOB_NAME])"
    using assms(2) by (intro jobs_plan_in_order) (auto simp: declared_needs_def)
  with assms(1) show ?thesis
    by (simp add: data_plan_def waiting_rules split: option.split)
qed

lemma init_plan_in_order: "in_order (declared_needs c) (init_plan c h)"
proof -
  let ?req = "after_jobs (init_jobs c) []"
  let ?aux = "aux_plan (aux_services c)" and ?jobs = "jobs_plan (init_jobs c) []"
  let ?known = "declared_needs c \<union> fst ` set ?aux \<union> fst ` set ?jobs"
  have "in_order (declared_needs c) ?aux"
    using waiting_for_service [of _ "[]" "[]"] by (intro in_order_free) (force simp: aux_plan_def)
  moreover have "in_order (declared_needs c \<union> fst ` set ?aux) ?jobs"
    by (intro jobs_plan_in_order) (auto simp: declared_needs_def)
  moreover have req: "set ?req \<subseteq> ?known"
    using after_jobs_planned [of "init_jobs c" "[]"] by (auto simp: names_of_jobs_plan)
  then have "in_order ?known (data_plan c h ?req)"
    by (intro data_plan_in_order) auto
  moreover have "in_order (?known \<union> fst ` set (data_plan c h ?req)) (services_plan (services c) (after_data c h ?req) [])"
    using after_data_planned [of c h ?req] req by (intro services_plan_in_order) auto
  ultimately show ?thesis
    by (simp add: init_plan_def Let_def in_order_append Un_assoc)
qed

lemma names_of_plans:
  "map fst (aux_plan ss) = map aux_name (unwrap_or ss [])" "map fst (jobs_plan js required) = map pj_name (unwrap_or js [])"
  "map fst (services_plan vs required awaited) = map svc_name vs"
  by (simp_all add: aux_plan_def jobs_plan_def services_plan_def comp_def)

text \<open>The names of a plan are among those the validation makes distinct.\<close>

lemma plan_names:
  obtains a i d v rest D where "map fst (init_plan c h) = a @ i @ D @ v" and "job_names c = a @ i @ d @ v @ rest"
    and "D \<in> {[], [DOWNLOAD_JOB_NAME], DOWNLOAD_JOB_NAME # d}"
proof -
  define a where "a = map aux_name (unwrap_or (aux_services c) [])"
  define i where "i = map pj_name (unwrap_or (init_jobs c) [])"
  define d where "d = map pj_name (unwrap_or (post_download c) [])"
  define v where "v = map svc_name (services c)"
  define D where "D = map fst (data_plan c h (after_jobs (init_jobs c) []))"
  have "(case init c of None \<Rightarrow> [] | Some x \<Rightarrow> map pj_name (act_jobs x)) = i"
    by (simp add: i_def init_jobs_def split: option.split)
  then obtain rest where "job_names c = a @ i @ d @ v @ rest"
    by (simp add: job_names_def a_def d_def v_def)
  moreover have "D \<in> {[], [DOWNLOAD_JOB_NAME], DOWNLOAD_JOB_NAME # d}"
    by (auto simp: D_def d_def data_plan_def names_of_plans COLD_INIT_JOB_NAME_def DOWNLOAD_JOB_NAME_def split: option.split)
  moreover have "map fst (init_plan c h) = a @ i @ D @ v"
    by (simp add: init_plan_def Let_def names_of_plans a_def i_def D_def v_def)
  ultimately show thesis by (rule that [rotated])
qed

lemma init_plan_distinct:
  assumes "validate c = Inr ()"
  shows "distinct (map fst (init_plan c h))"
proof -
  obtain a i d v rest D where plan: "map fst (init_plan c h) = a @ i @ D @ v" and names: "job_names c = a @ i @ d @ v @ rest"
    and D: "D \<in> {[], [DOWNLOAD_JOB_NAME], DOWNLOAD_JOB_NAME # d}"
    by (rule plan_names)
  from assms have "distinct (DOWNLOAD_JOB_NAME # a @ i @ d @ v @ rest)"
    by (simp only: validate_Inr_iff distinct.simps names) blast
  with D have "distinct (a @ i @ D @ v)" by auto
  then show ?thesis by (simp only: plan)
qed

lemma init_plan_names: "n \<in> fst ` set (init_plan c h) \<Longrightarrow> n = DOWNLOAD_JOB_NAME \<or> n \<in> set (job_names c)"
proof -
  assume "n \<in> fst ` set (init_plan c h)"
  then have n: "n \<in> set (map fst (init_plan c h))" by simp
  obtain a i d v rest D where plan: "map fst (init_plan c h) = a @ i @ D @ v" and names: "job_names c = a @ i @ d @ v @ rest"
    and D: "D \<in> {[], [DOWNLOAD_JOB_NAME], DOWNLOAD_JOB_NAME # d}"
    by (rule plan_names)
  from n D show ?thesis
    unfolding plan names by auto
qed

text \<open>
  The plan of the default \<open>upload\<close>: data is uploaded when a service that uses protocol data is
  archived; a valid configuration gives each such service a store key, so the upload is the one of
  multiple clients.
\<close>

definition uploads_data :: "'d plugin_config \<Rightarrow> bool" where
  "uploads_data c = list_ex (\<lambda>s. svc_archive s \<and> svc_use_protocol_data s) (services c)"

definition pre_upload_jobs :: "'d plugin_config \<Rightarrow> plugin_job list option" where
  "pre_upload_jobs c = map_option act_jobs (pre_upload c)"

definition upload_plan :: "'d plugin_config \<Rightarrow> plan" where
  "upload_plan c =
     (let required = after_jobs (pre_upload_jobs c) [];
          uploaded = (if uploads_data c then [UPLOAD_JOB_NAME] else required)
      in jobs_plan (pre_upload_jobs c) []
           @ (if uploads_data c then [(UPLOAD_JOB_NAME, build_multi_client_upload_job_config (upload c) required)] else [])
           @ jobs_plan (post_upload c) uploaded
           @ services_plan (filter svc_use_protocol_data (services c)) [] (after_jobs (post_upload c) uploaded))"

definition declared_upload_needs :: "'d plugin_config \<Rightarrow> string set" where
  "declared_upload_needs c =
     (\<Union>j \<in> set (unwrap_or (pre_upload_jobs c) []) \<union> set (unwrap_or (post_upload c) []). set (unwrap_or (pj_needs j) []))"

lemma waiting_for_upload: "waiting_for (build_multi_client_upload_job_config u required) = required"
  by (simp add: build_multi_client_upload_job_config_def waiting_for_archive split: option.split)

lemma upload_plan_in_order: "in_order (declared_upload_needs c) (upload_plan c)"
proof -
  let ?D = "declared_upload_needs c" and ?pre = "jobs_plan (pre_upload_jobs c) []"
  let ?required = "after_jobs (pre_upload_jobs c) []"
  let ?known = "?D \<union> fst ` set ?pre"
  let ?upload = "if uploads_data c then [(UPLOAD_JOB_NAME, build_multi_client_upload_job_config (upload c) ?required)] else []"
  let ?uploaded = "if uploads_data c then [UPLOAD_JOB_NAME] else ?required"
  have "in_order ?D ?pre"
    by (intro jobs_plan_in_order) (auto simp: declared_upload_needs_def)
  moreover have req: "set ?required \<subseteq> ?known"
    using after_jobs_planned [of "pre_upload_jobs c" "[]"] by (auto simp: names_of_jobs_plan)
  then have "in_order ?known ?upload"
    by (simp add: waiting_for_upload)
  moreover have next_known: "set ?uploaded \<subseteq> ?known \<union> fst ` set ?upload" using req by auto
  then have "in_order (?known \<union> fst ` set ?upload) (jobs_plan (post_upload c) ?uploaded)"
    by (intro jobs_plan_in_order) (auto simp: declared_upload_needs_def)
  moreover have "in_order (?known \<union> fst ` set ?upload \<union> fst ` set (jobs_plan (post_upload c) ?uploaded))
      (services_plan (filter svc_use_protocol_data (services c)) [] (after_jobs (post_upload c) ?uploaded))"
    using after_jobs_planned [of "post_upload c" ?uploaded] next_known by (intro services_plan_in_order) (auto simp: names_of_jobs_plan)
  ultimately show ?thesis
    by (simp add: upload_plan_def Let_def in_order_append Un_assoc)
qed

lemma upload_plan_names:
  obtains v where "map fst (upload_plan c) = map pj_name (unwrap_or (pre_upload_jobs c) []) @
      (if uploads_data c then [UPLOAD_JOB_NAME] else []) @ map pj_name (unwrap_or (post_upload c) []) @ v"
    and "v = map svc_name (filter svc_use_protocol_data (services c))"
  by (rule that) (simp_all add: upload_plan_def Let_def names_of_plans)

lemma upload_plan_distinct:
  assumes "validate c = Inr ()"
  shows "distinct (map fst (upload_plan c))"
proof -
  have pre: "(case pre_upload c of None \<Rightarrow> [] | Some a \<Rightarrow> map pj_name (act_jobs a)) = map pj_name (unwrap_or (pre_upload_jobs c) [])"
    by (simp add: pre_upload_jobs_def split: option.split)
  have "distinct (UPLOAD_JOB_NAME # job_names c)" using assms by (simp add: validate_Inr_iff)
  then have "distinct (map svc_name (services c))" "distinct (map pj_name (unwrap_or (pre_upload_jobs c) []))"
    "distinct (map pj_name (unwrap_or (post_upload c) []))"
    "set (map pj_name (unwrap_or (pre_upload_jobs c) [])) \<inter> set (map pj_name (unwrap_or (post_upload c) [])) = {}"
    "set (map svc_name (services c)) \<inter> set (map pj_name (unwrap_or (pre_upload_jobs c) [])) = {}"
    "set (map svc_name (services c)) \<inter> set (map pj_name (unwrap_or (post_upload c) [])) = {}"
    "UPLOAD_JOB_NAME \<notin> set (map svc_name (services c)) \<union> set (map pj_name (unwrap_or (pre_upload_jobs c) []))
      \<union> set (map pj_name (unwrap_or (post_upload c) []))"
    unfolding job_names_def pre by auto
  then show ?thesis
    by (rule_tac upload_plan_names [of c]) (auto simp: distinct_map_filter)
qed

lemma upload_plan_without: "\<not> uploads_data c \<Longrightarrow> n \<in> fst ` set (upload_plan c) \<Longrightarrow> n \<in> set (job_names c)"
  by (cases "pre_upload c")
    (auto simp: upload_plan_def Let_def job_names_def jobs_plan_def services_plan_def pre_upload_jobs_def)

lemma upload_plan_known: "n \<in> fst ` set (upload_plan c) \<Longrightarrow> n = UPLOAD_JOB_NAME \<or> n \<in> set (job_names c)"
  by (cases "pre_upload c")
    (auto simp: upload_plan_def Let_def job_names_def jobs_plan_def services_plan_def pre_upload_jobs_def split: if_splits)

lemma valid_archivable:
  assumes "validate c = Inr ()"
  shows "has_archivable_services (filter svc_use_protocol_data (services c)) = uploads_data c"
    and "uploads_data c \<Longrightarrow> has_multi_client_services (filter svc_use_protocol_data (services c))"
  using assms
  by (auto simp: validate_Inr_iff valid_service_def has_archivable_services_def has_multi_client_services_def uploads_data_def list_ex_iff)

section \<open>Engines that keep the configurations of jobs\<close>

text \<open>
  The contract of an engine: \<open>confs\<close> is the configuration it holds for each job. Creating a job
  under a name sets the configuration held under its key, a start succeeds only for a job it holds,
  and no other operation touches a configuration.
\<close>

definition same_confs :: "('s \<Rightarrow> 'c) \<Rightarrow> ('s, 'e, 'a) action \<Rightarrow> bool" where
  "same_confs confs m \<longleftrightarrow> (\<forall>s. confs (snd (m s)) = confs s)"

lemma same_confsD: "same_confs confs m \<Longrightarrow> m s = (r, t) \<Longrightarrow> confs t = confs s"
  unfolding same_confs_def by (metis snd_conv)

lemma same_confs_rules:
  "same_confs confs (ok x)" "same_confs confs (fail e)"
  "same_confs confs m \<Longrightarrow> (\<And>x. same_confs confs (k x)) \<Longrightarrow> same_confs confs (try_then m k)"
  "same_confs confs m \<Longrightarrow> same_confs confs (ignore_result m)"
  by (auto simp: same_confs_def try_then_def ignore_result_def split: prod.split sum.split)
     (metis prod.collapse snd_conv)+

lemma same_confs_for_each: "(\<And>x. same_confs confs (f x)) \<Longrightarrow> same_confs confs (for_each f xs)"
  by (induction xs) (auto intro: same_confs_rules)

locale job_engine =
  fixes ops :: "('s, 'd) engine_ops" and confs :: "'s \<Rightarrow> string \<Rightarrow> job_config option" and key :: "string \<Rightarrow> string"
  assumes create: "op_create_job ops n c s = (Inr (), t) \<Longrightarrow> confs t = (confs s)(key n \<mapsto> c)"
    and start: "op_start_job ops n s = (Inr (), t) \<Longrightarrow> confs s n \<noteq> None"
    and start_keeps: "same_confs confs (op_start_job ops n)"
    and stop_keeps: "same_confs confs (op_stop_job ops n)"
    and stop_all_keeps: "same_confs confs (op_stop_all_jobs ops)"
    and get_keeps: "same_confs confs (op_get_jobs ops)"
    and run_sh_keeps: "same_confs confs (op_run_sh ops body timeout)"
    and render_keeps: "same_confs confs (op_render_template ops p d json)"
    and task_keeps: "same_confs confs (op_add_task ops tn sch f param)"
    and stamp_keeps: "same_confs confs (op_protocol_data_stamp ops)"
    and save_keeps: "same_confs confs (op_save_config ops cfg)"
begin

text \<open>The state \<open>t\<close> is reached from \<open>s\<close> by carrying out \<open>p\<close>.\<close>

definition carried_out :: "plan \<Rightarrow> 's \<Rightarrow> 's \<Rightarrow> bool" where
  "carried_out p s t \<longleftrightarrow>
     confs t = confs s ++ map_of (rev (map (apfst key) p)) \<and> (\<forall>n \<in> fst ` set p. confs t n \<noteq> None)"

lemma carried_out_Nil: "carried_out [] s t \<longleftrightarrow> confs t = confs s"
  by (simp add: carried_out_def)

lemma carried_out_append: "carried_out p s t \<Longrightarrow> carried_out q t u \<Longrightarrow> carried_out (p @ q) s u"
  by (auto simp: carried_out_def map_add_def split: option.split)

lemma carried_out_same: "confs s = confs s' \<Longrightarrow> confs t = confs t' \<Longrightarrow> carried_out p s t = carried_out p s' t'"
  by (simp add: carried_out_def)

lemma create_and_start:
  assumes "create_and_start_job ops nc s = (Inr (), t)"
  shows "carried_out [nc] s t"
proof -
  obtain n c where nc: "nc = (n, c)" by (cases nc)
  with assms obtain u where u: "op_create_job ops n c s = (Inr (), u)" "op_start_job ops n u = (Inr (), t)"
    by (auto simp: create_and_start_job_def try_then_Inr_iff)
  from same_confsD [OF start_keeps u(2)] create [OF u(1)] start [OF u(2)] nc show ?thesis
    by (simp add: carried_out_def)
qed

lemma start_all:
  "for_each (\<lambda>x. create_and_start_job ops (f x)) xs s = (Inr (), t) \<Longrightarrow> carried_out (map f xs) s t"
proof (induction xs arbitrary: s)
  case (Cons x xs)
  then obtain u where "create_and_start_job ops (f x) s = (Inr (), u)" and "carried_out (map f xs) u t"
    by (auto simp: try_then_Inr_iff)
  from carried_out_append [OF create_and_start [OF this(1)] this(2)] show ?case by simp
qed (simp add: carried_out_Nil)

lemma run_jobs_plan:
  assumes "run_jobs ops js required s = (Inr r, t)"
  shows "carried_out (jobs_plan js required) s t" and "r = after_jobs js required"
proof -
  show "r = after_jobs js required"
    using assms by (auto simp: run_jobs_def after_jobs_def try_then_Inr_iff split: option.splits if_splits)
  show "carried_out (jobs_plan js required) s t"
    using assms start_all [of "\<lambda>job. (pj_name job, build_job_config (job_with_needs job required))"]
    by (auto simp: run_jobs_def jobs_plan_def try_then_Inr_iff carried_out_Nil split: option.splits)
qed

lemma run_actions_plan:
  assumes "run_actions ops sc acts required s = (Inr r, t)"
  shows "carried_out (jobs_plan (map_option act_jobs acts) required) s t" and "r = after_jobs (map_option act_jobs acts) required"
proof -
  have keeps: "same_confs confs (for_each (run_command ops sc) cs)" for cs
    unfolding run_command_def by (intro same_confs_for_each same_confs_rules run_sh_keeps) (simp add: same_confs_rules)
  show "carried_out (jobs_plan (map_option act_jobs acts) required) s t"
    using assms
    by (cases acts) (auto simp: run_actions_def jobs_plan_def carried_out_Nil try_then_Inr_iff
          carried_out_same [OF same_confsD [OF keeps, symmetric] refl] dest!: run_jobs_plan(1))
  show "r = after_jobs (map_option act_jobs acts) required"
    using assms by (cases acts) (auto simp: run_actions_def after_jobs_def try_then_Inr_iff dest!: run_jobs_plan(2))
qed

lemma services_started:
  "start_services ops ss required awaited s = (Inr (), t) \<Longrightarrow> carried_out (services_plan ss required awaited) s t"
  unfolding start_services_def services_plan_def by (rule start_all)

lemma aux_started: "start_aux_services ops ss s = (Inr (), t) \<Longrightarrow> carried_out (aux_plan ss) s t"
  unfolding start_aux_services_def aux_plan_def by (rule start_all)

lemma keeps_render: "same_confs confs (render_configs_files ops sc files)"
  unfolding render_configs_files_def
  by (intro same_confs_for_each) (simp add: render_keeps same_confs_rules split: sum.split)

lemma keeps_add_tasks: "same_confs confs (add_tasks ops ts)"
  unfolding add_tasks_def by (intro same_confs_for_each task_keeps)

lemma carried_out_cong: "carried_out p s t \<Longrightarrow> confs s' = confs s \<Longrightarrow> confs t' = confs t \<Longrightarrow> carried_out p s' t'"
  by (metis carried_out_def)

lemma init_data_plan:
  assumes "init_data ops c required s = (Inr r, t)"
  shows "\<exists>h. carried_out (data_plan c h required) s t \<and> r = after_data c h required"
proof (cases "has_multi_client_services (services c)")
  case True
  with assms obtain u where
    u: "create_and_start_job ops (DOWNLOAD_JOB_NAME, build_multi_client_download_job_config (download c) required) s = (Inr (), u)"
       "run_jobs ops (post_download c) [DOWNLOAD_JOB_NAME] u = (Inr r, t)"
    by (auto simp: init_data_def try_then_Inr_iff)
  from carried_out_append [OF create_and_start [OF u(1)] run_jobs_plan(1) [OF u(2)]] run_jobs_plan(2) [OF u(2)] True
  show ?thesis by (auto simp: data_plan_def after_data_def)
next
  case False
  with assms obtain st u where st: "op_protocol_data_stamp ops s = (Inr st, u)"
    and rest: "(if st \<noteq> None then ok required else case alternative_download c of
          Some alt \<Rightarrow>
            try_then (create_and_start_job ops (DOWNLOAD_JOB_NAME, build_alternative_download_job_config alt required))
              (\<lambda>_. run_jobs ops (post_download c) [DOWNLOAD_JOB_NAME])
        | None \<Rightarrow>
            (case cold_init c of
               Some ci \<Rightarrow>
                 try_then (create_and_start_job ops (COLD_INIT_JOB_NAME, build_cold_init_job_config ci required))
                   (\<lambda>_. ok [COLD_INIT_JOB_NAME])
             | None \<Rightarrow> ok required)) u = (Inr r, t)"
    by (auto simp: init_data_def try_then_Inr_iff)
  note u = same_confsD [OF stamp_keeps st]
  have "carried_out (data_plan c (st \<noteq> None) required) u t \<and> r = after_data c (st \<noteq> None) required"
  proof (cases "st \<noteq> None")
    case True
    with False rest show ?thesis
      by (simp add: data_plan_def after_data_def carried_out_Nil)
  next
    case None: False
    show ?thesis
    proof (cases "alternative_download c")
      case (Some alt)
      with None rest obtain v where
        v: "create_and_start_job ops (DOWNLOAD_JOB_NAME, build_alternative_download_job_config alt required) u = (Inr (), v)"
           "run_jobs ops (post_download c) [DOWNLOAD_JOB_NAME] v = (Inr r, t)"
        by (auto simp: try_then_Inr_iff)
      from carried_out_append [OF create_and_start [OF v(1)] run_jobs_plan(1) [OF v(2)]] run_jobs_plan(2) [OF v(2)] Some None False
      show ?thesis by (auto simp: data_plan_def after_data_def)
    next
      case no_alt: None
      show ?thesis
      proof (cases "cold_init c")
        case (Some ci)
        with None no_alt rest have "r = [COLD_INIT_JOB_NAME]"
          and started: "create_and_start_job ops (COLD_INIT_JOB_NAME, build_cold_init_job_config ci required) u = (Inr (), t)"
          by (auto simp: try_then_Inr_iff)
        with create_and_start [OF started] Some None no_alt False show ?thesis
          by (simp add: data_plan_def after_data_def)
      next
        case no_init: None
        with None no_alt rest False show ?thesis
          by (simp add: data_plan_def after_data_def carried_out_Nil)
      qed
    qed
  qed
  then show ?thesis
    using carried_out_cong [OF _ u [symmetric] refl] by blast
qed

lemma default_init_plan:
  assumes "default_init ops sc (Some c) s = (Inr (), t)"
  shows "\<exists>h. carried_out (init_plan c h) s t"
proof -
  from assms obtain s1 s2 s3 s4 s5 s6 req req' where
    st: "op_stop_all_jobs ops s = (Inr (), s1)" "render_configs_files ops sc (config_files c) s1 = (Inr (), s2)"
      "start_aux_services ops (aux_services c) s2 = (Inr (), s3)" "run_actions ops sc (init c) [] s3 = (Inr req, s4)"
      "init_data ops c req s4 = (Inr req', s5)" "start_services ops (services c) req' [] s5 = (Inr (), s6)"
      "add_tasks ops (scheduled c) s6 = (Inr (), t)"
    by (simp only: default_init_def option.case) (elim try_then_InrE, rule that; simp)
  from init_data_plan [OF st(5)] obtain h where
    h: "carried_out (data_plan c h req) s4 s5" "req' = after_data c h req" by blast
  note parts = carried_out_append [OF aux_started [OF st(3)] carried_out_append [OF run_actions_plan(1) [OF st(4)]
      carried_out_append [OF h(1) services_started [OF st(6)]]]]
  from parts have "carried_out (init_plan c h) s2 s6"
    by (simp add: init_plan_def init_jobs_def Let_def h(2) run_actions_plan(2) [OF st(4)])
  moreover have "confs s = confs s2" "confs t = confs s6"
    using same_confsD [OF stop_all_keeps st(1)] same_confsD [OF keeps_render st(2)] same_confsD [OF keeps_add_tasks st(7)]
    by simp_all
  ultimately show ?thesis
    using carried_out_cong by blast
qed

lemma default_upload_plan:
  assumes "default_upload ops sc (Some c) s = (Inr (), t)" and "validate c = Inr ()"
  shows "carried_out (upload_plan c) s t"
proof -
  let ?ss = "filter svc_use_protocol_data (services c)"
  from assms obtain s1 s2 s3 s4 req needed awaited where
    st: "for_each (\<lambda>s. op_stop_job ops (svc_name s)) ?ss s = (Inr (), s1)" "run_actions ops sc (pre_upload c) [] s1 = (Inr req, s2)"
      "upload_data ops c ?ss req s2 = (Inr needed, s3)" "run_jobs ops (post_upload c) needed s3 = (Inr awaited, s4)"
      "start_services ops ?ss [] awaited s4 = (Inr (), t)"
    by (simp only: default_upload_def option.case Let_def) (elim try_then_InrE, rule that; simp)
  have req: "req = after_jobs (pre_upload_jobs c) []"
    using run_actions_plan(2) [OF st(2)] by (simp add: pre_upload_jobs_def)
  have uploaded: "carried_out (if uploads_data c then [(UPLOAD_JOB_NAME, build_multi_client_upload_job_config (upload c) req)] else []) s2 s3
      \<and> needed = (if uploads_data c then [UPLOAD_JOB_NAME] else req)"
    using st(3) valid_archivable [OF assms(2)]
    by (auto simp: upload_data_def try_then_Inr_iff carried_out_Nil dest: create_and_start split: if_splits)
  note parts = carried_out_append [OF run_actions_plan(1) [OF st(2)] carried_out_append [OF uploaded [THEN conjunct1]
      carried_out_append [OF run_jobs_plan(1) [OF st(4)] services_started [OF st(5)]]]]
  have needed: "needed = (if uploads_data c then [UPLOAD_JOB_NAME] else req)" using uploaded ..
  have "upload_plan c = jobs_plan (map_option act_jobs (pre_upload c)) []
      @ (if uploads_data c then [(UPLOAD_JOB_NAME, build_multi_client_upload_job_config (upload c) req)] else [])
      @ jobs_plan (post_upload c) needed @ services_plan ?ss [] awaited"
    unfolding upload_plan_def Let_def run_jobs_plan(2) [OF st(4)] needed req pre_upload_jobs_def ..
  with parts have "carried_out (upload_plan c) s1 t" by simp
  moreover have "same_confs confs (for_each (\<lambda>s. op_stop_job ops (svc_name s)) ?ss)"
    by (intro same_confs_for_each stop_keeps)
  from same_confsD [OF this st(1)] have "confs s = confs s1" by simp
  ultimately show ?thesis by (rule carried_out_cong) simp
qed

lemma carried_out_dependencies:
  assumes "carried_out p s t" and "in_order known p" and "(n, cfg) \<in> set p" and "d \<in> set (waiting_for cfg)" and "d \<notin> known"
  shows "confs t d \<noteq> None"
proof -
  have "d \<in> fst ` set p"
    using in_order_deps [OF assms(2,3)] assms(4,5) by blast
  with assms(1) show ?thesis unfolding carried_out_def by blast
qed

lemma planned_dependencies:
  assumes "carried_out (init_plan c h) s t" and "(n, cfg) \<in> set (init_plan c h)"
    and "d \<in> set (waiting_for cfg)" and "d \<notin> declared_needs c"
  shows "confs t d \<noteq> None"
  using carried_out_dependencies [OF assms(1) init_plan_in_order assms(2-4)] .

end

end
