(* ===== verification/Host_Platform.thy ===== *)
theory Host_Platform
  imports Node_State Backoff
begin

text \<open>
  What the host platform computes itself (\<open>bv/src/linux_platform.rs\<close>, \<open>bv/src/apptainer_platform.rs\<close>):
  the resources left for new nodes, in the 64-bit arithmetic of the code, the counters that bound the
  recovery of a node, and the state of the connection to Babel.
\<close>

section \<open>Available resources\<close>

record resources =
  res_vcpu :: "64 word"
  res_mem_mb :: "64 word"
  res_disk_gb :: "64 word"

type_synonym nodes_data_cache = "(uuid, node_state) hash_map"

text \<open>What is left of a total after subtracting a share of each node, wrapping below zero.\<close>

definition subtract_all :: "('v \<Rightarrow> nat) \<Rightarrow> ('k \<times> 'v) list \<Rightarrow> 64 word \<Rightarrow> 64 word" where
  "subtract_all f xs whole = fold (\<lambda>(_, x) a. a - of_nat (f x)) xs whole"

definition used_disk_space_correction ::
  "(uuid \<Rightarrow> string + 64 word) \<Rightarrow> nodes_data_cache \<Rightarrow> 64 word \<Rightarrow> string + 64 word" where
  "used_disk_space_correction dir_size cache start = fold (\<lambda>(id, s) acc.
     and_then acc (\<lambda>correction. and_then (dir_size id) (\<lambda>actual.
       let declared = of_nat (disk_size_gb (node_vm_config s)) * 1000000000
       in Inr (if actual < declared then correction + (declared - actual) else correction)))) cache (Inr start)"

definition available_resources ::
  "64 word \<Rightarrow> 64 word \<Rightarrow> 64 word option \<Rightarrow> nodes_data_cache \<Rightarrow> 64 word \<Rightarrow> string + resources" where
  "available_resources total_memory cpus disk cache correction =
     (case disk of
        None \<Rightarrow> Inl ''Cannot get available disk space''
      | Some space \<Rightarrow> Inr
          \<lparr>res_vcpu = subtract_all (vcpu_count \<circ> node_vm_config) cache cpus,
           res_mem_mb = subtract_all (mem_size_mb \<circ> node_vm_config) cache (total_memory div 1000000),
           res_disk_gb = (space - correction) div 1000000000\<rparr>)"

definition share_sum :: "('v \<Rightarrow> nat) \<Rightarrow> ('k \<times> 'v) list \<Rightarrow> nat" where
  "share_sum f xs = (\<Sum>(_, x)\<leftarrow>xs. f x)"

lemma subtract_all_sum: "subtract_all f xs whole = whole - of_nat (share_sum f xs)"
proof (induction xs arbitrary: whole)
  case (Cons x xs)
  then show ?case by (cases x) (simp add: subtract_all_def share_sum_def algebra_simps)
qed (simp add: subtract_all_def share_sum_def)

lemma unat_sub_of_nat:
  fixes a :: "64 word"
  assumes "s < 2 ^ 64"
  shows "unat (a - of_nat s) = (if s \<le> unat a then unat a - s else 2 ^ 64 + unat a - s)"
proof -
  have s: "unat (of_nat s :: 64 word) = s" using assms by (simp add: unat_of_nat)
  have "unat a + 2 ^ 64 - s = 2 ^ 64 + unat a - s" by (simp only: add.commute)
  then show ?thesis
    using unat_sub_if' [of a "of_nat s"] s by (simp split: if_splits)
qed

text \<open>
  C30: The memory and the cores reported as available are what the nodes leave of the total, as long as
  they do leave something; on a host where the nodes together have more than there is, the subtraction
  wraps and almost the whole 64-bit range is reported as available.
\<close>

theorem available_resources_wrap:
  assumes "available_resources whole cpus disk cache correction = Inr r"
    and "share_sum (mem_size_mb \<circ> node_vm_config) cache < 2 ^ 64"
    and "share_sum (vcpu_count \<circ> node_vm_config) cache < 2 ^ 64"
  shows "unat (res_mem_mb r) =
       (let used = share_sum (mem_size_mb \<circ> node_vm_config) cache; all = unat (whole div 1000000)
        in if used \<le> all then all - used else 2 ^ 64 + all - used) \<and>
     unat (res_vcpu r) =
       (let used = share_sum (vcpu_count \<circ> node_vm_config) cache; all = unat cpus
        in if used \<le> all then all - used else 2 ^ 64 + all - used)"
  using assms by (auto simp: available_resources_def subtract_all_sum unat_sub_of_nat Let_def split: option.splits)

section \<open>Bounds of the recovery\<close>

definition MAX_START_TRIES :: nat where "MAX_START_TRIES = 3"
definition START_RECOVERY_BACKOFF_BASE_MS :: "64 word" where "START_RECOVERY_BACKOFF_BASE_MS = 15000"
definition MAX_STOP_TRIES :: nat where "MAX_STOP_TRIES = 3"
definition STOP_RECOVERY_BACKOFF_BASE_MS :: "64 word" where "STOP_RECOVERY_BACKOFF_BASE_MS = 45000"
definition MAX_RECONNECT_TRIES :: nat where "MAX_RECONNECT_TRIES = 3"
definition RECONNECT_RECOVERY_BACKOFF_BASE_MS :: "64 word" where "RECONNECT_RECOVERY_BACKOFF_BASE_MS = 5000"
definition MAX_VM_TRIES :: nat where "MAX_VM_TRIES = 3"
definition VM_RECOVERY_BACKOFF_BASE_MS :: "64 word" where "VM_RECOVERY_BACKOFF_BASE_MS = 1000"

record recovery_backoff =
  reconnect_tries :: nat
  stop_tries :: nat
  start_tries :: nat
  vm_tries :: nat
  backoff_until :: "nat option"

definition recovery_backoff_default :: recovery_backoff where
  "recovery_backoff_default = \<lparr>reconnect_tries = 0, stop_tries = 0, start_tries = 0, vm_tries = 0, backoff_until = None\<rparr>"

definition in_backoff :: "nat \<Rightarrow> recovery_backoff \<Rightarrow> bool" where
  "in_backoff now b = (case backoff_until b of Some t \<Rightarrow> now < t | None \<Rightarrow> False)"

definition recovery_reset :: "recovery_backoff \<Rightarrow> recovery_backoff" where
  "recovery_reset b = recovery_backoff_default"

definition update_backoff_time :: "nat \<Rightarrow> 64 word \<Rightarrow> nat \<Rightarrow> recovery_backoff \<Rightarrow> recovery_backoff" where
  "update_backoff_time now base tries b = b\<lparr>backoff_until := Some (now + unat (exp_backoff_timeout base tries))\<rparr>"

definition start_failed :: "nat \<Rightarrow> recovery_backoff \<Rightarrow> bool \<times> recovery_backoff" where
  "start_failed now b =
     (let b' = (update_backoff_time now START_RECOVERY_BACKOFF_BASE_MS (start_tries b) b)\<lparr>start_tries := Suc (start_tries b)\<rparr>
      in (MAX_START_TRIES \<le> start_tries b', b'))"

definition stop_failed :: "nat \<Rightarrow> recovery_backoff \<Rightarrow> bool \<times> recovery_backoff" where
  "stop_failed now b =
     (let b' = (update_backoff_time now STOP_RECOVERY_BACKOFF_BASE_MS (stop_tries b) b)\<lparr>stop_tries := Suc (stop_tries b)\<rparr>
      in (MAX_STOP_TRIES \<le> stop_tries b', b'))"

definition reconnect_failed :: "nat \<Rightarrow> recovery_backoff \<Rightarrow> bool \<times> recovery_backoff" where
  "reconnect_failed now b =
     (let b' = (update_backoff_time now RECONNECT_RECOVERY_BACKOFF_BASE_MS (reconnect_tries b) b)\<lparr>reconnect_tries := Suc (reconnect_tries b)\<rparr>
      in (MAX_RECONNECT_TRIES \<le> reconnect_tries b', b'))"

definition vm_recovery_failed :: "nat \<Rightarrow> recovery_backoff \<Rightarrow> bool \<times> recovery_backoff" where
  "vm_recovery_failed now b =
     (let b' = (update_backoff_time now VM_RECOVERY_BACKOFF_BASE_MS (vm_tries b) b)\<lparr>vm_tries := Suc (vm_tries b)\<rparr>
      in (MAX_VM_TRIES \<le> vm_tries b', b'))"

text \<open>The third failure in a row is the last, and the time to wait doubles up to it.\<close>

lemma start_failed_iff: "fst (start_failed now b) \<longleftrightarrow> 2 \<le> start_tries b"
  by (auto simp: start_failed_def MAX_START_TRIES_def update_backoff_time_def Let_def)

lemma start_backoff_time:
  "start_tries b < 3 \<Longrightarrow> backoff_until (snd (start_failed now b)) = Some (now + 15000 * 2 ^ start_tries b)"
  by (auto simp: start_failed_def update_backoff_time_def exp_backoff_timeout_def START_RECOVERY_BACKOFF_BASE_MS_def
      Let_def less_Suc_eq numeral_3_eq_3)

section \<open>The connection to Babel\<close>

datatype connection_state = ConnClosed | ConnBroken | ConnOpen

definition conn_attach :: "connection_state \<Rightarrow> connection_state" where
  "conn_attach c = ConnOpen"

definition conn_close :: "connection_state \<Rightarrow> connection_state" where
  "conn_close c = ConnClosed"

definition conn_mark_broken :: "connection_state \<Rightarrow> connection_state" where
  "conn_mark_broken c = ConnBroken"

definition conn_is_closed :: "connection_state \<Rightarrow> bool" where
  "conn_is_closed c \<longleftrightarrow> c = ConnClosed"

definition conn_is_broken :: "connection_state \<Rightarrow> bool" where
  "conn_is_broken c \<longleftrightarrow> c = ConnBroken"

text \<open>\<open>test\<close>, by whether Babel answers.\<close>

definition conn_test :: "string + unit \<Rightarrow> (connection_state, string, unit) action" where
  "conn_test version c = (case version of Inl e \<Rightarrow> (Inl e, c) | Inr _ \<Rightarrow> (Inr (), ConnOpen))"

definition conn_babel_client :: "(connection_state, string, unit) action" where
  "conn_babel_client c = (case c of
     ConnClosed \<Rightarrow> (Inl ''node connection is closed'', c)
   | ConnOpen \<Rightarrow> (Inr (), c)
   | ConnBroken \<Rightarrow> (Inr (), conn_attach c))"

text \<open>A connection that passed its test is never closed, whatever it was before.\<close>

lemma tested_connection_is_open: "conn_test version c = (Inr x, c') \<Longrightarrow> \<not> conn_is_closed c'"
  by (simp add: conn_test_def conn_is_closed_def split: sum.splits)

lemma babel_client_Inr_iff: "(\<exists>c'. conn_babel_client c = (Inr (), c')) \<longleftrightarrow> \<not> conn_is_closed c"
  by (cases c) (simp_all add: conn_babel_client_def conn_is_closed_def)

section \<open>Example\<close>

definition crowded_cache :: nodes_data_cache where
  "crowded_cache = [(''n1'', \<lparr>node_id = ''n1'', node_name = ''n'', protocol_id = '''',
      image_key = \<lparr>protocol_key = '''', variant_key = ''''\<rparr>, node_dev_mode = True, node_ip = '''',
      node_gateway = '''', properties = [], node_firewall = fw_config_default, display_name = '''',
      org_id = '''', org_name = '''', protocol_name_of = '''', dns_name = '''', tags = [],
      node_vm_config = \<lparr>vcpu_count = 0, mem_size_mb = 2000, disk_size_gb = 0, ramdisks = []\<rparr>,
      node_image = \<lparr>image_id = '''', image_version = '''', image_config_id = '''', image_archive_id = '''',
        image_store_key = '''', image_uri = '''', min_babel_version = ''''\<rparr>,
      assigned_cpus = [], node_expected = Stopped, started_at = None, initialized = False, restarting = False,
      upgrade_st = upgrade_state_default, apptainer_config = None\<rparr>)]"

lemma available_resources_wrap_witness:
  "case available_resources 1000000000 4 (Some 0) crowded_cache 0 of
     Inr r \<Rightarrow> unat (res_mem_mb r) = 2 ^ 64 - 1000 \<and> unat (res_vcpu r) = 4 | Inl _ \<Rightarrow> False"
proof -
  let ?r = "\<lparr>res_vcpu = 4, res_mem_mb = 1000 - 2000, res_disk_gb = 0\<rparr>"
  have run: "available_resources 1000000000 4 (Some 0) crowded_cache 0 = Inr ?r"
    by (simp add: available_resources_def subtract_all_def crowded_cache_def)
  have mem: "share_sum (mem_size_mb \<circ> node_vm_config) crowded_cache = 2000"
    and cpu: "share_sum (vcpu_count \<circ> node_vm_config) crowded_cache = 0"
    by (simp_all add: share_sum_def crowded_cache_def)
  show ?thesis
    using available_resources_wrap [OF run] unfolding run mem cpu by simp
qed

end
