(* ===== verification/Scheduler.thy ===== *)
theory Scheduler
  imports Prelude
begin

text \<open>
  The scheduler of plugin functions (\<open>bv/src/scheduler.rs\<close>): the list of tasks, the actions that
  change it, and the worker that calls a task at each occurrence of its schedule. A schedule comes from
  a library and is a parameter: \<open>occurs s t\<close> is the first occurrence after \<open>t\<close>, if there is one. Time is
  counted in seconds of the local clock.
\<close>

section \<open>Tasks and actions\<close>

datatype task = PluginFnCall string string

record 'c scheduled =
  task_node :: string
  task_name :: string
  schedule :: 'c
  task_of :: task

datatype 'c sched_action = Add "'c scheduled" | DeleteTask string | DeleteNode string

type_synonym 'c task_list = "(nat \<times> 'c scheduled) list"

definition handle_action :: "nat \<Rightarrow> 'c sched_action \<Rightarrow> 'c task_list \<Rightarrow> 'c task_list" where
  "handle_action now a tasks = (case a of
     Add t \<Rightarrow> filter (\<lambda>(_, e). task_name e \<noteq> task_name t) tasks @ [(now, t)]
   | DeleteTask name \<Rightarrow> filter (\<lambda>(_, e). task_name e \<noteq> name) tasks
   | DeleteNode node \<Rightarrow> filter (\<lambda>(_, e). task_node e \<noteq> node) tasks)"

section \<open>The worker\<close>

text \<open>
  The occurrences of one task from its time stamp on: those up to now are due, and the first one in
  the future, if any, ends the loop.
\<close>

function due :: "('c \<Rightarrow> nat \<Rightarrow> nat option) \<Rightarrow> 'c \<Rightarrow> nat \<Rightarrow> nat \<Rightarrow> nat list \<times> nat option" where
  "due occurs s now t = (case occurs s t of
     None \<Rightarrow> ([], None)
   | Some n \<Rightarrow>
       if now < n then ([], Some n)
       else if n \<le> t then ([], None) \<comment> \<open>excluded by the library: an occurrence after \<open>t\<close>\<close>
       else let (ds, next_one) = due occurs s now n in (n # ds, next_one))"
  by pat_completeness auto
termination
  by (relation "measure (\<lambda>(_, _, now, t). now - t)") auto

declare due.simps [simp del]

definition occurrences_until :: "('c \<Rightarrow> nat \<Rightarrow> nat option) \<Rightarrow> 'c \<Rightarrow> nat \<Rightarrow> nat \<Rightarrow> nat list" where
  "occurrences_until occurs s t now = fst (due occurs s now t)"

text \<open>
  One round over all tasks: the calls made, in order, the tasks that go on, stamped with the time of
  the round, and the time to sleep. A task whose schedule has no occurrence left is dropped.
\<close>

fun worker_round ::
  "('c \<Rightarrow> nat \<Rightarrow> nat option) \<Rightarrow> nat \<Rightarrow> 'c task_list \<Rightarrow> 'c scheduled list \<times> 'c task_list \<times> nat option" where
  "worker_round occurs now [] = ([], [], None)"
| "worker_round occurs now ((t, task) # tasks) =
     (let (ds, next_one) = due occurs (schedule task) now t;
          (handled, remaining, ttn) = worker_round occurs now tasks
      in (map (\<lambda>_. task) ds @ handled,
          (case next_one of None \<Rightarrow> remaining | Some _ \<Rightarrow> (now, task) # remaining),
          (case next_one of None \<Rightarrow> ttn
           | Some n \<Rightarrow> Some (case ttn of None \<Rightarrow> n - now | Some old \<Rightarrow> min (n - now) old))))"

text \<open>How a round ends: an action arrives, the sleep is over, or the run flag stopped.\<close>

datatype 'c wakeup = Received "'c sched_action" nat | Slept | Interrupted

record 'c worker_state =
  tasks :: "'c task_list"
  handled :: "(nat \<times> 'c scheduled) list"
    \<comment> \<open>the calls made, with the time of their round\<close>

definition worker_step ::
  "('c \<Rightarrow> nat \<Rightarrow> nat option) \<Rightarrow> nat \<Rightarrow> 'c wakeup \<Rightarrow> 'c worker_state \<Rightarrow> 'c worker_state" where
  "worker_step occurs now w s =
     (let (calls, remaining, _) = worker_round occurs now (tasks s);
          s' = s\<lparr>tasks := remaining, handled := handled s @ map (\<lambda>c. (now, c)) calls\<rparr>
      in case w of Received a at \<Rightarrow> s'\<lparr>tasks := handle_action at a (tasks s')\<rparr> | _ \<Rightarrow> s')"

primrec worker_loop ::
  "('c \<Rightarrow> nat \<Rightarrow> nat option) \<Rightarrow> (nat \<times> 'c wakeup) list \<Rightarrow> 'c worker_state \<Rightarrow> 'c worker_state" where
  "worker_loop occurs [] s = s"
| "worker_loop occurs (r # rs) s =
     (let s' = worker_step occurs (fst r) (snd r) s
      in case snd r of Interrupted \<Rightarrow> s' | _ \<Rightarrow> worker_loop occurs rs s')"

text \<open>The whole worker: what is pending in the channel is applied before it ends.\<close>

definition worker ::
  "('c \<Rightarrow> nat \<Rightarrow> nat option) \<Rightarrow> (nat \<times> 'c wakeup) list \<Rightarrow> (nat \<times> 'c sched_action) list \<Rightarrow>
     'c worker_state \<Rightarrow> 'c scheduled list \<times> 'c worker_state" where
  "worker occurs rounds pending s =
     (let s' = worker_loop occurs rounds s;
          s'' = s'\<lparr>tasks := fold (\<lambda>(at, a). handle_action at a) pending (tasks s')\<rparr>
      in (map snd (tasks s''), s''))"

definition scheduler_start :: "nat \<Rightarrow> 'c scheduled list \<Rightarrow> 'c worker_state" where
  "scheduler_start now ts = \<lparr>tasks = map (\<lambda>t. (now, t)) ts, handled = []\<rparr>"

section \<open>Properties of the actions\<close>

definition distinct_names :: "'c task_list \<Rightarrow> bool" where
  "distinct_names ts \<longleftrightarrow> distinct (map (task_name \<circ> snd) ts)"

lemma distinct_names_filter: "distinct_names ts \<Longrightarrow> distinct_names (filter P ts)"
  by (simp add: distinct_names_def distinct_map_filter)

lemma handle_action_distinct: "distinct_names ts \<Longrightarrow> distinct_names (handle_action now a ts)"
proof (cases a)
  case (Add t)
  assume "distinct_names ts"
  then have "distinct_names (filter (\<lambda>(_, e). task_name e \<noteq> task_name t) ts)" by (rule distinct_names_filter)
  then show ?thesis unfolding Add by (auto simp: handle_action_def distinct_names_def)
qed (auto simp: handle_action_def distinct_names_filter)

text \<open>An added task takes the place of a task of any other node that has its name.\<close>

lemma add_evicts_other_nodes:
  "task_name e = task_name t \<Longrightarrow> (at, e) \<in> set (handle_action now (Add t) ts) \<Longrightarrow> (at, e) = (now, t)"
  by (auto simp: handle_action_def)

section \<open>Every occurrence is handled once\<close>

text \<open>What the library promises of a schedule.\<close>

definition schedule_contract :: "('c \<Rightarrow> nat \<Rightarrow> nat option) \<Rightarrow> 'c \<Rightarrow> (nat \<Rightarrow> bool) \<Rightarrow> bool" where
  "schedule_contract occurs s P \<longleftrightarrow>
     (\<forall>t. case occurs s t of
        None \<Rightarrow> \<forall>n > t. \<not> P n
      | Some n \<Rightarrow> t < n \<and> P n \<and> (\<forall>m. t < m \<and> m < n \<longrightarrow> \<not> P m))"

lemma filter_upt_first:
  assumes "t < n" and "P n" and "\<forall>m. t < m \<and> m < n \<longrightarrow> \<not> P m" and "n \<le> now"
  shows "filter P [Suc t..<Suc now] = n # filter P [Suc n..<Suc now]"
proof -
  have "[Suc t..<Suc now] = [Suc t..<n] @ [n..<Suc now]"
    using assms(1,4) upt_add_eq_append [of "Suc t" n "Suc now - n"] by simp
  moreover have "filter P [Suc t..<n] = []" using assms(3) by (auto simp: filter_empty_conv)
  moreover have "[n..<Suc now] = n # [Suc n..<Suc now]" using assms(4) by (simp add: upt_conv_Cons)
  ultimately show ?thesis using assms(2) by simp
qed

lemma due_correct:
  "schedule_contract occurs s P \<Longrightarrow> fst (due occurs s now t) = filter P [Suc t..<Suc now] \<and>
     (snd (due occurs s now t) = None \<longrightarrow> (\<forall>n > max t now. \<not> P n))"
proof (induction occurs s now t rule: due.induct)
  case (1 occurs s now t)
  note contract = 1(2)
  show ?case
  proof (cases "occurs s t")
    case None
    with contract have none: "\<forall>n > t. \<not> P n" by (auto simp: schedule_contract_def dest: spec [of _ t])
    then have "filter P [Suc t..<Suc now] = []" by (auto simp: filter_empty_conv)
    with None none show ?thesis by (simp add: due.simps [of occurs s now t])
  next
    case (Some n)
    with contract have n: "t < n" "P n" "\<forall>m. t < m \<and> m < n \<longrightarrow> \<not> P m"
      by (auto simp: schedule_contract_def dest: spec [of _ t])
    show ?thesis
    proof (cases "now < n")
      case True
      with n have "filter P [Suc t..<Suc now] = []" by (auto simp: filter_empty_conv)
      with Some True show ?thesis by (simp add: due.simps [of occurs s now t])
    next
      case False
      with 1(1) [OF Some False] n(1) contract
      have IH: "fst (due occurs s now n) = filter P [Suc n..<Suc now]"
        "snd (due occurs s now n) = None \<longrightarrow> (\<forall>m > max n now. \<not> P m)" by simp_all
      have "filter P [Suc t..<Suc now] = n # filter P [Suc n..<Suc now]"
        using n False by (intro filter_upt_first) auto
      with IH Some False n(1) show ?thesis
        by (auto simp: due.simps [of occurs s now t] case_prod_beta Let_def)
    qed
  qed
qed

text \<open>What a round does with the entries of one name, and which actions leave them alone.\<close>

definition entries :: "string \<Rightarrow> 'c task_list \<Rightarrow> 'c task_list" where
  "entries name ts = filter (\<lambda>(_, e). task_name e = name) ts"

lemma worker_round_calls:
  "filter (\<lambda>c. task_name c = name) (fst (worker_round occurs now ts)) =
     concat (map (\<lambda>(t, c). map (\<lambda>_. c) (fst (due occurs (schedule c) now t))) (entries name ts))"
  by (induction ts) (auto simp: entries_def case_prod_beta Let_def filter_empty_conv)

lemma worker_round_remaining:
  "entries name (fst (snd (worker_round occurs now ts))) =
     concat (map (\<lambda>(t, c). case snd (due occurs (schedule c) now t) of None \<Rightarrow> [] | Some _ \<Rightarrow> [(now, c)]) (entries name ts))"
  by (induction ts) (auto simp: entries_def case_prod_beta Let_def split: option.split)

fun leaves_alone :: "'c scheduled \<Rightarrow> 'c sched_action \<Rightarrow> bool" where
  "leaves_alone e (Add t) = (task_name t \<noteq> task_name e)"
| "leaves_alone e (DeleteTask name) = (name \<noteq> task_name e)"
| "leaves_alone e (DeleteNode node) = (node \<noteq> task_node e)"

lemma leaves_alone_entries:
  assumes "leaves_alone task a" and "entries (task_name task) ts \<in> {[], [(t, task)]}"
  shows "entries (task_name task) (handle_action now a ts) = entries (task_name task) ts"
proof (cases a)
  case (Add x)
  with assms(1) show ?thesis
    by (auto simp: handle_action_def entries_def intro!: filter_cong)
next
  case (DeleteTask name)
  with assms(1) show ?thesis by (auto simp: handle_action_def entries_def intro!: filter_cong)
next
  case (DeleteNode node)
  have "entries (task_name task) (handle_action now a ts) = filter (\<lambda>(_, e). task_node e \<noteq> node) (entries (task_name task) ts)"
    by (simp add: DeleteNode handle_action_def entries_def conj_commute case_prod_unfold)
  with assms DeleteNode show ?thesis by auto
qed

definition runs :: "'c scheduled \<Rightarrow> 'c worker_state \<Rightarrow> nat" where
  "runs task s = length (filter (\<lambda>(_, c). task_name c = task_name task) (handled s))"

text \<open>The task is there with time stamp \<open>t\<close>, or its schedule is over.\<close>

definition tracked :: "(nat \<Rightarrow> bool) \<Rightarrow> 'c scheduled \<Rightarrow> nat \<Rightarrow> 'c worker_state \<Rightarrow> bool" where
  "tracked P task t s \<longleftrightarrow>
     entries (task_name task) (tasks s) = [(t, task)] \<or>
     entries (task_name task) (tasks s) = [] \<and> (\<forall>n > t. \<not> P n)"

fun rounds_leave_alone :: "'c scheduled \<Rightarrow> (nat \<times> 'c wakeup) list \<Rightarrow> bool" where
  "rounds_leave_alone task [] = True"
| "rounds_leave_alone task ((_, w) # rs) =
     ((case w of Received a _ \<Rightarrow> leaves_alone task a | Slept \<Rightarrow> True | Interrupted \<Rightarrow> False) \<and> rounds_leave_alone task rs)"

lemma worker_step_tracked:
  assumes contract: "schedule_contract occurs (schedule task) P" and tr: "tracked P task t s" and "t \<le> now"
    and alone: "case w of Received a _ \<Rightarrow> leaves_alone task a | _ \<Rightarrow> True"
  shows "tracked P task now (worker_step occurs now w s) \<and>
     runs task (worker_step occurs now w s) = runs task s + length (filter P [Suc t..<Suc now])"
proof -
  let ?name = "task_name task"
  obtain calls remaining ttn where round: "worker_round occurs now (tasks s) = (calls, remaining, ttn)"
    by (cases "worker_round occurs now (tasks s)") auto
  have calls: "filter (\<lambda>c. task_name c = ?name) calls =
      concat (map (\<lambda>(t, c). map (\<lambda>_. c) (fst (due occurs (schedule c) now t))) (entries ?name (tasks s)))"
    using worker_round_calls [of ?name occurs now "tasks s"] round by simp
  have rem: "entries ?name remaining =
      concat (map (\<lambda>(t, c). case snd (due occurs (schedule c) now t) of None \<Rightarrow> [] | Some _ \<Rightarrow> [(now, c)])
        (entries ?name (tasks s)))"
    using worker_round_remaining [of ?name occurs now "tasks s"] round by simp
  note due = due_correct [OF contract, of now t]
  have count: "length (filter (\<lambda>c. task_name c = ?name) calls) = length (filter P [Suc t..<Suc now])"
    using tr due unfolding calls tracked_def by (auto simp: filter_empty_conv)
  have ent: "entries ?name remaining = [(now, task)] \<or> entries ?name remaining = [] \<and> (\<forall>n > now. \<not> P n)"
    using tr due \<open>t \<le> now\<close> unfolding rem tracked_def by (auto split: option.splits)
  have after: "entries ?name (tasks (worker_step occurs now w s)) = entries ?name remaining"
  proof (cases w)
    case (Received a at)
    with alone have "leaves_alone task a" by simp
    with ent leaves_alone_entries [of task a remaining now at] Received round show ?thesis
      by (auto simp: worker_step_def)
  qed (simp_all add: worker_step_def round)
  have "handled (worker_step occurs now w s) = handled s @ map (\<lambda>c. (now, c)) calls"
    by (cases w) (simp_all add: worker_step_def round)
  then have "runs task (worker_step occurs now w s) = runs task s + length (filter (\<lambda>c. task_name c = ?name) calls)"
    by (simp add: runs_def filter_map comp_def)
  with after ent count show ?thesis by (auto simp: tracked_def)
qed

lemma worker_loop_tracked:
  assumes "schedule_contract occurs (schedule task) P" and "tracked P task t s"
    and "sorted (t # map fst rounds)" and "rounds_leave_alone task rounds"
  shows "runs task (worker_loop occurs rounds s) =
     runs task s + length (filter P [Suc t..<Suc (last (t # map fst rounds))])"
  using assms
proof (induction rounds arbitrary: t s)
  case Nil
  then show ?case by simp
next
  case (Cons r rs)
  obtain now w where r: "r = (now, w)" by (cases r)
  let ?s = "worker_step occurs now w s" and ?finish = "last (now # map fst rs)"
  have "last (now # map fst rs) \<in> set (now # map fst rs)" by (rule last_in_set) simp
  with Cons.prems r have "t \<le> now" "now \<le> ?finish" by auto
  from Cons.prems r have w: "w \<noteq> Interrupted" "rounds_leave_alone task rs" by auto
  have step: "tracked P task now ?s" "runs task ?s = runs task s + length (filter P [Suc t..<Suc now])"
    using worker_step_tracked [OF Cons.prems(1,2) \<open>t \<le> now\<close>, of w] Cons.prems(4) r
    by (auto split: wakeup.splits)
  from Cons.IH [OF Cons.prems(1) step(1)] Cons.prems(3) w(2) r
  have "runs task (worker_loop occurs rs ?s) = runs task ?s + length (filter P [Suc now..<Suc ?finish])" by simp
  moreover have "[Suc t..<Suc ?finish] = [Suc t..<Suc now] @ [Suc now..<Suc ?finish]"
    using \<open>t \<le> now\<close> \<open>now \<le> ?finish\<close> upt_add_eq_append [of "Suc t" "Suc now" "?finish - now"] by simp
  ultimately show ?case using step(2) w(1) r by (auto simp: Let_def split: wakeup.split)
qed

text \<open>
  C8: While nothing replaces or removes it, a task is called once for each occurrence of its schedule
  from the moment it was added to the time of the last round, in every run of the worker.
\<close>

theorem every_occurrence_is_called_once:
  assumes "schedule_contract occurs (schedule task) P"
    and "sorted (t # map fst rounds)" and "rounds_leave_alone task rounds"
  shows "runs task (worker_loop occurs rounds \<lparr>tasks = handle_action t (Add task) ts, handled = []\<rparr>)
     = length (filter P [Suc t..<Suc (last (t # map fst rounds))])"
proof -
  let ?s = "\<lparr>tasks = handle_action t (Add task) ts, handled = []\<rparr>"
  have "tracked P task t ?s" by (auto simp: tracked_def entries_def handle_action_def filter_empty_conv)
  from worker_loop_tracked [OF assms(1) this assms(2,3)] show ?thesis by (simp add: runs_def)
qed

text \<open>A schedule with an occurrence at every multiple of a number.\<close>

definition every :: "nat \<Rightarrow> nat \<Rightarrow> nat option" where
  "every k t = Some (k * (t div k + 1))"

lemma every_contract: "schedule_contract every 10 (\<lambda>n. 10 dvd n)"
proof -
  have first: "\<not> 10 dvd m" if "t < m" "m < 10 * (t div 10 + 1)" for t m :: nat
  proof
    assume "10 dvd m"
    then obtain q where q: "m = 10 * q" by blast
    with that(1) have "t div 10 < q" by (intro less_mult_imp_div_less) (simp add: mult.commute)
    moreover from that(2) q have "q < t div 10 + 1" by simp
    ultimately show False by simp
  qed
  have next_one: "t < 10 * (t div 10 + 1)" for t :: nat
    using dividend_less_times_div [of 10 t] by simp
  show ?thesis unfolding schedule_contract_def every_def
    by (simp only: option.case) (intro allI conjI impI next_one dvd_triv_left, elim conjE, rule first)
qed

definition example_task :: "nat scheduled" where
  "example_task = \<lparr>task_node = ''n'', task_name = ''tick'', schedule = 10, task_of = PluginFnCall ''f'' ''p''\<rparr>"

lemma every_occurrence_is_called_once_witness:
  "runs example_task (worker_loop every [(8, Slept), (25, Received (DeleteTask ''other'') 26), (30, Slept)]
     \<lparr>tasks = handle_action 5 (Add example_task) [], handled = []\<rparr>) = 3"
proof -
  have "length (filter (\<lambda>n. 10 dvd n) [Suc 5..<Suc (last (5 # map fst
      [(8 :: nat, Slept :: nat wakeup), (25, Received (DeleteTask ''other'') 26), (30, Slept)]))]) = 3"
    by code_simp
  with every_occurrence_is_called_once [of every example_task "\<lambda>n. 10 dvd n" 5
      "[(8, Slept), (25, Received (DeleteTask ''other'') 26), (30, Slept)]" "[]"] every_contract
  show ?thesis by (simp add: example_task_def)
qed

end
