(* ===== verification/Babel_Engine.thy ===== *)
theory Babel_Engine
  imports Babel_Service Job_Confs Plugin_Plan Host_Platform Scheduler
begin

text \<open>
  The engine of a node on the host (\<open>bv/src/babel_engine.rs\<close>): it runs the plugin, and carries out what
  the plugin asks for through the connection to Babel, the scheduler and the remote services. A
  request the plugin sends over the channel is handled while the plugin waits for the response, so a
  request and its handling are one action here. A call over the connection may be lost on its way
  there or on its way back; between calls the jobs manager inside the node makes its passes.
\<close>

section \<open>State and environment\<close>

record ('c, 'd) engine_world =
  ew_conn :: connection_state
  ew_babel :: babel_service
  ew_sched :: "'c sched_action list"
    \<comment> \<open>actions sent to the scheduler\<close>
  ew_plugin_data :: "string option"
  ew_saved_config :: "'d plugin_config option"
  ew_calls :: nat
    \<comment> \<open>calls made over the connection\<close>

datatype delivery = LostBefore rpc_status | LostAfter rpc_status | Delivered

record ('c, 'd) engine_env =
  ee_babel :: "nat \<Rightarrow> babel_env"
  ee_passes :: "nat \<Rightarrow> (os \<times> nat set) list"
    \<comment> \<open>passes of the jobs manager before the call\<close>
  ee_net :: "nat \<Rightarrow> delivery"
  ee_status_text :: "rpc_status \<Rightarrow> string"
  ee_timeout_header :: "nat \<Rightarrow> string"
    \<comment> \<open>how tonic writes a timeout of so many seconds\<close>
  ee_node_id :: string
  ee_dev_mode :: bool
  ee_archive_id :: string
  ee_has_archive :: "string + bool"
  ee_params :: "(string, string) hash_map"
  ee_parse_schedule :: "string \<Rightarrow> string + 'c"
  ee_scheduler_open :: bool
  ee_config_json :: "'d plugin_config \<Rightarrow> string"
  ee_config_read :: bool
    \<comment> \<open>the saved plugin configuration can be read\<close>
  ee_config_write_error :: "string option"
  ee_data_write_error :: "string option"
  ee_get_secret :: "string \<Rightarrow> string + byte list option"
  ee_put_secret :: "string \<Rightarrow> byte list \<Rightarrow> string + unit"

type_synonym ('c, 'd, 'e, 'a) world_action = "(('c, 'd) engine_world, 'e, 'a) action"

section \<open>Calls over the connection\<close>

definition NODE_REQUEST_TIMEOUT :: nat where "NODE_REQUEST_TIMEOUT = 15"

definition NON_RETRIABLE :: "rpc_code list" where
  "NON_RETRIABLE = [CodeInternal, CodeCancelled, CodeInvalidArgument, CodeUnimplemented, CodePermissionDenied]"

definition babel_client :: "('c, 'd) engine_env \<Rightarrow> ('c, 'd, string, unit) world_action" where
  "babel_client env w = (let (r, c) = conn_babel_client (ew_conn w) in (r, w\<lparr>ew_conn := c\<rparr>))"

definition run_passes :: "(os \<times> nat set) list \<Rightarrow> babel_service \<Rightarrow> babel_service" where
  "run_passes ps b = b\<lparr>bs_manager := fold (\<lambda>(os, procs). update_jobs os procs) ps (bs_manager b)\<rparr>"

definition rpc :: "('c, 'd) engine_env \<Rightarrow> (babel_env \<Rightarrow> 'a service_action) \<Rightarrow> ('c, 'd, rpc_status, 'a) world_action" where
  "rpc env handler w =
     (let k = ew_calls w;
          b = run_passes (ee_passes env k) (ew_babel w);
          (r, b') = handler (ee_babel env k) b
      in case ee_net env k of
           LostBefore e \<Rightarrow> (Inl e, w\<lparr>ew_babel := b, ew_calls := Suc k\<rparr>)
         | LostAfter e \<Rightarrow> (Inl e, w\<lparr>ew_babel := b', ew_calls := Suc k\<rparr>)
         | Delivered \<Rightarrow> (r, w\<lparr>ew_babel := b', ew_calls := Suc k\<rparr>))"

definition rpc_retry :: "('c, 'd) engine_env \<Rightarrow> (babel_env \<Rightarrow> 'a service_action) \<Rightarrow> ('c, 'd, rpc_status, 'a) world_action" where
  "rpc_retry env handler = with_retry (rpc env handler) (\<lambda>_ w. w)"

definition rpc_selective :: "('c, 'd) engine_env \<Rightarrow> (babel_env \<Rightarrow> 'a service_action) \<Rightarrow> ('c, 'd, rpc_status, 'a) world_action" where
  "rpc_selective env handler = with_selective_retry (rpc env handler) (\<lambda>e. rpc_code e \<in> set NON_RETRIABLE) (\<lambda>_ w. w)"

definition handle_connection_errors ::
  "('c, 'd) engine_env \<Rightarrow> ('c, 'd, rpc_status, 'a) world_action \<Rightarrow> ('c, 'd, string, 'a) world_action" where
  "handle_connection_errors env m w =
     (case m w of
        (Inr x, t) \<Rightarrow> (Inr x, t)
      | (Inl e, t) \<Rightarrow>
          (Inl (ee_status_text env e),
           if rpc_code e = CodeInternal then t else t\<lparr>ew_conn := conn_mark_broken (ew_conn t)\<rparr>))"

definition on_babel :: "('c, 'd) engine_env \<Rightarrow> ('c, 'd, rpc_status, 'a) world_action \<Rightarrow> ('c, 'd, string, 'a) world_action" where
  "on_babel env m = try_then (babel_client env) (\<lambda>_. handle_connection_errors env m)"

text \<open>The methods of the engine itself do not mark the connection.\<close>

definition on_client :: "('c, 'd) engine_env \<Rightarrow> ('c, 'd, rpc_status, 'a) world_action \<Rightarrow> ('c, 'd, string, 'a) world_action" where
  "on_client env m = try_then (babel_client env) (\<lambda>_. map_error (ee_status_text env) m)"

section \<open>Requests of the plugin\<close>

definition client_stop_job :: "('c, 'd) engine_env \<Rightarrow> string \<Rightarrow> ('c, 'd, rpc_status, unit) world_action" where
  "client_stop_job env name =
     try_then (rpc_retry env (\<lambda>_. service_job_timeout name)) (\<lambda>_. rpc_retry env (\<lambda>b. service_stop_job b name))"

definition client_stop_all_jobs :: "('c, 'd) engine_env \<Rightarrow> ('c, 'd, rpc_status, unit) world_action" where
  "client_stop_all_jobs env =
     try_then (rpc_retry env (\<lambda>_. service_jobs_timeout)) (\<lambda>_. rpc_retry env service_stop_all_jobs)"

definition client_skip_job :: "('c, 'd) engine_env \<Rightarrow> string \<Rightarrow> ('c, 'd, rpc_status, unit) world_action" where
  "client_skip_job env name =
     try_then (rpc_retry env (\<lambda>_. service_job_timeout name)) (\<lambda>_. rpc_retry env (\<lambda>b. service_skip_job b name))"

definition is_download :: "job_type \<Rightarrow> bool" where
  "is_download t = (case t of Download _ _ \<Rightarrow> True | _ \<Rightarrow> False)"

definition is_multi_client :: "job_type \<Rightarrow> bool" where
  "is_multi_client t = (case t of MultiClientUpload _ _ _ _ \<Rightarrow> True | MultiClientDownload _ _ \<Rightarrow> True | _ \<Rightarrow> False)"

definition check_archive :: "('c, 'd) engine_env \<Rightarrow> ('c, 'd, string, unit) world_action" where
  "check_archive env =
     (case ee_has_archive env of
        Inl e \<Rightarrow> fail e
      | Inr b \<Rightarrow> if b then ok () else fail (''manifest not available for '' @ ee_archive_id env))"

definition pass_plugin_config :: "('c, 'd) engine_env \<Rightarrow> string \<Rightarrow> ('c, 'd, string, unit) world_action" where
  "pass_plugin_config env name = with_state (\<lambda>w.
     case ew_saved_config w of
       None \<Rightarrow> ok ()
     | Some c \<Rightarrow> if ee_config_read env
                then handle_connection_errors env (rpc_retry env (\<lambda>b. save_plugin_config_for_job b name (ee_config_json env c)))
                else ok ())"

definition handle_create_job :: "('c, 'd) engine_env \<Rightarrow> string \<Rightarrow> job_config \<Rightarrow> ('c, 'd, string, unit) world_action" where
  "handle_create_job env job_name config =
     (let name = trim job_name
      in if name = [] then fail ''empty job name is not allowed''
         else steps [babel_client env,
           (if is_download (job_type config) then check_archive env else ok ()),
           (if is_multi_client (job_type config) then pass_plugin_config env name else ok ()),
           handle_connection_errors env (rpc_retry env (\<lambda>b. service_create_job b name config))])"

definition handle_start_job :: "('c, 'd) engine_env \<Rightarrow> string \<Rightarrow> ('c, 'd, string, unit) world_action" where
  "handle_start_job env name = on_babel env (rpc_retry env (\<lambda>b. service_start_job b name))"

definition handle_cleanup_job :: "('c, 'd) engine_env \<Rightarrow> string \<Rightarrow> ('c, 'd, string, unit) world_action" where
  "handle_cleanup_job env name = on_babel env (rpc_retry env (\<lambda>b. service_cleanup_job b name))"

definition handle_stop_job :: "('c, 'd) engine_env \<Rightarrow> string \<Rightarrow> ('c, 'd, string, unit) world_action" where
  "handle_stop_job env name = on_babel env (client_stop_job env name)"

definition handle_stop_all_jobs :: "('c, 'd) engine_env \<Rightarrow> ('c, 'd, string, unit) world_action" where
  "handle_stop_all_jobs env = on_babel env (client_stop_all_jobs env)"

definition handle_job_info :: "('c, 'd) engine_env \<Rightarrow> string \<Rightarrow> ('c, 'd, string, job_info) world_action" where
  "handle_job_info env name = on_babel env (rpc_retry env (\<lambda>b. service_job_info b name))"

definition handle_get_jobs :: "('c, 'd) engine_env \<Rightarrow> ('c, 'd, string, jobs_info) world_action" where
  "handle_get_jobs env = on_babel env (rpc_retry env service_get_jobs)"

definition request_header :: "('c, 'd) engine_env \<Rightarrow> nat option \<Rightarrow> string option" where
  "request_header env timeout = Some (ee_timeout_header env (unwrap_or timeout NODE_REQUEST_TIMEOUT))"

definition handle_run_sh :: "('c, 'd) engine_env \<Rightarrow> string \<Rightarrow> nat option \<Rightarrow> ('c, 'd, string, sh_response) world_action" where
  "handle_run_sh env body timeout = on_babel env (rpc_selective env (\<lambda>b. service_run_sh b (request_header env timeout) body))"

definition handle_run_rest :: "('c, 'd) engine_env \<Rightarrow> rest_request \<Rightarrow> nat option \<Rightarrow> ('c, 'd, string, http_response) world_action" where
  "handle_run_rest env rq timeout = on_babel env (rpc_selective env (\<lambda>b. service_run_rest b (request_header env timeout) rq))"

definition handle_run_jrpc :: "('c, 'd) engine_env \<Rightarrow> jrpc_request \<Rightarrow> nat option \<Rightarrow> ('c, 'd, string, http_response) world_action" where
  "handle_run_jrpc env rq timeout = on_babel env (rpc_selective env (\<lambda>b. service_run_jrpc b (request_header env timeout) rq))"

definition handle_render_template :: "('c, 'd) engine_env \<Rightarrow> path \<Rightarrow> path \<Rightarrow> string \<Rightarrow> ('c, 'd, string, unit) world_action" where
  "handle_render_template env tmpl dest json = on_babel env (rpc_retry env (\<lambda>b. service_render_template b tmpl dest json))"

definition handle_data_stamp :: "('c, 'd) engine_env \<Rightarrow> ('c, 'd, string, nat option) world_action" where
  "handle_data_stamp env = on_babel env (rpc_retry env service_data_stamp)"

text \<open>\<open>stream_into_bytes\<close> drops the checksum of the stream.\<close>

fun stream_into_bytes :: "binary list \<Rightarrow> byte list" where
  "stream_into_bytes [] = []"
| "stream_into_bytes (Bin bs # ps) = bs @ stream_into_bytes ps"
| "stream_into_bytes (_ # ps) = stream_into_bytes ps"

definition handle_file_read :: "('c, 'd) engine_env \<Rightarrow> path \<Rightarrow> ('c, 'd, string, byte list) world_action" where
  "handle_file_read env p =
     try_then (on_babel env (rpc_retry env (\<lambda>b. service_file_read b p))) (\<lambda>ps. ok (stream_into_bytes ps))"

definition handle_file_write :: "('c, 'd) engine_env \<Rightarrow> (byte list \<Rightarrow> 32 word) \<Rightarrow> path \<Rightarrow> byte list \<Rightarrow> ('c, 'd, string, unit) world_action" where
  "handle_file_write env crc p content =
     on_babel env (rpc_retry env (\<lambda>b. service_file_write b (map Inr (bytes_into_bin crc p content))))"

definition send_to_scheduler :: "('c, 'd) engine_env \<Rightarrow> 'c sched_action \<Rightarrow> ('c, 'd, string, unit) world_action" where
  "send_to_scheduler env a =
     (if ee_scheduler_open env then update_state (\<lambda>w. w\<lparr>ew_sched := ew_sched w @ [a]\<rparr>) else fail ''channel closed'')"

section \<open>The \<open>Engine\<close> trait\<close>

definition engine_add_task :: "('c, 'd) engine_env \<Rightarrow> string \<Rightarrow> string \<Rightarrow> string \<Rightarrow> string \<Rightarrow> ('c, 'd, string, unit) world_action" where
  "engine_add_task env name cron f param =
     (case ee_parse_schedule env cron of
        Inl e \<Rightarrow> fail e
      | Inr sch \<Rightarrow> send_to_scheduler env
          (Add \<lparr>task_node = ee_node_id env, scheduled.task_name = name, schedule = sch, task_of = PluginFnCall f param\<rparr>))"

definition engine_delete_task :: "('c, 'd) engine_env \<Rightarrow> string \<Rightarrow> ('c, 'd, string, unit) world_action" where
  "engine_delete_task env name = send_to_scheduler env (DeleteTask name)"

definition engine_data_stamp :: "('c, 'd) engine_env \<Rightarrow> ('c, 'd, string, nat option) world_action" where
  "engine_data_stamp env = (if ee_dev_mode env then ok (Some 0) else handle_data_stamp env)"

definition engine_has_archive :: "('c, 'd) engine_env \<Rightarrow> ('c, 'd, string, bool) world_action" where
  "engine_has_archive env = (if ee_dev_mode env then ok False else lift_result (\<lambda>_. ee_has_archive env))"

definition engine_get_secret :: "('c, 'd) engine_env \<Rightarrow> string \<Rightarrow> ('c, 'd, string, byte list option) world_action" where
  "engine_get_secret env name =
     (if ee_dev_mode env then ok (Some (map of_char ''dev-secret'')) else lift_result (\<lambda>_. ee_get_secret env name))"

definition engine_put_secret :: "('c, 'd) engine_env \<Rightarrow> string \<Rightarrow> byte list \<Rightarrow> ('c, 'd, string, unit) world_action" where
  "engine_put_secret env name value =
     (if ee_dev_mode env then ok () else lift_result (\<lambda>_. ee_put_secret env name value))"

definition engine_save_data :: "('c, 'd) engine_env \<Rightarrow> string \<Rightarrow> ('c, 'd, string, unit) world_action" where
  "engine_save_data env value =
     (case ee_data_write_error env of
        Some e \<Rightarrow> fail e
      | None \<Rightarrow> update_state (\<lambda>w. w\<lparr>ew_plugin_data := Some value\<rparr>))"

definition engine_load_data :: "('c, 'd, string, string) world_action" where
  "engine_load_data = with_state (\<lambda>w.
     case ew_plugin_data w of None \<Rightarrow> fail ''No such file or directory'' | Some v \<Rightarrow> ok v)"

definition engine_save_config :: "('c, 'd) engine_env \<Rightarrow> 'd plugin_config \<Rightarrow> ('c, 'd, string, unit) world_action" where
  "engine_save_config env c =
     (case ee_config_write_error env of
        Some e \<Rightarrow> fail e
      | None \<Rightarrow> update_state (\<lambda>w. w\<lparr>ew_saved_config := Some c\<rparr>))"

definition engine_load_config :: "('c, 'd) engine_env \<Rightarrow> ('c, 'd, string, 'd plugin_config) world_action" where
  "engine_load_config env = with_state (\<lambda>w.
     case ew_saved_config w of
       None \<Rightarrow> fail ''No such file or directory''
     | Some c \<Rightarrow> if ee_config_read env then ok c else fail ''cannot read plugin config'')"

definition engine_ops_of :: "('c, 'd) engine_env \<Rightarrow> (('c, 'd) engine_world, 'd) engine_ops" where
  "engine_ops_of env =
     \<lparr>op_create_job = handle_create_job env, op_start_job = handle_start_job env, op_stop_job = handle_stop_job env,
      op_stop_all_jobs = handle_stop_all_jobs env, op_get_jobs = handle_get_jobs env, op_run_sh = handle_run_sh env,
      op_render_template = handle_render_template env, op_add_task = engine_add_task env,
      op_protocol_data_stamp = engine_data_stamp env, op_save_config = engine_save_config env,
      op_load_config = engine_load_config env, op_node_params = ee_params env\<rparr>"

section \<open>Shell parameters\<close>

text \<open>\<open>char::is_alphanumeric\<close> on the first 256 code points.\<close>

definition is_alphanumeric :: "char \<Rightarrow> bool" where
  "is_alphanumeric c =
     (let n = (of_char c :: nat)
      in is_ascii_alphanumeric c \<or> n \<in> {170, 178, 179, 181, 185, 186, 188, 189, 190} \<or> (192 \<le> n \<and> n \<noteq> 215 \<and> n \<noteq> 247))"

definition DOUBLE_QUOTE :: char where "DOUBLE_QUOTE = CHR 34"
definition BACKSLASH :: char where "BACKSLASH = CHR 92"
definition NEWLINE :: char where "NEWLINE = CHR 10"

definition escape_sh_char :: "char \<Rightarrow> string + string" where
  "escape_sh_char c =
     (if c = CHR 39 then Inl (''Very unsafe subsitution >:( '' @ [c])
      else if is_alphanumeric c then Inr [c]
      else if c = DOUBLE_QUOTE then Inr [BACKSLASH, DOUBLE_QUOTE]
      else if c = NEWLINE then Inr [BACKSLASH, CHR ''n'']
      else if c \<in> set ''/:{},-_. '' then Inr [c]
      else Inl (''Shell unsafe character detected: '' @ [c]))"

fun escape_all :: "string \<Rightarrow> string + string" where
  "escape_all [] = Inr []"
| "escape_all (c # cs) = and_then (escape_sh_char c) (\<lambda>e. and_then (escape_all cs) (\<lambda>es. Inr (e @ es)))"

definition sanitize_sh_param :: "string \<Rightarrow> string + string" where
  "sanitize_sh_param param = and_then (escape_all param) (\<lambda>es. Inr ([DOUBLE_QUOTE] @ es @ [DOUBLE_QUOTE]))"

section \<open>The engine of a node\<close>

record 'd babel_engine =
  be_plugin :: "'d rhai_plugin"
  be_capabilities :: "string list"
  be_server :: bool
    \<comment> \<open>the engine socket is served\<close>

type_synonym ('c, 'd, 'a) engine_action = "('d babel_engine \<times> ('c, 'd) engine_world, string, 'a) action"

text \<open>\<open>on_plugin\<close>: a clone of the plugin runs \<open>f\<close> and replaces the plugin, also when \<open>f\<close> fails.\<close>

definition on_plugin ::
  "('c, 'd) engine_env \<Rightarrow> (('c, 'd) engine_world, 'd, 'a) plugin_action \<Rightarrow> ('c, 'd, 'a) engine_action" where
  "on_plugin env f ew =
     (let (r, (p, w)) = f (plugin_clone (be_plugin (fst ew)), snd ew)
      in (with_context (''node_id='' @ ee_node_id env) r, ((fst ew)\<lparr>be_plugin := p\<rparr>, w)))"

definition set_capabilities :: "string list \<Rightarrow> ('c, 'd, unit) engine_action" where
  "set_capabilities cs = update_state (\<lambda>(b, w). (b\<lparr>be_capabilities := cs\<rparr>, w))"

definition read_capabilities ::
  "(('c, 'd) engine_world, 'd, 'y) script \<Rightarrow> (('c, 'd) engine_world, 'd, string list) plugin_action" where
  "read_capabilities sc = read_state (\<lambda>(p, _). plugin_capabilities sc p)"

definition engine_init ::
  "('c, 'd) engine_env \<Rightarrow> (('c, 'd) engine_world, 'd, 'y) script \<Rightarrow> ('c, 'd, unit) engine_action" where
  "engine_init env sc =
     try_then (on_plugin env (try_then (rhai_init (engine_ops_of env) sc) (\<lambda>_. read_capabilities sc))) set_capabilities"

definition engine_reload_config ::
  "('c, 'd) engine_env \<Rightarrow> (('c, 'd) engine_world, 'd, 'y) script \<Rightarrow> ('c, 'd, unit) engine_action" where
  "engine_reload_config env sc =
     try_then (on_plugin env (try_then (reload_plugin_config (engine_ops_of env) sc) (\<lambda>_. read_capabilities sc)))
       set_capabilities"

text \<open>\<open>update_plugin\<close>: the builder compiles the new script, or fails and leaves the old plugin.\<close>

definition update_plugin ::
  "('c, 'd) engine_env \<Rightarrow> string + (('c, 'd) engine_world, 'd, 'y) script \<Rightarrow> ('c, 'd, unit) engine_action" where
  "update_plugin env built =
     (case built of
        Inl e \<Rightarrow> fail e
      | Inr sc \<Rightarrow>
          try_then (update_state (\<lambda>(b, w). let (p, w') = plugin_new (engine_ops_of env) w in (b\<lparr>be_plugin := p\<rparr>, w')))
            (\<lambda>_. try_then (on_plugin env (read_capabilities sc)) set_capabilities))"

definition engine_start :: "string + unit \<Rightarrow> ('c, 'd, unit) engine_action" where
  "engine_start server = with_state (\<lambda>(b, _).
     if be_server b then ok ()
     else case server of Inl e \<Rightarrow> fail e | Inr _ \<Rightarrow> update_state (\<lambda>(b, w). (b\<lparr>be_server := True\<rparr>, w)))"

definition engine_stop :: "string + unit \<Rightarrow> ('c, 'd, unit) engine_action" where
  "engine_stop stopped = with_state (\<lambda>(b, _).
     if be_server b
     then try_then (update_state (\<lambda>(b, w). (b\<lparr>be_server := False\<rparr>, w)))
            (\<lambda>_. case stopped of Inl e \<Rightarrow> fail e | Inr _ \<Rightarrow> ok ())
     else ok ())"

definition has_capability :: "'d babel_engine \<Rightarrow> string \<Rightarrow> bool" where
  "has_capability b m = list_ex (\<lambda>v. v = m) (be_capabilities b)"

text \<open>The texts of numbers, booleans and statuses are those of the standard library and of serde.\<close>

definition engine_call_method ::
  "('c, 'd) engine_env \<Rightarrow> (('c, 'd) engine_world, 'd, 'y) script \<Rightarrow> (protocol_status \<Rightarrow> string) \<Rightarrow> string \<Rightarrow> string \<Rightarrow>
     ('c, 'd, string) engine_action" where
  "engine_call_method env sc status_json name param =
     (let ops = engine_ops_of env
      in if name = ''init'' then try_then (engine_init env sc) (\<lambda>_. ok [])
         else if name = ''height'' then try_then (on_plugin env (rhai_height ops sc)) (\<lambda>n. ok (show_nat n))
         else if name = ''block_age'' then try_then (on_plugin env (rhai_block_age ops sc)) (\<lambda>n. ok (show_nat n))
         else if name = ''name'' then on_plugin env (rhai_string ops sc ''name'')
         else if name = ''address'' then on_plugin env (rhai_string ops sc ''address'')
         else if name = ''consensus''
         then try_then (on_plugin env (rhai_consensus ops sc)) (\<lambda>b. ok (if b then ''true'' else ''false''))
         else if name = ''protocol_status''
         then try_then (on_plugin env (rhai_protocol_status ops sc)) (\<lambda>st. ok (status_json st))
         else if name = ''upload'' then try_then (on_plugin env (rhai_upload ops sc)) (\<lambda>_. ok ''null'')
         else on_plugin env (call_custom_method ops sc name param))"

section \<open>Requests of the host to the jobs of the node\<close>

definition engine_get_jobs :: "('c, 'd) engine_env \<Rightarrow> ('c, 'd, string, jobs_info) world_action" where
  "engine_get_jobs env = on_client env (rpc_retry env service_get_jobs)"

definition engine_job_info :: "('c, 'd) engine_env \<Rightarrow> string \<Rightarrow> ('c, 'd, string, job_info) world_action" where
  "engine_job_info env name = on_client env (rpc_retry env (\<lambda>b. service_job_info b name))"

definition engine_start_job :: "('c, 'd) engine_env \<Rightarrow> string \<Rightarrow> ('c, 'd, string, unit) world_action" where
  "engine_start_job env name = on_client env (rpc_retry env (\<lambda>b. service_start_job b name))"

definition engine_stop_job :: "('c, 'd) engine_env \<Rightarrow> string \<Rightarrow> ('c, 'd, string, unit) world_action" where
  "engine_stop_job env name = on_client env (client_stop_job env name)"

definition engine_skip_job :: "('c, 'd) engine_env \<Rightarrow> string \<Rightarrow> ('c, 'd, string, unit) world_action" where
  "engine_skip_job env name = on_client env (client_skip_job env name)"

definition engine_cleanup_job :: "('c, 'd) engine_env \<Rightarrow> string \<Rightarrow> ('c, 'd, string, unit) world_action" where
  "engine_cleanup_job env name = on_client env (rpc_retry env (\<lambda>b. service_cleanup_job b name))"

end
