(* ===== verification/Engine_Plan.thy ===== *)
theory Engine_Plan
  imports Babel_Engine
begin

text \<open>
  The engine of a node keeps the contract of \<open>job_engine\<close>: through retried calls that may be lost on
  either way, and with the jobs manager passing in between, it holds the configurations its plugin
  asked for. So the default \<open>init\<close> carries out its plan on the jobs manager inside the node.
\<close>

section \<open>Configurations behind the connection\<close>

definition world_confs :: "('c, 'd) engine_world \<Rightarrow> string \<Rightarrow> job_config option" where
  "world_confs w = job_confs (bs_manager (ew_babel w))"

abbreviation service_confs :: "babel_service \<Rightarrow> string \<Rightarrow> job_config option" where
  "service_confs b \<equiv> job_confs (bs_manager b)"

lemma world_confs_fields [simp]:
  "world_confs (w\<lparr>ew_conn := c\<rparr>) = world_confs w" "world_confs (w\<lparr>ew_calls := k\<rparr>) = world_confs w"
  "world_confs (w\<lparr>ew_sched := as\<rparr>) = world_confs w" "world_confs (w\<lparr>ew_saved_config := cfg\<rparr>) = world_confs w"
  "world_confs (w\<lparr>ew_babel := b\<rparr>) = service_confs b"
  by (simp_all add: world_confs_def)

lemma service_confs_passes [simp]: "service_confs (run_passes ps b) = service_confs b"
  by (simp add: run_passes_def case_prod_beta job_confs_fold job_confs_update_jobs)

lemma same_confs_map_error: "same_confs confs m \<Longrightarrow> same_confs confs (map_error f m)"
  by (simp add: same_confs_def)

lemma same_confs_on_jobs: "same_confs job_confs m \<Longrightarrow> same_confs service_confs (on_jobs m)"
  by (simp add: same_confs_def on_jobs_def case_prod_beta Let_def)

lemma same_confs_read: "same_confs confs (read_state f)" "same_confs confs (lift_result g)"
  by (simp_all add: same_confs_def lift_result_def)

lemma same_confs_on_files: "same_confs service_confs (on_files m)"
  by (simp add: same_confs_def on_files_def case_prod_beta Let_def)

lemma service_keeps:
  "same_confs service_confs (service_start_job b name)" "same_confs service_confs (service_stop_job b name)"
  "same_confs service_confs (service_stop_all_jobs b)" "same_confs service_confs (service_get_jobs b)"
  "same_confs service_confs (service_job_timeout name)" "same_confs service_confs service_jobs_timeout"
  by (simp_all add: service_start_job_def service_stop_job_def service_stop_all_jobs_def service_get_jobs_def
      service_job_timeout_def service_jobs_timeout_def as_internal_def same_confs_map_error same_confs_on_jobs same_confs_read
      same_confs_def [of job_confs] job_confs_start_request job_confs_stop job_confs_stop_all job_confs_list_all)

lemma save_plugin_config_keeps: "same_confs service_confs (save_plugin_config_for_job b name json)"
proof -
  have "same_confs service_confs (on_jobs (on_disk m))" for m :: "(job_disk, string, unit) action"
    by (intro same_confs_on_jobs) (simp add: same_confs_def job_confs_on_disk)
  then show ?thesis
    unfolding save_plugin_config_for_job_def Let_def steps_simps as_internal_def
    by (intro same_confs_rules same_confs_map_error) (auto simp: same_confs_def split: option.split)
qed

lemma service_run_sh_keeps: "same_confs service_confs (service_run_sh b header body)"
  by (auto simp: service_run_sh_def to_protocol_err_def same_confs_rules split: sum.split)

lemma service_render_keeps: "same_confs service_confs (service_render_template b p d json)"
  by (auto simp: service_render_template_def same_confs_def split: sum.split)

lemma service_stamp_keeps: "same_confs service_confs (service_data_stamp b)"
  by (auto simp: service_data_stamp_def same_confs_def split: sum.split option.split)

section \<open>Calls\<close>

text \<open>A call leaves the configurations of the service as they were before or after its handler.\<close>

lemma rpc_confs:
  "world_confs (snd (rpc env h w)) = world_confs w \<or>
   (\<exists>b. service_confs b = world_confs w \<and> world_confs (snd (rpc env h w)) = service_confs (snd (h (ee_babel env (ew_calls w)) b)))"
  by (auto simp: rpc_def Let_def case_prod_beta world_confs_def intro: exI [of _ "run_passes (ee_passes env (ew_calls w)) (ew_babel w)"]
      split: delivery.split)

lemma rpc_keeps: "(\<And>b. same_confs service_confs (h b)) \<Longrightarrow> same_confs world_confs (rpc env h)"
  using rpc_confs [of env h] unfolding same_confs_def by metis

lemma rpc_Inr:
  assumes "rpc env h w = (Inr x, t)"
  shows "\<exists>b b'. service_confs b = world_confs w \<and> h (ee_babel env (ew_calls w)) b = (Inr x, b') \<and> world_confs t = service_confs b'"
  using assms
  by (auto simp: rpc_def Let_def case_prod_beta world_confs_def prod_eq_iff split: delivery.splits
      intro!: exI [of _ "run_passes (ee_passes env (ew_calls w)) (ew_babel w)"])

text \<open>A property every attempt keeps holds when the attempt that succeeds starts.\<close>

lemma retry_last:
  assumes "selective_retry_loop f nr sleep m b k s = (Inr x, t)" and "I s" and "keeps I f" and "\<And>d s. I s \<Longrightarrow> I (sleep d s)"
  shows "\<exists>s'. I s' \<and> f s' = (Inr x, t)"
  using assms
proof (induction f nr sleep m b k s rule: selective_retry_loop.induct)
  case (1 f nr sleep m b k s)
  obtain r u where f: "f s = (r, u)" by (cases "f s")
  show ?case
  proof (cases r)
    case (Inr y)
    with f 1(2,3) show ?thesis by (subst (asm) selective_retry_loop.simps) auto
  next
    case (Inl e)
    with f 1(2) have "\<not> nr e \<and> k < m"
      and "selective_retry_loop f nr sleep m b (Suc k) (sleep (exp_backoff_timeout b (Suc k)) u) = (Inr x, t)"
      by (subst (asm) selective_retry_loop.simps; simp split: if_splits)+
    moreover have "I u" using 1(3,4) f by (blast intro: keepsD_eq)
    ultimately show ?thesis using 1(1) [OF f [symmetric] Inl] 1(4,5) by blast
  qed
qed

lemmas retry_defs = rpc_retry_def rpc_selective_def with_retry_def with_retry_limit_def with_selective_retry_def

lemma same_confs_keeps: "same_confs confs m \<Longrightarrow> keeps (\<lambda>s. confs s = c) m"
  by (auto simp: same_confs_def intro: keepsI)

lemma keeps_same_confs: "(\<And>c. keeps (\<lambda>s. confs s = c) m) \<Longrightarrow> same_confs confs m"
  unfolding same_confs_def by (rule allI) (erule meta_allE, erule keepsD, rule refl)

lemma loop_keeps: "same_confs confs f \<Longrightarrow> (\<And>d s. confs (sleep d s) = confs s) \<Longrightarrow> same_confs confs (selective_retry_loop f nr sleep m b k)"
  by (rule keeps_same_confs, rule keeps_selective_retry_loop) (simp_all add: same_confs_keeps)

lemma retry_keeps:
  assumes "\<And>b. same_confs service_confs (h b)"
  shows "same_confs world_confs (rpc_retry env h)" and "same_confs world_confs (rpc_selective env h)"
  unfolding retry_defs by (rule loop_keeps [OF rpc_keeps [OF assms]]; simp)+

lemma client_keeps: "same_confs world_confs (babel_client env)"
  by (simp add: same_confs_def babel_client_def case_prod_beta Let_def)

lemma connection_errors_confs: "world_confs (snd (handle_connection_errors env m w)) = world_confs (snd (m w))"
  by (cases "m w"; cases "fst (m w)") (auto simp: handle_connection_errors_def)

lemma connection_errors_Inr: "handle_connection_errors env m w = (Inr x, t) \<longleftrightarrow> m w = (Inr x, t)"
  by (auto simp: handle_connection_errors_def split: prod.split sum.split)

lemma connection_errors_keep: "same_confs world_confs m \<Longrightarrow> same_confs world_confs (handle_connection_errors env m)"
  by (simp add: same_confs_def connection_errors_confs)

lemma on_babel_keeps: "same_confs world_confs m \<Longrightarrow> same_confs world_confs (on_babel env m)"
  unfolding on_babel_def by (intro same_confs_rules client_keeps connection_errors_keep)

section \<open>The laws of the engine\<close>

lemma rpc_retry_Inr:
  assumes "rpc_retry env h w = (Inr x, t)" and "\<And>v. world_confs v \<in> C \<Longrightarrow> world_confs (snd (rpc env h v)) \<in> C"
    and "world_confs w \<in> C"
  shows "\<exists>v. world_confs v \<in> C \<and> rpc env h v = (Inr x, t)"
  using retry_last [OF assms(1) [unfolded retry_defs], of "\<lambda>v. world_confs v \<in> C"] assms(2,3)
  by (auto simp: keeps_def)

lemma created_confs:
  "service_create_job b n c s = (Inr x, t) \<Longrightarrow> service_confs t = (service_confs s)(n \<mapsto> c)"
  "service_confs (snd (service_create_job b n c s)) \<in> {service_confs s, (service_confs s)(n \<mapsto> c)}"
proof -
  obtain r m where m: "create_job (be_os b) n c (bs_manager s) = (r, m)"
    by (cases "create_job (be_os b) n c (bs_manager s)")
  show "service_create_job b n c s = (Inr x, t) \<Longrightarrow> service_confs t = (service_confs s)(n \<mapsto> c)"
    using m job_confs_create(1) [of "be_os b" n c "bs_manager s" m]
    by (auto simp: service_create_job_def as_internal_def on_jobs_def Let_def)
  show "service_confs (snd (service_create_job b n c s)) \<in> {service_confs s, (service_confs s)(n \<mapsto> c)}"
    using m job_confs_create [of "be_os b" n c "bs_manager s"]
    by (cases r) (auto simp: service_create_job_def as_internal_def on_jobs_def Let_def)
qed

lemma rpc_create_Inr:
  assumes "rpc_retry env (\<lambda>b. service_create_job b n c) w = (Inr x, t)"
  shows "world_confs t = (world_confs w)(n \<mapsto> c)"
proof -
  let ?C = "{world_confs w, (world_confs w)(n \<mapsto> c)}" and ?h = "\<lambda>b. service_create_job b n c"
  have step: "world_confs (snd (rpc env ?h v)) \<in> ?C" if "world_confs v \<in> ?C" for v
  proof -
    from rpc_confs [of env ?h v] show ?thesis
    proof (elim disjE exE conjE)
      assume "world_confs (snd (rpc env ?h v)) = world_confs v"
      with that show ?thesis by simp
    next
      fix b assume b: "service_confs b = world_confs v"
        and t: "world_confs (snd (rpc env ?h v)) = service_confs (snd (?h (ee_babel env (ew_calls v)) b))"
      from created_confs(2) [of "ee_babel env (ew_calls v)" n c b] that show ?thesis
        unfolding b t by auto
    qed
  qed
  from rpc_retry_Inr [OF assms step, simplified] obtain v
    where v: "world_confs v \<in> ?C" "rpc env ?h v = (Inr x, t)" by auto
  from rpc_Inr [OF v(2)] obtain b b' where "service_confs b = world_confs v"
    and "?h (ee_babel env (ew_calls v)) b = (Inr x, b')" and "world_confs t = service_confs b'" by blast
  with created_confs(1) v(1) show ?thesis by auto
qed

lemma pass_plugin_config_keeps: "same_confs world_confs (pass_plugin_config env name)"
proof -
  have "same_confs world_confs (handle_connection_errors env (rpc_retry env (\<lambda>b. save_plugin_config_for_job b name json)))" for json
    by (intro connection_errors_keep retry_keeps(1) save_plugin_config_keeps)
  then show ?thesis
    by (auto simp: pass_plugin_config_def same_confs_def split: option.split)
qed

lemma create_law:
  assumes "handle_create_job env n c w = (Inr (), t)"
  shows "world_confs t = (world_confs w)(trim n \<mapsto> c)"
proof -
  let ?archive = "if is_download (job_type c) then check_archive env else ok ()"
    and ?config = "if is_multi_client (job_type c) then pass_plugin_config env (trim n) else ok ()"
  have archive: "same_confs world_confs ?archive"
    by (auto simp: check_archive_def same_confs_rules split: sum.split)
  have config: "same_confs world_confs ?config"
    by (simp add: pass_plugin_config_keeps same_confs_rules)
  from assms obtain w1 w2 w3 where "babel_client env w = (Inr (), w1)" "?archive w1 = (Inr (), w2)" "?config w2 = (Inr (), w3)"
    and created: "rpc_retry env (\<lambda>b. service_create_job b (trim n) c) w3 = (Inr (), t)"
    by (auto simp: handle_create_job_def Let_def try_then_ok_right connection_errors_Inr simp del: if_split split: if_splits
        elim!: try_then_InrE)
  from this(1-3) have "world_confs w3 = world_confs w"
    using same_confsD [OF client_keeps] same_confsD [OF archive] same_confsD [OF config] by metis
  with rpc_create_Inr [OF created] show ?thesis by simp
qed

lemma started_known:
  assumes "service_start_job b n s = (Inr x, t)"
  shows "get_job n (bs_manager s) \<noteq> None"
proof
  assume "get_job n (bs_manager s) = None"
  with assms show False
    by (simp add: service_start_job_def as_internal_def on_jobs_def start_request_def map_error_def)
qed

lemma start_law:
  assumes "handle_start_job env n w = (Inr (), t)"
  shows "world_confs w n \<noteq> None"
proof -
  let ?h = "\<lambda>b. service_start_job b n"
  from assms obtain w1 where w1: "babel_client env w = (Inr (), w1)" and run: "rpc_retry env ?h w1 = (Inr (), t)"
    by (auto simp: handle_start_job_def on_babel_def connection_errors_Inr elim!: try_then_InrE)
  have "world_confs (snd (rpc env ?h v)) = world_confs v" for v
    using rpc_keeps [of ?h env] service_keeps(1) by (simp add: same_confs_def)
  then obtain v where v: "world_confs v = world_confs w1" "rpc env ?h v = (Inr (), t)"
    using rpc_retry_Inr [OF run, of "{world_confs w1}"] by auto
  from rpc_Inr [OF v(2)] obtain b b' where b: "service_confs b = world_confs v"
    and "?h (ee_babel env (ew_calls v)) b = (Inr (), b')" by blast
  then have "get_job n (bs_manager b) \<noteq> None"
    by (blast dest: started_known)
  then have "service_confs b n \<noteq> None"
    by (simp add: job_confs_def)
  with b v(1) same_confsD [OF client_keeps w1] show ?thesis by simp
qed

lemma stop_laws:
  "same_confs world_confs (handle_stop_job env n)" "same_confs world_confs (handle_stop_all_jobs env)"
  unfolding handle_stop_job_def handle_stop_all_jobs_def client_stop_job_def client_stop_all_jobs_def
  by (intro on_babel_keeps same_confs_rules retry_keeps(1) service_keeps)+

lemma request_laws:
  "same_confs world_confs (handle_start_job env n)" "same_confs world_confs (handle_get_jobs env)"
  "same_confs world_confs (handle_run_sh env body timeout)" "same_confs world_confs (handle_render_template env p d json)"
  "same_confs world_confs (engine_data_stamp env)"
  unfolding handle_start_job_def handle_get_jobs_def handle_run_sh_def handle_render_template_def engine_data_stamp_def
    handle_data_stamp_def
  by (auto intro!: on_babel_keeps retry_keeps service_keeps service_run_sh_keeps service_render_keeps service_stamp_keeps
      same_confs_rules)

lemma scheduler_laws:
  "same_confs world_confs (engine_add_task env n sch f param)" "same_confs world_confs (engine_save_config env cfg)"
  by (auto simp: engine_add_task_def send_to_scheduler_def engine_save_config_def same_confs_def split: sum.split option.split)

interpretation babel: job_engine "engine_ops_of env" world_confs trim for env
  by unfold_locales (simp_all add: engine_ops_of_def create_law start_law stop_laws request_laws scheduler_laws)

end
