(* ===== verification/Plugin_Properties.thy ===== *)
theory Plugin_Properties
  imports Engine_Plan
begin

text \<open>
  The properties of the plugin of a node, run by its engine over the connection to Babel: what a
  default \<open>init\<close> leaves in the registry of jobs, what a reload does to the services, which
  configuration a failed reload leaves, what a default \<open>upload\<close> leaves in the registry, and what the shell reads of a
  sanitized parameter.
\<close>

section \<open>Default init\<close>

abbreviation world_manager :: "('c, 'd) engine_world \<Rightarrow> manager" where
  "world_manager w \<equiv> bs_manager (ew_babel w)"

lemma planned_conf:
  assumes "babel.carried_out p s t" and "distinct (map fst p)" and "\<forall>n \<in> fst ` set p. trim n = n" and "(n, cfg) \<in> set p"
  shows "world_confs t n = Some cfg"
proof -
  have "map (apfst trim) p = p"
    using assms(3) by (intro map_idI) auto
  with assms(1) have "world_confs t = world_confs s ++ map_of (rev p)"
    by (simp add: babel.carried_out_def)
  moreover have "map_of (rev p) n = Some cfg"
    using assms(2,4) by (simp add: map_of_eq_Some_iff rev_map [symmetric])
  ultimately show ?thesis by simp
qed

text \<open>
  C17: A default \<open>init\<close> of a validated configuration that succeeds leaves every job of its plan in the
  registry of Babel's jobs manager, with the planned configuration, whatever calls were lost and
  retried and however often the jobs manager passed in between; and every job such a job waits for is
  registered, unless the author of the plugin declared the dependency.
\<close>

theorem init_registers_its_plan:
  assumes "default_init (engine_ops_of env) sc (Some c) w = (Inr (), t)" and "validate c = Inr ()"
    and "\<forall>n \<in> set (DOWNLOAD_JOB_NAME # job_names c). trim n = n"
  shows "\<exists>has_data. \<forall>(n, cfg) \<in> set (init_plan c has_data).
    (\<exists>j. get_job n (world_manager t) = Some j \<and> job_conf j = cfg) \<and>
    (\<forall>d \<in> set (waiting_for cfg) - declared_needs c. get_job d (world_manager t) \<noteq> None)"
proof -
  from babel.default_init_plan [OF assms(1)] obtain h where h: "babel.carried_out (init_plan c h) w t" ..
  have names: "\<forall>n \<in> fst ` set (init_plan c h). trim n = n"
  proof
    fix n assume "n \<in> fst ` set (init_plan c h)"
    from init_plan_names [OF this] assms(3) show "trim n = n" by auto
  qed
  have "(\<exists>j. get_job n (world_manager t) = Some j \<and> job_conf j = cfg) \<and>
      (\<forall>d \<in> set (waiting_for cfg) - declared_needs c. get_job d (world_manager t) \<noteq> None)"
    if "(n, cfg) \<in> set (init_plan c h)" for n cfg
    using planned_conf [OF h init_plan_distinct [OF assms(2)] names that] babel.planned_dependencies [OF h that]
    by (auto simp: world_confs_def job_confs_def)
  then show ?thesis by blast
qed

section \<open>Reload\<close>

lemma services_registered:
  assumes "start_services (engine_ops_of env) ss required awaited w = (Inr (), t)" and "distinct (map svc_name ss)"
    and "s \<in> set ss" and "\<forall>s \<in> set ss. trim (svc_name s) = svc_name s"
  shows "world_confs t (svc_name s) = Some (build_service_job_config s required awaited)"
  using assms planned_conf [OF babel.services_started [OF assms(1)]]
  by (auto simp: names_of_plans services_plan_def comp_def)

lemma recreate_registers:
  assumes "recreate_services (engine_ops_of env) (p, w) = (Inr (), (p', t))" and "plugin_config_of p = Some c"
  shows "\<exists>u. start_services (engine_ops_of env) (services c) [] [] u = (Inr (), t)"
  using assms by (auto simp: recreate_services_def on_engine_def try_then_Inr_iff split: prod.splits)

lemma on_engine_Inr: "on_engine m (p, w) = (Inr x, q) \<longleftrightarrow> (\<exists>t. m w = (Inr x, t) \<and> q = (p, t))"
  by (auto simp: on_engine_def split: prod.split)

lemma recreate_same_plugin: "recreate_services ops (q, u) = (r, (q', u')) \<Longrightarrow> q' = q"
  by (auto simp: recreate_services_def on_engine_def split: option.splits prod.splits)

lemma reload_Inr:
  assumes "reload_plugin_config ops sc (p, w) = (Inr (), (p', t))" and "plugin_config_of p' = Some c"
  shows "validate c = Inr () \<and> (\<exists>q u. plugin_config_of q = Some c \<and> recreate_services ops (q, u) = (Inr (), (p', t)))"
proof -
  from assms(1) obtain x q u v where saved: "(case x of None \<Rightarrow> ok ()
       | Some c \<Rightarrow> try_then (lift_result (\<lambda>_. map_sum validate_text (\<lambda>u. u) (validate c)))
                     (\<lambda>_. on_engine (op_save_config ops c))) (q\<lparr>plugin_config_of := x\<rparr>, u) = (Inr (), v)"
    and recreated: "recreate_services ops v = (Inr (), (p', t))"
    unfolding reload_plugin_config_def set_config_def
    by (elim try_then_InrE) (auto simp: update_state_def split: prod.splits)
  have v: "fst v = q\<lparr>plugin_config_of := x\<rparr>"
    using saved by (cases x) (auto simp: try_then_Inr_iff lift_result_def on_engine_Inr)
  then have "p' = q\<lparr>plugin_config_of := x\<rparr>"
    using recreated by (cases v) (auto dest: recreate_same_plugin)
  with assms(2) have x: "x = Some c" by simp
  with saved have "validate c = Inr ()"
    by (cases "validate c") (auto simp: try_then_Inr_iff lift_result_def)
  moreover have "recreate_services ops (q\<lparr>plugin_config_of := Some c\<rparr>, snd v) = (Inr (), (p', t))"
    using v x recreated by (cases v) simp
  ultimately show ?thesis
    by (intro conjI exI [of _ "q\<lparr>plugin_config_of := Some c\<rparr>"] exI [of _ "snd v"]) simp_all
qed

lemma no_dependencies_finished:
  assumes "waiting_for cfg = []"
  shows "deps_finished name deps cfg = Inr True"
  using assms by (simp add: waiting_for_def deps_finished_def)

text \<open>What is known of one job, while other jobs are created and started over the connection.\<close>

definition job_is :: "string \<Rightarrow> (job \<Rightarrow> bool) \<Rightarrow> manager \<Rightarrow> bool" where
  "job_is n Q m \<longleftrightarrow> (case get_job n m of Some j \<Rightarrow> Q j | None \<Rightarrow> False)"

definition idle_job :: "job_config \<Rightarrow> job \<Rightarrow> bool" where
  "idle_job c j \<longleftrightarrow> job_conf j = c \<and> \<not> is_active j"

definition pending_job :: "job_config \<Rightarrow> job \<Rightarrow> bool" where
  "pending_job c j \<longleftrightarrow> job_conf j = c \<and> (\<exists>stamp. job_st j = Inactive (Pending (waiting_for c)) stamp)"

lemma job_is_fields [simp]:
  "job_is n Q (m\<lparr>job_disk := d\<rparr>) = job_is n Q m" "job_is n Q (m\<lparr>runners := rs\<rparr>) = job_is n Q m"
  "job_is n Q (put_job k j m) = (if n = k then Q j else job_is n Q m)"
  by (simp_all add: job_is_def)

lemma keeps_job_is_create:
  assumes "k \<noteq> n"
  shows "keeps (job_is n Q) (create_job os k c)"
proof (rule keepsI)
  fix m assume m: "job_is n Q m"
  have guard: "keeps (job_is n Q) (create_guard os k)"
  proof (rule keepsI)
    fix m assume "job_is n Q m"
    with keepsD [OF keeps_terminate_if_active [of "job_is n Q" os k]] show "job_is n Q (snd (create_guard os k m))"
      by (cases "get_job k m") (simp_all add: create_guard_def)
  qed
  have store: "keeps (job_is n Q) (store_new_job os k j)" for j
    using assms by (intro keeps_store_new_job) simp_all
  show "job_is n Q (snd (create_job os k c m))"
    unfolding create_job_def by (rule keepsD [OF keeps_try_then [OF guard store] m])
qed

lemma keeps_job_is_start: "k \<noteq> n \<Longrightarrow> keeps (job_is n Q) (start_request k os)"
  by (intro keeps_start_request) simp_all

lemma keeps_idle_start: "keeps (job_is n (idle_job c)) (start_request n os)"
  by (rule keepsI)
    (auto simp: start_request_def Let_def snd_on_disk job_is_def idle_job_def set_inactive_def is_active_def split: option.splits)

lemma created_idle:
  assumes "create_job os n c m = (Inr (), t)"
  shows "job_is n (idle_job c) t"
proof -
  from assms obtain j u v where "j = job_new (path_join (jobs_dir m) n) c (Inactive job_status.Stopped (os_now os))"
    and "store_new_job os n j u = (Inr (), t)"
    by (auto simp: create_job_def elim!: try_then_InrE)
  then show ?thesis
    by (auto simp: store_new_job_def update_state_def idle_job_def job_new_def is_active_def elim!: try_then_InrE)
qed

lemma started_pending:
  assumes "start_request n os m = (Inr (), t)" and "job_is n (idle_job c) m"
  shows "job_is n (pending_job c) t"
  using assms
  by (auto simp: start_request_def job_is_def idle_job_def pending_job_def set_inactive_def Let_def on_disk_eq split: option.splits)

text \<open>A pass starts a pending job that waits for nothing.\<close>

definition can_start :: "os \<Rightarrow> string \<Rightarrow> nat \<Rightarrow> bool" where
  "can_start os n pid \<longleftrightarrow> (\<forall>dir. status_remove_error (os_job_io os) dir = None) \<and> os_runner_bin os \<and> os_spawn os n = Inr pid"

lemma update_active_keeps_inactive:
  assumes "get_job n s = Some j" and "\<not> is_active j"
  shows "get_job n (fold (update_active_job os ps) ns s) = Some j"
  using assms(1)
proof (induction ns arbitrary: s)
  case (Cons m ns)
  have "get_job n (update_active_job os ps m s) = Some j"
  proof (cases "m = n")
    case True
    with Cons.prems assms(2) show ?thesis by (auto simp: update_active_job_def is_active_def split: job_state.splits)
  next
    case False
    with Cons.prems show ?thesis
      by (auto simp: update_active_job_def handle_stopped_frame split: option.split job_state.split)
  qed
  from Cons.IH [OF this] show ?case by simp
qed simp

lemma check_inactive_keeps_active:
  assumes "get_job n s = Some j" and "job_st j = Active pid stamp"
  shows "get_job n (fold (check_inactive_job os deps) ns s) = Some j"
  using assms(1)
proof (induction ns arbitrary: s)
  case (Cons m ns)
  have "get_job n (check_inactive_job os deps m s) = Some j"
    using Cons.prems assms(2) check_inactive_frame [of n m os deps s] by (cases "m = n") (simp_all add: check_inactive_job_def)
  from Cons.IH [OF this] show ?case by simp
qed simp

lemma check_inactive_starts:
  assumes "get_job n s = Some j" and "job_st j = Inactive (Pending w) stamp" and "deps_finished n deps (job_conf j) = Inr True"
    and "can_start os n pid" and "n \<in> set ns"
  shows "\<exists>j'. get_job n (fold (check_inactive_job os deps) ns s) = Some j' \<and> job_st j' = Active pid (os_now os)"
  using assms(1,5)
proof (induction ns arbitrary: s)
  case (Cons m ns)
  show ?case
  proof (cases "m = n")
    case False
    with Cons check_inactive_frame [of n m os deps s] show ?thesis by simp
  next
    case True
    have "fst (clear_status (os_job_io os) j (job_disk s)) = Inr ()"
      using assms(4) by (simp add: can_start_def clear_status_def split: option.split)
    with start_job_state [of n os j s] assms(4)
    obtain j' where "get_job n (start_job os n j s) = Some j'" "job_st j' = Active pid (os_now os)"
      by (auto simp: can_start_def)
    moreover have "check_inactive_job os deps n s = start_job os n j s"
      using Cons.prems(1) assms(2,3) by (simp add: check_inactive_job_def)
    ultimately show ?thesis
      using check_inactive_keeps_active [of n "start_job os n j s" j' pid "os_now os" os deps ns] True by simp
  qed
qed simp

lemma pass_starts_pending:
  assumes "job_is n (pending_job c) s" and "waiting_for c = []" and "can_start os n pid"
  shows "\<exists>j. get_job n (update_jobs os ps s) = Some j \<and> job_st j = Active pid (os_now os)"
proof -
  from assms(1) obtain j stamp where j: "get_job n s = Some j" "job_conf j = c" "job_st j = Inactive (Pending (waiting_for c)) stamp"
    by (auto simp: job_is_def pending_job_def split: option.splits)
  let ?s = "update_active_jobs os ps s"
  have same: "get_job n ?s = Some j"
    using update_active_keeps_inactive [OF j(1)] j(3) by (simp add: update_active_jobs_def is_active_def)
  then have "n \<in> set (map fst (jobs ?s))" by (force simp: get_job_def dest: map_of_SomeD)
  moreover have "deps_finished n (jobs ?s) (job_conf j) = Inr True" using assms(2) j(2) by (simp add: no_dependencies_finished)
  ultimately show ?thesis
    using check_inactive_starts [OF same j(3) _ assms(3)] by (simp add: update_jobs_def check_inactive_jobs_def)
qed

text \<open>Over a connection on whose calls no passes of the jobs manager fall.\<close>

definition quiet :: "('c, 'd) engine_env \<Rightarrow> bool" where
  "quiet env \<longleftrightarrow> (\<forall>k. ee_passes env k = [])"

lemma run_no_passes: "quiet env \<Longrightarrow> run_passes (ee_passes env k) b = b"
  by (simp add: quiet_def run_passes_def)

lemma keeps_rpc:
  assumes "quiet env" and "\<And>b. keeps (\<lambda>s. P (bs_manager s)) (h b)"
  shows "keeps (\<lambda>w. P (world_manager w)) (rpc env h)"
  using keepsD [OF assms(2)]
  by (auto simp: rpc_def Let_def case_prod_beta run_no_passes [OF assms(1)] intro!: keepsI split: delivery.split)

lemma keeps_rpc_retry:
  assumes "quiet env" and "\<And>b. keeps (\<lambda>s. P (bs_manager s)) (h b)"
  shows "keeps (\<lambda>w. P (world_manager w)) (rpc_retry env h)"
  unfolding retry_defs by (intro keeps_selective_retry_loop keeps_rpc assms)

lemma keeps_connection_errors:
  "keeps (\<lambda>w. P (world_manager w)) m \<Longrightarrow> keeps (\<lambda>w. P (world_manager w)) (handle_connection_errors env m)"
  by (rule keepsI, drule keepsD, assumption) (auto simp: handle_connection_errors_def split: prod.split sum.split)

lemma keeps_client: "keeps (\<lambda>w. P (world_manager w)) (babel_client env)"
  by (rule keepsI) (simp add: babel_client_def case_prod_beta Let_def)

lemma keeps_service:
  "keeps P m \<Longrightarrow> keeps (\<lambda>s. P (bs_manager s)) (as_internal what (on_jobs m))"
  unfolding as_internal_def by (rule keeps_map_error, rule keepsI, drule keepsD, assumption) (simp add: on_jobs_def case_prod_beta Let_def)

lemma rpc_delivered:
  assumes "rpc env h w = (Inr x, t)" and "quiet env"
  shows "h (ee_babel env (ew_calls w)) (ew_babel w) = (Inr x, ew_babel t)"
  using assms by (auto simp: rpc_def Let_def case_prod_beta run_no_passes prod_eq_iff split: delivery.splits)

lemma service_jobs_Inr: "as_internal what (on_jobs m) b = (Inr x, b') \<Longrightarrow> m (bs_manager b) = (Inr x, bs_manager b')"
  by (cases "m (bs_manager b)") (auto simp: as_internal_def on_jobs_def)

lemma engine_created_idle:
  assumes "handle_create_job env n c w = (Inr (), t)" and "quiet env"
  shows "job_is (trim n) (idle_job c) (world_manager t)"
proof -
  from assms(1) obtain v where "rpc_retry env (\<lambda>b. service_create_job b (trim n) c) v = (Inr (), t)"
    by (auto simp: handle_create_job_def Let_def try_then_ok_right connection_errors_Inr simp del: if_split split: if_splits
        elim!: try_then_InrE)
  from selective_retry_loop_Inr [OF this [unfolded retry_defs]] obtain u
    where "rpc env (\<lambda>b. service_create_job b (trim n) c) u = (Inr (), t)" by blast
  from rpc_delivered [OF this assms(2)] obtain os m where "create_job os (trim n) c m = (Inr (), world_manager t)"
    unfolding service_create_job_def by (blast dest: service_jobs_Inr)
  then show ?thesis by (rule created_idle)
qed

lemma engine_started_pending:
  assumes "handle_start_job env n w = (Inr (), t)" and "quiet env" and "job_is n (idle_job c) (world_manager w)"
  shows "job_is n (pending_job c) (world_manager t)"
proof -
  let ?h = "\<lambda>b. service_start_job b n"
  from assms(1) obtain v where v: "babel_client env w = (Inr (), v)" and run: "rpc_retry env ?h v = (Inr (), t)"
    by (auto simp: handle_start_job_def on_babel_def connection_errors_Inr elim!: try_then_InrE)
  have "job_is n (idle_job c) (world_manager v)" by (rule keepsD_eq [OF keeps_client [where P = "job_is n (idle_job c)"] assms(3) v])
  moreover have "keeps (\<lambda>w. job_is n (idle_job c) (world_manager w)) (rpc env ?h)"
    by (intro keeps_rpc [OF assms(2)]) (simp add: service_start_job_def keeps_service keeps_idle_start)
  ultimately obtain u where u: "job_is n (idle_job c) (world_manager u)" "rpc env ?h u = (Inr (), t)"
    using retry_last [OF run [unfolded retry_defs], of "\<lambda>w. job_is n (idle_job c) (world_manager w)"] by auto
  from rpc_delivered [OF u(2) assms(2)] obtain os where "start_request n os (world_manager u) = (Inr (), world_manager t)"
    unfolding service_start_job_def by (blast dest: service_jobs_Inr)
  from started_pending [OF this u(1)] show ?thesis .
qed

lemma keeps_engine_create:
  assumes "quiet env" and "trim k \<noteq> n"
  shows "keeps (\<lambda>w. job_is n Q (world_manager w)) (handle_create_job env k c)"
proof -
  note connection = keeps_connection_errors [where P = "job_is n Q"]
  have create: "keeps (\<lambda>w. job_is n Q (world_manager w)) (rpc_retry env (\<lambda>b. service_create_job b (trim k) c))"
    using assms(2) by (intro keeps_rpc_retry [OF assms(1)]) (simp add: service_create_job_def keeps_service keeps_job_is_create)
  have "keeps (\<lambda>s. job_is n Q (bs_manager s)) (save_plugin_config_for_job b m json)" for b m json
    unfolding save_plugin_config_for_job_def Let_def
    by (intro keeps_rules) (auto intro!: keeps_service keeps_on_disk keeps_rules split: option.split)
  then have pass: "keeps (\<lambda>w. job_is n Q (world_manager w)) (pass_plugin_config env m)" for m
    unfolding pass_plugin_config_def
    by (intro keeps_with_state) (auto intro!: keeps_rules connection keeps_rpc_retry [OF assms(1)] split: option.split)
  have "keeps (\<lambda>w. job_is n Q (world_manager w)) (check_archive env)"
    by (auto simp: check_archive_def intro!: keeps_rules split: sum.split)
  with create pass show ?thesis
    unfolding handle_create_job_def Let_def
    by (intro keeps_rules) (auto intro!: keeps_rules connection keeps_client)
qed

lemma keeps_engine_start:
  "quiet env \<Longrightarrow> k \<noteq> n \<Longrightarrow> keeps (\<lambda>w. job_is n Q (world_manager w)) (handle_start_job env k)"
  unfolding handle_start_job_def on_babel_def
  by (intro keeps_rules keeps_client keeps_connection_errors keeps_rpc_retry)
    (simp_all add: service_start_job_def keeps_service keeps_job_is_start)

lemma keeps_create_and_start:
  assumes "quiet env" and "trim k \<noteq> n" and "k \<noteq> n"
  shows "keeps (\<lambda>w. job_is n Q (world_manager w)) (create_and_start_job (engine_ops_of env) (k, c))"
  unfolding create_and_start_job_def
  using keeps_engine_create [OF assms(1,2)] keeps_engine_start [OF assms(1,3)]
  by (auto simp: engine_ops_of_def intro!: keeps_rules)

lemma created_and_started_pending:
  assumes "create_and_start_job (engine_ops_of env) (n, c) w = (Inr (), t)" and "quiet env" and "trim n = n"
  shows "job_is n (pending_job c) (world_manager t)"
proof -
  from assms(1) obtain v where "handle_create_job env n c w = (Inr (), v)" "handle_start_job env n v = (Inr (), t)"
    by (auto simp: create_and_start_job_def engine_ops_of_def elim!: try_then_InrE)
  with engine_created_idle [of env n c w v] engine_started_pending [of env n v t c] assms(2,3) show ?thesis by simp
qed

lemma keeps_for_each_in: "(\<And>x. x \<in> set xs \<Longrightarrow> keeps I (f x)) \<Longrightarrow> keeps I (for_each f xs)"
  by (induction xs) (auto intro!: keeps_rules)

lemma services_pending:
  assumes "start_services (engine_ops_of env) ss required awaited w = (Inr (), t)" and "quiet env" and "distinct (map svc_name ss)"
    and "\<forall>s \<in> set ss. trim (svc_name s) = svc_name s" and "s \<in> set ss"
  shows "job_is (svc_name s) (pending_job (build_service_job_config s required awaited)) (world_manager t)"
  using assms(1,3-5)
proof (induction ss arbitrary: w)
  case (Cons x ss)
  let ?start = "\<lambda>s. create_and_start_job (engine_ops_of env) (svc_name s, build_service_job_config s required awaited)"
  from Cons.prems(1) obtain u where u: "?start x w = (Inr (), u)"
    and rest: "start_services (engine_ops_of env) ss required awaited u = (Inr (), t)"
    by (auto simp: start_services_def elim!: try_then_InrE)
  show ?case
  proof (cases "s \<in> set ss")
    case True
    with Cons.IH [OF rest] Cons.prems(2,3) show ?thesis by simp
  next
    case False
    with Cons.prems(4) have s: "s = x" by simp
    have first: "job_is (svc_name s) (pending_job (build_service_job_config s required awaited)) (world_manager u)"
      using created_and_started_pending [OF u assms(2)] Cons.prems(3) s by simp
    have "svc_name s' \<noteq> svc_name s \<and> trim (svc_name s') = svc_name s'" if "s' \<in> set ss" for s'
    proof
      have "svc_name s \<notin> svc_name ` set ss" using Cons.prems(2) s by simp
      with that show "svc_name s' \<noteq> svc_name s" by (metis imageI)
      show "trim (svc_name s') = svc_name s'" using Cons.prems(3) that by simp
    qed
    then have "keeps (\<lambda>w. job_is (svc_name s) Q (world_manager w)) (for_each ?start ss)" for Q
      by (intro keeps_for_each_in keeps_create_and_start [OF assms(2)]) auto
    from keepsD_eq [OF this first] rest show ?thesis by (simp add: start_services_def)
  qed
qed simp

text \<open>
  C18: A reload that succeeds (\<open>init\<close> begins with one) has registered every service without any
  dependency: whatever the configuration says about downloads and jobs that must come first, the
  dependencies of each service count as finished. When the jobs manager makes no pass during the
  reload, each service is left pending, and the next pass, in which its runner can be spawned, starts it.
\<close>

theorem reload_unbinds_services:
  assumes "reload_plugin_config (engine_ops_of env) sc (p, w) = (Inr (), (p', t))" and "plugin_config_of p' = Some c"
    and "\<forall>s \<in> set (services c). trim (svc_name s) = svc_name s" and "s \<in> set (services c)"
  shows "\<exists>j. get_job (svc_name s) (world_manager t) = Some j \<and> job_conf j = build_service_job_config s [] [] \<and>
    deps_finished (svc_name s) (jobs (world_manager t)) (job_conf j) = Inr True \<and>
    (quiet env \<longrightarrow> (\<exists>stamp. job_st j = Inactive (Pending []) stamp) \<and>
      (\<forall>os ps pid. can_start os (svc_name s) pid \<longrightarrow>
        (\<exists>j'. get_job (svc_name s) (update_jobs os ps (world_manager t)) = Some j' \<and> job_st j' = Active pid (os_now os))))"
proof -
  let ?n = "svc_name s" and ?c = "build_service_job_config s [] []"
  from reload_Inr [OF assms(1,2)] obtain q u where valid: "validate c = Inr ()" and q: "plugin_config_of q = Some c"
    and run: "recreate_services (engine_ops_of env) (q, u) = (Inr (), (p', t))"
    by blast
  from recreate_registers [OF run q] obtain v where v: "start_services (engine_ops_of env) (services c) [] [] v = (Inr (), t)" ..
  have names: "distinct (map svc_name (services c))"
    using valid by (simp add: validate_Inr_iff job_names_def)
  from services_registered [OF v names assms(4,3)] obtain j where j: "get_job ?n (world_manager t) = Some j" "job_conf j = ?c"
    by (auto simp: world_confs_def job_confs_def)
  have free: "waiting_for ?c = []"
    using waiting_for_service [of s "[]" "[]"] by simp
  have pending: "job_is ?n (pending_job ?c) (world_manager t)" if "quiet env"
    by (rule services_pending [OF v that names assms(3,4)])
  show ?thesis
  proof (rule exI [of _ j], intro conjI impI allI)
    show "deps_finished ?n (jobs (world_manager t)) (job_conf j) = Inr True" using j(2) free by (simp add: no_dependencies_finished)
    show "\<exists>stamp. job_st j = Inactive (Pending []) stamp" if "quiet env"
      using pending [OF that] j free by (simp add: job_is_def pending_job_def)
    show "\<exists>j'. get_job ?n (update_jobs os ps (world_manager t)) = Some j' \<and> job_st j' = Active pid (os_now os)"
      if "quiet env" and "can_start os ?n pid" for os ps pid
      by (rule pass_starts_pending [OF pending [OF that(1)] free that(2)])
  qed (use j in simp_all)
qed

text \<open>
  When the new configuration of a plugin does not validate, the reload fails, but the plugin keeps
  that configuration, and the default \<open>upload\<close> that follows works with it.
\<close>

theorem invalid_config_is_kept:
  assumes "script_run sc (ee_params env) w = (Inr (), w1)" and "has_function_with sc PLUGIN_CONFIG_FN_NAME 0"
    and "\<And>i u. script_call sc i u PLUGIN_CONFIG_FN_NAME [] w1 = (Inr v, w2)"
    and "as_config sc v = Inr c" and "validate c = Inl e"
  shows "\<exists>msg b'. engine_reload_config env sc (b, w) = (Inl msg, (b', w2)) \<and>
    (has_function sc UPLOAD_JOB_NAME \<or>
     rhai_upload (engine_ops_of env) sc (be_plugin b', w2) =
       on_engine (default_upload (engine_ops_of env) sc (Some c)) (be_plugin b', w2))"
proof -
  let ?ops = "engine_ops_of env" and ?p = "plugin_clone (be_plugin b)"
  have config: "get_config ?ops sc (?p, w1) = (Inr (Some c), (?p, w2))"
    using assms(2,3,4)
    by (simp add: get_config_def call_fn_def on_engine_def action_context_def with_context_def try_then_def lift_result_def)
  have run: "script_run sc (op_node_params ?ops) w = (Inr (), w1)"
    using assms(1) by (simp add: engine_ops_of_def)
  from run config assms(5)
  have reload: "reload_plugin_config ?ops sc (?p, w) = (Inl (validate_text e), (?p\<lparr>plugin_config_of := Some c\<rparr>, w2))"
    by (simp add: reload_plugin_config_def set_config_def on_engine_def try_then_def lift_result_def)
  let ?b = "b\<lparr>be_plugin := ?p\<lparr>plugin_config_of := Some c\<rparr>\<rparr>"
  have "engine_reload_config env sc (b, w) =
      (Inl (''node_id='' @ ee_node_id env @ '': '' @ validate_text e), (?b, w2))"
    by (simp add: engine_reload_config_def on_plugin_def try_then_def reload with_context_def)
  moreover have "has_function sc UPLOAD_JOB_NAME \<or>
     rhai_upload ?ops sc (be_plugin ?b, w2) = on_engine (default_upload ?ops sc (Some c)) (be_plugin ?b, w2)"
    by (simp add: rhai_upload_def)
  ultimately show ?thesis by blast
qed

text \<open>A reload leaves what the default functions captured.\<close>

lemma fst_on_engine: "fst (snd (on_engine m q)) = fst q"
  by (simp add: on_engine_def split: prod.split)

definition keeps_defaults :: "('s, 'd, 'a) plugin_action \<Rightarrow> bool" where
  "keeps_defaults m \<longleftrightarrow> (\<forall>q. defaults_config (fst (snd (m q))) = defaults_config (fst q))"

lemma keeps_defaults_rules:
  "keeps_defaults m \<Longrightarrow> (\<And>x. keeps_defaults (k x)) \<Longrightarrow> keeps_defaults (try_then m k)"
  "keeps_defaults (ok x)" "keeps_defaults (on_engine e)" "keeps_defaults (set_config cfg)" "keeps_defaults (lift_result g)"
  by (auto simp: keeps_defaults_def try_then_def on_engine_def set_config_def lift_result_def split: prod.split sum.split)
     (metis fst_conv snd_conv)+

lemma call_fn_keeps_defaults: "keeps_defaults (call_fn ops sc conv name args)"
  by (auto simp: keeps_defaults_def call_fn_def fst_on_engine)

lemma reload_keeps_defaults: "keeps_defaults (reload_plugin_config ops sc)"
proof -
  have config: "keeps_defaults (get_config ops sc)"
    unfolding get_config_def by (simp add: call_fn_keeps_defaults keeps_defaults_rules)
  have services: "keeps_defaults (recreate_services ops)"
    by (auto simp: keeps_defaults_def recreate_services_def fst_on_engine split: option.split)
  have "keeps_defaults (case cfg of None \<Rightarrow> ok ()
       | Some c \<Rightarrow> try_then (lift_result (\<lambda>_. map_sum validate_text (\<lambda>u. u) (validate c))) (\<lambda>_. on_engine (op_save_config ops c)))" for cfg
    by (cases cfg) (simp_all add: keeps_defaults_rules)
  then show ?thesis
    unfolding reload_plugin_config_def by (intro keeps_defaults_rules config services)
qed

text \<open>
  A script with an \<open>init\<close> of its own that calls \<open>default_init\<close> gets the configuration from before
  the reload: on a node whose plugin has none yet, its first \<open>init\<close> fails although the reload
  succeeded.
\<close>

theorem script_init_misses_config:
  assumes "plugin_config_of (be_plugin b) = None" and "has_function sc INIT_FN_NAME"
    and "\<And>i u. script_call sc i u INIT_FN_NAME [] = try_then i (\<lambda>_. ok v)"
    and "reload_plugin_config (engine_ops_of env) sc (plugin_clone (be_plugin b), w) = (Inr (), (p', t))"
  shows "fst (engine_init env sc (b, w)) =
    Inl (''node_id='' @ ee_node_id env @ '': Rhai function '' @ quoted INIT_FN_NAME @ '' returned error: '' @ missing_config)"
proof -
  have "defaults_config p' = None"
    using reload_keeps_defaults [of "engine_ops_of env" sc] assms(1,4)
    unfolding keeps_defaults_def by (metis fst_conv snd_conv plugin_clone_def register_defaults_def rhai_plugin.select_convs(2)
        rhai_plugin.surjective rhai_plugin.update_convs(2))
  with assms show ?thesis
  by (simp add: engine_init_def on_plugin_def rhai_init_def call_fn_def on_engine_def action_context_def with_context_def
      try_then_def default_init_def)
qed

section \<open>Default upload\<close>

text \<open>
  C19: A default \<open>upload\<close> of a validated configuration that succeeds leaves in the registry of Babel's
  jobs manager every job of its plan with the planned configuration: the jobs before the upload, the
  upload of multiple clients that waits for them when an archived service uses protocol data, the jobs
  after it, and the services that use protocol data, which wait for these. Every job such a job waits
  for is registered, unless the author of the plugin declared the dependency. When no archived service
  uses protocol data, no upload job is created.
\<close>

theorem upload_registers_its_plan:
  assumes "default_upload (engine_ops_of env) sc (Some c) w = (Inr (), t)" and "validate c = Inr ()"
    and "\<forall>n \<in> set (UPLOAD_JOB_NAME # job_names c). trim n = n"
  shows "(\<forall>(n, cfg) \<in> set (upload_plan c).
      (\<exists>j. get_job n (world_manager t) = Some j \<and> job_conf j = cfg) \<and>
      (\<forall>d \<in> set (waiting_for cfg) - declared_upload_needs c. get_job d (world_manager t) \<noteq> None)) \<and>
    (uploads_data c \<or> world_confs t UPLOAD_JOB_NAME = world_confs w UPLOAD_JOB_NAME)"
proof
  have h: "babel.carried_out (upload_plan c) w t" by (rule babel.default_upload_plan [OF assms(1,2)])
  have names: "\<forall>n \<in> fst ` set (upload_plan c). trim n = n"
  proof
    fix n assume "n \<in> fst ` set (upload_plan c)"
    from upload_plan_known [OF this] assms(3) show "trim n = n" by auto
  qed
  have "(\<exists>j. get_job n (world_manager t) = Some j \<and> job_conf j = cfg) \<and>
      (\<forall>d \<in> set (waiting_for cfg) - declared_upload_needs c. get_job d (world_manager t) \<noteq> None)"
    if "(n, cfg) \<in> set (upload_plan c)" for n cfg
    using planned_conf [OF h upload_plan_distinct [OF assms(2)] names that]
      babel.carried_out_dependencies [OF h upload_plan_in_order that]
    by (auto simp: world_confs_def job_confs_def)
  then show "\<forall>(n, cfg) \<in> set (upload_plan c).
      (\<exists>j. get_job n (world_manager t) = Some j \<and> job_conf j = cfg) \<and>
      (\<forall>d \<in> set (waiting_for cfg) - declared_upload_needs c. get_job d (world_manager t) \<noteq> None)" by blast
  show "uploads_data c \<or> world_confs t UPLOAD_JOB_NAME = world_confs w UPLOAD_JOB_NAME"
  proof (rule disjCI)
    assume "world_confs t UPLOAD_JOB_NAME \<noteq> world_confs w UPLOAD_JOB_NAME"
    then have "map_of (rev (map (apfst trim) (upload_plan c))) UPLOAD_JOB_NAME \<noteq> None"
      using h by (auto simp: babel.carried_out_def map_add_def split: option.splits)
    then have "UPLOAD_JOB_NAME \<in> fst ` set (map (apfst trim) (upload_plan c))"
      by (auto simp: map_of_eq_None_iff)
    then have planned: "UPLOAD_JOB_NAME \<in> fst ` set (upload_plan c)"
      using names by (force simp: image_image)
    show "uploads_data c"
    proof (rule ccontr)
      assume "\<not> uploads_data c"
      then have "UPLOAD_JOB_NAME \<in> set (job_names c)" using upload_plan_without [OF _ planned] by blast
      with assms(2) show False by (simp add: validate_Inr_iff)
    qed
  qed
qed

section \<open>Sanitized parameters\<close>

text \<open>
  What a POSIX shell reads after an opening double quote: the text up to the closing one, and the rest.
  A dollar sign or a backquote would start an expansion.
\<close>

definition prepend :: "string \<Rightarrow> (string \<times> string) option \<Rightarrow> (string \<times> string) option" where
  "prepend x r = map_option (apfst (\<lambda>y. x @ y)) r"

fun read_quoted :: "string \<Rightarrow> (string \<times> string) option" where
  "read_quoted [] = None"
| "read_quoted (c # cs) =
     (if c = DOUBLE_QUOTE then Some ([], cs)
      else if c = CHR ''$'' \<or> c = CHR 0x60 then None
      else if c = BACKSLASH
      then (case cs of
              [] \<Rightarrow> None
            | d # ds \<Rightarrow> if d = NEWLINE then read_quoted ds
                        else if d \<in> {CHR ''$'', CHR 0x60, DOUBLE_QUOTE, BACKSLASH} then prepend [d] (read_quoted ds)
                        else prepend [BACKSLASH, d] (read_quoted ds))
      else prepend [c] (read_quoted cs))"

definition newline_escaped :: "string \<Rightarrow> string" where
  "newline_escaped s = concat (map (\<lambda>c. if c = NEWLINE then [BACKSLASH, CHR ''n''] else [c]) s)"

lemma special_not_alphanumeric: "is_alphanumeric c \<Longrightarrow> c \<notin> {DOUBLE_QUOTE, BACKSLASH, CHR ''$'', CHR 0x60, NEWLINE}"
  by (auto simp: is_alphanumeric_def is_ascii_alphanumeric_def DOUBLE_QUOTE_def BACKSLASH_def NEWLINE_def Let_def)

lemma read_escaped_char:
  assumes "escape_sh_char c = Inr e"
  shows "read_quoted (e @ rest) = prepend (newline_escaped [c]) (read_quoted rest)"
  using assms special_not_alphanumeric [of c]
  by (auto simp: escape_sh_char_def newline_escaped_def DOUBLE_QUOTE_def BACKSLASH_def NEWLINE_def split: if_splits)

lemma read_escaped:
  "escape_all s = Inr e \<Longrightarrow> read_quoted (e @ [DOUBLE_QUOTE] @ rest) = Some (newline_escaped s, rest)"
proof (induction s arbitrary: e)
  case (Cons c s)
  then obtain e1 e2 where "escape_sh_char c = Inr e1" "escape_all s = Inr e2" "e = e1 @ e2"
    by (auto simp: and_then_Inr_iff)
  with Cons.IH [of e2] read_escaped_char [of c e1 "e2 @ [DOUBLE_QUOTE] @ rest"] show ?case
    by (simp add: prepend_def newline_escaped_def)
qed (simp add: newline_escaped_def)

text \<open>
  C20: A parameter that is accepted is put between double quotes so that a shell reads it back as one
  word, in which newlines have become \<open>\n\<close>, and goes on after the closing quote.
\<close>

theorem sanitized_param_is_one_word:
  assumes "sanitize_sh_param s = Inr q"
  shows "\<exists>text. q = DOUBLE_QUOTE # text \<and> read_quoted (text @ rest) = Some (newline_escaped s, rest)"
  using assms read_escaped [of s _ rest] by (auto simp: sanitize_sh_param_def and_then_Inr_iff)

section \<open>Examples\<close>

definition example_babel_env :: babel_env where
  "example_babel_env =
     \<lparr>be_os = example_os, be_crc = (\<lambda>bs. of_nat (length bs)), be_bin_io = example_bin_io,
      set_ram_disks_error = (\<lambda>_. None), setup_node_error = None, conf_write_error = None, data_lock = (\<lambda>_. None),
      plugin_config_write_error = (\<lambda>_. None), be_render = (\<lambda>_ _ _. Inr []), be_header_error = (\<lambda>_. None),
      be_json_error = (\<lambda>_. None), be_http = (\<lambda>_. Inl ''offline''), be_sh = (\<lambda>_ _. Inl ''no shell''), bv_user = None\<rparr>"

text \<open>The first reply is lost, so the first call is repeated.\<close>

definition example_engine_env :: "(unit, unit) engine_env" where
  "example_engine_env =
     \<lparr>ee_babel = (\<lambda>_. example_babel_env), ee_passes = (\<lambda>_. []),
      ee_net = (\<lambda>k. if k = 0 then LostAfter \<lparr>rpc_code = CodeUnavailable, rpc_message = []\<rparr> else Delivered),
      ee_status_text = rpc_message, ee_timeout_header = (\<lambda>_. ''15S''), ee_node_id = ''n1'', ee_dev_mode = False,
      ee_archive_id = ''a1'', ee_has_archive = Inr True, ee_params = [], ee_parse_schedule = (\<lambda>_. Inr ()),
      ee_scheduler_open = True, ee_config_json = (\<lambda>_. ''{}''), ee_config_read = True, ee_config_write_error = None,
      ee_data_write_error = None, ee_get_secret = (\<lambda>_. Inr None), ee_put_secret = (\<lambda>_ _. Inr ())\<rparr>"

definition example_world :: "(unit, unit) engine_world" where
  "example_world =
     \<lparr>ew_conn = ConnOpen,
      ew_babel = \<lparr>bs_manager = \<lparr>jobs = [], manager_env = None, jobs_dir = JOBS_DIR, job_disk = Map.empty,
          archive_fs = Map.empty, runners = [], manager_st = Ready, bv_errors = []\<rparr>,
        job_runner_lock = None, babel_conf = None, bs_files = Map.empty, plugin_configs = Map.empty\<rparr>,
      ew_sched = [], ew_plugin_data = None, ew_saved_config = None, ew_calls = 0\<rparr>"

text \<open>A script whose \<open>plugin_config\<close> returns \<open>c\<close> and whose functions \<open>fs\<close> call the default \<open>init\<close>.\<close>

definition example_script :: "string list \<Rightarrow> unit plugin_config \<Rightarrow> ((unit, unit) engine_world, unit, unit plugin_config) script" where
  "example_script fs c =
     \<lparr>script_functions = (PLUGIN_CONFIG_FN_NAME, 0) # map (\<lambda>f. (f, 0)) fs,
      script_run = (\<lambda>_. ok ()),
      script_call = (\<lambda>i u name args. if name = PLUGIN_CONFIG_FN_NAME then ok c else try_then i (\<lambda>_. ok c)),
      as_unit = (\<lambda>_. Inr ()), as_int = (\<lambda>_. Inr 0), as_bool = (\<lambda>_. Inr True), as_string = (\<lambda>_. Inr []),
      as_status = (\<lambda>_. Inl ''none''), as_config = Inr, params_json = (\<lambda>_. Inr ''{}''), sh_debug = (\<lambda>_. [])\<rparr>"

abbreviation sample_config :: "unit plugin_config" where "sample_config \<equiv> services_config [sample_service]"

definition fresh_plugin :: "unit rhai_plugin" where
  "fresh_plugin = \<lparr>plugin_config_of = None, defaults_config = None\<rparr>"

lemma sample_config_valid: "validate sample_config = Inr ()"
  by code_simp

text \<open>A world in which calls arrive, the registry holds the jobs \<open>ns\<close>, each idle and with its directory.\<close>

definition healthy :: "string list \<Rightarrow> (unit, unit) engine_world \<Rightarrow> bool" where
  "healthy ns w \<longleftrightarrow> ew_conn w = ConnOpen \<and> 0 < ew_calls w \<and> map fst (jobs (world_manager w)) = ns \<and>
     (\<forall>n j. get_job n (world_manager w) = Some j \<longrightarrow> \<not> is_active j \<and> job_disk (world_manager w) (job_path j) \<noteq> None)"

definition with_name :: "string \<Rightarrow> string list \<Rightarrow> string list" where
  "with_name n ns = (if n \<in> set ns then ns else ns @ [n])"

lemma with_name_twice [simp]: "with_name n (with_name n ns) = with_name n ns"
  by (simp add: with_name_def)

lemma names_update: "map fst (AList.update n x xs) = with_name n (map fst xs)"
  by (induction xs) (auto simp: with_name_def)

lemma example_rpc:
  assumes "0 < ew_calls w" and "h example_babel_env (ew_babel w) = (Inr x, b)"
  shows "rpc_retry example_engine_env h w = (Inr x, w\<lparr>ew_babel := b, ew_calls := Suc (ew_calls w)\<rparr>)"
proof -
  have "run_passes [] (ew_babel w) = ew_babel w" by (simp add: run_passes_def)
  with assms have "rpc example_engine_env h w = (Inr x, w\<lparr>ew_babel := b, ew_calls := Suc (ew_calls w)\<rparr>)"
    by (simp add: rpc_def example_engine_env_def)
  then show ?thesis
    unfolding retry_defs by (subst selective_retry_loop.simps) simp
qed

lemma example_archive: "ee_has_archive example_engine_env = Inr True"
  by (simp add: example_engine_env_def)

lemma example_create:
  assumes "\<forall>j. get_job n m = Some j \<longrightarrow> \<not> is_active j" and "length (jobs m) < MAX_JOBS"
  shows "\<exists>d. create_job example_os n c m =
    (Inr (), put_job n (job_new (path_join (jobs_dir m) n) c (Inactive job_status.Stopped 5)) (m\<lparr>job_disk := d\<rparr>)) \<and>
    d (path_join (jobs_dir m) n) \<noteq> None \<and> (\<forall>p. job_disk m p \<noteq> None \<longrightarrow> d p \<noteq> None)"
proof -
  let ?p = "path_join (jobs_dir m) n"
  let ?d = "(job_disk m)(?p \<mapsto> (unwrap_or (job_disk m ?p) empty_job_files)
    \<lparr>status_file := Some (Valid (job_status.Stopped, 5)), config_file := Some (Valid c)\<rparr>)"
  have "create_guard example_os n m = (Inr (), m)"
    using assms
    by (auto simp: create_guard_def terminate_if_active_def is_active_def split: option.split job_state.splits)
  then show ?thesis
    by (intro exI [of _ ?d], cases "job_disk m ?p")
       (simp_all add: create_job_def store_new_job_def on_disk_def make_job_dir_def try_then_def job_new_def
        example_os_def no_job_io_errors_def save_status_def save_status_file_def save_config_def save_config_file_def
        action_context_def with_context_def put_job_def)
qed

lemma example_start:
  assumes "get_job n m = Some j" and "\<not> is_active j" and "job_disk m (job_path j) \<noteq> None"
  shows "\<exists>d. start_request n example_os m =
    (Inr (), (put_job n (set_inactive 5 (Pending (waiting_for (job_conf j))) j) m)\<lparr>job_disk := d\<rparr>) \<and>
    (\<forall>p. job_disk m p \<noteq> None \<longrightarrow> d p \<noteq> None)"
  using assms
  by (auto simp: start_request_def Let_def on_disk_def example_os_def save_status_def save_status_file_def set_inactive_def
      no_job_io_errors_def put_job_def)

lemma example_create_and_start:
  assumes w: "healthy ns w" and n: "length ns < MAX_JOBS" "trim n = n" "n \<noteq> []"
    and saved: "is_multi_client (job_type c) \<Longrightarrow> ew_saved_config w = None"
  shows "\<exists>t. create_and_start_job (engine_ops_of example_engine_env) (n, c) w = (Inr (), t) \<and> healthy (with_name n ns) t \<and>
    ew_saved_config t = ew_saved_config w"
proof -
  let ?m = "world_manager w" and ?env = example_engine_env
  let ?j = "job_new (path_join (jobs_dir ?m) n) c (Inactive job_status.Stopped 5)"
  have client: "babel_client ?env v = (Inr (), v)" if "ew_conn v = ConnOpen" for v :: "(unit, unit) engine_world"
    using that by (simp add: babel_client_def conn_babel_client_def)
  from w have fresh: "\<forall>j. get_job n ?m = Some j \<longrightarrow> \<not> is_active j" "length (jobs ?m) < MAX_JOBS"
    using n by (auto simp: healthy_def simp flip: length_map [of fst])
  from example_create [OF this, of c] obtain d where
    create: "create_job example_os n c ?m = (Inr (), put_job n ?j (?m\<lparr>job_disk := d\<rparr>))"
    and d: "d (path_join (jobs_dir ?m) n) \<noteq> None" "\<forall>p. job_disk ?m p \<noteq> None \<longrightarrow> d p \<noteq> None" by blast
  let ?m1 = "put_job n ?j (?m\<lparr>job_disk := d\<rparr>)"
  let ?w1 = "w\<lparr>ew_babel := (ew_babel w)\<lparr>bs_manager := ?m1\<rparr>, ew_calls := Suc (ew_calls w)\<rparr>"
  have "service_create_job example_babel_env n c (ew_babel w) = (Inr (), (ew_babel w)\<lparr>bs_manager := ?m1\<rparr>)"
    using create by (simp add: service_create_job_def as_internal_def on_jobs_def example_babel_env_def)
  from example_rpc [where h = "\<lambda>b. service_create_job b n c", OF _ this] w
  have "rpc_retry ?env (\<lambda>b. service_create_job b n c) w = (Inr (), ?w1)"
    by (simp add: healthy_def)
  with w n saved have created: "handle_create_job ?env n c w = (Inr (), ?w1)"
    by (simp add: handle_create_job_def try_then_def client healthy_def check_archive_def pass_plugin_config_def
        handle_connection_errors_def example_archive)
  have j: "get_job n ?m1 = Some ?j" "\<not> is_active ?j" "job_disk ?m1 (job_path ?j) \<noteq> None"
    using d by (simp_all add: is_active_def job_new_def)
  from example_start [OF this] obtain d' where
    start: "start_request n example_os ?m1 = (Inr (), (put_job n (set_inactive 5 (Pending (waiting_for (job_conf ?j))) ?j) ?m1)\<lparr>job_disk := d'\<rparr>)"
    and d': "\<forall>p. job_disk ?m1 p \<noteq> None \<longrightarrow> d' p \<noteq> None" by blast
  let ?m2 = "(put_job n (set_inactive 5 (Pending (waiting_for (job_conf ?j))) ?j) ?m1)\<lparr>job_disk := d'\<rparr>"
  let ?w2 = "?w1\<lparr>ew_babel := (ew_babel w)\<lparr>bs_manager := ?m2\<rparr>, ew_calls := Suc (Suc (ew_calls w))\<rparr>"
  have "service_start_job example_babel_env n (ew_babel ?w1) = (Inr (), (ew_babel w)\<lparr>bs_manager := ?m2\<rparr>)"
    using start by (simp add: service_start_job_def as_internal_def on_jobs_def example_babel_env_def)
  from example_rpc [where h = "\<lambda>b. service_start_job b n", OF _ this]
  have "rpc_retry ?env (\<lambda>b. service_start_job b n) ?w1 = (Inr (), ?w2)" by simp
  with w have started: "handle_start_job ?env n ?w1 = (Inr (), ?w2)"
    by (simp add: handle_start_job_def on_babel_def try_then_def client healthy_def connection_errors_Inr)
  have "healthy (with_name n ns) ?w2"
    using w d d'
    by (auto simp: healthy_def put_job_def get_job_def update_conv' names_update set_inactive_def is_active_def job_new_def
        split: if_splits)
  moreover have "create_and_start_job (engine_ops_of ?env) (n, c) w = (Inr (), ?w2)"
    using created started by (simp add: create_and_start_job_def engine_ops_of_def try_then_def)
  moreover have "ew_saved_config ?w2 = ew_saved_config w" by simp
  ultimately show ?thesis by blast
qed

lemma example_stop_request:
  assumes "get_job n m = Some j" and "\<not> is_active j" and "job_disk m (job_path j) \<noteq> None"
  shows "\<exists>d. stop_request example_os n m = (Inr (), (put_job n (set_inactive 5 job_status.Stopped j) m)\<lparr>job_disk := d\<rparr>) \<and>
    (\<forall>p. job_disk m p \<noteq> None \<longrightarrow> d p \<noteq> None)"
proof -
  have "terminate_if_active example_os n j m = (Inr (), m)"
    using assms(2) by (simp add: terminate_if_active_def is_active_def split: job_state.splits)
  with assms(1,3) show ?thesis
    by (auto simp: stop_request_def end_job_def try_then_def update_state_def Let_def on_disk_def example_os_def save_status_def
        save_status_file_def set_inactive_def no_job_io_errors_def put_job_def)
qed

lemma example_stop:
  assumes w: "healthy ns w" and n: "n \<in> set ns"
  shows "\<exists>t. handle_stop_job example_engine_env n w = (Inr (), t) \<and> healthy ns t \<and> ew_saved_config t = ew_saved_config w"
proof -
  let ?m = "world_manager w" and ?env = example_engine_env
  let ?w1 = "w\<lparr>ew_calls := Suc (ew_calls w)\<rparr>"
  have "n \<in> fst ` set (jobs ?m)" using w n by (simp add: healthy_def flip: set_map)
  then obtain j where j: "get_job n ?m = Some j" by (cases "get_job n ?m") (auto simp: get_job_def map_of_eq_None_iff)
  with w have idle: "\<not> is_active j" "job_disk ?m (job_path j) \<noteq> None" unfolding healthy_def by blast+
  from example_stop_request [OF j idle] obtain d where
    stop: "stop_request example_os n ?m = (Inr (), (put_job n (set_inactive 5 job_status.Stopped j) ?m)\<lparr>job_disk := d\<rparr>)"
    and d: "\<forall>p. job_disk ?m p \<noteq> None \<longrightarrow> d p \<noteq> None" by blast
  let ?m2 = "(put_job n (set_inactive 5 job_status.Stopped j) ?m)\<lparr>job_disk := d\<rparr>"
  let ?w2 = "?w1\<lparr>ew_babel := (ew_babel w)\<lparr>bs_manager := ?m2\<rparr>, ew_calls := Suc (Suc (ew_calls w))\<rparr>"
  have "service_job_timeout n (ew_babel w) = (Inr (get_job_shutdown_timeout n ?m), ew_babel w)"
    by (simp add: service_job_timeout_def)
  from example_rpc [where h = "\<lambda>_. service_job_timeout n", OF _ this] w
  have first: "rpc_retry ?env (\<lambda>_. service_job_timeout n) w = (Inr (get_job_shutdown_timeout n ?m), ?w1)"
    by (simp add: healthy_def)
  have "service_stop_job example_babel_env n (ew_babel ?w1) = (Inr (), (ew_babel w)\<lparr>bs_manager := ?m2\<rparr>)"
    using stop by (simp add: service_stop_job_def as_internal_def on_jobs_def example_babel_env_def)
  from example_rpc [where h = "\<lambda>b. service_stop_job b n", OF _ this]
  have second: "rpc_retry ?env (\<lambda>b. service_stop_job b n) ?w1 = (Inr (), ?w2)" by simp
  have "babel_client ?env w = (Inr (), w)"
    using w by (simp add: healthy_def babel_client_def conn_babel_client_def)
  with first second have "handle_stop_job ?env n w = (Inr (), ?w2)"
    by (simp add: handle_stop_job_def client_stop_job_def on_babel_def try_then_def handle_connection_errors_def)
  moreover have "healthy ns ?w2"
    using w n d j idle
    by (auto simp: healthy_def put_job_def get_job_def update_conv' names_update with_name_def set_inactive_def is_active_def
        split: if_splits)
  moreover have "ew_saved_config ?w2 = ew_saved_config w" by simp
  ultimately show ?thesis by blast
qed

lemma sample_stop_all:
  "handle_stop_all_jobs example_engine_env example_world = (Inr (), example_world\<lparr>ew_calls := 3\<rparr>)"
  by (simp add: handle_stop_all_jobs_def on_babel_def babel_client_def conn_babel_client_def handle_connection_errors_def
      client_stop_all_jobs_def try_then_def retry_defs selective_retry_loop.simps rpc_def run_passes_def example_engine_env_def
      example_world_def RPC_RETRY_MAX_def service_jobs_timeout_def get_active_jobs_shutdown_timeout_def
      service_stop_all_jobs_def as_internal_def on_jobs_def stop_all_def map_error_def)

lemma sample_names: "trim ''download'' = ''download''" "trim ''reth'' = ''reth''"
  by code_simp+

lemma sample_init_succeeds:
  "\<exists>t. default_init (engine_ops_of example_engine_env) (example_script [] sample_config) (Some sample_config) example_world = (Inr (), t)"
proof -
  let ?ops = "engine_ops_of example_engine_env"
  have "healthy [] (example_world\<lparr>ew_calls := 3\<rparr>)"
    by (simp add: healthy_def example_world_def get_job_def)
  from example_create_and_start [OF this, of "''download''" "build_multi_client_download_job_config None []"] sample_names(1)
  obtain u where u: "create_and_start_job ?ops (''download'', build_multi_client_download_job_config None []) (example_world\<lparr>ew_calls := 3\<rparr>) = (Inr (), u)"
    and "healthy [''download''] u" by (auto simp: MAX_JOBS_def example_world_def with_name_def)
  from example_create_and_start [OF this(2), of "''reth''" "build_service_job_config sample_service [''download''] []"] sample_names(2)
  obtain v where v: "create_and_start_job ?ops (''reth'', build_service_job_config sample_service [''download''] []) u = (Inr (), v)"
    by (auto simp: MAX_JOBS_def build_service_job_config_def is_multi_client_def)
  have stop: "op_stop_all_jobs ?ops = handle_stop_all_jobs example_engine_env"
    by (simp add: engine_ops_of_def)
  have "init_data ?ops sample_config [] (example_world\<lparr>ew_calls := 3\<rparr>) = (Inr [''download''], u)"
    using u by (simp add: init_data_def has_multi_client_services_def services_config_def sample_service_def try_then_def
        DOWNLOAD_JOB_NAME_def run_jobs_def)
  moreover have "start_services ?ops (services sample_config) [''download''] [] u = (Inr (), v)"
    using v by (simp add: start_services_def services_config_def sample_service_def try_then_def)
  ultimately show ?thesis
    unfolding default_init_def option.case stop
    by (simp add: try_then_def sample_stop_all render_configs_files_def start_aux_services_def run_actions_def add_tasks_def
        services_config_def [of "[sample_service]"])
qed

theorem init_registers_its_plan_witness:
  "case default_init (engine_ops_of example_engine_env) (example_script [] sample_config) (Some sample_config) example_world of
     (r, t) \<Rightarrow> r = Inr () \<and> get_job ''reth'' (world_manager t) \<noteq> None"
proof -
  obtain t where run: "default_init (engine_ops_of example_engine_env) (example_script [] sample_config) (Some sample_config) example_world = (Inr (), t)"
    using sample_init_succeeds by blast
  have "\<forall>n \<in> set (DOWNLOAD_JOB_NAME # job_names sample_config). trim n = n"
    using sample_names by (simp add: DOWNLOAD_JOB_NAME_def job_names_def services_config_def sample_service_def)
  from init_registers_its_plan [OF run sample_config_valid this] obtain h
    where h: "\<forall>(n, cfg) \<in> set (init_plan sample_config h). \<exists>j. get_job n (world_manager t) = Some j \<and> job_conf j = cfg"
    by fast
  have "''reth'' \<in> fst ` set (init_plan sample_config h)"
    by (simp add: init_plan_def Let_def image_Un services_plan_def) (simp add: services_config_def sample_service_def)
  with h run show ?thesis by fastforce
qed

text \<open>A node whose service \<open>reth\<close> is registered.\<close>

lemma sample_running:
  "\<exists>w. healthy [''reth''] w \<and> ew_saved_config w = None"
proof -
  have "healthy [] (example_world\<lparr>ew_calls := 3\<rparr>)"
    by (simp add: healthy_def example_world_def get_job_def)
  from example_create_and_start [OF this, of "''reth''" "build_service_job_config sample_service [] []"] sample_names(2)
  show ?thesis
    by (auto simp: MAX_JOBS_def build_service_job_config_def is_multi_client_def example_world_def with_name_def)
qed

lemma sample_upload_succeeds:
  assumes w: "healthy [''reth''] w" and saved: "ew_saved_config w = None"
  shows "\<exists>t. default_upload (engine_ops_of example_engine_env) (example_script [] sample_config) (Some sample_config) w = (Inr (), t)"
proof -
  let ?ops = "engine_ops_of example_engine_env"
  from example_stop [OF w, of "''reth''"] saved obtain u where u: "handle_stop_job example_engine_env ''reth'' w = (Inr (), u)"
    and hu: "healthy [''reth''] u" "ew_saved_config u = None" by auto
  have upload_name: "trim UPLOAD_JOB_NAME = UPLOAD_JOB_NAME" "UPLOAD_JOB_NAME \<noteq> []" by code_simp+
  from example_create_and_start [OF hu(1) _ upload_name, of "build_multi_client_upload_job_config None []"] hu(2)
  obtain v where v: "create_and_start_job ?ops (UPLOAD_JOB_NAME, build_multi_client_upload_job_config None []) u = (Inr (), v)"
    and hv: "healthy (with_name UPLOAD_JOB_NAME [''reth'']) v" by (auto simp: MAX_JOBS_def)
  have "length (with_name UPLOAD_JOB_NAME [''reth'']) < MAX_JOBS" by code_simp
  from example_create_and_start [OF hv this, of "''reth''" "build_service_job_config sample_service [] [UPLOAD_JOB_NAME]"] sample_names(2)
  obtain t where t: "create_and_start_job ?ops (''reth'', build_service_job_config sample_service [] [UPLOAD_JOB_NAME]) v = (Inr (), t)"
    by (auto simp: build_service_job_config_def is_multi_client_def)
  have ss: "filter svc_use_protocol_data (services sample_config) = [sample_service]"
    by (simp add: services_config_def sample_service_def)
  have name: "svc_name sample_service = ''reth''" by (simp add: sample_service_def)
  have "op_stop_job ?ops ''reth'' w = (Inr (), u)" using u by (simp add: engine_ops_of_def)
  moreover have "upload_data ?ops sample_config [sample_service] [] u = (Inr [UPLOAD_JOB_NAME], v)"
    using v by (simp add: upload_data_def has_archivable_services_def has_multi_client_services_def sample_service_def
        services_config_def try_then_def)
  moreover have "start_services ?ops [sample_service] [] [UPLOAD_JOB_NAME] v = (Inr (), t)"
    using t by (simp add: start_services_def try_then_def name)
  ultimately show ?thesis
    by (simp add: default_upload_def Let_def ss name try_then_def run_actions_def run_jobs_def) (simp add: services_config_def try_then_def)
qed

theorem upload_registers_its_plan_witness:
  "\<exists>w t. default_upload (engine_ops_of example_engine_env) (example_script [] sample_config) (Some sample_config) w = (Inr (), t)
    \<and> get_job ''upload'' (world_manager t) \<noteq> None
    \<and> (case get_job ''reth'' (world_manager t) of None \<Rightarrow> False | Some j \<Rightarrow> waiting_for (job_conf j) = [''upload''])"
proof -
  obtain w where "healthy [''reth''] w" "ew_saved_config w = None" using sample_running by blast
  then obtain t where run: "default_upload (engine_ops_of example_engine_env) (example_script [] sample_config) (Some sample_config) w = (Inr (), t)"
    using sample_upload_succeeds by blast
  have "trim UPLOAD_JOB_NAME = UPLOAD_JOB_NAME" by code_simp
  then have names: "\<forall>n \<in> set (UPLOAD_JOB_NAME # job_names sample_config). trim n = n"
    using sample_names by (simp add: job_names_def services_config_def sample_service_def)
  have plan: "upload_plan sample_config =
      [(''upload'', build_multi_client_upload_job_config None []), (''reth'', build_service_job_config sample_service [] [''upload''])]"
    by (simp add: upload_plan_def Let_def uploads_data_def pre_upload_jobs_def jobs_plan_def services_plan_def after_jobs_def
        services_config_def UPLOAD_JOB_NAME_def) (simp_all add: sample_service_def)
  have "\<forall>(n, cfg) \<in> set (upload_plan sample_config). \<exists>j. get_job n (world_manager t) = Some j \<and> job_conf j = cfg"
    using upload_registers_its_plan [OF run sample_config_valid names] by fast
  then obtain j k where "get_job ''upload'' (world_manager t) = Some j"
    "get_job ''reth'' (world_manager t) = Some k" "job_conf k = build_service_job_config sample_service [] [''upload'']"
    by (auto simp: plan)
  moreover have "waiting_for (build_service_job_config sample_service [] [''upload'']) = [''upload'']"
    by (simp add: waiting_for_def build_service_job_config_def sample_service_def)
  ultimately show ?thesis using run by (intro exI [of _ w] exI [of _ t]) simp
qed

theorem sanitized_param_is_one_word_witness:
  "read_quoted (tl (case sanitize_sh_param ''a b'' of Inr q \<Rightarrow> q | Inl _ \<Rightarrow> []) @ '' c'') = Some (''a b'', '' c'')"
proof -
  have "sanitize_sh_param ''a b'' = Inr (DOUBLE_QUOTE # ''a b'' @ [DOUBLE_QUOTE])" by code_simp
  with sanitized_param_is_one_word [OF this, of "'' c''"] show ?thesis
    by (simp add: newline_escaped_def NEWLINE_def)
qed

lemma example_reload_config:
  "get_config ops (example_script fs c) (p, w) = (Inr (Some c), (p, w))"
  by (simp add: get_config_def has_function_with_def example_script_def call_fn_def on_engine_def action_context_def
      with_context_def try_then_def lift_result_def)

lemma sample_get_jobs:
  "handle_get_jobs example_engine_env (example_world\<lparr>ew_saved_config := x\<rparr>) =
     (Inr [], example_world\<lparr>ew_saved_config := x, ew_calls := 2\<rparr>)"
proof -
  have "service_get_jobs env b = (Inr [], b)" if "jobs (bs_manager b) = []" for env b
    using that by (simp add: service_get_jobs_def as_internal_def on_jobs_def list_all_jobs_def map_error_def)
  then show ?thesis
    by (simp add: handle_get_jobs_def on_babel_def babel_client_def conn_babel_client_def handle_connection_errors_def
        try_then_def retry_defs selective_retry_loop.simps rpc_def run_passes_def example_engine_env_def
        example_world_def RPC_RETRY_MAX_def)
qed

lemma sample_reload_succeeds:
  "\<exists>t. reload_plugin_config (engine_ops_of example_engine_env) (example_script fs sample_config) (fresh_plugin, example_world) =
     (Inr (), (fresh_plugin\<lparr>plugin_config_of := Some sample_config\<rparr>, t))"
proof -
  let ?ops = "engine_ops_of example_engine_env" and ?p = "fresh_plugin\<lparr>plugin_config_of := Some sample_config\<rparr>"
  let ?w = "example_world\<lparr>ew_saved_config := Some sample_config\<rparr>"
  have "healthy [] (?w\<lparr>ew_calls := 2\<rparr>)"
    by (simp add: healthy_def example_world_def get_job_def)
  from example_create_and_start [OF this, of "''reth''" "build_service_job_config sample_service [] []"] sample_names(2)
  obtain t where t: "create_and_start_job ?ops (''reth'', build_service_job_config sample_service [] []) (?w\<lparr>ew_calls := 2\<rparr>) = (Inr (), t)"
    by (auto simp: MAX_JOBS_def build_service_job_config_def is_multi_client_def)
  then have "start_services ?ops (services sample_config) [] [] (?w\<lparr>ew_calls := 2\<rparr>) = (Inr (), t)"
    by (simp add: start_services_def services_config_def sample_service_def try_then_def)
  moreover have "op_get_jobs ?ops ?w = (Inr [], ?w\<lparr>ew_calls := 2\<rparr>)"
    by (simp add: engine_ops_of_def sample_get_jobs)
  ultimately have "recreate_services ?ops (?p, ?w) = (Inr (), (?p, t))"
    by (simp add: recreate_services_def on_engine_def try_then_def services_config_def sample_service_def)
  moreover have "op_save_config ?ops sample_config example_world = (Inr (), ?w)"
    by (simp add: engine_ops_of_def engine_save_config_def example_engine_env_def)
  moreover have run: "script_run (example_script fs c) = (\<lambda>_. ok ())" for c
    by (simp add: example_script_def)
  ultimately show ?thesis
    by (simp add: reload_plugin_config_def try_then_def example_reload_config set_config_def on_engine_def lift_result_def
        sample_config_valid run)
qed

theorem reload_unbinds_services_witness:
  "case reload_plugin_config (engine_ops_of example_engine_env) (example_script [] sample_config) (fresh_plugin, example_world) of
     (r, (_, t)) \<Rightarrow> r = Inr () \<and>
       (case get_job ''reth'' (world_manager t) of None \<Rightarrow> False | Some j \<Rightarrow> waiting_for (job_conf j) = []) \<and>
       (case get_job ''reth'' (update_jobs (example_os\<lparr>os_spawn := (\<lambda>_. Inr 9)\<rparr>) {} (world_manager t)) of
          None \<Rightarrow> False | Some j \<Rightarrow> job_st j = Active 9 5)"
proof -
  obtain t where run: "reload_plugin_config (engine_ops_of example_engine_env) (example_script [] sample_config) (fresh_plugin, example_world) =
      (Inr (), (fresh_plugin\<lparr>plugin_config_of := Some sample_config\<rparr>, t))"
    using sample_reload_succeeds by blast
  have "trim (svc_name sample_service) = svc_name sample_service" and names: "svc_name sample_service = ''reth''"
    using sample_names(2) by (simp_all add: sample_service_def)
  then have "\<forall>s \<in> set (services sample_config). trim (svc_name s) = svc_name s" and "sample_service \<in> set (services sample_config)"
    by (simp_all add: services_config_def)
  from reload_unbinds_services [OF run _ this] obtain j where
    j: "get_job ''reth'' (world_manager t) = Some j" "job_conf j = build_service_job_config sample_service [] []"
    and starts: "quiet example_engine_env \<longrightarrow> (\<forall>os ps pid. can_start os ''reth'' pid \<longrightarrow>
        (\<exists>j'. get_job ''reth'' (update_jobs os ps (world_manager t)) = Some j' \<and> job_st j' = Active pid (os_now os)))"
    by (auto simp: names)
  have "quiet example_engine_env" by (simp add: quiet_def example_engine_env_def)
  moreover have "can_start (example_os\<lparr>os_spawn := (\<lambda>_. Inr 9)\<rparr>) ''reth'' 9"
    by (simp add: can_start_def example_os_def no_job_io_errors_def)
  ultimately obtain j' where "get_job ''reth'' (update_jobs (example_os\<lparr>os_spawn := (\<lambda>_. Inr 9)\<rparr>) {} (world_manager t)) = Some j'"
    "job_st j' = Active 9 (os_now (example_os\<lparr>os_spawn := (\<lambda>_. Inr 9)\<rparr>))"
    using starts by blast
  with j run waiting_for_service [of sample_service "[]" "[]"] show ?thesis by (simp add: example_os_def)
qed

text \<open>Two services of the same name.\<close>

abbreviation doubled_config :: "unit plugin_config" where "doubled_config \<equiv> services_config [sample_service, sample_service]"

definition sample_engine :: "unit babel_engine" where
  "sample_engine = \<lparr>be_plugin = fresh_plugin, be_capabilities = [], be_server = True\<rparr>"

theorem invalid_config_is_kept_witness:
  "case engine_reload_config example_engine_env (example_script [] doubled_config) (sample_engine, example_world) of
     (r, (b, t)) \<Rightarrow> (\<exists>msg. r = Inl msg) \<and> t = example_world \<and>
       rhai_upload (engine_ops_of example_engine_env) (example_script [] doubled_config) (be_plugin b, t) =
         on_engine (default_upload (engine_ops_of example_engine_env) (example_script [] doubled_config) (Some doubled_config)) (be_plugin b, t)"
proof -
  have "validate doubled_config = Inl ServicesNotUnique" by code_simp
  from invalid_config_is_kept [where sc = "example_script [] doubled_config" and env = example_engine_env and w = example_world
      and ?w1.0 = example_world and ?w2.0 = example_world and v = doubled_config and b = sample_engine, OF _ _ _ _ this]
  show ?thesis
    by (auto simp: example_script_def has_function_with_def has_function_def UPLOAD_JOB_NAME_def PLUGIN_CONFIG_FN_NAME_def)
qed

theorem script_init_misses_config_witness:
  "\<exists>msg. fst (engine_init example_engine_env (example_script [INIT_FN_NAME] sample_config) (sample_engine, example_world)) =
     Inl (msg @ missing_config)"
proof -
  let ?sc = "example_script [INIT_FN_NAME] sample_config"
  have fresh: "plugin_config_of (be_plugin sample_engine) = None" "plugin_clone (be_plugin sample_engine) = fresh_plugin"
    by (simp_all add: sample_engine_def fresh_plugin_def plugin_clone_def register_defaults_def)
  obtain t where "reload_plugin_config (engine_ops_of example_engine_env) ?sc (fresh_plugin, example_world) =
      (Inr (), (fresh_plugin\<lparr>plugin_config_of := Some sample_config\<rparr>, t))"
    using sample_reload_succeeds by blast
  moreover have "script_call ?sc i u INIT_FN_NAME [] = try_then i (\<lambda>_. ok sample_config)" for i u
    by (simp add: example_script_def INIT_FN_NAME_def PLUGIN_CONFIG_FN_NAME_def)
  moreover have "has_function ?sc INIT_FN_NAME"
    by (simp add: example_script_def has_function_def)
  ultimately have "fst (engine_init example_engine_env ?sc (sample_engine, example_world)) =
    Inl (''node_id='' @ ee_node_id example_engine_env @ '': Rhai function '' @ quoted INIT_FN_NAME @ '' returned error: '' @ missing_config)"
    using fresh by (intro script_init_misses_config [where v = sample_config]) simp_all
  then show ?thesis
    by (intro exI [of _ "''node_id='' @ ee_node_id example_engine_env @ '': Rhai function '' @ quoted INIT_FN_NAME @ '' returned error: ''"]) simp
qed

end
