(* ===== verification/Node.thy ===== *)
theory Node
  imports Node_State
begin

text \<open>
  A node of the host (\<open>bv/src/node.rs\<close>): its life from creation to deletion, the update and upgrade
  of its configuration with the rollback of failed upgrades, and its recovery. The virtual machine,
  the Babel engine, the connection to Babel, the firewall and the state file are reached through
  calls; each call is recorded in the order it is made, and what it answers is a function of the
  calls made so far.
\<close>

section \<open>The world of a node\<close>

datatype vm_state = SHUTOFF | RUNNING | INVALID

datatype call =
    VmCreate node_state | VmAttach node_state
  | VmStart | VmShutdown | VmForceShutdown | VmDelete
  | VmUpgrade node_state | VmRollback | VmDropBackup | VmRecover | VmUpdateEnv node_state
  | EngineNew | EngineStart | EngineStop | EngineInit | EngineUpdateInfo node_image node_properties
  | EngineUpdatePlugin node_env | EngineReloadConfig
  | ConnSetup | ConnAttach | ConnClose | ConnTest | BabelClient
  | LoadJobRunner | CheckJobRunner | UploadJobRunner
  | SetupBabel node_env "ramdisk list" | GetShutdownTimeout | ShutdownBabel bool
  | ApplyFirewall node_firewall_config | CleanupFirewall uuid
  | SaveState node_state | RemoveNodeDir | CreateNodeDir | DeleteContext
  | WaitSecond
  | BackoffReset | StartFailed | StopFailed | ReconnectFailed | VmRecoveryFailed

record host =
  answer :: "call list \<Rightarrow> call \<Rightarrow> string + unit"
  decide :: "call list \<Rightarrow> call \<Rightarrow> bool"
    \<comment> \<open>the answer of the calls that return a truth value\<close>
  vm :: "call list \<Rightarrow> vm_state"
  conn_closed :: "call list \<Rightarrow> bool"
  conn_broken :: "call list \<Rightarrow> bool"
  engine_jobs :: "call list \<Rightarrow> string + jobs_info"
  data_stamp :: "call list \<Rightarrow> string + nat option"
  vm_node_env :: "call list \<Rightarrow> node_env"
  backing_off :: "call list \<Rightarrow> bool"
  host_now :: nat
  bridge :: "string option"

record node =
  st :: node_state
  cached_env :: node_env
  registry :: cpu_registry
  saved :: "node_state option"
    \<comment> \<open>the state file\<close>
  calls :: "call list"

type_synonym 'a node_action = "(node, string, 'a) action"

definition record_call :: "call \<Rightarrow> node \<Rightarrow> node" where
  "record_call c n = n\<lparr>calls := calls n @ [c]\<rparr>"

definition call :: "host \<Rightarrow> call \<Rightarrow> unit node_action" where
  "call h c n = (answer h (calls n) c, record_call c n)"

definition ask :: "host \<Rightarrow> call \<Rightarrow> bool node_action" where
  "ask h c n = (Inr (decide h (calls n) c), record_call c n)"

definition set_st :: "(node_state \<Rightarrow> node_state) \<Rightarrow> (node, 'e, unit) action" where
  "set_st f = update_state (\<lambda>n. n\<lparr>st := f (st n)\<rparr>)"

definition set_upgrade :: "(upgrade_state \<Rightarrow> upgrade_state) \<Rightarrow> (node, 'e, unit) action" where
  "set_upgrade f = set_st (\<lambda>s. s\<lparr>upgrade_st := f (upgrade_st s)\<rparr>)"

definition save_state :: "host \<Rightarrow> unit node_action" where
  "save_state h n =
     (case answer h (calls n) (SaveState (st n)) of
        Inr _ \<Rightarrow> (Inr (), (record_call (SaveState (st n)) n)\<lparr>saved := Some (st n)\<rparr>)
      | Inl e \<Rightarrow> (Inl (''failed to save node state: '' @ e), record_call (SaveState (st n)) n))"

definition save_expected_status :: "host \<Rightarrow> vm_status \<Rightarrow> unit node_action" where
  "save_expected_status h status = steps [set_st (\<lambda>s. s\<lparr>node_expected := status\<rparr>), save_state h]"

definition acquire_cpus :: "nat \<Rightarrow> nat list node_action" where
  "acquire_cpus k n = (let (r, reg) = cpu_acquire k (registry n) in (r, n\<lparr>registry := reg\<rparr>))"

definition release_cpus :: "nat list \<Rightarrow> (node, 'e, unit) action" where
  "release_cpus cpus = update_state (\<lambda>n. n\<lparr>registry := cpu_release cpus (registry n)\<rparr>)"

section \<open>Status, start and stop\<close>

fun machine_status :: "vm_state \<Rightarrow> vm_status" where
  "machine_status RUNNING = Running"
| "machine_status SHUTOFF = Stopped"
| "machine_status INVALID = Failed"

definition node_status :: "host \<Rightarrow> node \<Rightarrow> vm_status" where
  "node_status h n =
     (let m = machine_status (vm h (calls n))
      in if m = node_expected (st n)
         then if m = Running \<and> (conn_closed h (calls n) \<or> conn_broken h (calls n) \<or> \<not> initialized (st n))
              then Failed else m
         else Failed)"

definition check_job_runner :: "host \<Rightarrow> unit node_action" where
  "check_job_runner h =
     steps [call h LoadJobRunner, call h BabelClient, call h CheckJobRunner,
       with_state (\<lambda>n. if decide h (calls n) CheckJobRunner then ok () else call h UploadJobRunner)]"

definition start :: "host \<Rightarrow> unit node_action" where
  "start h = with_state (\<lambda>n.
     let status = node_status h n
     in if status = Failed \<and> node_expected (st n) = Stopped
        then fail ''can't start node which is not stopped properly''
        else steps [save_expected_status h Running,
          if status = Running then ok ()
          else steps [call h EngineStart,
            with_state (\<lambda>n. if vm h (calls n) = SHUTOFF then call h VmStart else ok ()),
            call h ConnSetup,
            check_job_runner h,
            call h BabelClient,
            with_state (\<lambda>n. call h (SetupBabel (cached_env n) (ramdisks (node_vm_config (st n))))),
            with_state (\<lambda>n. if initialized (st n) then ok ()
              else steps [call h EngineInit, set_st (\<lambda>s. s\<lparr>initialized := True\<rparr>)]),
            set_st (\<lambda>s. s\<lparr>started_at := Some (host_now h), restarting := False\<rparr>),
            save_state h]])"

definition shutdown_babel :: "host \<Rightarrow> bool \<Rightarrow> unit node_action" where
  "shutdown_babel h force =
     steps [call h BabelClient, call h GetShutdownTimeout,
       map_error (\<lambda>e. ''Failed to gracefully shutdown babel and background jobs: '' @ e) (call h (ShutdownBabel force))]"

definition NODE_STOP_TIMEOUT_SECS :: nat where "NODE_STOP_TIMEOUT_SECS = 60"

text \<open>The loop waiting for the machine, one second at a time.\<close>

primrec wait_shutoff :: "host \<Rightarrow> nat \<Rightarrow> unit node_action" where
  "wait_shutoff h 0 = with_state (\<lambda>n. if vm h (calls n) = SHUTOFF then ok () else fail ''VM shutdown timeout'')"
| "wait_shutoff h (Suc k) = with_state (\<lambda>n. if vm h (calls n) = SHUTOFF then ok ()
     else steps [ignore_result (call h WaitSecond), wait_shutoff h k])"

definition shutdown_vm :: "host \<Rightarrow> unit node_action" where
  "shutdown_vm h =
     steps [match_result (call h VmShutdown)
              (\<lambda>_. map_error (\<lambda>e. ''Forced shutdown failed: '' @ e) (call h VmForceShutdown)) (\<lambda>_. ok ()),
            wait_shutoff h NODE_STOP_TIMEOUT_SECS]"

definition stop :: "host \<Rightarrow> bool \<Rightarrow> unit node_action" where
  "stop h force =
     steps [save_expected_status h Stopped,
       with_state (\<lambda>n. if node_status h n = Stopped then ok ()
         else steps [
           match_result (shutdown_babel h force) (\<lambda>e. if force then ok () else fail e) (\<lambda>_. ok ()),
           ignore_result (call h ConnClose),
           set_st (\<lambda>s. s\<lparr>started_at := None\<rparr>),
           save_state h,
           with_state (\<lambda>n. if vm h (calls n) = SHUTOFF then ok () else shutdown_vm h),
           call h EngineStop])]"

definition restart :: "host \<Rightarrow> bool \<Rightarrow> unit node_action" where
  "restart h force = steps [set_st (\<lambda>s. s\<lparr>restarting := True\<rparr>), stop h force, start h]"

section \<open>Creation and deletion\<close>

definition firewall_config_of :: "host \<Rightarrow> node_state \<Rightarrow> node_firewall_config" where
  "firewall_config_of h s = \<lparr>nfc_id = node_id s, nfc_ip = node_ip s, nfc_bridge = bridge h, nfc_config = node_firewall s\<rparr>"

definition apply_firewall :: "host \<Rightarrow> unit node_action" where
  "apply_firewall h = with_state (\<lambda>n. call h (ApplyFirewall (firewall_config_of h (st n))))"

text \<open>\<open>map_err(into_internal)\<close> where the error is turned into a report again: its text and then its cause.\<close>

definition internal_text :: "string \<Rightarrow> string" where
  "internal_text e = ''BV internal error: '' @ quoted e @ '': '' @ e"

definition apply_firewall_internal :: "host \<Rightarrow> unit node_action" where
  "apply_firewall_internal h = map_error internal_text (apply_firewall h)"

text \<open>\<open>MaybeNode::try_create\<close> up to the new node; whether the machine was created is in the calls.\<close>

definition try_create :: "host \<Rightarrow> unit node_action" where
  "try_create h =
     steps [ignore_result (call h RemoveNodeDir), call h CreateNodeDir,
       with_state (\<lambda>n. call h (VmCreate (st n))),
       update_state (\<lambda>n. n\<lparr>cached_env := vm_node_env h (calls n)\<rparr>),
       apply_firewall h, save_state h, call h EngineNew]"

definition cleanup_failed_create :: "host \<Rightarrow> bool \<Rightarrow> unit node_action" where
  "cleanup_failed_create h has_machine =
     steps [if has_machine then call h VmDelete else ok (), with_state (\<lambda>n. call h (CleanupFirewall (node_id (st n))))]"

definition machine_created :: "host \<Rightarrow> node \<Rightarrow> bool" where
  "machine_created h n \<longleftrightarrow> (\<exists>hist \<in> set (map (\<lambda>i. (take i (calls n), calls n ! i)) [0..<length (calls n)]).
     (case snd hist of VmCreate _ \<Rightarrow> answer h (fst hist) (snd hist) = Inr () | _ \<Rightarrow> False))"

definition create :: "host \<Rightarrow> unit node_action" where
  "create h =
     with_state (\<lambda>n. try_then (acquire_cpus (vcpu_count (node_vm_config (st n))))
       (\<lambda>cpus. steps [set_st (\<lambda>s. s\<lparr>assigned_cpus := cpus\<rparr>),
          match_result (try_create h)
            (\<lambda>e. steps [
               with_state (\<lambda>n. release_cpus (assigned_cpus (st n))), set_st (\<lambda>s. s\<lparr>assigned_cpus := []\<rparr>),
               with_state (\<lambda>n. ignore_result (cleanup_failed_create h (machine_created h n))),
               fail e])
            (\<lambda>_. ok ())]))"

text \<open>The cores an active upgrade holds for a rollback.\<close>

definition held_cpus :: "upgrade_step list \<Rightarrow> nat list" where
  "held_cpus ss = (case find is_cpu_step ss of Some (StepCpuAssignment (ReleasedCpus cpus)) \<Rightarrow> cpus | _ \<Rightarrow> [])"

definition attach :: "host \<Rightarrow> unit node_action" where
  "attach h =
     steps [with_state (\<lambda>n. update_state (\<lambda>n. n\<lparr>registry := mark_acquired (assigned_cpus (st n)) (registry n)\<rparr>)),
       update_state (\<lambda>n. if upgrade_active (upgrade_st (st n))
         then n\<lparr>registry := mark_acquired (held_cpus (upgrade_steps (upgrade_st (st n)))) (registry n)\<rparr> else n),
       with_state (\<lambda>n. map_error (\<lambda>e. ''attach vm failed: '' @ e) (call h (VmAttach (st n)))),
       update_state (\<lambda>n. n\<lparr>cached_env := vm_node_env h (calls n)\<rparr>),
       with_state (\<lambda>n. if vm h (calls n) = RUNNING
         then match_result (call h ConnAttach) (\<lambda>_. ignore_result (call h ConnClose))
                (\<lambda>_. match_result (check_job_runner h) (\<lambda>_. ignore_result (call h ConnClose)) (\<lambda>_. ok ()))
         else ok ()),
       map_error (\<lambda>e. ''can't initialize BabelEngine: '' @ e) (call h EngineNew),
       with_state (\<lambda>n. if node_expected (st n) = Running then ignore_result (call h EngineStart) else ok ())]"

definition delete :: "host \<Rightarrow> unit node_action" where
  "delete h =
     steps [save_expected_status h Stopped, call h EngineStop, call h VmDelete,
       with_state (\<lambda>n. release_cpus (assigned_cpus (st n))), set_st (\<lambda>s. s\<lparr>assigned_cpus := []\<rparr>),
       with_state (\<lambda>n. call h (CleanupFirewall (node_id (st n)))), call h DeleteContext]"

section \<open>Update of the configuration\<close>

definition DEFAULT_UPGRADE_RETRY_HINT_SECS :: nat where "DEFAULT_UPGRADE_RETRY_HINT_SECS = 3600"

definition blocking_job :: "job_info \<Rightarrow> bool" where
  "blocking_job j \<longleftrightarrow> info_status j = job_status.Running \<and> upgrade_blocking j"

type_synonym command = "(node, command_error, unit) action"

definition internal :: "'a node_action \<Rightarrow> (node, command_error, 'a) action" where
  "internal = map_error Internal"

text \<open>\<open>get_jobs\<close> of the engine, and the check that no running job blocks an upgrade.\<close>

definition check_blocking_jobs :: "host \<Rightarrow> command" where
  "check_blocking_jobs h = with_state (\<lambda>n.
     case engine_jobs h (calls n) of
       Inl e \<Rightarrow> fail (Internal e)
     | Inr jobs \<Rightarrow> if list_ex (\<lambda>(_, j). blocking_job j) jobs
                   then fail (BlockingJobRunning DEFAULT_UPGRADE_RETRY_HINT_SECS) else ok ())"

definition merge_config :: "config_update \<Rightarrow> node_state \<Rightarrow> node_state" where
  "merge_config u s =
     s\<lparr>node_image := (node_image s)\<lparr>image_config_id := new_config_id u\<rparr>,
       display_name := unwrap_or (new_display_name u) (display_name s),
       org_id := unwrap_or (new_org_id u) (org_id s),
       org_name := unwrap_or (new_org_name u) (org_name s),
       properties := fold (\<lambda>(k, v). AList.update k v) (new_values u) (properties s)\<rparr>"

definition update_firewall :: "host \<Rightarrow> fw_config \<Rightarrow> command" where
  "update_firewall h config =
     steps [set_st (\<lambda>s. s\<lparr>node_firewall := config\<rparr>),
       match_result (apply_firewall h)
         (\<lambda>e. steps [set_st (\<lambda>s. s\<lparr>node_expected := Failed\<rparr>), internal (save_state h), fail (Internal e)])
         (\<lambda>_. internal (save_state h))]"

definition update_parameters :: "host \<Rightarrow> vm_status \<Rightarrow> command" where
  "update_parameters h status =
     steps [internal (with_state (\<lambda>n. call h (EngineUpdateInfo (node_image (st n)) (properties (st n))))),
       internal (with_state (\<lambda>n. call h (EngineUpdatePlugin (vm_node_env h (calls n))))),
       if status = Running
       then internal (steps [call h BabelClient,
              with_state (\<lambda>n. call h (SetupBabel (vm_node_env h (calls n)) (ramdisks (node_vm_config (st n))))),
              call h EngineReloadConfig])
       else ok (),
       set_st (\<lambda>s. s\<lparr>initialized := True\<rparr>),
       internal (save_state h)]"

definition update :: "host \<Rightarrow> config_update \<Rightarrow> command" where
  "update h u = with_state (\<lambda>n.
     let status = node_status h n; params_changed = new_values u \<noteq> []
     in if status = Failed then fail (Internal ''can't update node in Failed state'')
        else steps [
          if params_changed
          then steps [if status = Running then check_blocking_jobs h else ok (),
                      set_st (\<lambda>s. s\<lparr>initialized := False\<rparr>)]
          else ok (),
          set_st (merge_config u),
          (case new_firewall u of Some config \<Rightarrow> update_firewall h config | None \<Rightarrow> internal (save_state h)),
          with_state (\<lambda>n. ignore_result (call h (VmUpdateEnv (st n)))),
          update_state (\<lambda>n. n\<lparr>cached_env := vm_node_env h (calls n)\<rparr>),
          if params_changed then update_parameters h status else ok ()])"

section \<open>Upgrade\<close>

definition push_step :: "upgrade_step \<Rightarrow> (node, 'e, unit) action" where
  "push_step s = set_upgrade (\<lambda>u. u\<lparr>upgrade_steps := upgrade_steps u @ [s]\<rparr>)"

definition steps_of :: "node \<Rightarrow> upgrade_step list" where
  "steps_of n = upgrade_steps (upgrade_st (st n))"

definition upgrade_cpus :: "host \<Rightarrow> unit node_action" where
  "upgrade_cpus h = with_state (\<lambda>n.
     let have = length (assigned_cpus (st n)); want = vcpu_count (node_vm_config (st n))
     in if have = want then ok ()
        else if want < have
        then steps [push_step (StepCpuAssignment (ReleasedCpus (drop want (assigned_cpus (st n))))),
                    set_st (\<lambda>s. s\<lparr>assigned_cpus := take want (assigned_cpus s)\<rparr>), save_state h]
        else steps [push_step (StepCpuAssignment (AcquiredCpus have)),
                    try_then (acquire_cpus (want - have)) (\<lambda>cpus. set_st (\<lambda>s. s\<lparr>assigned_cpus := assigned_cpus s @ cpus\<rparr>)),
                    save_state h])"

text \<open>\<open>if insert_step(step) { let res = m; save_state()?; res? }\<close>\<close>

definition once :: "upgrade_step \<Rightarrow> unit node_action \<Rightarrow> unit node_action" where
  "once step m = with_state (\<lambda>n. if fst (insert_step step (steps_of n)) then steps [push_step step, m] else ok ())"

definition then_save :: "host \<Rightarrow> unit node_action \<Rightarrow> unit node_action" where
  "then_save h m = match_result m (\<lambda>e. steps [save_state h, fail e]) (\<lambda>_. save_state h)"

definition refresh_engine_info :: "host \<Rightarrow> unit node_action" where
  "refresh_engine_info h =
     steps [update_state (\<lambda>n. n\<lparr>cached_env := vm_node_env h (calls n)\<rparr>),
       with_state (\<lambda>n. call h (EngineUpdateInfo (node_image (st n)) (properties (st n))))]"

definition engine_plugin :: "host \<Rightarrow> unit node_action" where
  "engine_plugin h = with_state (\<lambda>n. call h (EngineUpdatePlugin (cached_env n)))"

definition start_if_stopped :: "host \<Rightarrow> unit node_action" where
  "start_if_stopped h = with_state (\<lambda>n. if StepStop \<in> set (steps_of n) then start h else ok ())"

definition try_upgrade :: "host \<Rightarrow> unit node_action" where
  "try_upgrade h =
     steps [upgrade_cpus h,
       once StepVm (then_save h (with_state (\<lambda>n. call h (VmUpgrade (st n))))),
       once StepPlugin (steps [refresh_engine_info h, then_save h (engine_plugin h)]),
       once StepFirewall (then_save h (apply_firewall_internal h)),
       start_if_stopped h]"

text \<open>The first step that satisfies \<open>P\<close>, removed by \<open>swap_remove\<close>.\<close>

definition remove_step :: "nat \<Rightarrow> unit node_action" where
  "remove_step i = set_upgrade (\<lambda>u. u\<lparr>upgrade_steps := swap_remove i (upgrade_steps u)\<rparr>)"

definition undo_cpus :: "upgrade_step \<Rightarrow> unit node_action" where
  "undo_cpus s = (case s of
     StepCpuAssignment (AcquiredCpus n) \<Rightarrow>
       steps [with_state (\<lambda>node. release_cpus (drop n (assigned_cpus (st node)))),
              set_st (\<lambda>s. s\<lparr>assigned_cpus := take n (assigned_cpus s)\<rparr>)]
   | StepCpuAssignment (ReleasedCpus cpus) \<Rightarrow> set_st (\<lambda>s. s\<lparr>assigned_cpus := assigned_cpus s @ cpus\<rparr>)
   | _ \<Rightarrow> ok ())"

definition rollback_cpus :: "host \<Rightarrow> unit node_action" where
  "rollback_cpus h = with_state (\<lambda>n. case position is_cpu_step (steps_of n) of
     Some i \<Rightarrow> steps [remove_step i, undo_cpus (steps_of n ! i), save_state h]
   | None \<Rightarrow> ok ())"

text \<open>\<open>if let Some(i) = position(step) { m?; steps.swap_remove(i); save_state()?; }\<close>\<close>

definition rollback_step :: "host \<Rightarrow> upgrade_step \<Rightarrow> unit node_action \<Rightarrow> unit node_action" where
  "rollback_step h step m = with_state (\<lambda>n. case position ((=) step) (steps_of n) of
     Some i \<Rightarrow> steps [m, remove_step i, save_state h]
   | None \<Rightarrow> ok ())"

definition try_rollback :: "host \<Rightarrow> unit node_action" where
  "try_rollback h =
     steps [with_state (\<lambda>n. if node_status h n = Running then stop h True else ok ()),
       rollback_cpus h,
       rollback_step h StepVm (call h VmRollback),
       rollback_step h StepPlugin (steps [refresh_engine_info h, engine_plugin h]),
       rollback_step h StepFirewall (apply_firewall_internal h),
       start_if_stopped h]"

definition rollback :: "host \<Rightarrow> string \<Rightarrow> command" where
  "rollback h err =
     match_result (try_rollback h)
       (\<lambda>rollback_err. steps [set_upgrade (\<lambda>u. u\<lparr>upgrade_active := False\<rparr>),
          internal (save_expected_status h Failed), fail (NodeUpgradeFailure err rollback_err)])
       (\<lambda>_. steps [set_upgrade (\<lambda>u. u\<lparr>upgrade_active := False\<rparr>),
          internal (save_state h), fail (NodeUpgradeRollback err)])"

definition begin_upgrade :: "host \<Rightarrow> vm_status \<Rightarrow> node_state \<Rightarrow> command" where
  "begin_upgrade h status desired =
     steps [set_upgrade (\<lambda>_. upgrade_state_default),
       if status = Running
       then steps [check_blocking_jobs h, push_step StepStop, set_st (\<lambda>s. s\<lparr>restarting := True\<rparr>), internal (stop h False)]
       else ok (),
       set_upgrade (\<lambda>u. u\<lparr>upgrade_active := True\<rparr>),
       with_state (\<lambda>n. case data_stamp h (calls n) of
           Inl e \<Rightarrow> fail (Internal e)
         | Inr stamp \<Rightarrow> set_upgrade (\<lambda>u. u\<lparr>upgrade_data_stamp := stamp\<rparr>)),
       with_state (\<lambda>n. let (b, s) = swap_state (backup_from desired) (st n)
         in set_st (\<lambda>_. s\<lparr>upgrade_st := (upgrade_st s)\<lparr>upgrade_backup := Some b\<rparr>\<rparr>)),
       internal (save_state h)]"

definition fail_upgrade :: "host \<Rightarrow> string \<Rightarrow> command" where
  "fail_upgrade h err = with_state (\<lambda>n.
     case data_stamp h (calls n) of
       Inl e \<Rightarrow> fail (Internal e)
     | Inr stamp \<Rightarrow>
         if upgrade_data_stamp (upgrade_st (st n)) \<noteq> stamp
         then fail (NodeUpgradeFailure err
                ''can't rollback node upgrade if 'init' was already started - protocol data could be changed'')
         else case upgrade_backup (upgrade_st (st n)) of
                None \<Rightarrow> fail (NodeUpgradeFailure err ''can't rollback node upgrade - backup not found'')
              | Some backup \<Rightarrow>
                  steps [(let (b, s) = swap_state backup (st n)
                     in set_st (\<lambda>_. s\<lparr>upgrade_st := (upgrade_st s)\<lparr>upgrade_backup := Some b, need_rollback := Some err\<rparr>\<rparr>)),
                    internal (save_state h), rollback h err])"

definition finish_upgrade :: "host \<Rightarrow> command" where
  "finish_upgrade h =
     steps [with_state (\<lambda>n. release_cpus (held_cpus (steps_of n))),
       with_state (\<lambda>n. if StepVm \<in> set (steps_of n) then ignore_result (call h VmDropBackup) else ok ()),
       set_upgrade (\<lambda>u. u\<lparr>upgrade_active := False\<rparr>),
       internal (save_state h)]"

definition upgrade :: "host \<Rightarrow> node_state \<Rightarrow> command" where
  "upgrade h desired = with_state (\<lambda>n.
     let status = node_status h n
     in if status = Failed then fail (Internal ''can't upgrade node in Failed state'')
        else steps [if upgrade_active (upgrade_st (st n)) then ok () else begin_upgrade h status desired,
          with_state (\<lambda>n. case need_rollback (upgrade_st (st n)) of
              Some err \<Rightarrow> rollback h err
            | None \<Rightarrow> match_result (try_upgrade h) (fail_upgrade h) (\<lambda>_. finish_upgrade h))])"

section \<open>Plugin reload and recovery\<close>

definition reload_plugin :: "host \<Rightarrow> unit node_action" where
  "reload_plugin h =
     steps [with_state (\<lambda>n. call h (EngineUpdateInfo (node_image (st n)) (properties (st n)))),
       with_state (\<lambda>n. call h (EngineUpdatePlugin (cached_env n))), call h EngineReloadConfig]"

definition post_recovery :: "host \<Rightarrow> unit node_action" where
  "post_recovery h = ignore_result (call h BackoffReset)"

definition give_up_if :: "host \<Rightarrow> call \<Rightarrow> unit node_action" where
  "give_up_if h c = try_then (ask h c) (\<lambda>exceeded. if exceeded then save_expected_status h Failed else ok ())"

definition started_node_recovery :: "host \<Rightarrow> unit node_action" where
  "started_node_recovery h = match_result (start h) (\<lambda>_. give_up_if h StartFailed) (\<lambda>_. post_recovery h)"

definition recover_by_restart :: "host \<Rightarrow> unit node_action" where
  "recover_by_restart h = match_result (restart h True) (\<lambda>_. give_up_if h StopFailed) (\<lambda>_. post_recovery h)"

definition vm_recovery :: "host \<Rightarrow> unit node_action" where
  "vm_recovery h = match_result (call h VmRecover)
     (\<lambda>_. try_then (ask h VmRecoveryFailed) (\<lambda>b. if b then recover_by_restart h else ok ()))
     (\<lambda>_. post_recovery h)"

definition reconnect_by_restart :: "host \<Rightarrow> unit node_action" where
  "reconnect_by_restart h = try_then (ask h ReconnectFailed) (\<lambda>b. if b then recover_by_restart h else ok ())"

definition node_connection_recovery :: "host \<Rightarrow> unit node_action" where
  "node_connection_recovery h = match_result (call h ConnTest)
     (\<lambda>_. match_result (call h VmRecover) (\<lambda>_. reconnect_by_restart h)
        (\<lambda>_. match_result (call h ConnTest) (\<lambda>_. reconnect_by_restart h) (\<lambda>_. post_recovery h)))
     (\<lambda>_. with_state (\<lambda>n. if conn_closed h (calls n) then started_node_recovery h else post_recovery h))"

definition recover :: "host \<Rightarrow> unit node_action" where
  "recover h = with_state (\<lambda>n.
     if backing_off h (calls n) then ok ()
     else case node_expected (st n) of
       Running \<Rightarrow>
         if vm h (calls n) = SHUTOFF \<or> \<not> initialized (st n) then started_node_recovery h
         else if vm h (calls n) = INVALID then vm_recovery h
         else node_connection_recovery h
     | Stopped \<Rightarrow>
         match_result (stop h (conn_closed h (calls n) \<or> conn_broken h (calls n)))
           (\<lambda>_. give_up_if h StopFailed)
           (\<lambda>_. steps [post_recovery h, with_state (\<lambda>n. if restarting (st n) then start h else ok ())])
     | Failed \<Rightarrow> ok ()
     | Busy \<Rightarrow> fail ''internal error: entered unreachable code'')"

section \<open>What the calls leave alone\<close>

text \<open>The state without the fields that starting and stopping change.\<close>

definition settled :: "node_state \<Rightarrow> node_state" where
  "settled s = s\<lparr>node_expected := Running, started_at := None, initialized := False, restarting := False\<rparr>"

text \<open>A property of the node that neither calls nor starts and stops can change.\<close>

definition lenient :: "(node \<Rightarrow> bool) \<Rightarrow> bool" where
  "lenient I \<longleftrightarrow>
     (\<forall>n c. I n \<longrightarrow> I (record_call c n)) \<and> (\<forall>n v. I n \<longrightarrow> I (n\<lparr>saved := v\<rparr>)) \<and>
     (\<forall>n v. I n \<longrightarrow> I (n\<lparr>cached_env := v\<rparr>)) \<and>
     (\<forall>n s. I n \<longrightarrow> settled s = settled (st n) \<longrightarrow> I (n\<lparr>st := s\<rparr>))"

lemma lenientD:
  assumes "lenient I" and "I n"
  shows "I (record_call c n)" "I (n\<lparr>saved := v\<rparr>)" "I (n\<lparr>cached_env := e\<rparr>)"
    "settled s = settled (st n) \<Longrightarrow> I (n\<lparr>st := s\<rparr>)"
  using assms by (simp_all add: lenient_def)

lemma record_call_fields [simp]:
  "st (record_call c n) = st n" "registry (record_call c n) = registry n" "saved (record_call c n) = saved n"
  by (simp_all add: record_call_def)

lemma lenient_core: "lenient (\<lambda>n. P (settled (st n)) (registry n))"
  by (simp add: lenient_def)

named_theorems node_rules "invariants that calls cannot change"

lemma keeps_call [node_rules]: "lenient I \<Longrightarrow> keeps I (call h c)"
  by (simp add: keeps_def call_def lenientD)

lemma keeps_ask [node_rules]: "lenient I \<Longrightarrow> keeps I (ask h c)"
  by (simp add: keeps_def ask_def lenientD)

lemma keeps_save_state [node_rules]: "lenient I \<Longrightarrow> keeps I (save_state h)"
  by (simp add: keeps_def save_state_def lenientD split: sum.split)

lemma keeps_set_st: "(\<And>n. I n \<Longrightarrow> I (n\<lparr>st := f (st n)\<rparr>)) \<Longrightarrow> keeps I (set_st f)"
  by (simp add: keeps_def set_st_def)

lemma keeps_set_settled [node_rules]:
  "lenient I \<Longrightarrow> (\<And>s. settled (f s) = settled s) \<Longrightarrow> keeps I (set_st f)"
  by (rule keeps_set_st) (simp add: lenientD)

lemma keeps_set_env [node_rules]: "lenient I \<Longrightarrow> keeps I (update_state (\<lambda>n. n\<lparr>cached_env := f n\<rparr>))"
  by (rule keeps_update) (rule lenientD)

lemma keeps_save_expected [node_rules]: "lenient I \<Longrightarrow> keeps I (save_expected_status h s)"
  unfolding save_expected_status_def steps_simps
  by (intro keeps_rules node_rules) (simp_all add: settled_def)

lemma keeps_check_job_runner [node_rules]: "lenient I \<Longrightarrow> keeps I (check_job_runner h)"
  unfolding check_job_runner_def steps_simps by (intro keeps_rules node_rules)

lemma keeps_start [node_rules]: "lenient I \<Longrightarrow> keeps I (start h)"
  unfolding start_def steps_simps Let_def
  by (intro keeps_rules node_rules) (simp_all add: settled_def)

lemma keeps_shutdown_babel [node_rules]: "lenient I \<Longrightarrow> keeps I (shutdown_babel h f)"
  unfolding shutdown_babel_def steps_simps by (intro keeps_rules node_rules)

lemma keeps_wait_shutoff [node_rules]:
  assumes "lenient I"
  shows "keeps I (wait_shutoff h k)"
proof (induction k)
  case 0
  show ?case unfolding wait_shutoff.simps by (intro keeps_rules)
next
  case (Suc k)
  show ?case unfolding wait_shutoff.simps steps_simps
    using assms by (intro keeps_rules node_rules Suc)
qed

lemma keeps_shutdown_vm [node_rules]: "lenient I \<Longrightarrow> keeps I (shutdown_vm h)"
  unfolding shutdown_vm_def steps_simps by (intro keeps_rules node_rules)

lemma keeps_stop [node_rules]: "lenient I \<Longrightarrow> keeps I (stop h f)"
  unfolding stop_def steps_simps
  by (intro keeps_rules node_rules) (simp_all add: settled_def)

lemma keeps_restart [node_rules]: "lenient I \<Longrightarrow> keeps I (restart h f)"
  unfolding restart_def steps_simps
  by (intro keeps_rules node_rules) (simp_all add: settled_def)

lemma keeps_apply_firewall [node_rules]: "lenient I \<Longrightarrow> keeps I (apply_firewall h)"
  unfolding apply_firewall_def by (intro keeps_rules node_rules)

lemma keeps_apply_firewall_internal [node_rules]: "lenient I \<Longrightarrow> keeps I (apply_firewall_internal h)"
  unfolding apply_firewall_internal_def by (intro keeps_rules node_rules)

lemma keeps_then_save [node_rules]: "lenient I \<Longrightarrow> keeps I m \<Longrightarrow> keeps I (then_save h m)"
  unfolding then_save_def steps_simps by (intro keeps_rules node_rules)

lemma keeps_refresh_engine_info [node_rules]: "lenient I \<Longrightarrow> keeps I (refresh_engine_info h)"
  unfolding refresh_engine_info_def steps_simps by (intro keeps_rules node_rules)

lemma keeps_engine_plugin [node_rules]: "lenient I \<Longrightarrow> keeps I (engine_plugin h)"
  unfolding engine_plugin_def by (intro keeps_rules node_rules)

lemma keeps_start_if_stopped [node_rules]: "lenient I \<Longrightarrow> keeps I (start_if_stopped h)"
  unfolding start_if_stopped_def by (intro keeps_rules node_rules)

lemma keeps_internal [node_rules]: "keeps I m \<Longrightarrow> keeps I (internal m)"
  unfolding internal_def by (rule keeps_map_error)

lemma keeps_reload_plugin [node_rules]: "lenient I \<Longrightarrow> keeps I (reload_plugin h)"
  unfolding reload_plugin_def steps_simps by (intro keeps_rules node_rules)

lemma keeps_give_up_if [node_rules]: "lenient I \<Longrightarrow> keeps I (give_up_if h c)"
  unfolding give_up_if_def by (intro keeps_rules node_rules)

lemma keeps_post_recovery [node_rules]: "lenient I \<Longrightarrow> keeps I (post_recovery h)"
  unfolding post_recovery_def by (intro keeps_rules node_rules)

lemma keeps_recover_by_restart [node_rules]: "lenient I \<Longrightarrow> keeps I (recover_by_restart h)"
  unfolding recover_by_restart_def by (intro keeps_rules node_rules)

lemma keeps_started_node_recovery [node_rules]: "lenient I \<Longrightarrow> keeps I (started_node_recovery h)"
  unfolding started_node_recovery_def by (intro keeps_rules node_rules)

lemma keeps_case_status:
  "keeps I a \<Longrightarrow> keeps I b \<Longrightarrow> keeps I c \<Longrightarrow> keeps I d \<Longrightarrow>
    keeps I (case s of Running \<Rightarrow> a | Stopped \<Rightarrow> b | Busy \<Rightarrow> c | Failed \<Rightarrow> d)"
  by (cases s) simp_all

lemma keeps_recover [node_rules]: "lenient I \<Longrightarrow> keeps I (recover h)"
  unfolding recover_def vm_recovery_def node_connection_recovery_def reconnect_by_restart_def steps_simps
  by (intro keeps_rules keeps_case_status node_rules)

section \<open>What an upgrade changes and a rollback restores\<close>

text \<open>The configuration of a node, without what starting, upgrading and core assignment change.\<close>

definition config_of :: "node_state \<Rightarrow> node_state" where
  "config_of s = (settled s)\<lparr>assigned_cpus := [], upgrade_st := upgrade_state_default\<rparr>"

lemma config_of_update_upgrade [simp]:
  "config_of (s\<lparr>upgrade_st := u\<rparr>) = config_of s" "config_of (s\<lparr>assigned_cpus := a\<rparr>) = config_of s"
  by (simp_all add: config_of_def settled_def)

lemma config_of_settled: "settled s = settled t \<Longrightarrow> config_of s = config_of t"
  by (simp add: config_of_def)

lemma settled_fields:
  assumes "settled s = settled t"
  shows "assigned_cpus s = assigned_cpus t" "upgrade_st s = upgrade_st t"
  using assms by (cases s; cases t; simp add: settled_def)+

lemma config_of_swap:
  "config_of s = config_of t \<Longrightarrow> config_of (snd (swap_state b s)) = config_of (snd (swap_state b t))"
  by (cases s; cases t) (simp add: config_of_def settled_def swap_state_def)

lemma config_of_swap_back:
  assumes "config_of t = config_of (snd (swap_state b s))" and "config_of s = config_of s'"
  shows "config_of (snd (swap_state (fst (swap_state b s)) t)) = config_of s'"
proof -
  have "config_of (snd (swap_state (fst (swap_state b s)) t))
      = config_of (snd (swap_state (fst (swap_state b s)) (snd (swap_state b s))))"
    using assms(1) by (rule config_of_swap)
  also have "\<dots> = config_of s"
    using swap_state_involution [of b s "fst (swap_state b s)" "snd (swap_state b s)"] by simp
  finally show ?thesis using assms(2) by simp
qed

lemma swap_state_keeps [simp]:
  "assigned_cpus (snd (swap_state b s)) = assigned_cpus s" "upgrade_st (snd (swap_state b s)) = upgrade_st s"
  "node_vm_config (snd (swap_state b s)) = backup_vm_config b"
  by (simp_all add: swap_state_def)

text \<open>The assignment and the registry once the recorded step is undone.\<close>

definition undone :: "upgrade_step list \<Rightarrow> nat list \<Rightarrow> cpu_registry \<Rightarrow> nat list \<times> cpu_registry" where
  "undone ss as reg = (case find is_cpu_step ss of
     Some (StepCpuAssignment (AcquiredCpus k)) \<Rightarrow> (take k as, reg @ drop k as)
   | Some (StepCpuAssignment (ReleasedCpus cs)) \<Rightarrow> (as @ cs, reg)
   | _ \<Rightarrow> (as, reg))"

abbreviation no_cpu_step :: "node \<Rightarrow> bool" where
  "no_cpu_step n \<equiv> \<forall>s \<in> set (steps_of n). \<not> is_cpu_step s"

definition in_upgrade ::
  "node_state \<Rightarrow> upgrade_state \<Rightarrow> nat list \<Rightarrow> cpu_registry \<Rightarrow> node \<Rightarrow> bool" where
  "in_upgrade f u as reg n \<longleftrightarrow>
     config_of (st n) = f \<and> (upgrade_st (st n))\<lparr>upgrade_steps := []\<rparr> = u \<and>
     undone (steps_of n) (assigned_cpus (st n)) (registry n) = (as, reg) \<and>
     size (filter_mset is_cpu_step (mset (steps_of n))) \<le> 1"

lemma find_append: "find P (xs @ ys) = (case find P xs of None \<Rightarrow> find P ys | Some x \<Rightarrow> Some x)"
  by (induction xs) auto

lemma undone_none: "\<forall>s \<in> set ss. \<not> is_cpu_step s \<Longrightarrow> undone ss as reg = (as, reg)"
  using find_None_iff [of is_cpu_step ss] by (auto simp: undone_def)

lemma undone_push [simp]: "\<not> is_cpu_step s \<Longrightarrow> undone (ss @ [s]) as reg = undone ss as reg"
  by (simp add: undone_def find_append split: option.split)

lemma steps_of_record [simp]: "steps_of (record_call c n) = steps_of n"
  by (simp add: steps_of_def)

lemma lenient_in_upgrade [simp]: "lenient (in_upgrade f u as reg)"
  using lenient_core [of "\<lambda>s r. config_of s = f \<and> (upgrade_st s)\<lparr>upgrade_steps := []\<rparr> = u \<and>
     undone (upgrade_steps (upgrade_st s)) (assigned_cpus s) r = (as, reg) \<and>
     size (filter_mset is_cpu_step (mset (upgrade_steps (upgrade_st s)))) \<le> 1"]
  by (simp add: in_upgrade_def [abs_def] steps_of_def config_of_def settled_def)

lemma lenient_no_cpu_step: "lenient no_cpu_step"
  using lenient_core [of "\<lambda>s r. \<forall>x \<in> set (upgrade_steps (upgrade_st s)). \<not> is_cpu_step x"]
  by (simp add: steps_of_def settled_def)

lemma lenient_conj: "lenient I \<Longrightarrow> lenient J \<Longrightarrow> lenient (\<lambda>n. I n \<and> J n)"
  by (simp add: lenient_def)

lemma set_upgrade_apply [simp]:
  "set_upgrade f n = (Inr (), n\<lparr>st := (st n)\<lparr>upgrade_st := f (upgrade_st (st n))\<rparr>\<rparr>)"
  by (simp add: set_upgrade_def set_st_def)

lemma set_st_apply [simp]: "set_st f n = (Inr (), n\<lparr>st := f (st n)\<rparr>)"
  by (simp add: set_st_def)

text \<open>Each part of an upgrade keeps the account of what a rollback has to undo.\<close>

lemma keeps_push_step:
  "\<not> is_cpu_step s \<Longrightarrow> keeps (in_upgrade f u as reg) (push_step s)"
  by (rule keepsI) (simp add: push_step_def in_upgrade_def steps_of_def)

lemma keeps_once:
  "\<not> is_cpu_step s \<Longrightarrow> keeps (in_upgrade f u as reg) m \<Longrightarrow> keeps (in_upgrade f u as reg) (once s m)"
  unfolding once_def steps_simps by (intro keeps_rules keeps_push_step)

lemma filter_mset_empty_conv: "filter_mset P M = {#} \<longleftrightarrow> (\<forall>x \<in># M. \<not> P x)"
  by (induction M) auto

lemma no_cpu_filter: "\<forall>s \<in> set ss. \<not> is_cpu_step s \<Longrightarrow> filter_mset is_cpu_step (mset ss) = {#}"
  by (simp add: filter_mset_empty_conv)

lemma in_upgrade_start: "no_cpu_step n \<Longrightarrow>
    in_upgrade (config_of (st n)) ((upgrade_st (st n))\<lparr>upgrade_steps := []\<rparr>) (assigned_cpus (st n)) (registry n) n"
  by (simp add: in_upgrade_def undone_none no_cpu_filter)

lemma save_state_result:
  "save_state h n = (r, t) \<Longrightarrow> st t = st n \<and> registry t = registry n \<and> (r = Inr () \<longrightarrow> saved t = Some (st n))"
  by (auto simp: save_state_def split: sum.splits)

lemma find_snoc: "\<forall>x \<in> set xs. \<not> P x \<Longrightarrow> find P (xs @ [y]) = (if P y then Some y else None)"
  by (induction xs) auto

lemma upgrade_cpus_account:
  assumes none: "no_cpu_step n" and step: "upgrade_cpus h n = (r, t)"
  shows "in_upgrade (config_of (st n)) ((upgrade_st (st n))\<lparr>upgrade_steps := []\<rparr>)
           (assigned_cpus (st n)) (registry n) t"
    and "r = Inr () \<Longrightarrow> length (assigned_cpus (st t)) = vcpu_count (node_vm_config (st t))"
proof -
  note simps = in_upgrade_def undone_def push_step_def steps_of_def find_snoc filter_mset_empty_conv Let_def
  have filt: "filter_mset is_cpu_step (mset (steps_of n)) = {#}"
    using none by (rule no_cpu_filter)
  let ?have = "length (assigned_cpus (st n))" and ?want = "vcpu_count (node_vm_config (st n))"
  have "in_upgrade (config_of (st n)) ((upgrade_st (st n))\<lparr>upgrade_steps := []\<rparr>)
           (assigned_cpus (st n)) (registry n) t \<and>
        (r = Inr () \<longrightarrow> length (assigned_cpus (st t)) = vcpu_count (node_vm_config (st t)))"
  proof (cases rule: linorder_cases [of ?have ?want])
    case equal
    with none step in_upgrade_start show ?thesis by (auto simp: upgrade_cpus_def Let_def)
  next
    case greater
    with step obtain n' where save: "save_state h n' = (r, t)"
      and n': "n' = n\<lparr>st := (st n)\<lparr>upgrade_st := (upgrade_st (st n))\<lparr>upgrade_steps := steps_of n @
          [StepCpuAssignment (ReleasedCpus (drop ?want (assigned_cpus (st n))))]\<rparr>,
          assigned_cpus := take ?want (assigned_cpus (st n))\<rparr>\<rparr>"
      by (auto simp: upgrade_cpus_def push_step_def steps_of_def try_then_def Let_def split: sum.splits prod.splits)
    from save_state_result [OF save] greater none filt show ?thesis
      by (auto simp: n' simps)
  next
    case less
    obtain q reg' where acq: "cpu_acquire (?want - ?have) (registry n) = (q, reg')" by fastforce
    show ?thesis
    proof (cases q)
      case (Inl e)
      with acq have "reg' = registry n" by (auto dest: cpus.acquire_Inl)
      with less step acq Inl none filt show ?thesis
        by (auto simp: upgrade_cpus_def acquire_cpus_def try_then_def simps)
    next
      case (Inr cs)
      with less step acq obtain n' where save: "save_state h n' = (r, t)"
        and n': "n' = n\<lparr>registry := reg', st := (st n)\<lparr>upgrade_st := (upgrade_st (st n))\<lparr>upgrade_steps := steps_of n @
          [StepCpuAssignment (AcquiredCpus ?have)]\<rparr>,
          assigned_cpus := assigned_cpus (st n) @ cs\<rparr>\<rparr>"
        by (auto simp: upgrade_cpus_def acquire_cpus_def push_step_def steps_of_def try_then_def Let_def
            split: sum.splits prod.splits)
      from acq Inr have "registry n = reg' @ cs" "length cs = ?want - ?have"
        by (auto simp: cpu_acquire_def split: if_splits)
      with save_state_result [OF save] less none filt show ?thesis
        by (auto simp: n' simps)
    qed
  qed
  then show "in_upgrade (config_of (st n)) ((upgrade_st (st n))\<lparr>upgrade_steps := []\<rparr>)
           (assigned_cpus (st n)) (registry n) t"
    and "r = Inr () \<Longrightarrow> length (assigned_cpus (st t)) = vcpu_count (node_vm_config (st t))"
    by simp_all
qed

lemma keeps_in_upgrade_call: "keeps (in_upgrade f u as reg) (call h c)"
  by (rule keeps_call) simp

text \<open>What follows the core assignment in \<open>try_upgrade\<close>.\<close>

definition upgrade_rest :: "host \<Rightarrow> unit node_action" where
  "upgrade_rest h = steps
     [once StepVm (then_save h (with_state (\<lambda>n. call h (VmUpgrade (st n))))),
      once StepPlugin (steps [refresh_engine_info h, then_save h (engine_plugin h)]),
      once StepFirewall (then_save h (apply_firewall_internal h)),
      start_if_stopped h]"

lemma try_upgrade_split: "try_upgrade h = try_then (upgrade_cpus h) (\<lambda>_. upgrade_rest h)"
  by (simp add: try_upgrade_def upgrade_rest_def)

lemma keeps_upgrade_rest:
  "keeps (in_upgrade f u as reg)
     (upgrade_rest h)"
  unfolding upgrade_rest_def steps_simps
  by (intro keeps_rules keeps_once keeps_then_save keeps_refresh_engine_info keeps_engine_plugin
      keeps_apply_firewall_internal keeps_start_if_stopped keeps_in_upgrade_call) simp_all

lemma keeps_assigned:
  "lenient (\<lambda>n. assigned_cpus (st n) = a)"
  using lenient_core [of "\<lambda>s r. assigned_cpus s = a"] by (simp add: settled_def)

lemma keeps_assigned_rest:
  "keeps (\<lambda>n. assigned_cpus (st n) = a)
     (upgrade_rest h)"
proof -
  have push: "keeps (\<lambda>n. assigned_cpus (st n) = a) (push_step s :: unit node_action)" for s
    by (rule keepsI) (simp add: push_step_def)
  show ?thesis
    unfolding upgrade_rest_def steps_simps once_def
    by (intro keeps_rules push keeps_then_save keeps_refresh_engine_info keeps_engine_plugin
        keeps_apply_firewall_internal keeps_start_if_stopped keeps_call keeps_assigned)
qed

lemma config_of_vm: "config_of s = config_of t \<Longrightarrow> node_vm_config s = node_vm_config t"
  by (cases s; cases t) (simp add: config_of_def settled_def)

lemma try_upgrade_account:
  assumes "no_cpu_step n" and "try_upgrade h n = (r, t)"
  shows "in_upgrade (config_of (st n)) ((upgrade_st (st n))\<lparr>upgrade_steps := []\<rparr>)
           (assigned_cpus (st n)) (registry n) t"
    and "r = Inr () \<Longrightarrow> length (assigned_cpus (st t)) = vcpu_count (node_vm_config (st n))"
proof -
  obtain q m where cpus: "upgrade_cpus h n = (q, m)" by fastforce
  note acc = upgrade_cpus_account [OF assms(1) cpus]
  from assms(2) cpus have rt: "(case q of Inl e \<Rightarrow> (Inl e, m) | Inr _ \<Rightarrow> upgrade_rest h m) = (r, t)"
    by (simp add: try_upgrade_split try_then_def)
  let ?I = "in_upgrade (config_of (st n)) ((upgrade_st (st n))\<lparr>upgrade_steps := []\<rparr>)
           (assigned_cpus (st n)) (registry n)"
  show I: "?I t"
  proof (cases q)
    case (Inl e)
    with rt acc(1) show ?thesis by simp
  next
    case (Inr x)
    with rt have "upgrade_rest h m = (r, t)" by simp
    with acc(1) show ?thesis by (rule keepsD_eq [OF keeps_upgrade_rest])
  qed
  show "length (assigned_cpus (st t)) = vcpu_count (node_vm_config (st n))" if r: "r = Inr ()"
  proof -
    from r rt have q: "q = Inr ()" by (cases q) simp_all
    with rt have "upgrade_rest h m = (r, t)" by simp
    then have "assigned_cpus (st t) = assigned_cpus (st m)"
      using keepsD_eq [OF keeps_assigned_rest [of "assigned_cpus (st m)" h], of m] by simp
    moreover have "node_vm_config (st m) = node_vm_config (st n)"
      using acc(1) by (intro config_of_vm) (simp add: in_upgrade_def)
    ultimately show ?thesis using acc(2) q by simp
  qed
qed

text \<open>The rollback undoes the recorded core step first and leaves none behind.\<close>

lemma filter_swap_remove:
  assumes "i < length ss"
  shows "size (filter_mset P (mset (swap_remove i ss))) + (if P (ss ! i) then 1 else 0) = size (filter_mset P (mset ss))"
proof -
  have "mset ss = add_mset (ss ! i) (mset (swap_remove i ss))"
    using mset_swap_remove [OF assms] by simp
  then show ?thesis by simp
qed

lemma set_swap_remove: "set (swap_remove i ss) \<subseteq> set ss"
proof (cases "ss = []")
  case False
  then have "set ((butlast ss)[i := last ss]) \<subseteq> insert (last ss) (set (butlast ss))"
    by (intro set_update_subset_insert)
  also have "\<dots> \<subseteq> set ss" using False by (auto dest: in_set_butlastD)
  finally show ?thesis by (auto simp: swap_remove_def dest: in_set_butlastD)
qed (simp add: swap_remove_def)

lemma find_position: "position P xs = Some i \<Longrightarrow> find P xs = Some (xs ! i)"
  by (simp add: position_Some)

lemma cpu_step_cases: "is_cpu_step s \<Longrightarrow> \<exists>c. s = StepCpuAssignment c"
  by (cases s) auto

lemma undo_cpus_result:
  assumes "is_cpu_step s" and "undo_cpus s n = (r, t)"
  shows "r = Inr () \<and> (assigned_cpus (st t), registry t) = undone [s] (assigned_cpus (st n)) (registry n) \<and>
     config_of (st t) = config_of (st n) \<and> upgrade_st (st t) = upgrade_st (st n)"
proof -
  from assms(1) obtain c where s: "s = StepCpuAssignment c" using cpu_step_cases by blast
  show ?thesis
    using assms(2) unfolding s
    by (cases c) (auto simp: undo_cpus_def undone_def release_cpus_def cpu_release_def try_then_def)
qed

abbreviation rolled_back :: "node_state \<Rightarrow> upgrade_state \<Rightarrow> nat list \<Rightarrow> cpu_registry \<Rightarrow> node \<Rightarrow> bool" where
  "rolled_back f u as reg n \<equiv> in_upgrade f u as reg n \<and> no_cpu_step n"

lemma rollback_cpus_account:
  assumes I: "in_upgrade f u as reg n" and run: "rollback_cpus h n = (Inr x, t)"
  shows "rolled_back f u as reg t"
proof (cases "position is_cpu_step (steps_of n)")
  case None
  with run I show ?thesis by (auto simp: rollback_cpus_def position_None)
next
  case (Some i)
  then have i: "i < length (steps_of n)" "is_cpu_step (steps_of n ! i)"
    and find: "find is_cpu_step (steps_of n) = Some (steps_of n ! i)"
    by (simp_all add: position_Some)
  let ?n1 = "n\<lparr>st := (st n)\<lparr>upgrade_st := (upgrade_st (st n))\<lparr>upgrade_steps := swap_remove i (steps_of n)\<rparr>\<rparr>\<rparr>"
  from run Some obtain n2 where undo: "undo_cpus (steps_of n ! i) ?n1 = (Inr (), n2)"
    and save: "save_state h n2 = (Inr x, t)"
    by (auto simp: rollback_cpus_def remove_step_def steps_of_def try_then_Inr_iff)
  have "size (filter_mset is_cpu_step (mset (swap_remove i (steps_of n)))) = 0"
  proof -
    have "size (filter_mset is_cpu_step (mset (steps_of n))) \<le> 1" using I by (simp add: in_upgrade_def)
    with i(2) filter_swap_remove [OF i(1), of is_cpu_step] show ?thesis by presburger
  qed
  then have none: "\<forall>s \<in> set (swap_remove i (steps_of n)). \<not> is_cpu_step s"
    by (simp only: size_eq_0_iff_empty filter_mset_empty_conv set_mset_mset)
  have und: "undone [steps_of n ! i] (assigned_cpus (st n)) (registry n) = (as, reg)"
    using I i(2) by (simp add: in_upgrade_def undone_def find)
  from undo_cpus_result [OF i(2) undo] save_state_result [OF save] I none und show ?thesis
    by (simp add: in_upgrade_def steps_of_def undone_none no_cpu_filter)
qed

lemma lenient_rolled_back [simp]: "lenient (rolled_back f u as reg)"
  by (intro lenient_conj lenient_in_upgrade lenient_no_cpu_step)

lemma rolled_back_iff: "rolled_back f u as reg n \<longleftrightarrow>
    config_of (st n) = f \<and> (upgrade_st (st n))\<lparr>upgrade_steps := []\<rparr> = u \<and> assigned_cpus (st n) = as \<and>
    registry n = reg \<and> no_cpu_step n"
  by (auto simp: in_upgrade_def undone_none no_cpu_filter)

lemma keeps_remove_step: "keeps (rolled_back f u as reg) (remove_step i)"
  unfolding rolled_back_iff
  by (rule keepsI) (auto simp: remove_step_def steps_of_def dest!: set_swap_remove [THEN subsetD])

lemma keeps_rollback_step:
  assumes "keeps (rolled_back f u as reg) m"
  shows "keeps (rolled_back f u as reg) (rollback_step h s m)"
  unfolding rollback_step_def steps_simps
  by (intro keeps_rules keeps_remove_step keeps_save_state lenient_rolled_back assms)

text \<open>What follows the core assignment in \<open>try_rollback\<close>.\<close>

definition rollback_rest :: "host \<Rightarrow> unit node_action" where
  "rollback_rest h = steps
     [rollback_step h StepVm (call h VmRollback),
      rollback_step h StepPlugin (steps [refresh_engine_info h, engine_plugin h]),
      rollback_step h StepFirewall (apply_firewall_internal h),
      start_if_stopped h]"

lemma keeps_rollback_rest: "keeps (rolled_back f u as reg) (rollback_rest h)"
  unfolding rollback_rest_def steps_simps
  by (intro keeps_rules keeps_rollback_step keeps_call keeps_refresh_engine_info keeps_engine_plugin
      keeps_apply_firewall_internal keeps_start_if_stopped lenient_rolled_back)

definition stop_if_running :: "host \<Rightarrow> unit node_action" where
  "stop_if_running h = with_state (\<lambda>n. if node_status h n = Running then stop h True else ok ())"

lemma try_rollback_split:
  "try_rollback h = try_then (stop_if_running h) (\<lambda>_. try_then (rollback_cpus h) (\<lambda>_. rollback_rest h))"
  by (simp add: try_rollback_def rollback_rest_def stop_if_running_def)

lemma keeps_stop_if_running: "lenient I \<Longrightarrow> keeps I (stop_if_running h)"
  unfolding stop_if_running_def by (intro keeps_rules keeps_stop)

lemma try_rollback_account:
  assumes I: "in_upgrade f u as reg n" and run: "try_rollback h n = (Inr x, t)"
  shows "rolled_back f u as reg t"
proof -
  from run obtain n1 n2 where stop: "stop_if_running h n = (Inr (), n1)"
    and cpus: "rollback_cpus h n1 = (Inr (), n2)" and rest: "rollback_rest h n2 = (Inr x, t)"
    by (auto simp: try_rollback_split try_then_Inr_iff)
  from keepsD_eq [OF keeps_stop_if_running [OF lenient_in_upgrade] I stop] have "in_upgrade f u as reg n1" .
  from rollback_cpus_account [OF this cpus] have "rolled_back f u as reg n2" .
  then show ?thesis using rest by (rule keepsD_eq [OF keeps_rollback_rest])
qed

text \<open>The start of an upgrade: the new configuration takes the place of the old one, which is kept as the backup.\<close>

definition quiet :: "node_state \<Rightarrow> nat list \<Rightarrow> cpu_registry \<Rightarrow> node \<Rightarrow> bool" where
  "quiet c a r n \<longleftrightarrow> config_of (st n) = c \<and> assigned_cpus (st n) = a \<and> registry n = r \<and> no_cpu_step n \<and>
     need_rollback (upgrade_st (st n)) = None"

lemma lenient_quiet: "lenient (quiet c a r)"
  using lenient_core [of "\<lambda>s r'. config_of s = c \<and> assigned_cpus s = a \<and> r' = r \<and>
     (\<forall>x \<in> set (upgrade_steps (upgrade_st s)). \<not> is_cpu_step x) \<and> need_rollback (upgrade_st s) = None"]
  by (simp add: quiet_def [abs_def] steps_of_def config_of_def settled_def)

lemma keeps_check_blocking_jobs: "keeps I (check_blocking_jobs h)"
  unfolding check_blocking_jobs_def by (rule keepsI) (auto split: sum.splits)

text \<open>The part of the start of an upgrade that leaves the configuration alone.\<close>

definition upgrade_prelude :: "host \<Rightarrow> vm_status \<Rightarrow> command" where
  "upgrade_prelude h status =
     steps [set_upgrade (\<lambda>_. upgrade_state_default),
       if status = Running
       then steps [check_blocking_jobs h, push_step StepStop, set_st (\<lambda>s. s\<lparr>restarting := True\<rparr>), internal (stop h False)]
       else ok (),
       set_upgrade (\<lambda>u. u\<lparr>upgrade_active := True\<rparr>),
       with_state (\<lambda>n. case data_stamp h (calls n) of
           Inl e \<Rightarrow> fail (Internal e)
         | Inr stamp \<Rightarrow> set_upgrade (\<lambda>u. u\<lparr>upgrade_data_stamp := stamp\<rparr>))]"

definition install_config :: "node_state \<Rightarrow> command" where
  "install_config desired = with_state (\<lambda>n. let (b, s) = swap_state (backup_from desired) (st n)
     in set_st (\<lambda>_. s\<lparr>upgrade_st := (upgrade_st s)\<lparr>upgrade_backup := Some b\<rparr>\<rparr>))"

lemma begin_upgrade_split:
  "begin_upgrade h status desired =
     try_then (upgrade_prelude h status) (\<lambda>_. try_then (install_config desired) (\<lambda>_. internal (save_state h)))"
  by (simp add: begin_upgrade_def upgrade_prelude_def install_config_def try_then_assoc try_then_ok_right)

lemma keeps_quiet_upgrade:
  assumes "\<And>v. need_rollback v = None \<Longrightarrow> need_rollback (f v) = None"
    and "\<And>v. \<forall>x \<in> set (upgrade_steps (f v)). is_cpu_step x \<longrightarrow> x \<in> set (upgrade_steps v)"
  shows "keeps (quiet c a r) (set_upgrade f)"
  by (rule keepsI) (use assms in \<open>auto simp: quiet_def steps_of_def\<close>)

lemma upgrade_prelude_quiet:
  assumes "upgrade_prelude h status n = (Inr x, t)"
  shows "quiet (config_of (st n)) (assigned_cpus (st n)) (registry n) t"
proof -
  let ?I = "quiet (config_of (st n)) (assigned_cpus (st n)) (registry n)"
  let ?n1 = "n\<lparr>st := (st n)\<lparr>upgrade_st := upgrade_state_default\<rparr>\<rparr>"
  have I: "?I ?n1" by (simp add: quiet_def steps_of_def upgrade_state_default_def)
  have keep: "keeps ?I (steps [
       if status = Running
       then steps [check_blocking_jobs h, push_step StepStop, set_st (\<lambda>s. s\<lparr>restarting := True\<rparr>), internal (stop h False)]
       else ok (),
       set_upgrade (\<lambda>u. u\<lparr>upgrade_active := True\<rparr>),
       with_state (\<lambda>n. case data_stamp h (calls n) of
           Inl e \<Rightarrow> fail (Internal e)
         | Inr stamp \<Rightarrow> set_upgrade (\<lambda>u. u\<lparr>upgrade_data_stamp := stamp\<rparr>))])" (is "keeps _ ?m")
    unfolding steps_simps push_step_def
    by (intro keeps_rules keeps_quiet_upgrade keeps_check_blocking_jobs keeps_internal keeps_stop lenient_quiet
        keeps_set_settled)
       (auto simp: settled_def intro!: keeps_rules keeps_quiet_upgrade split: sum.split)
  have "?m ?n1 = (Inr x, t)"
    using assms by (simp add: upgrade_prelude_def try_then_def)
  then show ?thesis by (rule keepsD_eq [OF keep I])
qed

lemma begin_upgrade_account:
  assumes "begin_upgrade h status desired n = (Inr x, t)"
  obtains s where "config_of s = config_of (st n)"
    and "config_of (st t) = config_of (snd (swap_state (backup_from desired) s))"
    and "upgrade_backup (upgrade_st (st t)) = Some (fst (swap_state (backup_from desired) s))"
    and "need_rollback (upgrade_st (st t)) = None" and "no_cpu_step t"
    and "assigned_cpus (st t) = assigned_cpus (st n)" and "registry t = registry n"
    and "node_vm_config (st t) = node_vm_config desired"
proof -
  from assms obtain n1 n2 where pre: "upgrade_prelude h status n = (Inr (), n1)"
    and inst: "install_config desired n1 = (Inr (), n2)" and save: "save_state h n2 = (Inr x, t)"
    by (auto simp: begin_upgrade_split try_then_Inr_iff internal_def)
  from upgrade_prelude_quiet [OF pre]
  have q: "quiet (config_of (st n)) (assigned_cpus (st n)) (registry n) n1" .
  obtain b s where sw: "swap_state (backup_from desired) (st n1) = (b, s)" by fastforce
  with inst have n2: "n2 = n1\<lparr>st := s\<lparr>upgrade_st := (upgrade_st s)\<lparr>upgrade_backup := Some b\<rparr>\<rparr>\<rparr>"
    by (simp add: install_config_def)
  have bs: "b = fst (swap_state (backup_from desired) (st n1))" "s = snd (swap_state (backup_from desired) (st n1))"
    by (simp_all add: sw)
  show thesis
    by (rule that [of "st n1"])
       (use q save_state_result [OF save] in \<open>auto simp: n2 bs quiet_def steps_of_def backup_from_def\<close>)
qed

lemma fails_internal [fails_rules]: "(\<And>e. P (Internal e)) \<Longrightarrow> fails_only P (internal m)"
  unfolding internal_def by (rule fails_map_error)

lemma fails_set_st [fails_rules]: "fails_only P (set_st f)"
  by (simp add: fails_only_def)

lemma fails_set_upgrade [fails_rules]: "fails_only P (set_upgrade f)"
  by (simp add: fails_only_def)

abbreviation ordinary_error :: "command_error \<Rightarrow> bool" where
  "ordinary_error e \<equiv> (\<exists>m. e = Internal m) \<or> e = BlockingJobRunning DEFAULT_UPGRADE_RETRY_HINT_SECS"

lemma fails_check_blocking_jobs: "fails_only ordinary_error (check_blocking_jobs h)"
  unfolding check_blocking_jobs_def by (intro fails_rules) simp_all

lemma fails_begin_upgrade: "fails_only ordinary_error (begin_upgrade h status desired)"
  unfolding begin_upgrade_split upgrade_prelude_def install_config_def push_step_def steps_simps Let_def case_prod_beta
  by (intro fails_rules fails_check_blocking_jobs) simp_all

lemma fails_finish_upgrade: "fails_only ordinary_error (finish_upgrade h)"
  unfolding finish_upgrade_def steps_simps release_cpus_def by (intro fails_rules) simp_all

lemma node_rollback_fails: "rollback h err n \<noteq> (Inr x, t)"
  by (auto simp: rollback_def match_result_def try_then_def map_error_def internal_def
      split: prod.splits sum.splits)

lemma fail_upgrade_never_succeeds: "fail_upgrade h err n \<noteq> (Inr x, t)"
  by (auto simp: fail_upgrade_def try_then_Inr_iff node_rollback_fails case_prod_beta split: sum.splits option.splits)

text \<open>A rollback reports \<open>NodeUpgradeRollback\<close> only after all of it was done.\<close>

lemma rollback_account:
  assumes I: "in_upgrade f u as reg n" and run: "rollback h err n = (Inl (NodeUpgradeRollback e), t)"
  shows "config_of (st t) = f \<and> assigned_cpus (st t) = as \<and> registry t = reg \<and>
     \<not> upgrade_active (upgrade_st (st t)) \<and> saved t = Some (st t)"
proof -
  obtain r n1 where tr: "try_rollback h n = (r, n1)" by fastforce
  show ?thesis
  proof (cases r)
    case (Inl e')
    with run tr show ?thesis
      by (auto simp: rollback_def match_result_def try_then_Inl_iff internal_def map_error_Inl_iff)
  next
    case (Inr x)
    with I tr have undone: "rolled_back f u as reg n1" using try_rollback_account by blast
    let ?n2 = "n1\<lparr>st := (st n1)\<lparr>upgrade_st := (upgrade_st (st n1))\<lparr>upgrade_active := False\<rparr>\<rparr>\<rparr>"
    from run tr Inr have "save_state h ?n2 = (Inr (), t)"
      by (auto simp: rollback_def match_result_def try_then_Inl_iff internal_def map_error_Inl_iff)
    from save_state_result [OF this] undone show ?thesis by (auto simp: rolled_back_iff)
  qed
qed

lemma total_undone:
  assumes "undone ss as reg = (as0, reg0)"
  shows "cpus.total (cpu_release (held_cpus ss) reg) as = cpus.total reg0 as0"
proof (cases "\<exists>k. find is_cpu_step ss = Some (StepCpuAssignment (AcquiredCpus k))")
  case True
  then obtain k where "find is_cpu_step ss = Some (StepCpuAssignment (AcquiredCpus k))" by blast
  with assms have "as0 = take k as" "reg0 = reg @ drop k as" "held_cpus ss = []"
    by (auto simp: undone_def held_cpus_def)
  moreover have "mset as = mset (take k as) + mset (drop k as)" by (simp flip: mset_append)
  ultimately show ?thesis by (simp add: cpus.total_def cpu_release_def)
next
  case False
  with assms show ?thesis
    by (auto simp: undone_def held_cpus_def cpus.total_def cpu_release_def
        split: option.splits upgrade_step.splits cpu_assignment_update.splits)
qed

section \<open>Properties of upgrades\<close>

definition the_new_config :: "node_state \<Rightarrow> node_state \<Rightarrow> node_state" where
  "the_new_config desired s = snd (swap_state (backup_from desired) s)"

lemma upgrade_begun:
  assumes "\<not> upgrade_active (upgrade_st (st n))" and "upgrade h desired n = (r, t)"
  obtains (failed) e where "r = Inl e" and "ordinary_error e"
  | (begun) n1 s where "config_of s = config_of (st n)"
    and "config_of (st n1) = config_of (the_new_config desired s)"
    and "upgrade_backup (upgrade_st (st n1)) = Some (fst (swap_state (backup_from desired) s))"
    and "no_cpu_step n1" "assigned_cpus (st n1) = assigned_cpus (st n)" "registry n1 = registry n"
    and "node_vm_config (st n1) = node_vm_config desired"
    and "match_result (try_upgrade h) (fail_upgrade h) (\<lambda>_. finish_upgrade h) n1 = (r, t)"
proof (cases "node_status h n = Failed")
  case True
  with assms(2) failed show thesis by (auto simp: upgrade_def)
next
  case False
  obtain q n1 where start: "begin_upgrade h (node_status h n) desired n = (q, n1)" by fastforce
  with False assms have res: "(case q of Inl e \<Rightarrow> (Inl e, n1) | Inr _ \<Rightarrow>
      (case need_rollback (upgrade_st (st n1)) of
              Some err \<Rightarrow> rollback h err
            | None \<Rightarrow> match_result (try_upgrade h) (fail_upgrade h) (\<lambda>_. finish_upgrade h)) n1) = (r, t)"
    by (cases q) (auto simp: upgrade_def try_then_def try_then_ok_right Let_def)
  show thesis
  proof (cases q)
    case (Inl e)
    with res start failed fails_onlyD [OF fails_begin_upgrade] show thesis by fastforce
  next
    case (Inr x)
    with start have "begin_upgrade h (node_status h n) desired n = (Inr x, n1)" by simp
    from begin_upgrade_account [OF this] obtain s where s: "config_of s = config_of (st n)"
      "config_of (st n1) = config_of (snd (swap_state (backup_from desired) s))"
      "upgrade_backup (upgrade_st (st n1)) = Some (fst (swap_state (backup_from desired) s))"
      "need_rollback (upgrade_st (st n1)) = None" "no_cpu_step n1"
      "assigned_cpus (st n1) = assigned_cpus (st n)" "registry n1 = registry n"
      "node_vm_config (st n1) = node_vm_config desired" by blast
    show thesis
      by (rule begun [of s n1]) (use s res Inr in \<open>simp_all add: the_new_config_def\<close>)
  qed
qed

text \<open>
  C12: An upgrade that succeeds gave the node the configuration it was asked for, as many cores as it
  wants, lost or duplicated no core of the host, is no longer active, and is on disk.
\<close>

theorem upgrade_succeeds:
  assumes "\<not> upgrade_active (upgrade_st (st n))" and "upgrade h desired n = (Inr (), t)"
  shows "config_of (st t) = config_of (the_new_config desired (st n)) \<and>
     length (assigned_cpus (st t)) = vcpu_count (node_vm_config desired) \<and>
     cpus.total (registry t) (assigned_cpus (st t)) = cpus.total (registry n) (assigned_cpus (st n)) \<and>
     \<not> upgrade_active (upgrade_st (st t)) \<and> saved t = Some (st t)"
  using assms
proof (cases rule: upgrade_begun)
  case (begun n1 s)
  obtain q n2 where tr: "try_upgrade h n1 = (q, n2)" by fastforce
  with begun(8) fail_upgrade_never_succeeds have q: "q = Inr ()" and fin: "finish_upgrade h n2 = (Inr (), t)"
    by (auto simp: match_result_def split: sum.splits)
  note acc = try_upgrade_account [OF begun(4) tr]
  let ?n3 = "n2\<lparr>registry := cpu_release (held_cpus (steps_of n2)) (registry n2)\<rparr>"
  let ?off = "\<lambda>m. m\<lparr>st := (st m)\<lparr>upgrade_st := (upgrade_st (st m))\<lparr>upgrade_active := False\<rparr>\<rparr>\<rparr>"
  let ?m = "if StepVm \<in> set (steps_of ?n3) then record_call VmDropBackup ?n3 else ?n3"
  have m: "st ?m = st n2" "registry ?m = registry ?n3" by simp_all
  from fin have save: "save_state h (?off ?m) = (Inr (), t)"
    by (auto simp: finish_upgrade_def release_cpus_def internal_def call_def try_then_def split: if_splits sum.splits prod.splits)
  from config_of_swap [OF begun(1)] have "config_of (the_new_config desired s) = config_of (the_new_config desired (st n))"
    by (simp add: the_new_config_def)
  moreover from acc(1) have "cpus.total (registry ?n3) (assigned_cpus (st n2)) = cpus.total (registry n) (assigned_cpus (st n))"
    using begun(5,6) by (simp add: in_upgrade_def total_undone)
  ultimately show ?thesis
    using save_state_result [OF save] acc q begun(2,7) m by (simp add: in_upgrade_def del: if_split)
qed simp

text \<open>
  C11: An upgrade that reports it was rolled back left the node with the configuration, the cores and
  the free cores of the host it had before, in the same order, and this is on disk.
\<close>

theorem upgrade_rolled_back:
  assumes "\<not> upgrade_active (upgrade_st (st n))" and "upgrade h desired n = (Inl (NodeUpgradeRollback e), t)"
  shows "config_of (st t) = config_of (st n) \<and> assigned_cpus (st t) = assigned_cpus (st n) \<and>
     registry t = registry n \<and> \<not> upgrade_active (upgrade_st (st t)) \<and> saved t = Some (st t)"
  using assms
proof (cases rule: upgrade_begun)
  case (begun n1 s)
  obtain q n2 where tr: "try_upgrade h n1 = (q, n2)" by fastforce
  note acc = try_upgrade_account [OF begun(4) tr]
  from tr begun(8) obtain err where fail: "fail_upgrade h err n2 = (Inl (NodeUpgradeRollback e), t)"
    using fails_onlyD [OF fails_finish_upgrade, of h n2 "NodeUpgradeRollback e" t]
    by (cases q) (auto simp: match_result_def)
  let ?b = "fst (swap_state (backup_from desired) s)"
  from acc(1) have "(upgrade_st (st n2))\<lparr>upgrade_steps := []\<rparr> = (upgrade_st (st n1))\<lparr>upgrade_steps := []\<rparr>"
    by (simp add: in_upgrade_def)
  then have "upgrade_backup (upgrade_st (st n2)) = Some ?b"
    using begun(3) by (metis upgrade_state.select_convs(2) upgrade_state.surjective upgrade_state.update_convs(4))
  with fail obtain u n4 where save: "save_state h (n2\<lparr>st := (snd (swap_state ?b (st n2)))\<lparr>upgrade_st := u\<rparr>\<rparr>) = (Inr (), n4)"
    and steps: "upgrade_steps u = steps_of n2" and roll: "rollback h err n4 = (Inl (NodeUpgradeRollback e), t)"
    by (auto simp: fail_upgrade_def case_prod_beta steps_of_def internal_def try_then_Inl_iff map_error_Inl_iff
        split: sum.splits if_splits)
  note keep = save_state_result [OF save]
  have conf: "config_of (snd (swap_state ?b (st n2))) = config_of (st n)"
    using acc(1) begun(1,2) by (intro config_of_swap_back) (simp_all add: in_upgrade_def the_new_config_def)
  have "in_upgrade (config_of (st n)) (u\<lparr>upgrade_steps := []\<rparr>) (assigned_cpus (st n)) (registry n) n4"
    using acc(1) begun(5,6) keep conf steps by (simp add: in_upgrade_def steps_of_def)
  from rollback_account [OF this roll] show ?thesis .
qed auto

section \<open>Properties of stopping, updating and deleting\<close>

lemma wait_shutoff_Inr: "wait_shutoff h k n = (Inr x, t) \<Longrightarrow> vm h (calls t) = SHUTOFF \<and> st t = st n \<and> saved t = saved n"
  by (induction k arbitrary: n) (auto split: if_splits simp: try_then_Inr_iff call_def)

lemma shutdown_vm_Inr: "shutdown_vm h n = (Inr x, t) \<Longrightarrow> vm h (calls t) = SHUTOFF \<and> st t = st n \<and> saved t = saved n"
  by (auto simp: shutdown_vm_def try_then_Inr_iff match_result_def call_def split: prod.splits sum.splits
      dest!: wait_shutoff_Inr)

lemma save_state_Inr: "save_state h n = (Inr x, t) \<Longrightarrow>
    t = (record_call (SaveState (st n)) n)\<lparr>saved := Some (st n)\<rparr>"
  by (auto simp: save_state_def split: sum.splits)

lemma shutdown_babel_keeps: "shutdown_babel h f n = (r, t) \<Longrightarrow> st t = st n"
  by (auto simp: shutdown_babel_def try_then_def call_def map_error_def split: sum.splits)

text \<open>
  C15: A successful stop leaves the node expected to be stopped, on disk too. When the status is then
  \<open>Stopped\<close> already, that is when the machine is off, nothing else is done; otherwise the start time is
  gone and the last thing done was to stop the engine, at a moment the machine was off.
\<close>

theorem stop_shuts_the_machine_off:
  assumes "stop h force n = (Inr (), t)"
  shows "node_expected (st t) = Stopped \<and> saved t = Some (st t) \<and>
     (let n1 = snd (save_expected_status h Stopped n)
      in if node_status h n1 = Stopped then t = n1 \<and> vm h (calls t) = SHUTOFF
         else started_at (st t) = None \<and> (\<exists>before. calls t = before @ [EngineStop] \<and> vm h before = SHUTOFF))"
proof -
  let ?halt = "match_result (shutdown_babel h force) (\<lambda>e. if force then ok () else fail e) (\<lambda>_. ok ())"
  let ?off = "with_state (\<lambda>n. if vm h (calls n) = SHUTOFF then ok () else shutdown_vm h)"
  let ?run = "steps [?halt, ignore_result (call h ConnClose), set_st (\<lambda>s. s\<lparr>started_at := None\<rparr>), save_state h,
       ?off, call h EngineStop]"
  have "stop h force = try_then (save_expected_status h Stopped)
      (\<lambda>_. with_state (\<lambda>n. if node_status h n = Stopped then ok () else ?run))"
    by (simp add: stop_def try_then_ok_right)
  with assms obtain x n1 where exp: "save_expected_status h Stopped n = (Inr x, n1)"
    and next_step: "with_state (\<lambda>n. if node_status h n = Stopped then ok () else ?run) n1 = (Inr (), t)"
    by (auto simp only: try_then_Inr_iff)
  from exp have n1: "node_expected (st n1) = Stopped" "saved n1 = Some (st n1)"
    by (auto simp: save_expected_status_def try_then_Inr_iff dest!: save_state_result)
  show ?thesis
  proof (cases "node_status h n1 = Stopped")
    case True
    with next_step have "t = n1" by simp
    moreover have "vm h (calls n1) = SHUTOFF"
      using True by (auto simp: node_status_def Let_def split: if_splits) (cases "vm h (calls n1)"; simp)
    ultimately show ?thesis using exp n1 True by (simp add: Let_def)
  next
    case False
    with next_step have run: "?run n1 = (Inr (), t)" by (simp only: with_state_apply if_False)
    from run obtain u n2 where halt: "?halt n1 = (Inr u, n2)"
      and "steps [ignore_result (call h ConnClose), set_st (\<lambda>s. s\<lparr>started_at := None\<rparr>), save_state h,
         ?off, call h EngineStop] n2 = (Inr (), t)"
      unfolding steps_simps by (rule try_then_InrE)
    moreover define n3 where n3: "n3 = record_call ConnClose n2"
    ultimately obtain n4 where
      save: "save_state h (n3\<lparr>st := (st n3)\<lparr>started_at := None\<rparr>\<rparr>) = (Inr (), n4)"
      and rest: "try_then ?off (\<lambda>_. call h EngineStop) n4 = (Inr (), t)"
      by (auto simp: try_then_def [of "ignore_result m" for m] try_then_def [of "set_st f" for f]
          try_then_Inr_iff [of "save_state h"] call_def [of h ConnClose] try_then_ok_right)
    from halt have "st n2 = st n1"
      by (auto simp: match_result_def split: sum.splits prod.splits if_splits dest!: shutdown_babel_keeps)
    with n1(1) n3 save_state_result [OF save]
    have n4: "node_expected (st n4) = Stopped" "started_at (st n4) = None" "saved n4 = Some (st n4)" by auto
    from rest obtain n5 where off: "?off n4 = (Inr (), n5)" and eng: "call h EngineStop n5 = (Inr (), t)"
      by (auto simp: try_then_Inr_iff)
    from off have n5: "vm h (calls n5) = SHUTOFF" "st n5 = st n4" "saved n5 = saved n4"
      by (auto split: if_splits dest!: shutdown_vm_Inr)
    from eng have "t = record_call EngineStop n5" by (simp add: call_def)
    with n4 n5 exp False show ?thesis by (auto simp: record_call_def Let_def)
  qed
qed

text \<open>The calls made for the initialization of the engine.\<close>

definition inits :: "node \<Rightarrow> nat" where
  "inits n = length (filter ((=) EngineInit) (calls n))"

definition initialized_after :: "nat \<Rightarrow> node \<Rightarrow> bool" where
  "initialized_after k n \<longleftrightarrow> initialized (st n) \<and> inits n = k"

lemma keeps_initialized_call: "c \<noteq> EngineInit \<Longrightarrow> keeps (initialized_after k) (call h c)"
  by (rule keepsI) (simp add: initialized_after_def call_def record_call_def inits_def)

lemma keeps_initialized_save: "keeps (initialized_after k) (save_state h)"
  by (rule keepsI) (simp add: initialized_after_def save_state_def record_call_def inits_def split: sum.split)

lemma keeps_initialized_set: "(\<And>s. initialized (f s) = initialized s) \<Longrightarrow> keeps (initialized_after k) (set_st f)"
  by (rule keepsI) (simp add: initialized_after_def inits_def)

lemma keeps_initialized_start: "keeps (initialized_after k) (start h)"
proof -
  have skip: "keeps (initialized_after k) (with_state (\<lambda>n. if initialized (st n) then ok () else m))" for m :: "unit node_action"
    by (rule keepsI) (simp add: initialized_after_def)
  show ?thesis
    unfolding start_def save_expected_status_def check_job_runner_def steps_simps Let_def
    by (intro keeps_rules skip keeps_initialized_call keeps_initialized_save keeps_initialized_set) simp_all
qed

lemma update_parameters_Inr:
  "update_parameters h status n = (Inr x, t) \<Longrightarrow> initialized (st t)"
  by (auto simp: update_parameters_def try_then_Inr_iff internal_def dest!: save_state_result)

text \<open>
  C16: An update that changes parameters marks the node as initialized, whether or not it ever was: the
  next start of a node that was never started does not initialize its engine.
\<close>

theorem updated_node_is_never_initialized:
  assumes "new_values u \<noteq> []" and "update h u n = (Inr (), t)" and "start h t = (r, t')"
  shows "initialized (st t) \<and> inits t' = inits t"
proof -
  from assms(1,2) have init: "initialized (st t)"
    by (auto simp: update_def try_then_Inr_iff Let_def split: if_splits dest!: update_parameters_Inr)
  then have "initialized_after (inits t) t" by (simp add: initialized_after_def)
  from keepsD_eq [OF keeps_initialized_start this assms(3)] init show ?thesis
    by (simp add: initialized_after_def)
qed

text \<open>
  A deleted node returns the cores assigned to it, at the end of the registry, and only these: cores
  that an unfinished upgrade holds for its rollback stay out of the registry.
\<close>

lemma delete_returns_assigned:
  assumes "delete h n = (Inr (), t)"
  shows "registry t = registry n @ assigned_cpus (st n) \<and> assigned_cpus (st t) = []"
  using assms
  by (auto simp: delete_def save_expected_status_def try_then_Inr_iff release_cpus_def cpu_release_def call_def
      dest!: save_state_Inr)

section \<open>Examples\<close>

text \<open>A host whose machine runs from a start to the next shutdown, and whose machine upgrades may fail.\<close>

fun is_start_or_shutdown :: "call \<Rightarrow> bool" where
  "is_start_or_shutdown VmStart = True"
| "is_start_or_shutdown VmShutdown = True"
| "is_start_or_shutdown _ = False"

fun is_vm_upgrade :: "call \<Rightarrow> bool" where
  "is_vm_upgrade (VmUpgrade _) = True"
| "is_vm_upgrade _ = False"

definition example_env :: node_env where
  "example_env = \<lparr>env_node_id = ''n1'', env_node_name = ''node'', env_node_org_id = '''', env_node_version = '''',
     env_node_protocol = '''', env_node_variant = '''', env_node_ip = '''', env_node_gateway = '''',
     env_dev_mode = False, env_bv_host_id = '''', env_bv_host_name = '''', env_bv_api_url = '''',
     data_mount_point = ''/blockjoy'', protocol_data_path = ''/blockjoy/protocol_data'', env_properties = []\<rparr>"

definition example_host :: "bool \<Rightarrow> host" where
  "example_host upgrades_fail =
     \<lparr>answer = (\<lambda>_ c. if upgrades_fail \<and> is_vm_upgrade c then Inl ''no image'' else Inr ()),
      decide = (\<lambda>_ _. True),
      vm = (\<lambda>cs. case filter is_start_or_shutdown cs of [] \<Rightarrow> SHUTOFF
                 | c # ms \<Rightarrow> if last (c # ms) = VmStart then RUNNING else SHUTOFF),
      conn_closed = (\<lambda>_. False), conn_broken = (\<lambda>_. False), engine_jobs = (\<lambda>_. Inr []),
      data_stamp = (\<lambda>_. Inr None), vm_node_env = (\<lambda>_. example_env), backing_off = (\<lambda>_. False),
      host_now = 0, bridge = None\<rparr>"

definition example_image :: "string \<Rightarrow> node_image" where
  "example_image version =
     \<lparr>image_id = ''i'', image_version = version, image_config_id = ''c'', image_archive_id = ''a'',
      image_store_key = ''s'', image_uri = '''', min_babel_version = ''''\<rparr>"

definition example_state :: "string \<Rightarrow> nat \<Rightarrow> nat list \<Rightarrow> node_state" where
  "example_state version vcpus cpus =
     \<lparr>node_id = ''n1'', node_name = ''node'', protocol_id = ''p'',
      image_key = \<lparr>protocol_key = ''p'', variant_key = ''v''\<rparr>, node_dev_mode = False, node_ip = ''10.0.0.1'',
      node_gateway = ''10.0.0.0'', properties = [], node_firewall = fw_config_default, display_name = ''node'',
      org_id = '''', org_name = '''', protocol_name_of = ''p'', dns_name = '''', tags = [],
      node_vm_config = \<lparr>vcpu_count = vcpus, mem_size_mb = 0, disk_size_gb = 0, ramdisks = []\<rparr>,
      node_image = example_image version, assigned_cpus = cpus, node_expected = Stopped, started_at = None,
      initialized = False, restarting = False, upgrade_st = upgrade_state_default, apptainer_config = None\<rparr>"

definition example_node :: node where
  "example_node = \<lparr>st = example_state ''1'' 1 [2], cached_env = example_env, registry = [0, 1], saved = None,
     calls = []\<rparr>"

definition example_update :: config_update where
  "example_update = \<lparr>new_config_id = ''c2'', new_org_id = None, new_org_name = None, new_display_name = None,
     new_values = [(''k'', ''v'')], new_firewall = None\<rparr>"

lemma upgrade_succeeds_witness:
  "let t = snd (upgrade (example_host False) (example_state ''2'' 2 []) example_node) in
     image_version (node_image (st t)) = ''2'' \<and> length (assigned_cpus (st t)) = 2 \<and>
     cpus.total (registry t) (assigned_cpus (st t)) = mset [0, 1, 2]"
proof -
  let ?d = "example_state ''2'' 2 []" and ?n = example_node
  let ?t = "snd (upgrade (example_host False) ?d ?n)"
  have run: "upgrade (example_host False) ?d ?n = (Inr (), ?t)" by code_simp
  have off: "\<not> upgrade_active (upgrade_st (st ?n))" by code_simp
  note res = upgrade_succeeds [OF off run]
  have "node_image (st ?t) = node_image (config_of (st ?t))" by (simp add: config_of_def settled_def)
  also have "\<dots> = node_image (config_of (the_new_config ?d (st ?n)))" using res by simp
  also have "image_version \<dots> = ''2''" by code_simp
  finally have "image_version (node_image (st ?t)) = ''2''" .
  moreover have "vcpu_count (node_vm_config ?d) = 2" by code_simp
  moreover have "cpus.total (registry ?n) (assigned_cpus (st ?n)) = mset [0, 1, 2]"
    by (simp add: cpus.total_def example_node_def example_state_def)
  ultimately show ?thesis using res unfolding Let_def by simp
qed

lemma upgrade_rolled_back_witness:
  "let t = snd (upgrade (example_host True) (example_state ''2'' 2 []) example_node) in
     assigned_cpus (st t) = [2] \<and> registry t = [0, 1]"
proof -
  let ?d = "example_state ''2'' 2 []" and ?n = example_node
  let ?t = "snd (upgrade (example_host True) ?d ?n)"
  have run: "upgrade (example_host True) ?d ?n = (Inl (NodeUpgradeRollback ''no image''), ?t)" by code_simp
  have off: "\<not> upgrade_active (upgrade_st (st ?n))" by code_simp
  have "assigned_cpus (st ?n) = [2] \<and> registry ?n = [0, 1]" by code_simp
  with upgrade_rolled_back [OF off run] show ?thesis unfolding Let_def by simp
qed

lemma stop_shuts_the_machine_off_witness:
  "let t = snd (stop (example_host False) False (snd (start (example_host False) example_node))) in
     node_expected (st t) = Stopped \<and> (\<exists>before. calls t = before @ [EngineStop] \<and> vm (example_host False) before = SHUTOFF)"
proof -
  let ?h = "example_host False"
  let ?n = "snd (start ?h example_node)"
  let ?t = "snd (stop ?h False ?n)"
  have run: "stop ?h False ?n = (Inr (), ?t)" by code_simp
  have "node_status ?h (snd (save_expected_status ?h Stopped ?n)) \<noteq> Stopped" by code_simp
  with stop_shuts_the_machine_off [OF run] show ?thesis unfolding Let_def by simp
qed

lemma updated_node_is_never_initialized_witness:
  "let t = snd (update (example_host False) example_update example_node);
       t' = snd (start (example_host False) t) in
     \<not> initialized (st example_node) \<and> inits example_node = 0 \<and> inits t' = 0 \<and> node_status (example_host False) t' = Running"
proof -
  let ?h = "example_host False"
  let ?t = "snd (update ?h example_update example_node)"
  let ?t' = "snd (start ?h ?t)"
  have new: "new_values example_update \<noteq> []" by code_simp
  have upd: "update ?h example_update example_node = (Inr (), ?t)" by code_simp
  have start: "start ?h ?t = (Inr (), ?t')" by code_simp
  have "inits ?t = 0 \<and> \<not> initialized (st example_node) \<and> inits example_node = 0 \<and> node_status ?h ?t' = Running"
    by code_simp
  with updated_node_is_never_initialized [OF new upd start] show ?thesis unfolding Let_def by simp
qed

end
