(* ===== verification/Node_Cores.thy ===== *)
theory Node_Cores
  imports Node
begin

text \<open>
  The cores of a node and the registry: no operation of a node makes the cores in the registry, the
  cores assigned to the node and the cores an active upgrade holds more than they were. The nodes
  manager builds on this to show that no core is given to two nodes.
\<close>

section \<open>The cores of a node\<close>

fun released_by :: "upgrade_step \<Rightarrow> nat list" where
  "released_by (StepCpuAssignment (ReleasedCpus cs)) = cs"
| "released_by _ = []"

definition held :: "upgrade_step list \<Rightarrow> nat multiset" where
  "held ss = (\<Sum>s\<in>#mset ss. mset (released_by s))"

definition lent :: "node_state \<Rightarrow> nat multiset" where
  "lent s = mset (assigned_cpus s) +
     (if upgrade_active (upgrade_st s) then held (upgrade_steps (upgrade_st s)) else {#})"

definition within :: "nat multiset \<Rightarrow> node \<Rightarrow> bool" where
  "within M n \<longleftrightarrow> mset (registry n) + lent (st n) \<subseteq># M"

abbreviation within_active :: "nat multiset \<Rightarrow> node \<Rightarrow> bool" where
  "within_active M n \<equiv> within M n \<and> upgrade_active (upgrade_st (st n))"

lemma held_simps [simp]: "held [] = {#}" "held (s # ss) = mset (released_by s) + held ss"
  "held (ss @ ts) = held ss + held ts"
  by (simp_all add: held_def)

lemma released_by_other [simp]: "\<not> is_cpu_step s \<Longrightarrow> released_by s = []"
  by (cases s) auto

lemma held_swap_remove: "i < length ss \<Longrightarrow> held ss = mset (released_by (ss ! i)) + held (swap_remove i ss)"
  unfolding held_def by (subst mset_swap_remove [symmetric]) simp_all

lemma held_swap_remove_subset: "held (swap_remove i ss) \<subseteq># held ss"
proof (cases "i < length ss")
  case True
  then show ?thesis by (simp add: held_swap_remove)
next
  case False
  then have "swap_remove i ss = butlast ss"
    by (simp add: swap_remove_def list_update_beyond)
  moreover have "held (butlast ss) \<subseteq># held ss" by (cases ss rule: rev_cases) simp_all
  ultimately show ?thesis by simp
qed

lemma held_cpus_subset: "mset (held_cpus ss) \<subseteq># held ss"
proof (induction ss)
  case (Cons s ss)
  show ?case
  proof (cases "is_cpu_step s")
    case True
    then obtain c where "s = StepCpuAssignment c" by (cases s) auto
    then show ?thesis by (cases c) (simp_all add: held_cpus_def)
  next
    case False
    then show ?thesis using Cons.IH by (simp add: held_cpus_def)
  qed
qed (simp add: held_cpus_def)

lemma lent_settled [simp]: "lent (settled s) = lent s"
  by (simp add: lent_def settled_def)

lemma lenient_within [simp]: "lenient (within M)"
  using lenient_core [of "\<lambda>s r. mset r + lent s \<subseteq># M"] by (simp add: within_def [abs_def])

lemma lenient_within_active [simp]: "lenient (within_active M)"
  using lenient_core [of "\<lambda>s r. mset r + lent s \<subseteq># M \<and> upgrade_active (upgrade_st s)"]
  by (simp add: within_def [abs_def] settled_def [THEN arg_cong [where f = upgrade_st]])

section \<open>Starting, stopping, updating, deleting\<close>

lemma keeps_within_set:
  "(\<And>s. assigned_cpus (f s) = assigned_cpus s \<and> upgrade_st (f s) = upgrade_st s) \<Longrightarrow> keeps (within M) (set_st f)"
  by (rule keeps_set_st) (simp add: within_def lent_def split: if_splits)

lemma keeps_within_update: "keeps (within M) (update h u)"
  unfolding update_def update_firewall_def update_parameters_def steps_simps Let_def
  by (intro keeps_rules keeps_internal keeps_call keeps_save_state keeps_apply_firewall keeps_check_blocking_jobs
      keeps_set_env lenient_within keeps_within_set)
     (simp_all add: merge_config_def)

lemma keeps_within_delete: "keeps (within M) (delete h)"
proof -
  have rel: "keeps (within M) (try_then (with_state (\<lambda>n. release_cpus (assigned_cpus (st n))))
      (\<lambda>_. set_st (\<lambda>s. s\<lparr>assigned_cpus := []\<rparr>)) :: unit node_action)"
    by (rule keepsI) (simp add: release_cpus_def try_then_def within_def lent_def cpu_release_def ac_simps split: if_splits)
  show ?thesis
    unfolding delete_def steps_simps
    by (intro keeps_pair rel keeps_rules keeps_save_expected keeps_call lenient_within)
qed

section \<open>Creating and upgrading\<close>

lemma create_within:
  assumes "mset (registry n) \<subseteq># M" and "\<not> upgrade_active (upgrade_st (st n))"
  shows "mset (registry (snd (create h n))) \<subseteq># M"
    and "fst (create h n) = Inr () \<Longrightarrow> within M (snd (create h n))"
proof -
  have try_keeps: "keeps (\<lambda>n. within M n \<and> \<not> upgrade_active (upgrade_st (st n))) (try_create h)"
  proof -
    have len: "lenient (\<lambda>n. within M n \<and> \<not> upgrade_active (upgrade_st (st n)))"
      using lenient_core [of "\<lambda>s r. mset r + lent s \<subseteq># M \<and> \<not> upgrade_active (upgrade_st s)"]
      by (simp add: within_def [abs_def] settled_def [THEN arg_cong [where f = upgrade_st]])
    show ?thesis
      unfolding try_create_def steps_simps
      by (intro keeps_rules keeps_call keeps_set_env keeps_apply_firewall keeps_save_state len)
  qed
  obtain q reg where acq: "cpu_acquire (vcpu_count (node_vm_config (st n))) (registry n) = (q, reg)" by fastforce
  have sub: "within M t \<Longrightarrow> mset (registry t) \<subseteq># M" for t
    by (auto simp: within_def intro: subset_mset.order_trans [OF mset_subset_eq_add_left])
  have "mset (registry (snd (create h n))) \<subseteq># M \<and> (fst (create h n) = Inr () \<longrightarrow> within M (snd (create h n)))"
  proof (cases q)
    case (Inl e)
    have "create h n = (Inl e, n\<lparr>registry := reg\<rparr>)"
      by (simp add: create_def acquire_cpus_def acq Inl try_then_def)
    moreover have "reg = registry n" using acq Inl by (auto dest: cpus.acquire_Inl)
    ultimately show ?thesis using assms by simp
  next
    case (Inr cs)
    let ?n = "n\<lparr>registry := reg, st := (st n)\<lparr>assigned_cpus := cs\<rparr>\<rparr>"
    obtain r t where tr: "try_create h ?n = (r, t)" by fastforce
    have "within M ?n \<and> \<not> upgrade_active (upgrade_st (st ?n))"
      using assms acq Inr cpus.acquire_Inr [of _ "registry n" cs reg] by (simp add: within_def lent_def)
    from keepsD_eq [OF try_keeps this tr] have t: "within M t" "\<not> upgrade_active (upgrade_st (st t))" by simp_all
    let ?undo = "try_then (with_state (\<lambda>n. release_cpus (assigned_cpus (st n)))) (\<lambda>_. set_st (\<lambda>s. s\<lparr>assigned_cpus := []\<rparr>))
        :: unit node_action"
    have undo: "keeps (within M) ?undo"
      by (rule keepsI) (simp add: release_cpus_def try_then_def within_def lent_def cpu_release_def ac_simps split: if_splits)
    have fail: "keeps (within M) (steps [with_state (\<lambda>n. release_cpus (assigned_cpus (st n))),
        set_st (\<lambda>s. s\<lparr>assigned_cpus := []\<rparr>),
        with_state (\<lambda>n. ignore_result (cleanup_failed_create h (machine_created h n))), fail e])" for e :: string
      unfolding cleanup_failed_create_def steps_simps
      by (intro keeps_pair undo keeps_rules keeps_call lenient_within)
    have "snd (create h n) = (case r of Inl e \<Rightarrow> snd (steps [with_state (\<lambda>n. release_cpus (assigned_cpus (st n))),
        set_st (\<lambda>s. s\<lparr>assigned_cpus := []\<rparr>),
        with_state (\<lambda>n. ignore_result (cleanup_failed_create h (machine_created h n))), fail e] t) | Inr _ \<Rightarrow> t)"
      using tr by (cases r) (simp_all add: create_def acquire_cpus_def acq Inr match_result_def try_then_ok_right
          try_then_def [of "acquire_cpus k" for k] try_then_def [of "set_st f" for f])
    with keepsD [OF fail t(1)] t(1) have "within M (snd (create h n))" by (cases r) simp_all
    with sub show ?thesis by simp
  qed
  then show "mset (registry (snd (create h n))) \<subseteq># M"
    and "fst (create h n) = Inr () \<Longrightarrow> within M (snd (create h n))" by simp_all
qed

lemma keeps_active_push: "released_by s = [] \<Longrightarrow> keeps (within_active M) (push_step s)"
  by (rule keepsI) (simp add: push_step_def within_def lent_def split: if_splits)

lemma keeps_active_upgrade_cpus: "keeps (within_active M) (upgrade_cpus h)"
proof (rule keepsI)
  fix n assume n: "within_active M n"
  let ?have = "length (assigned_cpus (st n))" and ?want = "vcpu_count (node_vm_config (st n))"
  have save: "keeps (within_active M) (save_state h)" by (rule keeps_save_state) simp
  have parts: "mset (assigned_cpus (st n)) = mset (take ?want (assigned_cpus (st n))) + mset (drop ?want (assigned_cpus (st n)))"
    by (simp flip: mset_append)
  show "within_active M (snd (upgrade_cpus h n))"
  proof (cases rule: linorder_cases [of ?have ?want])
    case equal
    with n show ?thesis by (simp add: upgrade_cpus_def)
  next
    case greater
    have "within_active M (n\<lparr>st := (st n)\<lparr>upgrade_st := (upgrade_st (st n))\<lparr>upgrade_steps := steps_of n @
        [StepCpuAssignment (ReleasedCpus (drop ?want (assigned_cpus (st n))))]\<rparr>,
        assigned_cpus := take ?want (assigned_cpus (st n))\<rparr>\<rparr>)"
      using n by (simp add: within_def lent_def steps_of_def parts ac_simps split: if_splits)
    from keepsD [OF save this] greater show ?thesis
      by (simp add: upgrade_cpus_def push_step_def steps_of_def try_then_def Let_def try_then_ok_right)
  next
    case less
    obtain q reg where acq: "cpu_acquire (?want - ?have) (registry n) = (q, reg)" by fastforce
    let ?n = "n\<lparr>st := (st n)\<lparr>upgrade_st := (upgrade_st (st n))\<lparr>upgrade_steps := steps_of n @
        [StepCpuAssignment (AcquiredCpus ?have)]\<rparr>\<rparr>\<rparr>"
    have pushed: "within_active M ?n" using n by (simp add: within_def lent_def steps_of_def split: if_splits)
    show ?thesis
    proof (cases q)
      case (Inl e)
      with acq have "reg = registry n" by (auto dest: cpus.acquire_Inl)
      with less acq Inl pushed show ?thesis
        by (simp add: upgrade_cpus_def acquire_cpus_def push_step_def steps_of_def try_then_def Let_def)
    next
      case (Inr cs)
      have "mset (registry n) = mset reg + mset cs" using cpus.acquire_Inr acq Inr by blast
      with n have "within_active M (n\<lparr>registry := reg, st := (st n)\<lparr>upgrade_st := (upgrade_st (st n))\<lparr>upgrade_steps := steps_of n @
          [StepCpuAssignment (AcquiredCpus ?have)]\<rparr>, assigned_cpus := assigned_cpus (st n) @ cs\<rparr>\<rparr>)"
        by (simp add: within_def lent_def steps_of_def ac_simps split: if_splits)
      from keepsD [OF save this] less acq Inr show ?thesis
        by (simp add: upgrade_cpus_def acquire_cpus_def push_step_def steps_of_def try_then_def Let_def try_then_ok_right)
    qed
  qed
qed

lemma keeps_active_once:
  "\<not> is_cpu_step s \<Longrightarrow> keeps (within_active M) m \<Longrightarrow> keeps (within_active M) (once s m)"
  unfolding once_def steps_simps by (intro keeps_rules keeps_active_push) simp_all

lemma keeps_active_try_upgrade: "keeps (within_active M) (try_upgrade h)"
  unfolding try_upgrade_def steps_simps
  by (intro keeps_rules keeps_active_upgrade_cpus keeps_active_once keeps_then_save keeps_refresh_engine_info
      keeps_engine_plugin keeps_apply_firewall_internal keeps_start_if_stopped keeps_call lenient_within_active)
     simp_all

lemma keeps_active_remove_step: "keeps (within_active M) (remove_step i)"
  by (rule keepsI)
     (auto simp: remove_step_def within_def lent_def intro: subset_mset.order_trans
       [OF subset_mset.add_left_mono [OF subset_mset.add_left_mono [OF held_swap_remove_subset]]])

lemma keeps_active_rollback_cpus: "keeps (within_active M) (rollback_cpus h)"
proof (rule keepsI)
  fix n assume n: "within_active M n"
  show "within_active M (snd (rollback_cpus h n))"
  proof (cases "position is_cpu_step (steps_of n)")
    case None
    with n show ?thesis by (simp add: rollback_cpus_def)
  next
    case (Some i)
    then have i: "i < length (steps_of n)" "is_cpu_step (steps_of n ! i)" by (simp_all add: position_Some)
    let ?ss = "swap_remove i (steps_of n)"
    let ?n = "n\<lparr>st := (st n)\<lparr>upgrade_st := (upgrade_st (st n))\<lparr>upgrade_steps := ?ss\<rparr>\<rparr>\<rparr>"
    obtain r t where undo: "undo_cpus (steps_of n ! i) ?n = (r, t)" by fastforce
    note res = undo_cpus_result [OF i(2) undo]
    have held: "held (steps_of n) = mset (released_by (steps_of n ! i)) + held ?ss"
      using i(1) by (rule held_swap_remove)
    obtain c where c: "steps_of n ! i = StepCpuAssignment c" using i(2) cpu_step_cases by blast
    have cores: "mset (registry t) + mset (assigned_cpus (st t))
        = mset (registry n) + mset (assigned_cpus (st n)) + mset (released_by (steps_of n ! i))"
    proof (cases c)
      case (AcquiredCpus k)
      have "mset (assigned_cpus (st n)) = mset (take k (assigned_cpus (st n))) + mset (drop k (assigned_cpus (st n)))"
        by (simp flip: mset_append)
      with res c AcquiredCpus show ?thesis by (simp add: undone_def)
    qed (use res c in \<open>simp_all add: undone_def\<close>)
    have "mset (registry t) + (mset (assigned_cpus (st t)) + held ?ss)
        = mset (registry n) + (mset (assigned_cpus (st n)) + held (steps_of n))"
      unfolding add.assoc [symmetric] cores by (simp add: held ac_simps)
    with n have "within_active M t"
      using res by (simp add: within_def lent_def steps_of_def split: if_splits)
    moreover have "snd (rollback_cpus h n) = snd (save_state h t)"
      using Some undo res
      by (simp add: rollback_cpus_def remove_step_def steps_of_def try_then_ok_right
          try_then_def [of "set_upgrade f" for f] try_then_def [of "undo_cpus s" for s])
    ultimately show ?thesis using keepsD [OF keeps_save_state [OF lenient_within_active], of M t h] by metis
  qed
qed

lemma keeps_active_rollback_step:
  "keeps (within_active M) m \<Longrightarrow> keeps (within_active M) (rollback_step h s m)"
  unfolding rollback_step_def steps_simps
  by (intro keeps_rules keeps_active_remove_step keeps_save_state lenient_within_active)

lemma keeps_active_try_rollback: "keeps (within_active M) (try_rollback h)"
  unfolding try_rollback_def steps_simps
  by (intro keeps_rules keeps_stop keeps_active_rollback_cpus keeps_active_rollback_step keeps_call
      keeps_refresh_engine_info keeps_engine_plugin keeps_apply_firewall_internal keeps_start_if_stopped
      lenient_within_active)

lemma keeps_within_deactivate: "keeps (within M) (set_upgrade (\<lambda>u. u\<lparr>upgrade_active := False\<rparr>))"
  by (rule keepsI) (auto simp: within_def lent_def intro: subset_mset.order_trans
      [OF subset_mset.add_left_mono [OF mset_subset_eq_add_left]])

lemma rollback_within: "within_active M n \<Longrightarrow> within M (snd (rollback h err n))"
proof -
  assume n: "within_active M n"
  obtain r t where tr: "try_rollback h n = (r, t)" by fastforce
  from keepsD_eq [OF keeps_active_try_rollback n tr] have t: "within M t" by simp
  have "keeps (within M) (steps [set_upgrade (\<lambda>u. u\<lparr>upgrade_active := False\<rparr>),
          internal (save_expected_status h Failed), fail (NodeUpgradeFailure err e)])"
    and "keeps (within M) (steps [set_upgrade (\<lambda>u. u\<lparr>upgrade_active := False\<rparr>),
          internal (save_state h), fail (NodeUpgradeRollback err)])" for e
    unfolding steps_simps
    by (intro keeps_rules keeps_within_deactivate keeps_internal keeps_save_expected keeps_save_state lenient_within)+
  with t tr show ?thesis by (cases r) (simp_all add: rollback_def match_result_def keepsD del: steps_simps)
qed

lemma fail_upgrade_within: "within_active M n \<Longrightarrow> within M (snd (fail_upgrade h err n))"
proof -
  assume n: "within_active M n"
  show ?thesis
  proof (cases "\<exists>stamp b. data_stamp h (calls n) = Inr stamp \<and> upgrade_data_stamp (upgrade_st (st n)) = stamp \<and>
      upgrade_backup (upgrade_st (st n)) = Some b")
    case False
    with n show ?thesis by (auto simp: fail_upgrade_def split: sum.split option.split)
  next
    case True
    then obtain stamp b where b: "data_stamp h (calls n) = Inr stamp"
      "upgrade_data_stamp (upgrade_st (st n)) = stamp" "upgrade_backup (upgrade_st (st n)) = Some b" by blast
    obtain b' s where sw: "swap_state b (st n) = (b', s)" by fastforce
    then have s: "assigned_cpus s = assigned_cpus (st n)" "upgrade_st s = upgrade_st (st n)"
      using swap_state_keeps [of b "st n"] by simp_all
    let ?n = "n\<lparr>st := s\<lparr>upgrade_st := (upgrade_st s)\<lparr>upgrade_backup := Some b', need_rollback := Some err\<rparr>\<rparr>\<rparr>"
    obtain r t where save: "save_state h ?n = (r, t)" by fastforce
    have "within_active M ?n" using n s by (simp add: within_def lent_def split: if_splits)
    with save_state_result [OF save] have t: "within_active M t" by (simp add: within_def)
    have "snd (fail_upgrade h err n) = (case r of Inl e \<Rightarrow> t | Inr _ \<Rightarrow> snd (rollback h err t))"
      using b sw save
      by (cases r) (simp_all add: fail_upgrade_def try_then_ok_right try_then_def internal_def map_error_def)
    with t rollback_within show ?thesis by (cases r) simp_all
  qed
qed

lemma finish_upgrade_within: "within_active M n \<Longrightarrow> within M (snd (finish_upgrade h n))"
proof -
  assume n: "within_active M n"
  let ?n = "n\<lparr>registry := cpu_release (held_cpus (steps_of n)) (registry n)\<rparr>"
  let ?m = "if StepVm \<in> set (steps_of n) then snd (ignore_result (call h VmDropBackup) ?n :: (command_error + unit) \<times> node) else ?n"
  let ?t = "?m\<lparr>st := (st n)\<lparr>upgrade_st := (upgrade_st (st n))\<lparr>upgrade_active := False\<rparr>\<rparr>\<rparr>"
  have "mset (registry n) + mset (held_cpus (steps_of n)) + mset (assigned_cpus (st n)) \<subseteq>#
      mset (registry n) + (mset (assigned_cpus (st n)) + held (steps_of n))"
    using held_cpus_subset [of "steps_of n"] by simp
  also have "\<dots> \<subseteq># M" using n by (simp add: within_def lent_def steps_of_def split: if_splits)
  finally have "within M ?t" by (simp add: within_def lent_def cpu_release_def call_def)
  moreover have "snd (finish_upgrade h n) = snd (save_state h ?t)"
    by (simp add: finish_upgrade_def release_cpus_def internal_def steps_of_def try_then_ok_right call_def
        try_then_def [of "set_upgrade f" for f] try_then_def [of "update_state f" for f] try_then_def [of "with_state f" for f])
  ultimately show ?thesis using keepsD [OF keeps_save_state [OF lenient_within]] by simp
qed

text \<open>Before it is active, an upgrade holds nothing.\<close>

definition holds_nothing :: "nat multiset \<Rightarrow> node \<Rightarrow> bool" where
  "holds_nothing M n \<longleftrightarrow> mset (registry n) + mset (assigned_cpus (st n)) \<subseteq># M \<and> held (steps_of n) = {#}"

lemma lenient_holds_nothing: "lenient (holds_nothing M)"
  using lenient_core [of "\<lambda>s r. mset r + mset (assigned_cpus s) \<subseteq># M \<and> held (upgrade_steps (upgrade_st s)) = {#}"]
  by (simp add: holds_nothing_def [abs_def] steps_of_def settled_def)

lemma holds_nothing_within: "holds_nothing M n \<Longrightarrow> within M n"
  by (simp add: holds_nothing_def within_def lent_def steps_of_def)

lemma within_assigned: "within M n \<Longrightarrow> mset (registry n) + mset (assigned_cpus (st n)) \<subseteq># M"
  unfolding within_def lent_def
  by (rule subset_mset.order_trans [OF subset_mset.add_left_mono [OF mset_subset_eq_add_left]])

lemma keeps_nothing_upgrade:
  "(\<And>u. held (upgrade_steps u) = {#} \<Longrightarrow> held (upgrade_steps (f u)) = {#}) \<Longrightarrow> keeps (holds_nothing M) (set_upgrade f)"
  by (rule keepsI) (simp add: holds_nothing_def steps_of_def)

lemma keeps_nothing_begin: "keeps (holds_nothing M) (begin_upgrade h status desired)"
proof -
  have inst: "keeps (holds_nothing M) (install_config desired)"
    by (rule keepsI) (simp add: install_config_def holds_nothing_def steps_of_def case_prod_beta)
  have stamp: "keeps (holds_nothing M) (case r of Inl e \<Rightarrow> fail (Internal e)
      | Inr stamp \<Rightarrow> set_upgrade (\<lambda>u. u\<lparr>upgrade_data_stamp := stamp\<rparr>))" for r
    by (cases r) (auto intro!: keeps_fail keeps_nothing_upgrade)
  show ?thesis
    unfolding begin_upgrade_split upgrade_prelude_def steps_simps push_step_def
    by (intro keeps_rules keeps_nothing_upgrade inst stamp keeps_check_blocking_jobs keeps_internal keeps_stop
        keeps_save_state lenient_holds_nothing keeps_set_settled)
       (simp_all add: upgrade_state_default_def settled_def)
qed

lemma begin_upgrade_within:
  assumes "begin_upgrade h status desired n = (r, t)" and "within M n"
  shows "within M t" and "r = Inr () \<Longrightarrow> upgrade_active (upgrade_st (st t))"
proof -
  let ?n = "n\<lparr>st := (st n)\<lparr>upgrade_st := upgrade_state_default\<rparr>\<rparr>"
  have "begin_upgrade h status desired n = begin_upgrade h status desired ?n"
    by (simp add: begin_upgrade_def try_then_def [of "set_upgrade f" for f])
  moreover have "holds_nothing M ?n"
    using within_assigned [OF assms(2)] by (simp add: holds_nothing_def steps_of_def upgrade_state_default_def)
  ultimately have "holds_nothing M t"
    using keepsD_eq [OF keeps_nothing_begin, of M ?n h status desired r t] assms(1) by simp
  then show "within M t" by (rule holds_nothing_within)
  show "upgrade_active (upgrade_st (st t))" if "r = Inr ()"
  proof -
    from that assms(1) obtain n1 n2 where pre: "upgrade_prelude h status n = (Inr (), n1)"
      and inst: "install_config desired n1 = (Inr (), n2)" and save: "save_state h n2 = (Inr (), t)"
      by (auto simp: begin_upgrade_split try_then_Inr_iff internal_def)
    from pre obtain k where "(case data_stamp h (calls k) of Inl e \<Rightarrow> fail (Internal e)
        | Inr stamp \<Rightarrow> set_upgrade (\<lambda>u. u\<lparr>upgrade_data_stamp := stamp\<rparr>))
        (k\<lparr>st := (st k)\<lparr>upgrade_st := (upgrade_st (st k))\<lparr>upgrade_active := True\<rparr>\<rparr>\<rparr>) = (Inr (), n1)"
      by (auto simp: upgrade_prelude_def try_then_Inr_iff try_then_ok_right)
    then have "upgrade_active (upgrade_st (st n1))" by (cases "data_stamp h (calls k)") auto
    with inst have "upgrade_active (upgrade_st (st n2))" by (auto simp: install_config_def case_prod_beta)
    with save_state_result [OF save] show ?thesis by simp
  qed
qed

lemma keeps_within_upgrade: "keeps (within M) (upgrade h desired)"
proof (rule keepsI)
  fix n assume n: "within M n"
  have body: "within M (snd ((case need_rollback (upgrade_st (st m)) of
              Some err \<Rightarrow> rollback h err
            | None \<Rightarrow> match_result (try_upgrade h) (fail_upgrade h) (\<lambda>_. finish_upgrade h)) m))"
    if m: "within_active M m" for m
  proof (cases "need_rollback (upgrade_st (st m))")
    case None
    obtain q k where tr: "try_upgrade h m = (q, k)" by fastforce
    from keepsD_eq [OF keeps_active_try_upgrade m tr] have k: "within_active M k" .
    show ?thesis
      using fail_upgrade_within [OF k] finish_upgrade_within [OF k] None tr
      by (cases q) (simp_all add: match_result_def)
  qed (use rollback_within [OF m] in simp)
  show "within M (snd (upgrade h desired n))"
  proof (cases "node_status h n = Failed")
    case True
    with n show ?thesis by (simp add: upgrade_def)
  next
    case False
    show ?thesis
    proof (cases "upgrade_active (upgrade_st (st n))")
      case True
      with False body [of n] n show ?thesis by (simp add: upgrade_def Let_def try_then_ok_right)
    next
      case inactive: False
      obtain r t where start: "begin_upgrade h (node_status h n) desired n = (r, t)" by fastforce
      note begun = begin_upgrade_within [OF start n]
      show ?thesis
        using begun body [of t] False inactive start
        by (cases r) (simp_all add: upgrade_def Let_def try_then_ok_right try_then_def)
    qed
  qed
qed

section \<open>The identity of a node\<close>

text \<open>No request but a rename changes the id, the name or the address of a node.\<close>

definition identity :: "node_state \<Rightarrow> string \<times> string \<times> string" where
  "identity s = (node_id s, node_name s, node_ip s)"

definition is_node :: "string \<times> string \<times> string \<Rightarrow> node \<Rightarrow> bool" where
  "is_node t n \<longleftrightarrow> identity (st n) = t"

lemma lenient_is_node [simp]: "lenient (is_node t)"
  using lenient_core [of "\<lambda>s r. identity s = t"]
  by (simp add: is_node_def [abs_def] identity_def settled_def)

lemma keeps_is_node_set: "(\<And>s. identity (f s) = identity s) \<Longrightarrow> keeps (is_node t) (set_st f)"
  by (rule keeps_set_st) (simp add: is_node_def)

lemma keeps_is_node_upgrade: "keeps (is_node t) (set_upgrade f)"
  unfolding set_upgrade_def by (rule keeps_is_node_set) (simp add: identity_def)

lemma keeps_is_node_registry: "keeps (is_node t) (release_cpus cs)" "keeps (is_node t) (acquire_cpus k)"
  unfolding release_cpus_def by (rule keepsI, simp add: is_node_def acquire_cpus_def case_prod_beta)+

lemma identity_assigned [simp]: "identity (s\<lparr>assigned_cpus := a\<rparr>) = identity s"
  by (simp add: identity_def)

lemma identity_swap [simp]: "identity (snd (swap_state b s)) = identity s"
  by (simp add: identity_def swap_state_def)

lemmas is_node_rules = keeps_is_node_set keeps_is_node_upgrade keeps_is_node_registry

lemma keeps_is_node_delete: "keeps (is_node t) (delete h)"
  unfolding delete_def steps_simps
  by (intro keeps_rules is_node_rules keeps_save_expected keeps_call lenient_is_node) simp_all

lemma keeps_is_node_update: "keeps (is_node t) (update h u)"
  unfolding update_def update_firewall_def update_parameters_def steps_simps Let_def
  by (intro keeps_rules is_node_rules keeps_internal keeps_call keeps_save_state keeps_apply_firewall
      keeps_check_blocking_jobs keeps_set_env lenient_is_node)
     (simp_all add: merge_config_def identity_def)

lemma keeps_is_node_push: "keeps (is_node t) (push_step s)"
  unfolding push_step_def by (rule keeps_is_node_upgrade)

lemma keeps_is_node_upgrade_cpus: "keeps (is_node t) (upgrade_cpus h)"
  unfolding upgrade_cpus_def steps_simps Let_def
  by (intro keeps_rules is_node_rules keeps_is_node_push keeps_save_state lenient_is_node) simp_all

lemma keeps_is_node_try_upgrade: "keeps (is_node t) (try_upgrade h)"
  unfolding try_upgrade_def once_def steps_simps
  by (intro keeps_rules keeps_is_node_upgrade_cpus keeps_is_node_push keeps_then_save keeps_refresh_engine_info
      keeps_engine_plugin keeps_apply_firewall_internal keeps_start_if_stopped keeps_call lenient_is_node)

lemma keeps_is_node_undo: "keeps (is_node t) (undo_cpus s)"
proof (cases "is_cpu_step s")
  case True
  show ?thesis
  proof (rule keepsI)
    fix n assume "is_node t n"
    obtain r m where m: "undo_cpus s n = (r, m)" by fastforce
    from undo_cpus_result [OF True m] have "config_of (st m) = config_of (st n)" by simp
    then have "identity (st m) = identity (st n)"
      by (cases "st m"; cases "st n") (simp add: config_of_def settled_def identity_def)
    with m \<open>is_node t n\<close> show "is_node t (snd (undo_cpus s n))" by (simp add: is_node_def)
  qed
qed (cases s, simp_all add: undo_cpus_def keeps_ok)

lemma keeps_is_node_try_rollback: "keeps (is_node t) (try_rollback h)"
  unfolding try_rollback_def rollback_cpus_def rollback_step_def remove_step_def steps_simps
  by (intro keeps_rules keeps_is_node_undo is_node_rules keeps_save_state keeps_stop keeps_call
      keeps_refresh_engine_info keeps_engine_plugin keeps_apply_firewall_internal keeps_start_if_stopped lenient_is_node)

lemma keeps_is_node_rollback: "keeps (is_node t) (rollback h err)"
  unfolding rollback_def steps_simps
  by (intro keeps_rules keeps_is_node_try_rollback is_node_rules keeps_internal keeps_save_expected keeps_save_state
      lenient_is_node)

lemma keeps_is_node_swapped:
  "is_node t n \<Longrightarrow> keeps (is_node t) (set_st (\<lambda>_. (snd (swap_state c (st n)))\<lparr>upgrade_st := u\<rparr>))"
  by (rule keepsI) (simp add: is_node_def identity_def swap_state_def)

lemma keeps_is_node_install: "keeps (is_node t) (install_config desired)"
  unfolding install_config_def Let_def case_prod_beta
  by (intro keeps_with_state_inv keeps_is_node_swapped)

lemma keeps_is_node_begin: "keeps (is_node t) (begin_upgrade h status desired)"
  unfolding begin_upgrade_split upgrade_prelude_def steps_simps
  by (intro keeps_rules is_node_rules keeps_is_node_install keeps_is_node_push keeps_check_blocking_jobs keeps_internal
      keeps_stop keeps_save_state lenient_is_node)
     (simp_all add: identity_def)

lemma keeps_is_node_fail: "keeps (is_node t) (fail_upgrade h err)"
  unfolding fail_upgrade_def Let_def case_prod_beta steps_simps
  by (rule keeps_with_state_inv)
     (intro keeps_rules keeps_is_node_swapped keeps_internal keeps_save_state keeps_is_node_rollback lenient_is_node)

lemma keeps_is_node_finish: "keeps (is_node t) (finish_upgrade h)"
  unfolding finish_upgrade_def steps_simps
  by (intro keeps_rules is_node_rules keeps_internal keeps_save_state keeps_call lenient_is_node)

lemma keeps_is_node_upgrade_all: "keeps (is_node t) (upgrade h desired)"
  unfolding upgrade_def steps_simps Let_def
  by (intro keeps_rules keeps_is_node_begin keeps_is_node_rollback keeps_is_node_try_upgrade keeps_is_node_fail
      keeps_is_node_finish)

lemma keeps_is_node_create: "keeps (is_node t) (create h)"
  unfolding create_def try_create_def cleanup_failed_create_def steps_simps
  by (intro keeps_rules is_node_rules keeps_call keeps_set_env keeps_apply_firewall keeps_save_state lenient_is_node)
     (simp_all add: identity_def)

lemma keeps_is_node_attach: "keeps (is_node t) (attach h)"
proof -
  have reg: "keeps (is_node t) (update_state (\<lambda>n. n\<lparr>registry := f n\<rparr>))"
    "keeps (is_node t) (update_state (\<lambda>n. if P n then n\<lparr>registry := f n\<rparr> else n))" for f P
    by (rule keepsI, simp add: is_node_def)+
  show ?thesis
    unfolding attach_def check_job_runner_def steps_simps
    by (intro reg keeps_rules keeps_call keeps_set_env lenient_is_node)
qed

end
