(* ===== verification/Nodes_Manager.thy ===== *)
theory Nodes_Manager
  imports Node_Cores Scheduler Host_Platform
begin

text \<open>
  The manager of all nodes of a host (\<open>bv/src/nodes_manager.rs\<close>): the map of the nodes, the index of
  their names, the cache of their states and the registry of cores they share. Requests of one client
  after another are modelled; a node is run on the registry of the host for the time of a request.
\<close>

section \<open>State\<close>

datatype maybe_node = LiveNode node | BrokenNode node_state

fun state_of :: "maybe_node \<Rightarrow> node_state" where
  "state_of (LiveNode n) = st n"
| "state_of (BrokenNode s) = s"

record nodes_manager =
  mgr_nodes :: "(uuid, maybe_node) hash_map"
  node_ids :: "(string, uuid) hash_map"
  state_cache :: "(uuid, node_state) hash_map"
  mgr_cpus :: cpu_registry
  sched_actions :: "string sched_action list"
    \<comment> \<open>what was sent to the scheduler\<close>

type_synonym ('e, 'a) manager_action = "(nodes_manager, 'e, 'a) action"

text \<open>What the manager asks its host, the version library and the network address parser.\<close>

record semver =
  ver_major :: nat
  ver_minor :: nat
  ver_patch :: nat
  ver_pre :: string

record mgr_env =
  node_host :: "uuid \<Rightarrow> host"
  maintenance_mode :: bool
  host_resources :: "nodes_data_cache \<Rightarrow> string + resources"
  parse_version :: "string \<Rightarrow> string + semver"
  version_less :: "semver \<Rightarrow> semver \<Rightarrow> bool"
  show_version :: "semver \<Rightarrow> string"
  is_cidr :: "string \<Rightarrow> bool"

definition BV_VERSION :: string where "BV_VERSION = ''2.21.1''"

definition MAX_SUPPORTED_RULES :: nat where "MAX_SUPPORTED_RULES = 128"

section \<open>Checks\<close>

definition check_babel_version :: "mgr_env \<Rightarrow> string \<Rightarrow> command_error + unit" where
  "check_babel_version env min_version =
     (let parse = (\<lambda>v. case parse_version env v of
          Inl e \<Rightarrow> Inl (Internal (''failed to parse min_babel_version='' @ min_version @ '': '' @ e))
        | Inr x \<Rightarrow> Inr x)
      in and_then (parse min_version) (\<lambda>parsed.
         let wanted = parsed\<lparr>ver_patch := 0\<rparr>
         in and_then (parse BV_VERSION) (\<lambda>version.
              if version_less env version wanted
              then Inl (Internal (''image require never version of babel '' @ quoted (show_version env wanted) @
                ''while current is '' @ quoted BV_VERSION @ '' - upgrade bv first''))
              else Inr ())))"

definition check_firewall_rules :: "mgr_env \<Rightarrow> fw_rule list \<Rightarrow> command_error + unit" where
  "check_firewall_rules env rules =
     (if MAX_SUPPORTED_RULES < length rules then Inl (Internal ''can't configure more than 128 rules!'')
      else into_internal (check_rules (is_cidr env) rules))"

definition check_node_requirements ::
  "mgr_env \<Rightarrow> nodes_data_cache \<Rightarrow> node_state \<Rightarrow> vm_config option \<Rightarrow> command_error + unit" where
  "check_node_requirements env cache desired tolerance =
     (if maintenance_mode env then Inr ()
      else and_then (into_internal (host_resources env cache)) (\<lambda>r.
        let available = (case tolerance of None \<Rightarrow> r | Some tol \<Rightarrow>
              \<lparr>res_vcpu = res_vcpu r + of_nat (vcpu_count tol), res_mem_mb = res_mem_mb r + of_nat (mem_size_mb tol),
               res_disk_gb = res_disk_gb r + of_nat (disk_size_gb tol)\<rparr>);
            wanted = node_vm_config desired
        in if res_disk_gb available < of_nat (disk_size_gb wanted)
           then Inl (Internal (''not enough disk space to allocate for the node: required='' @ show_nat (disk_size_gb wanted)
                  @ '', available='' @ show_nat (unat (res_disk_gb available))))
           else if res_mem_mb available < of_nat (mem_size_mb wanted)
           then Inl (Internal ''not enough memory to allocate for the node'')
           else if res_vcpu available < of_nat (vcpu_count wanted)
           then Inl (Internal ''not enough vcpu to allocate for the node'')
           else Inr ()))"

definition lift :: "'e + 'a \<Rightarrow> ('s, 'e, 'a) action" where
  "lift r = (case r of Inl e \<Rightarrow> fail e | Inr x \<Rightarrow> ok x)"

section \<open>Running a node\<close>

text \<open>
  \<open>nodes.get(&id)\<close>, the \<open>let MaybeNode::Node(..) else\<close> and the locked node: an action of the node on
  the shared registry.
\<close>

definition on_node :: "'e \<Rightarrow> 'e \<Rightarrow> uuid \<Rightarrow> (node, 'e, 'a) action \<Rightarrow> ('e, 'a) manager_action" where
  "on_node not_found broken i m = with_state (\<lambda>s. case map_of (mgr_nodes s) i of
     None \<Rightarrow> fail not_found
   | Some (BrokenNode _) \<Rightarrow> fail broken
   | Some (LiveNode n) \<Rightarrow>
       (let (r, n') = m (n\<lparr>registry := mgr_cpus s\<rparr>)
        in (\<lambda>_. (r, s\<lparr>mgr_nodes := AList.update i (LiveNode n') (mgr_nodes s), mgr_cpus := registry n'\<rparr>))))"

abbreviation on_live :: "string \<Rightarrow> uuid \<Rightarrow> (node, command_error, 'a) action \<Rightarrow> (command_error, 'a) manager_action" where
  "on_live what i \<equiv> on_node NodeNotFound (Internal (''cannot '' @ what @ '' broken node `'' @ i @ ''`'')) i"

definition cache_state :: "uuid \<Rightarrow> ('e, unit) manager_action" where
  "cache_state i = update_state (\<lambda>s. case map_of (mgr_nodes s) i of
     Some (LiveNode n) \<Rightarrow> s\<lparr>state_cache := AList.update i (st n) (state_cache s)\<rparr>
   | _ \<Rightarrow> s)"

definition read_node :: "(node \<Rightarrow> 'a) \<Rightarrow> (node, 'e, 'a) action" where
  "read_node f = read_state f"

definition update_node_state_cache :: "node_state \<Rightarrow> ('e, unit) manager_action" where
  "update_node_state_cache ns = update_state (\<lambda>s. s\<lparr>state_cache := AList.update (node_id ns) ns (state_cache s)\<rparr>)"

definition node_state_cache :: "uuid \<Rightarrow> (command_error, node_state) manager_action" where
  "node_state_cache i = with_state (\<lambda>s. case map_of (state_cache s) i of None \<Rightarrow> fail NodeNotFound | Some c \<Rightarrow> ok c)"

definition nodes_data_cache :: "nodes_manager \<Rightarrow> nodes_data_cache" where
  "nodes_data_cache s = state_cache s"

definition node_id_for_name :: "string \<Rightarrow> (string, uuid) manager_action" where
  "node_id_for_name name = with_state (\<lambda>s. case map_of (node_ids s) name of
     None \<Rightarrow> fail (''Node with name `'' @ name @ ''` not found'') | Some i \<Rightarrow> ok i)"

definition expected_status :: "uuid \<Rightarrow> (command_error, vm_status) manager_action" where
  "expected_status i = with_state (\<lambda>s. case map_of (mgr_nodes s) i of
     None \<Rightarrow> fail NodeNotFound | Some mn \<Rightarrow> ok (node_expected (state_of mn)))"

definition status :: "mgr_env \<Rightarrow> uuid \<Rightarrow> (command_error, vm_status) manager_action" where
  "status env i = with_state (\<lambda>s. case map_of (mgr_nodes s) i of
     None \<Rightarrow> fail NodeNotFound
   | Some (LiveNode n) \<Rightarrow> ok (node_status (node_host env i) n)
   | Some (BrokenNode _) \<Rightarrow> ok Failed)"

section \<open>Creation\<close>

definition new_node :: "host \<Rightarrow> cpu_registry \<Rightarrow> node_state \<Rightarrow> node" where
  "new_node h reg s = \<lparr>st = s, cached_env = vm_node_env h [], registry = reg, saved = None, calls = []\<rparr>"

definition insert_new_node :: "uuid \<Rightarrow> node \<Rightarrow> ('e, node_state) manager_action" where
  "insert_new_node i n s =
     (Inr (st n), s\<lparr>mgr_nodes := AList.update i (LiveNode n) (mgr_nodes s),
        node_ids := AList.update (node_name (st n)) i (node_ids s),
        state_cache := AList.update i (st n) (state_cache s), mgr_cpus := registry n\<rparr>)"

definition run_create :: "host \<Rightarrow> node_state \<Rightarrow> (command_error, node_state) manager_action" where
  "run_create h desired = with_state (\<lambda>s.
     let (r, n) = Node.create h (new_node h (mgr_cpus s) desired)
     in case r of
          Inl e \<Rightarrow> try_then (update_state (\<lambda>s. s\<lparr>mgr_cpus := registry n\<rparr>)) (\<lambda>_. fail (Internal e))
        | Inr _ \<Rightarrow> insert_new_node (node_id desired) n)"

definition check_unique_ip :: "string \<Rightarrow> nodes_manager \<Rightarrow> command_error + unit" where
  "check_unique_ip ip s =
     (if list_ex (\<lambda>(_, mn). node_ip (state_of mn) = ip) (mgr_nodes s)
      then Inl (Internal (''node with ip address `'' @ ip @ ''` exists'')) else Inr ())"

definition without_cpus :: "node_state \<Rightarrow> node_state" where
  "without_cpus s = s\<lparr>node_vm_config := (node_vm_config s)\<lparr>vcpu_count := 0\<rparr>\<rparr>"

definition create :: "mgr_env \<Rightarrow> node_state \<Rightarrow> (command_error, node_state) manager_action" where
  "create env desired = with_state (\<lambda>s.
     try_then (lift (check_babel_version env (min_babel_version (node_image desired)))) (\<lambda>_.
       case map_of (state_cache s) (node_id desired) of
         Some cache \<Rightarrow> ok cache
       | None \<Rightarrow>
           if map_of (node_ids s) (node_name desired) \<noteq> None
           then fail (Internal (''node with name `'' @ node_name desired @ ''` exists''))
           else try_then (lift (check_firewall_rules env (fw_rules (node_firewall desired)))) (\<lambda>_.
                  try_then (if node_dev_mode desired then ok (without_cpus desired)
                    else try_then (lift (check_node_requirements env (nodes_data_cache s) desired None)) (\<lambda>_. ok desired))
                  (\<lambda>desired. try_then (lift (check_unique_ip (node_ip desired) s)) (\<lambda>_.
                     run_create (node_host env (node_id desired)) desired)))))"

section \<open>Requests for existing nodes\<close>

definition upgrade :: "mgr_env \<Rightarrow> node_state \<Rightarrow> (command_error, node_state \<times> vm_status) manager_action" where
  "upgrade env desired = with_state (\<lambda>s.
     let i = node_id desired; h = node_host env i
     in try_then (lift (check_babel_version env (min_babel_version (node_image desired)))) (\<lambda>_.
        try_then (on_live ''upgrade'' i (read_node st)) (\<lambda>current.
          if image_id (node_image desired) = image_id (node_image current)
          then on_live ''upgrade'' i (read_node (\<lambda>n. (st n, node_status h n)))
          else
            (let key = image_store_key (node_image desired); cur = image_store_key (node_image current);
                 keyed = (if key = '''' then desired\<lparr>node_image := (node_image desired)\<lparr>image_store_key := cur\<rparr>\<rparr> else desired)
             in if image_store_key (node_image keyed) \<noteq> cur
                then fail (Internal (''cannot upgrade node to version that uses different data set (current=`'' @ cur
                       @ ''`, desired=`'' @ image_store_key (node_image keyed) @ ''`)''))
                else try_then (if node_dev_mode current then ok (without_cpus keyed)
                       else try_then (lift (check_node_requirements env (nodes_data_cache s) keyed (Some (node_vm_config current))))
                              (\<lambda>_. ok keyed))
                     (\<lambda>keyed. try_then (on_live ''upgrade'' i (Node.upgrade h keyed)) (\<lambda>_.
                        try_then (cache_state i) (\<lambda>_.
                          on_live ''upgrade'' i (read_node (\<lambda>n. (st n, node_status h n))))))))))"

definition delete :: "mgr_env \<Rightarrow> uuid \<Rightarrow> (command_error, unit) manager_action" where
  "delete env i =
     try_then (on_live ''delete'' i (try_then (internal (Node.delete (node_host env i))) (\<lambda>_. read_node (\<lambda>n. node_name (st n)))))
       (\<lambda>name. update_state (\<lambda>s. s\<lparr>mgr_nodes := AList.delete i (mgr_nodes s), node_ids := AList.delete name (node_ids s),
          state_cache := AList.delete i (state_cache s), sched_actions := sched_actions s @ [DeleteNode i]\<rparr>))"

definition start :: "mgr_env \<Rightarrow> uuid \<Rightarrow> bool \<Rightarrow> (command_error, unit) manager_action" where
  "start env i reload = (let h = node_host env i in
     on_live ''start'' i (steps [
       if reload then map_error (\<lambda>e. Internal (''BV internal error: '' @ e)) (Node.reload_plugin h) else ok (),
       with_state (\<lambda>n. if node_expected (st n) \<noteq> Running
         then steps [internal (Node.start h),
           if reload \<and> initialized (st n) then internal (call h EngineReloadConfig) else ok ()]
         else ok ())]))"

definition stop :: "mgr_env \<Rightarrow> uuid \<Rightarrow> bool \<Rightarrow> (command_error, unit) manager_action" where
  "stop env i force = on_live ''stop'' i
     (with_state (\<lambda>n. if node_expected (st n) \<noteq> Stopped \<or> force then internal (Node.stop (node_host env i) force) else ok ()))"

definition restart :: "mgr_env \<Rightarrow> uuid \<Rightarrow> bool \<Rightarrow> (command_error, unit) manager_action" where
  "restart env i force = on_live ''restart'' i (internal (Node.restart (node_host env i) force))"

definition update :: "mgr_env \<Rightarrow> uuid \<Rightarrow> config_update \<Rightarrow> (command_error, unit) manager_action" where
  "update env i u =
     try_then (case new_firewall u of Some c \<Rightarrow> lift (check_firewall_rules env (fw_rules c)) | None \<Rightarrow> ok ())
       (\<lambda>_. try_then (on_live ''update'' i (Node.update (node_host env i) u)) (\<lambda>_. cache_state i))"

text \<open>\<open>rename\<close>: the index is changed before the node is looked at.\<close>

definition rename_index :: "uuid \<Rightarrow> string \<Rightarrow> (command_error, unit) manager_action" where
  "rename_index i new_name = with_state (\<lambda>s.
     case find (\<lambda>(_, v). v = i) (node_ids s) of
       None \<Rightarrow> fail (Internal (''node `'' @ i @ ''` not found in name index''))
     | Some (old_name, _) \<Rightarrow>
         if new_name \<noteq> old_name \<and> map_of (node_ids s) new_name \<noteq> None
         then fail (Internal (''node with name `'' @ new_name @ ''` exists''))
         else update_state (\<lambda>s. s\<lparr>node_ids := AList.update new_name i (AList.delete old_name (node_ids s))\<rparr>))"

definition rename_node :: "host \<Rightarrow> string \<Rightarrow> string \<Rightarrow> command" where
  "rename_node h new_name new_dns =
     steps [set_st (\<lambda>s. s\<lparr>node_name := new_name, dns_name := new_dns\<rparr>), internal (save_state h)]"

definition rename :: "mgr_env \<Rightarrow> uuid \<Rightarrow> string \<Rightarrow> string \<Rightarrow> (command_error, unit) manager_action" where
  "rename env i new_name new_dns =
     try_then (rename_index i new_name) (\<lambda>_.
       try_then (on_live ''rename'' i (rename_node (node_host env i) new_name new_dns)) (\<lambda>_. cache_state i))"

section \<open>Recovery\<close>

text \<open>One node, whose lock is free or taken by a request in progress (\<open>busy\<close>).\<close>

definition recover_node :: "mgr_env \<Rightarrow> (uuid \<Rightarrow> bool) \<Rightarrow> uuid \<Rightarrow> (string, unit) manager_action" where
  "recover_node env busy i =
     (if busy i then ok ()
      else ignore_result (on_node '''' '''' i (with_state (\<lambda>n.
        if node_status (node_host env i) n = Failed \<and> node_expected (st n) \<noteq> Failed
        then Node.recover (node_host env i) else ok ()))))"

definition recover :: "mgr_env \<Rightarrow> (uuid \<Rightarrow> bool) \<Rightarrow> (string, unit) manager_action" where
  "recover env busy = with_state (\<lambda>s. for_each (\<lambda>(i, _). recover_node env busy i) (mgr_nodes s))"

section \<open>Jobs, methods and plugins\<close>

text \<open>The requests that only go to the engine of a node: the call is a parameter.\<close>

definition engine_request :: "string \<Rightarrow> uuid \<Rightarrow> (node, string, 'a) action \<Rightarrow> (string, 'a) manager_action" where
  "engine_request broken i request = on_node ''node not found'' (broken @ '' `'' @ i @ ''`'') i request"

text \<open>Each request has its own answer for a broken node; what the engine does is \<open>get\<close>, \<open>call_job\<close> and so on.\<close>

definition mgr_jobs :: "(node, string, 'a) action \<Rightarrow> uuid \<Rightarrow> (string, 'a) manager_action" where
  "mgr_jobs get i = engine_request ''Cannot get jobs for broken node'' i get"

definition mgr_job_info :: "(string \<Rightarrow> (node, string, 'a) action) \<Rightarrow> uuid \<Rightarrow> string \<Rightarrow> (string, 'a) manager_action" where
  "mgr_job_info get i name = engine_request ''Cannot get job info for broken node'' i (get name)"

definition mgr_start_job :: "(string \<Rightarrow> unit node_action) \<Rightarrow> uuid \<Rightarrow> string \<Rightarrow> (string, unit) manager_action" where
  "mgr_start_job call_job i name = engine_request ''Cannot start job on broken node'' i (call_job name)"

definition mgr_stop_job :: "(string \<Rightarrow> unit node_action) \<Rightarrow> uuid \<Rightarrow> string \<Rightarrow> (string, unit) manager_action" where
  "mgr_stop_job call_job i name = engine_request ''Cannot stop job on broken node'' i (call_job name)"

definition mgr_skip_job :: "(string \<Rightarrow> unit node_action) \<Rightarrow> uuid \<Rightarrow> string \<Rightarrow> (string, unit) manager_action" where
  "mgr_skip_job call_job i name = engine_request ''Cannot skip job on broken node'' i (call_job name)"

definition mgr_cleanup_job :: "(string \<Rightarrow> unit node_action) \<Rightarrow> uuid \<Rightarrow> string \<Rightarrow> (string, unit) manager_action" where
  "mgr_cleanup_job call_job i name = engine_request ''Cannot cleanup job on broken node'' i (call_job name)"

definition mgr_metrics :: "(node, string, 'a option) action \<Rightarrow> uuid \<Rightarrow> (string, 'a) manager_action" where
  "mgr_metrics collect i = engine_request ''Cannot get metrics for broken node'' i
     (try_then collect (\<lambda>m. case m of None \<Rightarrow> fail ''metrics not available'' | Some x \<Rightarrow> ok x))"

definition mgr_capabilities :: "(node \<Rightarrow> string list) \<Rightarrow> uuid \<Rightarrow> (string, string list) manager_action" where
  "mgr_capabilities get i = engine_request ''Cannot get broken node capabilities'' i (read_node get)"

datatype babel_error = MethodNotFound | PluginError string | BabelInternal string

definition reload_on_node :: "host \<Rightarrow> (node, babel_error, unit) action" where
  "reload_on_node h =
     steps [map_error BabelInternal (Node.reload_plugin h),
       with_state (\<lambda>n. if node_expected (st n) = Running then map_error BabelInternal (call h EngineReloadConfig) else ok ())]"

definition reload_plugin :: "mgr_env \<Rightarrow> uuid \<Rightarrow> (babel_error, unit) manager_action" where
  "reload_plugin env i = on_node (BabelInternal ''node not found'')
     (BabelInternal (''Cannot reload plugin for broken node '' @ i)) i (reload_on_node (node_host env i))"

definition call_method ::
  "mgr_env \<Rightarrow> (string \<Rightarrow> bool) \<Rightarrow> (string \<Rightarrow> string \<Rightarrow> (node, string, string) action) \<Rightarrow>
     uuid \<Rightarrow> string \<Rightarrow> string \<Rightarrow> bool \<Rightarrow> (babel_error, string) manager_action" where
  "call_method env has_capability engine_call i method param reload =
     on_node (BabelInternal ''node not found'')
       (BabelInternal (''Cannot call method '' @ quoted method @ '' on broken node '' @ i)) i
       (try_then (if reload then reload_on_node (node_host env i) else ok ()) (\<lambda>_.
          if has_capability method then map_error PluginError (engine_call method param) else fail MethodNotFound))"

text \<open>The handler of scheduled tasks: only a running node is called, and its error is dropped.\<close>

definition handle_task ::
  "mgr_env \<Rightarrow> (string \<Rightarrow> string \<Rightarrow> (node, string, string) action) \<Rightarrow> 'c scheduled \<Rightarrow> (string, unit) manager_action" where
  "handle_task env engine_call task =
     ignore_result (on_node ('''' :: string) '''' (task_node task) (with_state (\<lambda>n.
       if node_status (node_host env (task_node task)) n = Running
       then (case task_of task of PluginFnCall name param \<Rightarrow> ignore_result (engine_call name param)) else ok ())))"

section \<open>Attaching and detaching\<close>

definition load_node :: "mgr_env \<Rightarrow> string + node_state \<Rightarrow> nodes_manager \<Rightarrow> nodes_manager" where
  "load_node env loaded s = (case loaded of
     Inl _ \<Rightarrow> s
   | Inr ns \<Rightarrow>
       (let i = node_id ns; h = node_host env i;
            (r, n) = Node.attach h (new_node h (mgr_cpus s) ns)
        in s\<lparr>node_ids := AList.update (node_name ns) i (node_ids s),
             state_cache := AList.update i ns (state_cache s),
             mgr_nodes := AList.update i (case r of Inl _ \<Rightarrow> BrokenNode ns | Inr _ \<Rightarrow> LiveNode n) (mgr_nodes s),
             mgr_cpus := registry n\<rparr>))"

definition load_nodes :: "mgr_env \<Rightarrow> (string + node_state) list \<Rightarrow> nodes_manager \<Rightarrow> nodes_manager" where
  "load_nodes env files s = fold (load_node env) files s"

definition manager_new :: "nat \<Rightarrow> nodes_manager" where
  "manager_new available_cpus = \<lparr>mgr_nodes = [], node_ids = [], state_cache = [],
     mgr_cpus = cpu_registry_new available_cpus, sched_actions = []\<rparr>"

definition manager_load :: "mgr_env \<Rightarrow> nat \<Rightarrow> (string + node_state) list \<Rightarrow> nodes_manager" where
  "manager_load env available_cpus files = load_nodes env files (manager_new available_cpus)"

definition detach_node :: "mgr_env \<Rightarrow> uuid \<Rightarrow> (string, unit) manager_action" where
  "detach_node env i = ignore_result (on_node '''' '''' i (call (node_host env i) EngineStop))"

definition detach :: "mgr_env \<Rightarrow> (string, unit) manager_action" where
  "detach env = with_state (\<lambda>s. for_each (\<lambda>(i, _). detach_node env i) (mgr_nodes s))"

end
