(* ===== verification/Manager_Invariants.thy ===== *)
theory Manager_Invariants
  imports Nodes_Manager
begin

text \<open>
  The invariants of the nodes manager over every sequence of requests: no core of the host is given to
  two nodes, and the map of the nodes, the index of their names and the cache agree.
\<close>

section \<open>Steps and reachable states\<close>

text \<open>
  A request to the engine of a node changes what the calls of the node record, not its state. Renames
  of broken nodes are left out: they fail after the index was changed (below).
\<close>

definition engine_only :: "(node, 'e, 'a) action \<Rightarrow> bool" where
  "engine_only m \<longleftrightarrow> (\<forall>n. st (snd (m n)) = st n \<and> registry (snd (m n)) = registry n)"

inductive manager_step :: "nodes_manager \<Rightarrow> nodes_manager \<Rightarrow> bool" where
  created: "\<not> upgrade_active (upgrade_st desired) \<Longrightarrow> manager_step s (snd (create env desired s))"
| upgraded: "manager_step s (snd (upgrade env desired s))"
| deleted: "manager_step s (snd (delete env i s))"
| started: "manager_step s (snd (start env i reload s))"
| stopped: "manager_step s (snd (stop env i force s))"
| restarted: "manager_step s (snd (restart env i force s))"
| updated: "manager_step s (snd (update env i u s))"
| renamed: "map_of (mgr_nodes s) i = Some (LiveNode n) \<Longrightarrow> manager_step s (snd (rename env i name dns s))"
| recovered: "manager_step s (snd (recover env busy s))"
| reloaded: "manager_step s (snd (reload_plugin env i s))"
| asked: "engine_only m \<Longrightarrow> manager_step s (snd (engine_request broken i (m :: (node, string, unit) action) s))"
| called: "(\<And>a b. engine_only (f a b)) \<Longrightarrow> manager_step s (snd (call_method env has f i method param reload s))"
| scheduled_task: "(\<And>a b. engine_only (f a b)) \<Longrightarrow> manager_step s (snd (handle_task env f (task :: string scheduled) s))"

inductive_cases manager_stepE: "manager_step s t"

text \<open>The files a manager starts from: their nodes differ and share no core of the host.\<close>

definition file_states :: "(string + node_state) list \<Rightarrow> node_state list" where
  "file_states files = concat (map (\<lambda>f. case f of Inl _ \<Rightarrow> [] | Inr s \<Rightarrow> [s]) files)"

definition good_files :: "nat \<Rightarrow> (string + node_state) list \<Rightarrow> bool" where
  "good_files N files \<longleftrightarrow>
     distinct (map node_id (file_states files)) \<and> distinct (map node_name (file_states files)) \<and>
     distinct (map node_ip (file_states files)) \<and>
     (\<Sum>s\<leftarrow>file_states files. lent s) \<subseteq># mset [0..<N] \<and>
     (\<forall>s \<in> set (file_states files). mset (held_cpus (upgrade_steps (upgrade_st s))) = held (upgrade_steps (upgrade_st s)))"

inductive manager_reachable :: "nat \<Rightarrow> nodes_manager \<Rightarrow> bool" for N where
  loaded: "good_files N files \<Longrightarrow> manager_reachable N (manager_load env N files)"
| step: "manager_reachable N s \<Longrightarrow> manager_step s t \<Longrightarrow> manager_reachable N t"

section \<open>The cores\<close>

definition node_lent :: "(uuid, maybe_node) hash_map \<Rightarrow> nat multiset" where
  "node_lent m = (\<Sum>x\<in>#mset m. lent (state_of (snd x)))"

definition cores_ok :: "nat \<Rightarrow> nodes_manager \<Rightarrow> bool" where
  "cores_ok N s \<longleftrightarrow> wf_map (mgr_nodes s) \<and> mset (mgr_cpus s) + node_lent (mgr_nodes s) \<subseteq># mset [0..<N]"

lemma node_lent_present:
  "wf_map m \<Longrightarrow> map_of m i = Some mn \<Longrightarrow> node_lent m = lent (state_of mn) + node_lent (AList.delete i m)"
  unfolding node_lent_def by (simp add: mset_map_present)

lemma node_lent_insert:
  "wf_map m \<Longrightarrow> node_lent (AList.update i mn m) = lent (state_of mn) + node_lent (AList.delete i m)"
  unfolding node_lent_def by (simp add: mset_map_insert)

lemma node_lent_delete: "node_lent (AList.delete i m) \<subseteq># node_lent m"
proof (induction m)
  case (Cons x m)
  then show ?case
    by (cases x) (auto simp: node_lent_def intro: subset_mset.order_trans)
qed (simp add: node_lent_def)

lemma on_node_simps:
  "map_of (mgr_nodes s) i = None \<Longrightarrow> on_node nf br i m s = (Inl nf, s)"
  "map_of (mgr_nodes s) i = Some (BrokenNode ns) \<Longrightarrow> on_node nf br i m s = (Inl br, s)"
  "map_of (mgr_nodes s) i = Some (LiveNode n) \<Longrightarrow> m (n\<lparr>registry := mgr_cpus s\<rparr>) = (r, n') \<Longrightarrow>
    on_node nf br i m s = (r, s\<lparr>mgr_nodes := AList.update i (LiveNode n') (mgr_nodes s), mgr_cpus := registry n'\<rparr>)"
  by (simp_all add: on_node_def)

lemma on_node_not_live:
  "\<nexists>n. map_of (mgr_nodes s) i = Some (LiveNode n) \<Longrightarrow> \<exists>e. on_node nf br i m s = (Inl e, s)"
  by (cases "map_of (mgr_nodes s) i") (auto simp: on_node_def split: maybe_node.split)

lemma keeps_on_node:
  assumes "\<And>s n. I s \<Longrightarrow> map_of (mgr_nodes s) i = Some (LiveNode n) \<Longrightarrow>
    (let n' = snd (m (n\<lparr>registry := mgr_cpus s\<rparr>))
     in I (s\<lparr>mgr_nodes := AList.update i (LiveNode n') (mgr_nodes s), mgr_cpus := registry n'\<rparr>))"
  shows "keeps I (on_node nf br i m)"
proof (rule keepsI)
  fix s assume I: "I s"
  show "I (snd (on_node nf br i m s))"
  proof (cases "map_of (mgr_nodes s) i")
    case (Some mn)
    then show ?thesis
    proof (cases mn)
      case (LiveNode n)
      obtain r n' where "m (n\<lparr>registry := mgr_cpus s\<rparr>) = (r, n')" by fastforce
      with assms [OF I] Some LiveNode on_node_simps(3) show ?thesis by (fastforce simp: Let_def)
    next
      case (BrokenNode ns)
      with I Some show ?thesis by (simp add: on_node_simps(2) [where ns = ns])
    qed
  next
    case None
    with I show ?thesis by (simp add: on_node_simps(1))
  qed
qed

lemma keeps_cores_on_node [keeps_rules]:
  assumes m: "\<And>M. keeps (within M) m"
  shows "keeps (cores_ok N) (on_node nf br i m)"
proof (rule keeps_on_node)
  fix s n assume s: "cores_ok N s" and n: "map_of (mgr_nodes s) i = Some (LiveNode n)"
  let ?n' = "snd (m (n\<lparr>registry := mgr_cpus s\<rparr>))" and ?R = "node_lent (AList.delete i (mgr_nodes s))"
  let ?T = "mset [0..<N]"
  from s have wf: "wf_map (mgr_nodes s)" by (simp add: cores_ok_def)
  from s have sub: "mset (mgr_cpus s) + lent (st n) + ?R \<subseteq># ?T"
    using node_lent_present [OF wf n] by (simp add: cores_ok_def add.assoc)
  then have R: "?R \<subseteq># ?T" by (rule subset_mset.order_trans [rotated]) simp
  from sub have "within (?T - ?R) (n\<lparr>registry := mgr_cpus s\<rparr>)"
    using R by (simp add: within_def subset_mset.le_diff_conv2)
  from keepsD [OF m this] R have "mset (registry ?n') + lent (st ?n') + ?R \<subseteq># ?T"
    by (simp add: within_def subset_mset.le_diff_conv2)
  with s show "let n' = ?n' in cores_ok N (s\<lparr>mgr_nodes := AList.update i (LiveNode n') (mgr_nodes s), mgr_cpus := registry n'\<rparr>)"
    by (simp add: Let_def cores_ok_def node_lent_insert distinct_update add.assoc)
qed

lemma keeps_cores_other: "(\<And>s. mgr_nodes (f s) = mgr_nodes s \<and> mgr_cpus (f s) = mgr_cpus s) \<Longrightarrow> keeps (cores_ok N) (update_state f)"
  by (rule keeps_update) (simp add: cores_ok_def)

lemma keeps_lift [keeps_rules]: "keeps I (lift r)"
  unfolding lift_def by (intro keeps_rules)

lemma within_read: "keeps (within M) (read_node f)"
  unfolding read_node_def by (rule keeps_read)

lemma keeps_cache_state: "keeps (cores_ok N) (cache_state i)"
  unfolding cache_state_def
  by (rule keeps_cores_other) (simp split: option.split maybe_node.split)

lemmas cores_rules = keeps_cores_on_node within_read keeps_cache_state keeps_within_upgrade keeps_within_update
  keeps_within_delete keeps_start keeps_stop keeps_restart keeps_recover keeps_reload_plugin keeps_internal keeps_call
  lenient_within

lemma keeps_cores_upgrade: "keeps (cores_ok N) (upgrade env desired)"
  unfolding upgrade_def Let_def by (intro keeps_rules cores_rules)

lemma keeps_cores_start: "keeps (cores_ok N) (start env i reload)"
  unfolding start_def Let_def steps_simps by (intro keeps_rules cores_rules)

lemma keeps_cores_stop: "keeps (cores_ok N) (stop env i force)"
  unfolding stop_def by (intro keeps_rules cores_rules)

lemma keeps_cores_restart: "keeps (cores_ok N) (restart env i force)"
  unfolding restart_def by (intro keeps_rules cores_rules)

lemma keeps_cores_update: "keeps (cores_ok N) (update env i u)"
  unfolding update_def by (intro keeps_rules cores_rules)

lemma keeps_cores_rename: "keeps (cores_ok N) (rename env i name dns)"
proof -
  have node: "keeps (within M) (rename_node h name dns)" for M h
    unfolding rename_node_def steps_simps
    by (intro keeps_rules keeps_internal keeps_save_state lenient_within keeps_within_set) simp
  show ?thesis
    unfolding rename_def rename_index_def
    by (intro keeps_rules cores_rules node keeps_cores_other) (auto intro!: keeps_rules keeps_cores_other)
qed

lemma keeps_cores_recover: "keeps (cores_ok N) (recover env busy)"
  unfolding recover_def recover_node_def case_prod_beta by (intro keeps_rules cores_rules)

lemma keeps_cores_reload: "keeps (cores_ok N) (reload_plugin env i)"
  unfolding reload_plugin_def reload_on_node_def steps_simps by (intro keeps_rules cores_rules)

lemma keeps_engine_only: "engine_only m \<Longrightarrow> keeps (within M) m"
  by (simp add: keeps_def engine_only_def within_def)

lemma keeps_cores_request: "engine_only m \<Longrightarrow> keeps (cores_ok N) (engine_request broken i m)"
  unfolding engine_request_def by (intro cores_rules keeps_engine_only)

lemma keeps_cores_call: "(\<And>a b. engine_only (f a b)) \<Longrightarrow> keeps (cores_ok N) (call_method env has f i method param reload)"
  unfolding call_method_def reload_on_node_def steps_simps by (intro keeps_rules cores_rules keeps_engine_only)

lemma keeps_case_task: "(\<And>a b. keeps I (k a b)) \<Longrightarrow> keeps I (case t of PluginFnCall a b \<Rightarrow> k a b)"
  by (cases t) simp

lemma keeps_cores_task: "(\<And>a b. engine_only (f a b)) \<Longrightarrow> keeps (cores_ok N) (handle_task env f task)"
  unfolding handle_task_def by (intro keeps_rules cores_rules keeps_case_task keeps_engine_only)

lemma keeps_cores_delete: "keeps (cores_ok N) (delete env i)"
proof -
  have del: "keeps (cores_ok N) (update_state (\<lambda>s. s\<lparr>mgr_nodes := AList.delete i (mgr_nodes s), node_ids := AList.delete name (node_ids s),
          state_cache := AList.delete i (state_cache s), sched_actions := sched_actions s @ [DeleteNode i]\<rparr>))" for name
    by (rule keeps_update)
       (auto simp: cores_ok_def distinct_delete intro: subset_mset.order_trans [OF subset_mset.add_left_mono [OF node_lent_delete]])
  show ?thesis
    unfolding delete_def by (rule keeps_try_then, intro keeps_rules cores_rules, rule del)
qed

lemma cores_run_create:
  assumes s: "cores_ok N s" and new: "map_of (mgr_nodes s) (node_id desired) = None"
    and "\<not> upgrade_active (upgrade_st desired)"
  shows "cores_ok N (snd (run_create h desired s))"
proof -
  let ?n = "new_node h (mgr_cpus s) desired" and ?T = "mset [0..<N]" and ?R = "node_lent (mgr_nodes s)"
  obtain r n where run: "Node.create h ?n = (r, n)" by fastforce
  have sub: "mset (mgr_cpus s) + ?R \<subseteq># ?T" and wf: "wf_map (mgr_nodes s)" using s by (simp_all add: cores_ok_def)
  from sub have R: "?R \<subseteq># ?T" by (rule subset_mset.order_trans [OF mset_subset_eq_add_right])
  have "mset (registry ?n) \<subseteq># ?T - ?R" using sub R by (simp add: new_node_def subset_mset.le_diff_conv2)
  from create_within [OF this, of h] assms(3) run
  have "mset (registry n) \<subseteq># ?T - ?R" "r = Inr () \<Longrightarrow> mset (registry n) + lent (st n) \<subseteq># ?T - ?R"
    by (simp_all add: new_node_def within_def)
  then have res: "mset (registry n) + ?R \<subseteq># ?T" "r = Inr () \<Longrightarrow> mset (registry n) + (lent (st n) + ?R) \<subseteq># ?T"
    using R by (simp_all add: subset_mset.le_diff_conv2 add.assoc)
  have "AList.delete (node_id desired) (mgr_nodes s) = mgr_nodes s"
    using new by (simp add: delete_idem map_of_eq_None_iff)
  with res wf run show ?thesis
    by (cases r) (simp_all add: run_create_def insert_new_node_def try_then_def cores_ok_def node_lent_insert distinct_update)
qed

text \<open>A new node is only made for an id that the cache, and so the map of the nodes, does not have.\<close>

lemma try_then_lift: "try_then (lift r) k s = (case r of Inl e \<Rightarrow> (Inl e, s) | Inr x \<Rightarrow> k x s)"
  by (simp add: lift_def try_then_def split: sum.split)

lemma without_cpus_keeps [simp]:
  "node_id (without_cpus d) = node_id d" "node_name (without_cpus d) = node_name d" "node_ip (without_cpus d) = node_ip d"
  "upgrade_st (without_cpus d) = upgrade_st d"
  by (simp_all add: without_cpus_def)

lemma create_cases:
  assumes "create env desired s = (r, t)"
  obtains (same) "t = s"
  | (run) d where "map_of (state_cache s) (node_id desired) = None" and "map_of (node_ids s) (node_name desired) = None"
      and "d = desired \<or> d = without_cpus desired"
      and "\<forall>(i, mn) \<in> set (mgr_nodes s). node_ip (state_of mn) \<noteq> node_ip desired"
      and "run_create (node_host env (node_id desired)) d s = (r, t)"
proof -
  let ?d = "if node_dev_mode desired then without_cpus desired else desired"
  let ?pick = "if node_dev_mode desired then ok (without_cpus desired)
      else try_then (lift (check_node_requirements env (nodes_data_cache s) desired None)) (\<lambda>_. ok desired)"
  let ?k = "\<lambda>desired. try_then (lift (check_unique_ip (node_ip desired) s)) (\<lambda>_. run_create (node_host env (node_id desired)) desired)"
  have pick: "try_then ?pick ?k s = ?k ?d s \<or> snd (try_then ?pick ?k s) = s"
    by (simp add: try_then_assoc try_then_lift split: sum.split)
  have final: "snd (?k ?d s) = s \<or> check_unique_ip (node_ip desired) s = Inr () \<and>
      ?k ?d s = run_create (node_host env (node_id desired)) ?d s"
    by (simp add: try_then_lift split: sum.split)
  have "t = s \<or> map_of (state_cache s) (node_id desired) = None \<and> map_of (node_ids s) (node_name desired) = None \<and>
      try_then ?pick ?k s = (r, t)"
  proof -
    have eq: "create env desired s = (case check_babel_version env (min_babel_version (node_image desired)) of
        Inl e \<Rightarrow> (Inl e, s)
      | Inr _ \<Rightarrow> (case map_of (state_cache s) (node_id desired) of
          Some c \<Rightarrow> (Inr c, s)
        | None \<Rightarrow> if map_of (node_ids s) (node_name desired) \<noteq> None
            then (Inl (Internal (''node with name `'' @ node_name desired @ ''` exists'')), s)
            else (case check_firewall_rules env (fw_rules (node_firewall desired)) of
                Inl e \<Rightarrow> (Inl e, s) | Inr _ \<Rightarrow> try_then ?pick ?k s)))"
      unfolding create_def with_state_apply try_then_lift
      by (cases "check_babel_version env (min_babel_version (node_image desired))";
          cases "map_of (state_cache s) (node_id desired)";
          cases "check_firewall_rules env (fw_rules (node_firewall desired))") (simp_all only: sum.case option.case fail_apply ok_apply try_then_lift if_distrib [of "\<lambda>f. f s"])
    show ?thesis
      using assms unfolding eq
      by (cases "check_babel_version env (min_babel_version (node_image desired))";
          cases "map_of (state_cache s) (node_id desired)";
          cases "check_firewall_rules env (fw_rules (node_firewall desired))")
         (simp_all only: sum.case option.case split: if_splits, simp_all)
  qed
  with pick final have "t = s \<or> map_of (state_cache s) (node_id desired) = None \<and> map_of (node_ids s) (node_name desired) = None \<and>
      check_unique_ip (node_ip desired) s = Inr () \<and> run_create (node_host env (node_id desired)) ?d s = (r, t)"
    unfolding assms by auto
  then show thesis
  proof (elim disjE conjE)
    assume "check_unique_ip (node_ip desired) s = Inr ()"
    then have "\<forall>(i, mn) \<in> set (mgr_nodes s). node_ip (state_of mn) \<noteq> node_ip desired"
      by (auto simp: check_unique_ip_def list_ex_iff split: if_splits)
    moreover have "?d = desired \<or> ?d = without_cpus desired" by simp
    moreover assume "map_of (state_cache s) (node_id desired) = None" "map_of (node_ids s) (node_name desired) = None"
      "run_create (node_host env (node_id desired)) ?d s = (r, t)"
    ultimately show thesis using run by blast
  qed (rule same)
qed

section \<open>The index\<close>

type_synonym node_view = "uuid \<Rightarrow> (string \<times> string \<times> string) option"

definition view :: "(uuid, maybe_node) hash_map \<Rightarrow> node_view" where
  "view m i = map_option (\<lambda>mn. identity (state_of mn)) (map_of m i)"

definition index_view :: "node_view \<Rightarrow> (string \<Rightarrow> uuid option) \<Rightarrow> uuid set \<Rightarrow> bool" where
  "index_view V I C \<longleftrightarrow>
     C = dom V \<and>
     (\<forall>i j name ip. V i = Some (j, name, ip) \<longrightarrow> j = i \<and> I name = Some i) \<and>
     (\<forall>name i. I name = Some i \<longrightarrow> (\<exists>ip. V i = Some (i, name, ip))) \<and>
     (\<forall>i j a b ip. V i = Some (i, a, ip) \<longrightarrow> V j = Some (j, b, ip) \<longrightarrow> i = j)"

definition index_ok :: "nodes_manager \<Rightarrow> bool" where
  "index_ok s \<longleftrightarrow> wf_map (mgr_nodes s) \<and> wf_map (node_ids s) \<and>
     index_view (view (mgr_nodes s)) (map_of (node_ids s)) (dom (map_of (state_cache s)))"

lemma view_update [simp]: "view (AList.update i mn m) = (view m)(i \<mapsto> identity (state_of mn))"
  by (rule ext) (simp add: view_def update_conv')

lemma view_delete [simp]: "view (AList.delete i m) = (view m)(i := None)"
  by (rule ext) (simp add: view_def delete_conv')

lemma map_of_insert [simp]: "map_of (AList.update k v m) = (map_of m)(k \<mapsto> v)"
  by (rule update_conv')

lemma map_of_remove [simp]: "map_of (AList.delete k m) = (map_of m)(k := None)"
  by (rule delete_conv')

lemma index_view_insert:
  "index_view V I C \<Longrightarrow> i \<notin> C \<Longrightarrow> I name = None \<Longrightarrow> (\<And>j a b. V j \<noteq> Some (a, b, ip)) \<Longrightarrow>
    index_view (V(i \<mapsto> (i, name, ip))) (I(name \<mapsto> i)) (insert i C)"
  unfolding index_view_def by (auto simp: domIff) fastforce+

lemma index_view_remove:
  "index_view V I C \<Longrightarrow> V i = Some (i, name, ip) \<Longrightarrow> index_view (V(i := None)) (I(name := None)) (C - {i})"
  unfolding index_view_def by (auto split: if_splits) (metis option.inject prod.inject)+

lemma index_view_rename:
  assumes "index_view V I C" and "V i = Some (i, old, ip)" and "new = old \<or> I new = None"
  shows "index_view (V(i \<mapsto> (i, new, ip))) (I(old := None, new \<mapsto> i)) C"
proof -
  have "index_view (V(i := None)) (I(old := None)) (C - {i})" using index_view_remove assms(1,2) .
  moreover have "(I(old := None)) new = None" using assms(3) by auto
  moreover have "(V(i := None)) j \<noteq> Some (a, b, ip)" for j a b
    using assms(1,2) unfolding index_view_def by (auto split: if_splits)
  ultimately have "index_view ((V(i := None))(i \<mapsto> (i, new, ip))) ((I(old := None))(new \<mapsto> i)) (insert i (C - {i}))"
    by (intro index_view_insert) auto
  moreover have "i \<in> C" using assms(1,2) unfolding index_view_def by auto
  ultimately show ?thesis by (simp add: insert_absorb)
qed

lemma keeps_index_on_node [keeps_rules]:
  assumes m: "\<And>t. keeps (is_node t) m"
  shows "keeps index_ok (on_node nf br i m)"
proof (rule keeps_on_node)
  fix s n assume s: "index_ok s" and n: "map_of (mgr_nodes s) i = Some (LiveNode n)"
  let ?n' = "snd (m (n\<lparr>registry := mgr_cpus s\<rparr>))"
  have "is_node (identity (st n)) (n\<lparr>registry := mgr_cpus s\<rparr>)" by (simp add: is_node_def)
  from keepsD [OF m this] have "identity (st ?n') = identity (st n)" by (simp add: is_node_def)
  moreover have "view (mgr_nodes s) i = Some (identity (st n))" using n by (simp add: view_def)
  ultimately have "(view (mgr_nodes s))(i \<mapsto> identity (st ?n')) = view (mgr_nodes s)" by auto
  with s show "let n' = ?n' in index_ok (s\<lparr>mgr_nodes := AList.update i (LiveNode n') (mgr_nodes s), mgr_cpus := registry n'\<rparr>)"
    by (simp add: index_ok_def Let_def distinct_update)
qed

lemma is_node_read: "keeps (is_node t) (read_node f)"
  unfolding read_node_def by (rule keeps_read)

lemma keeps_index_cache: "keeps index_ok (cache_state i)"
proof (rule keepsI)
  fix s assume s: "index_ok s"
  show "index_ok (snd (cache_state i s))"
  proof (cases "map_of (mgr_nodes s) i")
    case (Some mn)
    then have "i \<in> dom (view (mgr_nodes s))" by (simp add: view_def domIff)
    with s have "i \<in> dom (map_of (state_cache s))" unfolding index_ok_def index_view_def by blast
    with s show ?thesis by (cases mn) (simp_all add: cache_state_def Some index_ok_def insert_absorb)
  qed (use s in \<open>simp add: cache_state_def\<close>)
qed

lemmas index_rules = keeps_index_on_node is_node_read keeps_index_cache keeps_is_node_upgrade_all keeps_is_node_update
  keeps_is_node_delete keeps_start keeps_stop keeps_restart keeps_recover keeps_reload_plugin keeps_internal keeps_call
  lenient_is_node

lemma keeps_index_upgrade: "keeps index_ok (upgrade env desired)"
  unfolding upgrade_def Let_def by (intro keeps_rules index_rules)

lemma keeps_index_start: "keeps index_ok (start env i reload)"
  unfolding start_def Let_def steps_simps by (intro keeps_rules index_rules)

lemma keeps_index_stop: "keeps index_ok (stop env i force)"
  unfolding stop_def by (intro keeps_rules index_rules)

lemma keeps_index_restart: "keeps index_ok (restart env i force)"
  unfolding restart_def by (intro keeps_rules index_rules)

lemma keeps_index_update: "keeps index_ok (update env i u)"
  unfolding update_def by (intro keeps_rules index_rules)

lemma keeps_index_recover: "keeps index_ok (recover env busy)"
  unfolding recover_def recover_node_def case_prod_beta by (intro keeps_rules index_rules)

lemma keeps_index_reload: "keeps index_ok (reload_plugin env i)"
  unfolding reload_plugin_def reload_on_node_def steps_simps by (intro keeps_rules index_rules)

lemma is_node_engine_only: "engine_only m \<Longrightarrow> keeps (is_node t) m"
  by (simp add: keeps_def engine_only_def is_node_def)

lemma keeps_index_request: "engine_only m \<Longrightarrow> keeps index_ok (engine_request broken i m)"
  unfolding engine_request_def by (intro index_rules is_node_engine_only)

lemma keeps_index_call: "(\<And>a b. engine_only (f a b)) \<Longrightarrow> keeps index_ok (call_method env has f i method param reload)"
  unfolding call_method_def reload_on_node_def steps_simps by (intro keeps_rules index_rules is_node_engine_only)

lemma keeps_index_task: "(\<And>a b. engine_only (f a b)) \<Longrightarrow> keeps index_ok (handle_task env f task)"
  unfolding handle_task_def by (intro keeps_rules index_rules keeps_case_task is_node_engine_only)

lemma view_live: "map_of (mgr_nodes s) i = Some (LiveNode n) \<Longrightarrow> view (mgr_nodes s) i = Some (identity (st n))"
  by (simp add: view_def)

lemma keeps_index_delete: "keeps index_ok (delete env i)"
proof (rule keepsI)
  fix s assume s: "index_ok s"
  show "index_ok (snd (delete env i s))"
  proof (cases "\<exists>n. map_of (mgr_nodes s) i = Some (LiveNode n)")
    case False
    obtain e where "on_live ''delete'' i (try_then (internal (Node.delete (node_host env i))) (\<lambda>_. read_node (\<lambda>n. node_name (st n)))) s
        = (Inl e, s)" by (rule exE [OF on_node_not_live [OF False]])
    with s show ?thesis by (simp add: delete_def try_then_def)
  next
    case True
    then obtain n where n: "map_of (mgr_nodes s) i = Some (LiveNode n)" by blast
    let ?m = "try_then (internal (Node.delete (node_host env i))) (\<lambda>_. read_node (\<lambda>n. node_name (st n)))"
    obtain r n' where run: "?m (n\<lparr>registry := mgr_cpus s\<rparr>) = (r, n')" by fastforce
    have "keeps (is_node t) ?m" for t by (intro keeps_rules index_rules)
    from keepsD_eq [OF this _ run, of "identity (st n)"]
    have same: "identity (st n') = identity (st n)" by (simp add: is_node_def)
    let ?s = "s\<lparr>mgr_nodes := AList.update i (LiveNode n') (mgr_nodes s), mgr_cpus := registry n'\<rparr>"
    have on: "on_live ''delete'' i ?m s = (r, ?s)" using n run by (rule on_node_simps(3))
    have "keeps index_ok (on_live ''delete'' i ?m)" by (intro keeps_rules index_rules)
    from keepsD_eq [OF this s on] have s': "index_ok ?s" .
    show ?thesis
    proof (cases r)
      case (Inl e)
      with on s' show ?thesis by (simp add: delete_def try_then_def)
    next
      case (Inr name)
      with run have "name = node_name (st n')"
        by (auto simp: try_then_Inr_iff read_node_def)
      moreover have v: "view (mgr_nodes s) i = Some (identity (st n))" using n by (rule view_live)
      then have "node_id (st n) = i" using s unfolding index_ok_def index_view_def identity_def by blast
      ultimately have "view (mgr_nodes ?s) i = Some (i, name, node_ip (st n))"
        using same by (simp add: identity_def)
      then have "index_view ((view (mgr_nodes ?s))(i := None)) ((map_of (node_ids ?s))(name := None)) (dom (map_of (state_cache ?s)) - {i})"
        using s' by (intro index_view_remove) (simp_all add: index_ok_def)
      with s' on Inr show ?thesis
        by (simp add: delete_def try_then_def index_ok_def distinct_delete)
    qed
  qed
qed

lemma index_run_create:
  assumes s: "index_ok s" and new: "map_of (state_cache s) (node_id d) = None" "map_of (node_ids s) (node_name d) = None"
    and ip: "\<forall>(i, mn) \<in> set (mgr_nodes s). node_ip (state_of mn) \<noteq> node_ip d"
  shows "index_ok (snd (run_create h d s))"
proof -
  let ?n = "new_node h (mgr_cpus s) d"
  obtain r n where run: "Node.create h ?n = (r, n)" by fastforce
  have "is_node (identity d) ?n" by (simp add: is_node_def new_node_def)
  from keepsD_eq [OF keeps_is_node_create this run] have same: "identity (st n) = identity d" by (simp add: is_node_def)
  have "view (mgr_nodes s) j \<noteq> Some (a, b, node_ip d)" for j a b
    using ip by (auto simp: view_def identity_def dest!: map_of_SomeD)
  then have "index_view ((view (mgr_nodes s))(node_id d \<mapsto> (node_id d, node_name d, node_ip d)))
      ((map_of (node_ids s))(node_name d \<mapsto> node_id d)) (insert (node_id d) (dom (map_of (state_cache s))))"
    using s new by (intro index_view_insert) (auto simp: index_ok_def)
  with s same run show ?thesis
    by (cases r) (simp_all add: run_create_def insert_new_node_def try_then_def index_ok_def distinct_update identity_def)
qed

lemma keeps_index_create: "keeps index_ok (create env desired)"
proof (rule keepsI)
  fix s assume s: "index_ok s"
  obtain r t where run: "create env desired s = (r, t)" by fastforce
  then show "index_ok (snd (create env desired s))"
  proof (cases rule: create_cases)
    case same
    with s run show ?thesis by simp
  next
    case (run d)
    from run(3) have d: "node_id d = node_id desired" "node_name d = node_name desired" "node_ip d = node_ip desired" by auto
    have "index_ok (snd (run_create (node_host env (node_id desired)) d s))"
      using s run by (intro index_run_create) (simp_all add: d)
    with run(5) \<open>create env desired s = (r, t)\<close> show ?thesis by simp
  qed
qed

lemma cores_create:
  assumes "cores_ok N s" and "index_ok s" and "\<not> upgrade_active (upgrade_st desired)"
  shows "cores_ok N (snd (create env desired s))"
proof -
  obtain r t where run: "create env desired s = (r, t)" by fastforce
  then show ?thesis
  proof (cases rule: create_cases)
    case same
    with assms run show ?thesis by simp
  next
    case (run d)
    from run(3) have d: "node_id d = node_id desired" "upgrade_st d = upgrade_st desired" by auto
    have "dom (map_of (state_cache s)) = dom (view (mgr_nodes s))"
      using assms(2) by (simp add: index_ok_def index_view_def)
    with run(1) have "map_of (mgr_nodes s) (node_id desired) = None"
      by (auto simp: view_def domIff set_eq_iff dest: spec [of _ "node_id desired"])
    then have "cores_ok N (snd (run_create (node_host env (node_id desired)) d s))"
      using assms by (intro cores_run_create) (simp_all add: d)
    with run(5) \<open>create env desired s = (r, t)\<close> show ?thesis by simp
  qed
qed

lemma find_index:
  assumes s: "index_ok s" and v: "view (mgr_nodes s) i = Some (i, old, ip)"
  shows "find (\<lambda>(_, v). v = i) (node_ids s) = Some (old, i)"
proof -
  from s v have I: "map_of (node_ids s) old = Some i" unfolding index_ok_def index_view_def by blast
  then have "(old, i) \<in> set (node_ids s)" by (rule map_of_SomeD)
  then obtain x where x: "find (\<lambda>(_, v). v = i) (node_ids s) = Some x"
    by (cases "find (\<lambda>(_, v). v = i) (node_ids s)") (auto simp: find_None_iff)
  then obtain k where "k < length (node_ids s)" "node_ids s ! k = x" "snd x = i"
    by (auto simp: find_Some_iff)
  then obtain name where name: "x = (name, i)" "(name, i) \<in> set (node_ids s)"
    by (metis nth_mem prod.collapse)
  with s have "map_of (node_ids s) name = Some i" by (simp add: index_ok_def)
  with s v have "name = old" unfolding index_ok_def index_view_def by fastforce
  with x name show ?thesis by simp
qed

text \<open>A rename of a live node keeps the index right even when the node's state cannot be saved.\<close>

lemma index_rename:
  assumes s: "index_ok s" and n: "map_of (mgr_nodes s) i = Some (LiveNode n)"
  shows "index_ok (snd (rename env i name dns s))"
proof -
  have v: "view (mgr_nodes s) i = Some (identity (st n))" using n by (rule view_live)
  with s have idn: "node_id (st n) = i" unfolding index_ok_def index_view_def identity_def by blast
  with v have v: "view (mgr_nodes s) i = Some (i, node_name (st n), node_ip (st n))" by (simp add: identity_def)
  note found = find_index [OF s v]
  show ?thesis
  proof (cases "name \<noteq> node_name (st n) \<and> map_of (node_ids s) name \<noteq> None")
    case True
    with s show ?thesis by (auto simp: rename_def rename_index_def found try_then_def)
  next
    case False
    let ?s1 = "s\<lparr>node_ids := AList.update name i (AList.delete (node_name (st n)) (node_ids s))\<rparr>"
    obtain r n' where run: "rename_node (node_host env i) name dns (n\<lparr>registry := mgr_cpus ?s1\<rparr>) = (r, n')" by fastforce
    then have n': "identity (st n') = (i, name, node_ip (st n))"
      using idn by (auto simp: rename_node_def try_then_def internal_def map_error_def identity_def
          split: prod.splits sum.splits dest!: save_state_result)
    let ?s2 = "?s1\<lparr>mgr_nodes := AList.update i (LiveNode n') (mgr_nodes ?s1), mgr_cpus := registry n'\<rparr>"
    have "index_view ((view (mgr_nodes s))(i \<mapsto> (i, name, node_ip (st n))))
        ((map_of (node_ids s))(node_name (st n) := None, name \<mapsto> i)) (dom (map_of (state_cache s)))"
      using s v False by (intro index_view_rename) (auto simp: index_ok_def)
    with s n' have s2: "index_ok ?s2" by (simp add: index_ok_def distinct_update distinct_delete)
    have on: "on_live ''rename'' i (rename_node (node_host env i) name dns) ?s1 = (r, ?s2)"
      by (rule on_node_simps(3)) (use n run in simp_all)
    have "\<not> (name \<noteq> node_name (st n) \<and> map_of (node_ids s) name \<noteq> None)" using False .
    then have index: "rename_index i name s = (Inr (), ?s1)"
      unfolding rename_index_def with_state_apply found option.case prod.case by (simp only: if_False update_state_apply)
    have "rename env i name dns s = (case r of Inl e \<Rightarrow> (Inl e, ?s2) | Inr _ \<Rightarrow> cache_state i ?s2)"
      unfolding rename_def try_then_def [of "rename_index i name"] index prod.case sum.case
      by (simp only: try_then_def on prod.case)
    with s2 keepsD [OF keeps_index_cache s2] show ?thesis by (cases r) simp_all
  qed
qed

section \<open>Loading\<close>

definition attach_rest :: "host \<Rightarrow> unit node_action" where
  "attach_rest h =
     steps [with_state (\<lambda>n. map_error (\<lambda>e. ''attach vm failed: '' @ e) (call h (VmAttach (st n)))),
       update_state (\<lambda>n. n\<lparr>cached_env := vm_node_env h (calls n)\<rparr>),
       with_state (\<lambda>n. if vm h (calls n) = RUNNING
         then match_result (call h ConnAttach) (\<lambda>_. ignore_result (call h ConnClose))
                (\<lambda>_. match_result (check_job_runner h) (\<lambda>_. ignore_result (call h ConnClose)) (\<lambda>_. ok ()))
         else ok ()),
       map_error (\<lambda>e. ''can't initialize BabelEngine: '' @ e) (call h EngineNew),
       with_state (\<lambda>n. if node_expected (st n) = Running then ignore_result (call h EngineStart) else ok ())]"

lemma attach_registry:
  assumes "attach h n = (r, t)"
  shows "registry t = mark_acquired (assigned_cpus (st n) @
      (if upgrade_active (upgrade_st (st n)) then held_cpus (upgrade_steps (upgrade_st (st n))) else [])) (registry n)"
    and "lent (st t) = lent (st n)"
proof -
  let ?reg = "mark_acquired (assigned_cpus (st n) @
      (if upgrade_active (upgrade_st (st n)) then held_cpus (upgrade_steps (upgrade_st (st n))) else [])) (registry n)"
  have "attach h n = attach_rest h (n\<lparr>registry := ?reg\<rparr>)"
    by (simp add: attach_def attach_rest_def try_then_def [of "update_state f" for f] try_then_def [of "with_state f" for f]
        mark_acquired_def conj_commute)
  moreover have len: "lenient (\<lambda>m. lent (st m) = lent (st n) \<and> registry m = ?reg)"
    using lenient_core [of "\<lambda>s r. lent s = lent (st n) \<and> r = ?reg"] by simp
  have "keeps (\<lambda>m. lent (st m) = lent (st n) \<and> registry m = ?reg) (attach_rest h)"
    unfolding attach_rest_def steps_simps
    by (intro keeps_rules keeps_call keeps_set_env keeps_check_job_runner len)
  ultimately have "lent (st t) = lent (st n) \<and> registry t = ?reg"
    using keepsD_eq [of _ "attach_rest h" "n\<lparr>registry := ?reg\<rparr>" r t] assms by fastforce
  then show "registry t = ?reg" "lent (st t) = lent (st n)" by simp_all
qed

definition fresh_in :: "nodes_manager \<Rightarrow> node_state \<Rightarrow> bool" where
  "fresh_in s ns \<longleftrightarrow> map_of (mgr_nodes s) (node_id ns) = None \<and> map_of (node_ids s) (node_name ns) = None \<and>
     (\<forall>j a b. view (mgr_nodes s) j \<noteq> Some (a, b, node_ip ns))"

definition free_exactly :: "nat \<Rightarrow> nodes_manager \<Rightarrow> bool" where
  "free_exactly N s \<longleftrightarrow> mgr_cpus s = filter (\<lambda>c. c \<notin># node_lent (mgr_nodes s)) [0..<N]"

lemma load_node_ok:
  assumes s: "index_ok s" and fresh: "fresh_in s ns" and free: "free_exactly N s"
    and held: "mset (held_cpus (upgrade_steps (upgrade_st ns))) = held (upgrade_steps (upgrade_st ns))"
  shows "index_ok (load_node env (Inr ns) s)" and "free_exactly N (load_node env (Inr ns) s)"
    and "node_lent (mgr_nodes (load_node env (Inr ns) s)) = lent ns + node_lent (mgr_nodes s)"
    and "fresh_in s ms \<Longrightarrow> node_id ms \<noteq> node_id ns \<Longrightarrow> node_name ms \<noteq> node_name ns \<Longrightarrow> node_ip ms \<noteq> node_ip ns \<Longrightarrow>
      fresh_in (load_node env (Inr ns) s) ms"
proof -
  let ?h = "node_host env (node_id ns)" and ?n = "new_node (node_host env (node_id ns)) (mgr_cpus s) ns"
  obtain r n where run: "attach ?h ?n = (r, n)" by fastforce
  let ?mn = "case r of Inl _ \<Rightarrow> BrokenNode ns | Inr _ \<Rightarrow> LiveNode n"
  let ?t = "load_node env (Inr ns) s"
  have t: "?t = s\<lparr>node_ids := AList.update (node_name ns) (node_id ns) (node_ids s),
      state_cache := AList.update (node_id ns) ns (state_cache s),
      mgr_nodes := AList.update (node_id ns) ?mn (mgr_nodes s), mgr_cpus := registry n\<rparr>"
    by (simp add: load_node_def run Let_def)
  have st: "st ?n = ns" "registry ?n = mgr_cpus s" by (simp_all add: new_node_def)
  have "identity (st n) = identity ns"
    using keepsD_eq [OF keeps_is_node_attach [of "identity ns"] _ run] by (simp add: is_node_def st)
  then have ident: "identity (state_of ?mn) = identity ns" by (cases r) simp_all
  note reg = attach_registry [OF run, unfolded st]
  from reg(2) have lent: "lent (state_of ?mn) = lent ns" by (cases r) simp_all
  have wf: "wf_map (mgr_nodes s)" using s by (simp add: index_ok_def)
  have "AList.delete (node_id ns) (mgr_nodes s) = mgr_nodes s"
    using fresh by (simp add: fresh_in_def delete_idem map_of_eq_None_iff)
  with wf lent show nl: "node_lent (mgr_nodes ?t) = lent ns + node_lent (mgr_nodes s)"
    by (simp add: t node_lent_insert)
  have "set_mset (lent ns) = set (assigned_cpus ns @
      (if upgrade_active (upgrade_st ns) then held_cpus (upgrade_steps (upgrade_st ns)) else []))"
    unfolding lent_def by (simp flip: held)
  with reg(1) free show "free_exactly N ?t"
    unfolding free_exactly_def nl by (auto simp: t mark_acquired_def intro: filter_cong)
  have "view (mgr_nodes s) (node_id ns) = None" using fresh by (simp add: fresh_in_def view_def)
  moreover have "dom (map_of (state_cache s)) = dom (view (mgr_nodes s))" using s by (simp add: index_ok_def index_view_def)
  ultimately have "node_id ns \<notin> dom (map_of (state_cache s))" by auto
  then have "index_view ((view (mgr_nodes s))(node_id ns \<mapsto> (node_id ns, node_name ns, node_ip ns)))
      ((map_of (node_ids s))(node_name ns \<mapsto> node_id ns)) (insert (node_id ns) (dom (map_of (state_cache s))))"
    using s fresh by (intro index_view_insert) (auto simp: index_ok_def fresh_in_def)
  with s ident show "index_ok ?t" by (simp add: t index_ok_def distinct_update identity_def)
  show "fresh_in s ms \<Longrightarrow> node_id ms \<noteq> node_id ns \<Longrightarrow> node_name ms \<noteq> node_name ns \<Longrightarrow> node_ip ms \<noteq> node_ip ns \<Longrightarrow>
      fresh_in ?t ms"
    using ident by (auto simp: t fresh_in_def identity_def)
qed

lemma load_nodes_ok:
  assumes "index_ok s" and "free_exactly N s" and "\<forall>ns \<in> set (file_states files). fresh_in s ns"
    and "distinct (map node_id (file_states files))" and "distinct (map node_name (file_states files))"
    and "distinct (map node_ip (file_states files))"
    and "\<forall>ns \<in> set (file_states files). mset (held_cpus (upgrade_steps (upgrade_st ns))) = held (upgrade_steps (upgrade_st ns))"
  shows "index_ok (load_nodes env files s) \<and> free_exactly N (load_nodes env files s) \<and>
    node_lent (mgr_nodes (load_nodes env files s)) = (\<Sum>ns\<leftarrow>file_states files. lent ns) + node_lent (mgr_nodes s)"
  using assms
proof (induction files arbitrary: s)
  case Nil
  then show ?case by (simp add: load_nodes_def file_states_def)
next
  case (Cons f files)
  show ?case
  proof (cases f)
    case (Inl e)
    with Cons.prems have "file_states (f # files) = file_states files" by (simp add: file_states_def)
    with Cons.prems Cons.IH [of s] Inl show ?thesis by (simp add: load_nodes_def load_node_def)
  next
    case (Inr ns)
    have fs: "file_states (f # files) = ns # file_states files" by (simp add: file_states_def Inr)
    have fresh: "fresh_in s ns" and held: "mset (held_cpus (upgrade_steps (upgrade_st ns))) = held (upgrade_steps (upgrade_st ns))"
      using Cons.prems(3,7) by (simp_all add: fs)
    note loaded = load_node_ok [OF Cons.prems(1) fresh Cons.prems(2) held, where env = env]
    have "\<forall>ms \<in> set (file_states files). fresh_in (load_node env f s) ms"
    proof
      fix ms assume ms: "ms \<in> set (file_states files)"
      with Cons.prems(4-6) have "node_id ms \<noteq> node_id ns" "node_name ms \<noteq> node_name ns" "node_ip ms \<noteq> node_ip ns"
        by (auto simp: fs image_iff)
      moreover have "fresh_in s ms" using ms Cons.prems(3) by (simp add: fs)
      ultimately show "fresh_in (load_node env f s) ms" unfolding Inr by (intro loaded(4))
    qed
    with Cons.IH [of "load_node env f s"] Cons.prems(4-7) loaded Inr show ?thesis
      by (simp add: fs [unfolded Inr] load_nodes_def ac_simps)
  qed
qed

lemma filter_mset_disjoint_subset:
  assumes "L \<subseteq># T" and "\<And>x. count T x \<le> 1"
  shows "filter_mset (\<lambda>x. x \<notin># L) T + L \<subseteq># T"
proof (rule mset_subset_eqI)
  fix x
  show "count (filter_mset (\<lambda>x. x \<notin># L) T + L) x \<le> count T x"
    using mset_subset_eq_count [OF assms(1), of x] assms(2) [of x]
    by (cases "x \<in># L") (simp_all add: not_in_iff)
qed

lemma manager_load_ok:
  assumes "good_files N files"
  shows "index_ok (manager_load env N files) \<and> cores_ok N (manager_load env N files)"
proof -
  let ?s = "manager_new N"
  have "index_ok ?s" "free_exactly N ?s" "\<forall>ns \<in> set (file_states files). fresh_in ?s ns"
    by (simp_all add: index_ok_def index_view_def manager_new_def view_def free_exactly_def node_lent_def
        cpu_registry_new_def fresh_in_def dom_def)
  note loaded = load_nodes_ok [OF this, where env = env]
  let ?t = "manager_load env N files" and ?L = "\<Sum>ns\<leftarrow>file_states files. lent ns"
  have t: "index_ok ?t" "free_exactly N ?t" "node_lent (mgr_nodes ?t) = ?L"
    using loaded assms by (simp_all add: good_files_def manager_load_def node_lent_def manager_new_def)
  have "?L \<subseteq># mset [0..<N]" using assms by (simp add: good_files_def)
  moreover have "count (mset [0..<N]) x \<le> 1" for x
    using distinct_count_atmost_1 [of "[0..<N]"] by auto
  ultimately have "filter_mset (\<lambda>x. x \<notin># ?L) (mset [0..<N]) + ?L \<subseteq># mset [0..<N]"
    by (rule filter_mset_disjoint_subset)
  with t show ?thesis by (simp add: cores_ok_def index_ok_def free_exactly_def)
qed

section \<open>The invariants\<close>

lemma reachable_ok: "manager_reachable N s \<Longrightarrow> index_ok s \<and> cores_ok N s"
proof (induction rule: manager_reachable.induct)
  case (loaded files env)
  then show ?case by (rule manager_load_ok)
next
  case (step s t)
  then have I: "index_ok s" "cores_ok N s" by simp_all
  show ?case
    using step.hyps(2)
  proof (cases rule: manager_step.cases)
    case (created desired env)
    with I keepsD [OF keeps_index_create] cores_create show ?thesis by blast
  next
    case (renamed i n env name dns)
    with I index_rename keepsD [OF keeps_cores_rename] show ?thesis by blast
  next
    case (asked m broken i)
    with I keepsD [OF keeps_index_request] keepsD [OF keeps_cores_request] show ?thesis by blast
  next
    case (called f env has i fname param reload)
    with I keepsD [OF keeps_index_call] keepsD [OF keeps_cores_call] show ?thesis by blast
  next
    case (scheduled_task f env task)
    with I keepsD [OF keeps_index_task] keepsD [OF keeps_cores_task] show ?thesis by blast
  qed (use I in \<open>simp_all add: keepsD keeps_index_upgrade keeps_cores_upgrade keeps_index_delete keeps_cores_delete
      keeps_index_start keeps_cores_start keeps_index_stop keeps_cores_stop keeps_index_restart keeps_cores_restart
      keeps_index_update keeps_cores_update keeps_index_recover keeps_cores_recover keeps_index_reload keeps_cores_reload\<close>)
qed

lemma lent_disjoint:
  assumes s: "cores_ok N s" and i: "map_of (mgr_nodes s) i = Some mn"
  shows "set_mset (lent (state_of mn)) \<inter> set (mgr_cpus s) = {} \<and> distinct (assigned_cpus (state_of mn)) \<and>
    set_mset (lent (state_of mn)) \<subseteq> {0..<N} \<and>
    (map_of (mgr_nodes s) j = Some mn' \<longrightarrow> i \<noteq> j \<longrightarrow> set_mset (lent (state_of mn)) \<inter> set_mset (lent (state_of mn')) = {})"
proof -
  let ?A = "lent (state_of mn)" and ?R = "node_lent (AList.delete i (mgr_nodes s))"
  have wf: "wf_map (mgr_nodes s)" and sub: "mset (mgr_cpus s) + (?A + ?R) \<subseteq># mset [0..<N]"
    using s node_lent_present [of "mgr_nodes s" i mn] i by (auto simp: cores_ok_def)
  have one: "count (mset (mgr_cpus s) + (?A + ?R)) c \<le> 1" for c
    using mset_subset_eq_count [OF sub, of c] distinct_count_atmost_1 [of "[0..<N]"]
    by (metis distinct_upt le_trans le_numeral_extra(4) zero_le)
  have "set_mset ?A \<inter> set (mgr_cpus s) = {}" and AR: "set_mset ?A \<inter> set_mset ?R = {}"
  proof -
    have "False" if "c \<in># ?A" "c \<in># mset (mgr_cpus s) + ?R" for c
    proof -
      have "0 < count ?A c" "0 < count (mset (mgr_cpus s) + ?R) c"
        using that by (simp_all only: count_greater_zero_iff)
      with one [of c] show False unfolding count_union by linarith
    qed
    then show "set_mset ?A \<inter> set (mgr_cpus s) = {}" "set_mset ?A \<inter> set_mset ?R = {}" by auto
  qed
  moreover have "distinct (assigned_cpus (state_of mn))"
  proof -
    have "count (mset (assigned_cpus (state_of mn))) c \<le> 1" for c
      using one [of c] by (simp add: lent_def)
    then show ?thesis using distinct_count_atmost_1 [of "assigned_cpus (state_of mn)"]
      by (metis count_mset_0_iff le_neq_implies_less less_one)
  qed
  moreover have "set_mset ?A \<subseteq> {0..<N}"
    using set_mset_mono [OF sub] by auto
  moreover have "set_mset ?A \<inter> set_mset (lent (state_of mn')) = {}"
    if j: "map_of (mgr_nodes s) j = Some mn'" "i \<noteq> j"
  proof -
    have "map_of (AList.delete i (mgr_nodes s)) j = Some mn'" using j by simp
    from node_lent_present [OF distinct_delete [OF wf] this] have "lent (state_of mn') \<subseteq># ?R" by simp
    then show ?thesis using AR by (auto dest: set_mset_mono)
  qed
  ultimately show ?thesis by blast
qed

text \<open>
  C6: Whatever requests a manager served, other than the rename of a broken node, no core is given to two nodes of the host, or to a node and
  free at the same time, or twice to one node, and all of them are cores of the host.
\<close>

theorem no_core_is_given_twice:
  assumes "manager_reachable N s" and "map_of (mgr_nodes s) i = Some mn" and "map_of (mgr_nodes s) j = Some mn'" and "i \<noteq> j"
  shows "set_mset (lent (state_of mn)) \<inter> set_mset (lent (state_of mn')) = {} \<and>
    set_mset (lent (state_of mn)) \<inter> set (mgr_cpus s) = {} \<and>
    distinct (assigned_cpus (state_of mn)) \<and> set_mset (lent (state_of mn)) \<subseteq> {0..<N}"
  using lent_disjoint [of N s i mn j mn'] reachable_ok [OF assms(1)] assms(2-4) by blast

text \<open>
  C7: Whatever requests a manager served, other than the rename of a broken node, the index maps exactly the names of its nodes, each to its
  node; every node is in the cache; and no two nodes share an address.
\<close>

theorem names_identify_nodes:
  assumes "manager_reachable N s"
  shows "(node_id_for_name name s = (Inr i, s) \<longleftrightarrow>
      (\<exists>mn. map_of (mgr_nodes s) i = Some mn \<and> node_name (state_of mn) = name \<and> node_id (state_of mn) = i)) \<and>
    dom (map_of (state_cache s)) = dom (map_of (mgr_nodes s)) \<and>
    (map_of (mgr_nodes s) j = Some mn \<longrightarrow> map_of (mgr_nodes s) k = Some mn' \<longrightarrow>
      node_ip (state_of mn) = node_ip (state_of mn') \<longrightarrow> j = k)"
proof -
  have "index_view (view (mgr_nodes s)) (map_of (node_ids s)) (dom (map_of (state_cache s)))"
    using reachable_ok [OF assms] by (simp add: index_ok_def)
  then have dom: "dom (map_of (state_cache s)) = dom (view (mgr_nodes s))"
    and fwd: "view (mgr_nodes s) i = Some (j, name, ip) \<Longrightarrow> j = i \<and> map_of (node_ids s) name = Some i"
    and bwd: "map_of (node_ids s) name = Some i \<Longrightarrow> \<exists>ip. view (mgr_nodes s) i = Some (i, name, ip)"
    and ips: "view (mgr_nodes s) i = Some (i, a, ip) \<Longrightarrow> view (mgr_nodes s) j = Some (j, b, ip) \<Longrightarrow> i = j"
    for i j name a b ip
    unfolding index_view_def by blast+
  have "node_id_for_name name s = (Inr i, s) \<longleftrightarrow> map_of (node_ids s) name = Some i"
    by (simp add: node_id_for_name_def split: option.split)
  also have "\<dots> \<longleftrightarrow> (\<exists>ip. view (mgr_nodes s) i = Some (i, name, ip))" using fwd bwd by blast
  also have "\<dots> \<longleftrightarrow> (\<exists>mn. map_of (mgr_nodes s) i = Some mn \<and> node_name (state_of mn) = name \<and> node_id (state_of mn) = i)"
    by (auto simp: view_def identity_def)
  finally have names: "node_id_for_name name s = (Inr i, s) \<longleftrightarrow>
      (\<exists>mn. map_of (mgr_nodes s) i = Some mn \<and> node_name (state_of mn) = name \<and> node_id (state_of mn) = i)" .
  moreover have "dom (map_of (state_cache s)) = dom (map_of (mgr_nodes s))"
    unfolding dom by (auto simp: view_def domIff)
  moreover have "j = k" if "map_of (mgr_nodes s) j = Some mn" "map_of (mgr_nodes s) k = Some mn'"
    "node_ip (state_of mn) = node_ip (state_of mn')"
  proof -
    have v: "view (mgr_nodes s) j = Some (identity (state_of mn))" "view (mgr_nodes s) k = Some (identity (state_of mn'))"
      using that by (simp_all add: view_def)
    with fwd have "node_id (state_of mn) = j" "node_id (state_of mn') = k" by (auto simp: identity_def)
    with v that(3) ips show ?thesis by (auto simp: identity_def)
  qed
  ultimately show ?thesis by blast
qed

text \<open>
  C38: Renaming a broken node to a free name fails, but the index is left with the new name for the
  node, which still has the old one, and the old name is no longer found.
\<close>

theorem rename_of_broken_node_changes_index:
  assumes "manager_reachable N s" and broken: "map_of (mgr_nodes s) i = Some (BrokenNode ns)"
    and free: "map_of (node_ids s) name = None"
  shows "\<exists>e t. rename env i name dns s = (Inl e, t) \<and> map_of (mgr_nodes t) i = Some (BrokenNode ns) \<and>
    node_id_for_name name t = (Inr i, t) \<and> (\<exists>e'. node_id_for_name (node_name ns) t = (Inl e', t))"
proof -
  have s: "index_ok s" using reachable_ok [OF assms(1)] by blast
  have v: "view (mgr_nodes s) i = Some (identity ns)" using broken by (simp add: view_def)
  with s have "node_id ns = i" and old: "map_of (node_ids s) (node_name ns) = Some i"
    unfolding index_ok_def index_view_def identity_def by blast+
  with v have "view (mgr_nodes s) i = Some (i, node_name ns, node_ip ns)" by (simp add: identity_def)
  note found = find_index [OF s this]
  from free old have ne: "name \<noteq> node_name ns" by auto
  let ?t = "s\<lparr>node_ids := AList.update name i (AList.delete (node_name ns) (node_ids s))\<rparr>"
  have "rename_index i name s = (Inr (), ?t)"
    unfolding rename_index_def with_state_apply found option.case prod.case by (simp add: free)
  moreover have "on_node nf br i m ?t = (Inl br, ?t)" for nf br :: command_error and m :: "(node, command_error, unit) action"
    by (rule on_node_simps(2) [where ns = ns]) (simp add: broken)
  ultimately have "\<exists>e. rename env i name dns s = (Inl e, ?t)"
    by (simp add: rename_def try_then_def)
  with broken ne show ?thesis by (auto simp: node_id_for_name_def)
qed

section \<open>Examples\<close>

definition example_mgr_env :: "bool \<Rightarrow> mgr_env" where
  "example_mgr_env attach_fails =
     \<lparr>node_host = (\<lambda>i. (example_host False)\<lparr>answer := (\<lambda>_ c. case c of EngineNew \<Rightarrow>
          (if attach_fails then Inl ''no plugin'' else Inr ()) | _ \<Rightarrow> Inr ())\<rparr>),
      maintenance_mode = False, host_resources = (\<lambda>_. Inl ''''),
      parse_version = (\<lambda>_. Inl ''''), version_less = (\<lambda>_ _. False), show_version = (\<lambda>_. ''''), is_cidr = (\<lambda>_. True)\<rparr>"

definition example_files :: "(string + node_state) list" where
  "example_files = [Inr (example_state ''1'' 1 [2]), Inl ''corrupted'',
     Inr ((example_state ''1'' 2 [0, 1])\<lparr>node_id := ''n2'', node_name := ''other'', node_ip := ''10.0.0.2''\<rparr>)]"

lemma good_example_files: "good_files 4 example_files"
  by (simp add: good_files_def file_states_def example_files_def example_state_def lent_def upgrade_state_default_def
      held_cpus_def upt_rec)

lemma example_reachable: "manager_reachable 4 (manager_load (example_mgr_env b) 4 example_files)"
  by (rule manager_reachable.loaded) (rule good_example_files)

lemma no_core_is_given_twice_witness:
  "let s = manager_load (example_mgr_env False) 4 example_files in
     (\<forall>n1 n2. map_of (mgr_nodes s) ''n1'' = Some n1 \<and> map_of (mgr_nodes s) ''n2'' = Some n2 \<longrightarrow>
        set_mset (lent (state_of n1)) \<inter> set_mset (lent (state_of n2)) = {}) \<and>
     map_of (mgr_nodes s) ''n1'' \<noteq> None \<and> map_of (mgr_nodes s) ''n2'' \<noteq> None"
proof -
  let ?s = "manager_load (example_mgr_env False) 4 example_files"
  have "map_of (mgr_nodes ?s) ''n1'' \<noteq> None" "map_of (mgr_nodes ?s) ''n2'' \<noteq> None" by code_simp+
  with no_core_is_given_twice [OF example_reachable [of False], of "''n1''" _ "''n2''"] show ?thesis
    unfolding Let_def by fastforce
qed

lemma names_identify_nodes_witness:
  "let s = manager_load (example_mgr_env False) 4 example_files in
     \<exists>mn. map_of (mgr_nodes s) ''n2'' = Some mn \<and> node_name (state_of mn) = ''other''"
proof -
  let ?s = "manager_load (example_mgr_env False) 4 example_files"
  have "fst (node_id_for_name ''other'' ?s) = Inr ''n2''" by code_simp
  then have "node_id_for_name ''other'' ?s = (Inr ''n2'', ?s)"
    by (simp add: node_id_for_name_def split: option.splits)
  with names_identify_nodes [OF example_reachable [of False], of "''other''" "''n2''"] show ?thesis
    unfolding Let_def by blast
qed

lemma rename_of_broken_node_changes_index_witness:
  "let s = manager_load (example_mgr_env True) 4 example_files in
     \<exists>e t e'. rename (example_mgr_env True) ''n1'' ''new'' '''' s = (Inl e, t) \<and>
       node_id_for_name ''new'' t = (Inr ''n1'', t) \<and> node_id_for_name ''node'' t = (Inl e', t)"
proof -
  let ?s = "manager_load (example_mgr_env True) 4 example_files" and ?ns = "example_state ''1'' 1 [2]"
  have "map_of (mgr_nodes ?s) ''n1'' = Some (BrokenNode ?ns)"
    by (simp add: manager_load_def load_nodes_def example_files_def load_node_def manager_new_def) code_simp
  moreover have "map_of (node_ids ?s) ''new'' = None" by code_simp
  moreover have "node_name ?ns = ''node''" by (simp add: example_state_def)
  ultimately show ?thesis
    using rename_of_broken_node_changes_index [OF example_reachable [of True], of "''n1''" ?ns "''new''"
        "example_mgr_env True" "''''"]
    unfolding Let_def by metis
qed

end
