(* ===== verification/Run_Flag.thy ===== *)
theory Run_Flag
  imports Prelude
begin

text \<open>
  \<open>bv_utils/src/run_flag.rs\<close>: the shutdown flag shared by the parts of a service. A \<open>RunFlag\<close>
  holds a cached boolean, a reference to a list of broadcast senders shared by all its clones, and
  a receiver of its own. The model keeps all flags of a process: a flag is an index into
  \<open>instances\<close>, the shared sender lists are \<open>sender_lists\<close> (a list of channel numbers each), and
  \<open>unread\<close> says that the flag's receiver has a message \<open>try_recv\<close> has not taken yet.
\<close>

record run_flag =
  running :: bool
  txs :: nat
  rx_channel :: nat
  unread :: bool

record flags =
  instances :: "run_flag list"
  sender_lists :: "nat list list"
  channels :: nat

definition no_flags :: flags where
  "no_flags = \<lparr>instances = [], sender_lists = [], channels = 0\<rparr>"

section \<open>Operations\<close>

text \<open>\<open>RunFlag::default\<close>: a fresh channel in a fresh list; returns the new flag's index.\<close>

definition new_flag :: "flags \<Rightarrow> nat \<times> flags" where
  "new_flag fs =
     (length (instances fs),
      fs\<lparr>instances := instances fs @ [\<lparr>running = True, txs = length (sender_lists fs),
                                       rx_channel = channels fs, unread = False\<rparr>],
         sender_lists := sender_lists fs @ [[channels fs]],
         channels := Suc (channels fs)\<rparr>)"

text \<open>\<open>tx.send(())\<close> on every sender of a list: each receiver of those channels gets a message.\<close>

definition broadcast :: "nat list \<Rightarrow> run_flag list \<Rightarrow> run_flag list" where
  "broadcast chans = map (\<lambda>f. if rx_channel f \<in> set chans then f\<lparr>unread := True\<rparr> else f)"

definition stop :: "nat \<Rightarrow> flags \<Rightarrow> flags" where
  "stop h fs =
     (let f = instances fs ! h
      in fs\<lparr>instances := broadcast (sender_lists fs ! txs f) ((instances fs)[h := f\<lparr>running := False\<rparr>])\<rparr>)"

definition load :: "nat \<Rightarrow> flags \<Rightarrow> bool \<times> flags" where
  "load h fs =
     (let f = instances fs ! h;
          f' = (if running f then f\<lparr>running := \<not> unread f, unread := False\<rparr> else f)
      in (running f', fs\<lparr>instances := (instances fs)[h := f']\<rparr>))"

text \<open>\<open>wait\<close>: \<open>None\<close> while there is nothing to receive, that is when the caller is suspended.\<close>

definition wait_stopped :: "nat \<Rightarrow> flags \<Rightarrow> flags option" where
  "wait_stopped h fs =
     (let f = instances fs ! h
      in if running f
         then (if unread f then Some (fs\<lparr>instances := (instances fs)[h := f\<lparr>running := False, unread := False\<rparr>]\<rparr>)
               else None)
         else Some fs)"

definition clone_flag :: "nat \<Rightarrow> flags \<Rightarrow> nat \<times> flags" where
  "clone_flag h fs =
     (let f = instances fs ! h;
          (r, fs') = load h fs
      in (length (instances fs'),
          fs'\<lparr>instances := instances fs' @ [\<lparr>running = r, txs = txs f, rx_channel = rx_channel f, unread = False\<rparr>]\<rparr>))"

definition child_flag :: "nat \<Rightarrow> flags \<Rightarrow> nat \<times> flags" where
  "child_flag h fs =
     (let f = instances fs ! h;
          c = channels fs;
          (r, fs') = load h (fs\<lparr>sender_lists := (sender_lists fs)[txs f := sender_lists fs ! txs f @ [c]],
                                channels := Suc c\<rparr>)
      in (length (instances fs'),
          fs'\<lparr>instances := instances fs' @ [\<lparr>running = r, txs = length (sender_lists fs'), rx_channel = c, unread = False\<rparr>],
              sender_lists := sender_lists fs' @ [[c]]\<rparr>))"

section \<open>Reachable states\<close>

inductive flag_step :: "flags \<Rightarrow> flags \<Rightarrow> bool" where
  new: "flag_step fs (snd (new_flag fs))"
| stop: "h < length (instances fs) \<Longrightarrow> flag_step fs (stop h fs)"
| load: "h < length (instances fs) \<Longrightarrow> flag_step fs (snd (load h fs))"
| wait: "h < length (instances fs) \<Longrightarrow> wait_stopped h fs = Some fs' \<Longrightarrow> flag_step fs fs'"
| clone: "h < length (instances fs) \<Longrightarrow> flag_step fs (snd (clone_flag h fs))"
| child: "h < length (instances fs) \<Longrightarrow> flag_step fs (snd (child_flag h fs))"

inductive reachable_flags :: "flags \<Rightarrow> bool" where
  start: "reachable_flags no_flags"
| step: "reachable_flags fs \<Longrightarrow> flag_step fs fs' \<Longrightarrow> reachable_flags fs'"

text \<open>
  Channel \<open>c\<close> belongs to sender list \<open>c\<close>: it is created together with it, and every other list that
  contains it is older (the parent's).
\<close>

definition wf_flags :: "flags \<Rightarrow> bool" where
  "wf_flags fs \<longleftrightarrow>
     channels fs = length (sender_lists fs) \<and>
     (\<forall>f \<in> set (instances fs). txs f < length (sender_lists fs) \<and> rx_channel f = txs f) \<and>
     (\<forall>g < length (sender_lists fs). g \<in> set (sender_lists fs ! g) \<and>
        (\<forall>c \<in> set (sender_lists fs ! g). g \<le> c \<and> c < channels fs))"

lemmas flag_op_defs = new_flag_def stop_def load_def wait_stopped_def clone_flag_def child_flag_def
  broadcast_def Let_def

lemma wf_flags_instance:
  "wf_flags fs \<Longrightarrow> h < length (instances fs) \<Longrightarrow>
     txs (instances fs ! h) < length (sender_lists fs) \<and> rx_channel (instances fs ! h) = txs (instances fs ! h)"
  by (auto simp: wf_flags_def)

lemma wf_flags_channel_bound:
  "wf_flags fs \<Longrightarrow> g < length (sender_lists fs) \<Longrightarrow> c \<in> set (sender_lists fs ! g) \<Longrightarrow> c < channels fs"
  by (auto simp: wf_flags_def)

lemma wf_flags_set_instance:
  assumes "wf_flags fs" and "txs f < length (sender_lists fs)" and "rx_channel f = txs f"
  shows "wf_flags (fs\<lparr>instances := (instances fs)[h := f]\<rparr>)"
  using assms set_update_subset_insert [of "instances fs" h f] by (auto simp: wf_flags_def)

lemma wf_load: "wf_flags fs \<Longrightarrow> h < length (instances fs) \<Longrightarrow> wf_flags (snd (load h fs))"
  using wf_flags_instance [of fs h] by (auto simp: load_def Let_def intro!: wf_flags_set_instance)

lemma wf_stop: "wf_flags fs \<Longrightarrow> h < length (instances fs) \<Longrightarrow> wf_flags (stop h fs)"
  using wf_flags_instance [of fs h]
    set_update_subset_insert [of "instances fs" h "(instances fs ! h)\<lparr>running := False\<rparr>"]
  by (auto simp: stop_def broadcast_def wf_flags_def Let_def)

lemma wf_new: "wf_flags fs \<Longrightarrow> wf_flags (snd (new_flag fs))"
  by (auto simp: new_flag_def wf_flags_def nth_append less_Suc_eq)

lemma wf_wait: "wf_flags fs \<Longrightarrow> h < length (instances fs) \<Longrightarrow> wait_stopped h fs = Some fs' \<Longrightarrow> wf_flags fs'"
  using wf_flags_instance [of fs h]
  by (auto simp: wait_stopped_def Let_def intro!: wf_flags_set_instance split: if_splits)

lemma wf_append_clone:
  assumes "wf_flags fs" and "txs f < length (sender_lists fs)" and "rx_channel f = txs f"
  shows "wf_flags (fs\<lparr>instances := instances fs @ [f]\<rparr>)"
  using assms by (auto simp: wf_flags_def)

lemma load_unchanged [simp]:
  "sender_lists (snd (load h fs)) = sender_lists fs" "channels (snd (load h fs)) = channels fs"
  "length (instances (snd (load h fs))) = length (instances fs)"
  by (simp_all add: load_def Let_def)

lemma wf_clone: "wf_flags fs \<Longrightarrow> h < length (instances fs) \<Longrightarrow> wf_flags (snd (clone_flag h fs))"
  using wf_flags_instance [of fs h] wf_load [of fs h]
  by (auto simp: clone_flag_def Let_def split_beta intro!: wf_append_clone)

lemma wf_child:
  assumes wf: "wf_flags fs" and h: "h < length (instances fs)"
  shows "wf_flags (snd (child_flag h fs))"
proof -
  let ?f = "instances fs ! h" and ?c = "channels fs"
  let ?fs = "fs\<lparr>sender_lists := (sender_lists fs)[txs ?f := sender_lists fs ! txs ?f @ [?c]], channels := Suc ?c\<rparr>"
  let ?r = "fst (load h ?fs)"
  have "snd (child_flag h fs) =
      (snd (load h ?fs))\<lparr>instances := instances (snd (load h ?fs)) @
          [\<lparr>running = ?r, txs = length (sender_lists fs), rx_channel = ?c, unread = False\<rparr>],
        sender_lists := sender_lists ?fs @ [[?c]]\<rparr>"
    by (simp add: child_flag_def Let_def split_beta)
  moreover have "\<forall>f \<in> set (instances (snd (load h ?fs))). txs f < length (sender_lists fs) \<and> rx_channel f = txs f"
    using wf wf_flags_instance [OF wf h]
      set_update_subset_insert [of "instances fs" h]
    by (fastforce simp: load_def wf_flags_def Let_def split: if_splits)
  ultimately show ?thesis
    using wf wf_flags_instance [OF wf h]
    by (fastforce simp: wf_flags_def nth_append nth_list_update less_Suc_eq)
qed

lemma wf_flags_step: "flag_step fs fs' \<Longrightarrow> wf_flags fs \<Longrightarrow> wf_flags fs'"
  by (induction rule: flag_step.induct) (auto intro: wf_new wf_stop wf_load wf_wait wf_clone wf_child)

lemma reachable_wf_flags: "reachable_flags fs \<Longrightarrow> wf_flags fs"
proof (induction rule: reachable_flags.induct)
  case start
  show ?case by (simp add: wf_flags_def no_flags_def)
next
  case (step fs fs')
  then show ?case by (rule_tac wf_flags_step)
qed

section \<open>Who is stopped by a stop\<close>

text \<open>A flag answers \<open>load\<close> with false after a stop exactly when it was not running, had an unread
  message, is the stopped flag itself, or listens to one of the channels the stop sends on.\<close>

lemma load_after_stop:
  assumes "h < length (instances fs)" and "j < length (instances fs)"
  shows "fst (load j (stop h fs)) \<longleftrightarrow>
    fst (load j fs) \<and> j \<noteq> h \<and>
    rx_channel (instances fs ! j) \<notin> set (sender_lists fs ! txs (instances fs ! h))"
  using assms by (auto simp: load_def stop_def broadcast_def Let_def nth_list_update)

text \<open>The flags before and after creating a clone or a child.\<close>

lemma clone_flag_facts:
  assumes "h < length (instances fs)"
  shows "fst (clone_flag h fs) = length (instances fs)"
    and "length (instances (snd (clone_flag h fs))) = Suc (length (instances fs))"
    and "sender_lists (snd (clone_flag h fs)) = sender_lists fs"
    and "j < length (instances fs) \<Longrightarrow> txs (instances (snd (clone_flag h fs)) ! j) = txs (instances fs ! j)"
    and "instances (snd (clone_flag h fs)) ! length (instances fs) =
      \<lparr>running = fst (load h fs), txs = txs (instances fs ! h),
       rx_channel = rx_channel (instances fs ! h), unread = False\<rparr>"
  using assms
  by (auto simp: clone_flag_def load_def Let_def nth_append nth_list_update)

lemma child_flag_facts:
  assumes "h < length (instances fs)"
  shows "fst (child_flag h fs) = length (instances fs)"
    and "length (instances (snd (child_flag h fs))) = Suc (length (instances fs))"
    and "sender_lists (snd (child_flag h fs)) =
      (sender_lists fs)[txs (instances fs ! h) := sender_lists fs ! txs (instances fs ! h) @ [channels fs]] @ [[channels fs]]"
    and "channels (snd (child_flag h fs)) = Suc (channels fs)"
    and "j < length (instances fs) \<Longrightarrow>
      txs (instances (snd (child_flag h fs)) ! j) = txs (instances fs ! j) \<and>
      rx_channel (instances (snd (child_flag h fs)) ! j) = rx_channel (instances fs ! j)"
    and "instances (snd (child_flag h fs)) ! length (instances fs) =
      \<lparr>running = fst (load h fs), txs = length (sender_lists fs), rx_channel = channels fs, unread = False\<rparr>"
  using assms
  by (auto simp: child_flag_def load_def Let_def nth_append nth_list_update)

lemma load_of_new_instance:
  assumes "instances fs ! j = \<lparr>running = r, txs = t, rx_channel = c, unread = False\<rparr>"
  shows "fst (load j fs) = r"
  using assms by (auto simp: load_def Let_def)

text \<open>
  Stopping a flag stops every clone made of it and every child made of it: their next \<open>load\<close>
  is false, in every state the flags of a process can reach.
\<close>

theorem stop_reaches_clones_and_children:
  assumes "reachable_flags fs" and "h < length (instances fs)"
  shows "\<not> fst (load (fst (clone_flag h fs)) (stop h (snd (clone_flag h fs)))) \<and>
    \<not> fst (load (fst (child_flag h fs)) (stop h (snd (child_flag h fs))))"
proof
  have wf: "wf_flags fs" using assms(1) by (rule reachable_wf_flags)
  note h = assms(2) wf_flags_instance [OF wf assms(2)]
  show "\<not> fst (load (fst (clone_flag h fs)) (stop h (snd (clone_flag h fs))))"
    using h wf by (auto simp: load_after_stop clone_flag_facts [OF assms(2)] wf_flags_def)
  show "\<not> fst (load (fst (child_flag h fs)) (stop h (snd (child_flag h fs))))"
    using h by (auto simp: load_after_stop child_flag_facts [OF assms(2)] nth_append)
qed

text \<open>
  Stopping a child stops none of the flags that existed before it, in particular not its parent.
\<close>

theorem stop_child_keeps_others:
  assumes "reachable_flags fs" and "h < length (instances fs)" and "j < length (instances fs)"
  shows "fst (load j (stop (fst (child_flag h fs)) (snd (child_flag h fs)))) = fst (load j (snd (child_flag h fs)))"
proof -
  have wf: "wf_flags fs" using assms(1) by (rule reachable_wf_flags)
  have "rx_channel (instances fs ! j) < channels fs" and "length (sender_lists fs) = channels fs"
    using wf wf_flags_instance [OF wf assms(3)] by (simp_all add: wf_flags_def)
  then show ?thesis
    using assms by (auto simp: load_after_stop child_flag_facts [OF assms(2)] nth_append)
qed

text \<open>
  a stop does not reach the children of a child: with a running flag, a child of it and a child
  of that child, stopping the first leaves the third running, although the documentation of
  \<open>child_flag\<close> says a flag is stopped when its parent is.
\<close>

theorem stop_misses_grandchildren:
  assumes "reachable_flags fs" and "h < length (instances fs)" and "fst (load h fs)"
    and "child_flag h fs = (k, fs1)" and "child_flag k fs1 = (g, fs2)"
  shows "fst (load g (stop h fs2))"
proof -
  have wf: "wf_flags fs" using assms(1) by (rule reachable_wf_flags)
  then have wf1: "wf_flags fs1" using wf_child [OF wf assms(2)] assms(4) by simp
  have k: "k = length (instances fs)" "k < length (instances fs1)" "h < length (instances fs1)"
    using child_flag_facts(1,2) [OF assms(2)] assms(2,4) by simp_all
  have g: "g = length (instances fs1)" and h2: "h < length (instances fs2)" "g < length (instances fs2)"
    using child_flag_facts(1,2) [OF k(2)] assms(5) k by simp_all
  have "fst (load k fs1)"
    using child_flag_facts(6) [OF assms(2)] assms(3,4) k load_of_new_instance by fastforce
  then have "fst (load g fs2)"
    using child_flag_facts(6) [OF k(2)] assms(5) g load_of_new_instance by fastforce
  moreover have "txs (instances fs2 ! h) = txs (instances fs ! h)"
    using child_flag_facts(5) [OF k(2), of h] child_flag_facts(5) [OF assms(2), of h] assms k by simp
  moreover have "txs (instances fs1 ! k) = length (sender_lists fs)"
    using child_flag_facts(6) [OF assms(2)] assms(4) k by simp
  moreover have "rx_channel (instances fs2 ! g) = channels fs1"
    using child_flag_facts(6) [OF k(2)] assms(5) g by simp
  moreover have "channels fs1 \<notin> set (sender_lists fs1 ! txs (instances fs ! h))"
    using wf_flags_channel_bound [OF wf1, of "txs (instances fs ! h)" "channels fs1"]
      wf_flags_instance [OF wf assms(2)] child_flag_facts(3) [OF assms(2)] assms(4) by auto
  ultimately show ?thesis
    using h2 g k wf_flags_instance [OF wf assms(2)] child_flag_facts(3) [OF k(2)] child_flag_facts(3) [OF assms(2)] assms(4,5)
    by (auto simp: load_after_stop nth_append)
qed

text \<open>A process with a single flag, as \<open>RunFlag::run_until_ctrlc\<close> leaves it.\<close>

definition root_flags :: flags where
  "root_flags = snd (new_flag no_flags)"

lemma reachable_root_flags: "reachable_flags root_flags"
  unfolding root_flags_def by (rule reachable_flags.step [OF reachable_flags.start flag_step.new])

theorem stop_reaches_clones_and_children_witness:
  "\<not> fst (load 1 (stop 0 (snd (clone_flag 0 root_flags))))"
proof -
  have "fst (clone_flag 0 root_flags) = 1" by code_simp
  moreover have "0 < length (instances root_flags)" by code_simp
  ultimately show ?thesis
    using stop_reaches_clones_and_children [OF reachable_root_flags, of 0] by simp
qed

theorem stop_child_keeps_others_witness: "fst (load 0 (stop 1 (snd (child_flag 0 root_flags))))"
proof -
  have "fst (child_flag 0 root_flags) = 1" by code_simp
  moreover have "0 < length (instances root_flags)" by code_simp
  moreover have "fst (load 0 (snd (child_flag 0 root_flags)))" by code_simp
  ultimately show ?thesis
    using stop_child_keeps_others [OF reachable_root_flags, of 0 0] by simp
qed

theorem stop_misses_grandchildren_witness:
  "fst (load 2 (stop 0 (snd (child_flag 1 (snd (child_flag 0 root_flags))))))"
proof -
  have "child_flag 0 root_flags = (1, snd (child_flag 0 root_flags))" by code_simp
  moreover have "child_flag 1 (snd (child_flag 0 root_flags)) =
      (2, snd (child_flag 1 (snd (child_flag 0 root_flags))))" by code_simp
  moreover have "0 < length (instances root_flags)" "fst (load 0 root_flags)" by code_simp+
  ultimately show ?thesis
    by (rule_tac stop_misses_grandchildren [OF reachable_root_flags])
qed

end
