(* ===== verification/Host_Files.thy ===== *)
theory Host_Files
  imports Prelude
begin

text \<open>
  Files of the host that must survive a crash: \<open>careful_save\<close> of \<open>bv/src/utils.rs\<close>, which the daemon uses
  for its configuration, the list of its nodes and their states. The disk keeps the history of its
  contents, because a crash may leave any of them.
\<close>

section \<open>Disk\<close>

type_synonym files = "path \<Rightarrow> string option"

record disk =
  on_disk_now :: files
  history :: "files list"

text \<open>\<open>fs::write\<close> truncates the file before it writes.\<close>

datatype write_outcome = Written | OpenFailed string | Interrupted nat string

record save_io =
  remove_error :: "path \<Rightarrow> string option"
  rename_error :: "path \<Rightarrow> path \<Rightarrow> string option"
  write_outcome_of :: "path \<Rightarrow> write_outcome"

definition set_files :: "(files \<Rightarrow> files) \<Rightarrow> (disk, string, unit) action" where
  "set_files f = update_state (\<lambda>d. d\<lparr>on_disk_now := f (on_disk_now d), history := history d @ [f (on_disk_now d)]\<rparr>)"

definition remove_file :: "save_io \<Rightarrow> path \<Rightarrow> (disk, string, unit) action" where
  "remove_file io p = (case remove_error io p of Some e \<Rightarrow> fail e | None \<Rightarrow> set_files (\<lambda>f. f(p := None)))"

definition rename_file :: "save_io \<Rightarrow> path \<Rightarrow> path \<Rightarrow> (disk, string, unit) action" where
  "rename_file io p q =
     (case rename_error io p q of Some e \<Rightarrow> fail e | None \<Rightarrow> set_files (\<lambda>f. f(q := f p, p := None)))"

definition write_file :: "save_io \<Rightarrow> path \<Rightarrow> string \<Rightarrow> (disk, string, unit) action" where
  "write_file io p content =
     (case write_outcome_of io p of
        OpenFailed e \<Rightarrow> fail e
      | Interrupted n e \<Rightarrow>
          steps [set_files (\<lambda>f. f(p \<mapsto> [])), set_files (\<lambda>f. f(p \<mapsto> take n content)), fail e]
      | Written \<Rightarrow> steps [set_files (\<lambda>f. f(p \<mapsto> [])), set_files (\<lambda>f. f(p \<mapsto> content))])"

definition file_exists :: "path \<Rightarrow> disk \<Rightarrow> bool" where
  "file_exists p d \<longleftrightarrow> on_disk_now d p \<noteq> None"

section \<open>\<open>careful_save\<close>\<close>

text \<open>\<open>Path::file_name\<close> and \<open>Path::extension\<close>, as far as the name of the backup depends on them.\<close>

definition file_name :: "path \<Rightarrow> string" where
  "file_name p = rev (takeWhile (\<lambda>c. c \<noteq> CHR ''/'') (rev p))"

definition has_extension :: "path \<Rightarrow> bool" where
  "has_extension p \<longleftrightarrow> CHR ''.'' \<in> set (tl (file_name p))"

definition backup_path :: "path \<Rightarrow> path" where
  "backup_path p = p @ (if has_extension p then ''_bak'' else ''._bak'')"

definition make_backup :: "save_io \<Rightarrow> path \<Rightarrow> (disk, string, unit) action" where
  "make_backup io p = with_state (\<lambda>d.
     if file_exists p d
     then steps [if file_exists (backup_path p) d then remove_file io (backup_path p) else ok (),
                 rename_file io p (backup_path p)]
     else ok ())"

definition settle_backup :: "save_io \<Rightarrow> path \<Rightarrow> string + unit \<Rightarrow> (disk, string, unit) action" where
  "settle_backup io p res = with_state (\<lambda>d.
     if \<not> file_exists (backup_path p) d then ok ()
     else case res of
            Inl _ \<Rightarrow> steps [ignore_result (remove_file io p), ignore_result (rename_file io (backup_path p) p)]
          | Inr _ \<Rightarrow> ignore_result (remove_file io (backup_path p)))"

definition careful_save :: "save_io \<Rightarrow> path \<Rightarrow> string \<Rightarrow> (disk, string, unit) action" where
  "careful_save io p content =
     try_then (make_backup io p) (\<lambda>_ d.
       let (res, d1) = write_file io p content d in
       let (_, d2) = settle_backup io p res d1 in (res, d2))"

section \<open>What a crash leaves\<close>

lemma backup_differs [simp]: "backup_path p \<noteq> p" "p \<noteq> backup_path p"
  by (simp_all add: backup_path_def)

text \<open>The old content under one of the two names, or the new one in place.\<close>

definition saved_either :: "path \<Rightarrow> string \<Rightarrow> string \<Rightarrow> files \<Rightarrow> bool" where
  "saved_either p old new f \<longleftrightarrow> f p = Some old \<or> f p = Some new \<or> f (backup_path p) = Some old"

definition safe_since :: "(files \<Rightarrow> bool) \<Rightarrow> nat \<Rightarrow> disk \<Rightarrow> bool" where
  "safe_since P n d \<longleftrightarrow> (\<forall>f \<in> set (drop n (history d)). P f)"

lemma set_files_run [simp]:
  "set_files g d = (Inr (), \<lparr>on_disk_now = g (on_disk_now d), history = history d @ [g (on_disk_now d)]\<rparr>)"
  by (cases d) (simp add: set_files_def)

lemma safe_since_snoc [simp]:
  "length h \<ge> n \<Longrightarrow> safe_since P n \<lparr>on_disk_now = f, history = h @ [g]\<rparr> \<longleftrightarrow> safe_since P n \<lparr>on_disk_now = f', history = h\<rparr> \<and> P g"
  by (auto simp: safe_since_def)

lemma safe_since_start: "safe_since P (length (history d)) d"
  by (simp add: safe_since_def)

lemmas save_defs = remove_file_def rename_file_def write_file_def make_backup_def settle_backup_def file_exists_def

lemma make_backup_safe:
  assumes "make_backup io p d = (r, t)" and "on_disk_now d p = Some old"
  shows "safe_since (saved_either p old new) (length (history d)) t \<and> length (history d) \<le> length (history t) \<and>
    (case r of Inl _ \<Rightarrow> on_disk_now t p = Some old
     | Inr _ \<Rightarrow> on_disk_now t p = None \<and> on_disk_now t (backup_path p) = Some old)"
  using assms
  by (cases d) (auto simp: save_defs saved_either_def safe_since_def try_then_def split: if_splits option.splits prod.splits sum.splits)

lemma write_safe:
  assumes "write_file io p new d = (r, t)" and "on_disk_now d (backup_path p) = Some old"
    and "safe_since (saved_either p old new) n d" and "n \<le> length (history d)"
  shows "safe_since (saved_either p old new) n t \<and> n \<le> length (history t) \<and> on_disk_now t (backup_path p) = Some old \<and>
    (r = Inr () \<longrightarrow> on_disk_now t p = Some new)"
  using assms
  by (cases d) (auto simp: write_file_def saved_either_def safe_since_def try_then_def split: write_outcome.splits)

lemma settle_safe:
  assumes "settle_backup io p r d = (r', t)" and "on_disk_now d (backup_path p) = Some old"
    and "r = Inr () \<longrightarrow> on_disk_now d p = Some new"
    and "safe_since (saved_either p old new) n d" and "n \<le> length (history d)"
  shows "safe_since (saved_either p old new) n t \<and>
    (case r of Inl _ \<Rightarrow> on_disk_now t p = Some old \<or> on_disk_now t (backup_path p) = Some old | Inr _ \<Rightarrow> on_disk_now t p = Some new)"
proof -
  have t: "t = snd (settle_backup io p r d)"
    using assms(1) by simp
  show ?thesis
    unfolding t using assms(2-5)
    by (cases d; cases r; cases "remove_error io p"; cases "rename_error io (backup_path p) p"; cases "remove_error io (backup_path p)")
       (simp_all add: save_defs saved_either_def safe_since_def try_then_def)
qed

text \<open>
  C37: Whatever fails and wherever the host crashes in a \<open>careful_save\<close> over an existing file, the disk
  holds the new content in place, or the old content in place or as the backup; a save that reports
  success has put the new content in place.
\<close>

theorem careful_save_loses_nothing:
  assumes "careful_save io p new d = (r, t)" and "on_disk_now d p = Some old"
  shows "(\<forall>f \<in> set (drop (length (history d)) (history t)). saved_either p old new f) \<and>
    (case r of Inl _ \<Rightarrow> on_disk_now t p = Some old \<or> on_disk_now t (backup_path p) = Some old | Inr _ \<Rightarrow> on_disk_now t p = Some new)"
proof -
  obtain r1 u where u: "make_backup io p d = (r1, u)" by (cases "make_backup io p d")
  note backup = make_backup_safe [OF u assms(2), of new]
  show ?thesis
  proof (cases r1)
    case (Inl e)
    with assms(1) u have "r = Inl e" "t = u" by (simp_all add: careful_save_def try_then_def)
    with backup Inl show ?thesis by (simp add: safe_since_def)
  next
    case (Inr x)
    obtain v r' where v: "write_file io p new u = (r, v)" and t: "settle_backup io p r v = (r', t)"
      using assms(1) u Inr by (auto simp: careful_save_def try_then_def split: prod.splits)
    from backup Inr have b: "on_disk_now u (backup_path p) = Some old"
        "safe_since (saved_either p old new) (length (history d)) u" "length (history d) \<le> length (history u)"
      by simp_all
    note w = write_safe [OF v this]
    have "r = Inr () \<longrightarrow> on_disk_now v p = Some new"
      using w by blast
    from settle_safe [OF t _ this] w show ?thesis
      unfolding safe_since_def by blast
  qed
qed

definition example_save_io :: save_io where
  "example_save_io =
     \<lparr>remove_error = (\<lambda>_. None), rename_error = (\<lambda>_ _. None), write_outcome_of = (\<lambda>_. Interrupted 1 ''no space'')\<rparr>"

definition example_disk :: disk where
  "example_disk = \<lparr>on_disk_now = [''a.json'' \<mapsto> ''old''], history = []\<rparr>"

theorem careful_save_loses_nothing_witness:
  "case careful_save example_save_io ''a.json'' ''new'' example_disk of
     (r, t) \<Rightarrow> r = Inl ''no space'' \<and> length (history t) = 5 \<and>
       list_all (saved_either ''a.json'' ''old'' ''new'') (history t) \<and>
       (on_disk_now t ''a.json'' = Some ''old'' \<or> on_disk_now t ''a.json_bak'' = Some ''old'')"
proof -
  obtain r t where run: "careful_save example_save_io ''a.json'' ''new'' example_disk = (r, t)"
    by (cases "careful_save example_save_io ''a.json'' ''new'' example_disk")
  have "case careful_save example_save_io ''a.json'' ''new'' example_disk of
      (r, t) \<Rightarrow> r = Inl ''no space'' \<and> length (history t) = 5"
    by code_simp
  with run have r: "r = Inl ''no space''" "length (history t) = 5" by simp_all
  have "on_disk_now example_disk ''a.json'' = Some ''old''" and "history example_disk = []"
    and "backup_path ''a.json'' = ''a.json_bak''"
    by (simp_all add: example_disk_def backup_path_def has_extension_def file_name_def)
  with careful_save_loses_nothing [OF run this(1)] run r show ?thesis
    by (simp add: list_all_iff)
qed

text \<open>Between the rename and the write nothing is there under the name of the file.\<close>

lemma careful_save_has_gap:
  assumes "on_disk_now d p = Some old" and "on_disk_now d (backup_path p) = None" and "rename_error io p (backup_path p) = None"
  shows "\<exists>f \<in> set (history (snd (make_backup io p d))). f p = None"
  using assms by (cases d) (simp add: save_defs try_then_def)

text \<open>A file that was not there yet is not protected: an interrupted write leaves a part of it.\<close>

lemma first_save_may_be_partial:
  assumes "on_disk_now d p = None" and "on_disk_now d (backup_path p) = None" and "write_outcome_of io p = Interrupted n e"
  shows "\<exists>t. careful_save io p new d = (Inl e, t) \<and> on_disk_now t p = Some (take n new)"
  using assms by (cases d) (simp add: save_defs careful_save_def try_then_def)

end
