(* ===== verification/Host_Install.thy ===== *)
theory Host_Install
  imports Backoff
begin

text \<open>
  The installer of the host software (\<open>bv/src/installer.rs\<close>, \<open>bv/src/bin/installer.rs\<close> and the lock file of
  \<open>bv_utils/src/lock_file.rs\<close>): it installs the bundle it comes with, checks the health of the new
  service, and on a failure runs the installer of the version that was there before. The world is the
  installation directory, the links into the system, the service and the clock.
\<close>

section \<open>World\<close>

text \<open>The content of a bundle, once it is a version directory below the installation path.\<close>

record package =
  package_installer :: bool
  package_bins :: "string list"
  package_services :: "string list"
  package_completions :: "string list"
    \<comment> \<open>files for shells\<close>
  package_config :: "string option"
    \<comment> \<open>the copy of the configuration made by the installer of a later version\<close>

datatype svc_call = SvcReload | SvcStop | SvcStart | SvcEnable

datatype service_status = StatusUndefined | StatusOk | StatusUpdating | StatusBroken

record install_world =
  versions :: "(string, package) hash_map"
    \<comment> \<open>version directories\<close>
  current_link :: "string option"
    \<comment> \<open>the version the link names, which need not exist\<close>
  backup_link :: "string option"
  blacklist :: "string option"
    \<comment> \<open>content of the file\<close>
  install_lock :: bool
    \<comment> \<open>the lock file in the installation directory\<close>
  root_lock :: bool
    \<comment> \<open>a file of that name in the root directory\<close>
  system_bins :: "string set"
    \<comment> \<open>names linked to the files of the current version\<close>
  system_services :: "string set"
  completions :: "string set"
  host_config :: "string option"
  svc_calls :: "svc_call list"
  now_ms :: nat
  bv_calls :: nat
    \<comment> \<open>requests to the running service\<close>

text \<open>What the operating system answers. An error leaves things as they are.\<close>

datatype install_op =
    ReadBlacklist | AppendBlacklist | CreateInstallDir | RemoveBackup | LinkBackup | RemoveCurrent | LinkCurrent
  | ListBins | ListServices | RemoveLink string | LinkFile string | LinkCompletion string
  | CopyConfig | RestoreConfig | RemoveRootLock | ListInstallDir | RemoveEntry string | CreateLock

record install_env =
  this_version :: string
  io_error :: "install_op \<Rightarrow> string option"
  config_error :: "string option"
    \<comment> \<open>\<open>Config::load\<close> in the constructor\<close>
  host_meets_requirements :: "string + unit"
  move_dir :: "package \<Rightarrow> package option \<Rightarrow> string option \<times> package option"
    \<comment> \<open>\<open>fs_extra::dir::move_dir\<close> into a directory that may have content: its error, and what the directory holds then\<close>
  svc_result :: "nat \<Rightarrow> svc_call \<Rightarrow> string option"
  svc_active :: bool
  start_update_reply :: "nat \<Rightarrow> string + service_status"
  health_reply :: "nat \<Rightarrow> string + service_status"

type_synonym 'a install_action = "(install_world, string, 'a) action"

definition on_io :: "install_env \<Rightarrow> install_op \<Rightarrow> (install_world \<Rightarrow> install_world) \<Rightarrow> unit install_action" where
  "on_io env io f = (case io_error env io of Some e \<Rightarrow> fail e | None \<Rightarrow> update_state f)"

definition with_msg :: "string \<Rightarrow> 'a install_action \<Rightarrow> 'a install_action" where
  "with_msg what m = map_error (\<lambda>e. what @ '': '' @ e) m"

definition sleep_ms :: "nat \<Rightarrow> unit install_action" where
  "sleep_ms d = update_state (\<lambda>w. w\<lparr>now_ms := now_ms w + d\<rparr>)"

definition svc :: "install_env \<Rightarrow> svc_call \<Rightarrow> unit install_action" where
  "svc env c = with_state (\<lambda>w.
     try_then (update_state (\<lambda>w. w\<lparr>svc_calls := svc_calls w @ [c]\<rparr>)) (\<lambda>_.
       case svc_result env (length (svc_calls w)) c of Some e \<Rightarrow> fail e | None \<Rightarrow> ok ()))"

section \<open>Preparation\<close>

definition is_blacklisted :: "install_env \<Rightarrow> string \<Rightarrow> bool install_action" where
  "is_blacklisted env version = with_state (\<lambda>w.
     case blacklist w of
       None \<Rightarrow> ok False
     | Some text \<Rightarrow>
         (case io_error env ReadBlacklist of
            Some e \<Rightarrow> fail (''failed to read blacklist: '' @ e)
          | None \<Rightarrow> ok (contains text version)))"

text \<open>Where the running installer is: in the directory of its version already, or in an unpacked bundle.\<close>

datatype exe_place = InThisVersion | InBundle package

definition set_version :: "string \<Rightarrow> package option \<Rightarrow> install_world \<Rightarrow> install_world" where
  "set_version v p w =
     w\<lparr>versions := (case p of None \<Rightarrow> AList.delete v (versions w) | Some b \<Rightarrow> AList.update v b (versions w))\<rparr>"

definition move_bundle_to_install_path :: "install_env \<Rightarrow> exe_place \<Rightarrow> unit install_action" where
  "move_bundle_to_install_path env exe =
     (case exe of
        InThisVersion \<Rightarrow> ok ()
      | InBundle b \<Rightarrow> try_then (with_msg ''failed to create install path'' (on_io env CreateInstallDir (\<lambda>w. w))) (\<lambda>_. with_state (\<lambda>w.
          let (e, p) = move_dir env b (map_of (versions w) (this_version env))
          in steps [update_state (set_version (this_version env) p),
                    (case e of Some e \<Rightarrow> fail (''failed to move files to install path: '' @ e) | None \<Rightarrow> ok ())])))"

datatype backup_status = BackupDone string | NothingToBackup | ThisIsRollback

definition get_running_version :: "install_world \<Rightarrow> string option" where
  "get_running_version w =
     (case current_link w of None \<Rightarrow> None | Some v \<Rightarrow> if map_of (versions w) v \<noteq> None then Some v else None)"

definition backup_running_version :: "install_env \<Rightarrow> backup_status install_action" where
  "backup_running_version env = with_state (\<lambda>w.
     case get_running_version w of
       None \<Rightarrow> ok NothingToBackup
     | Some running \<Rightarrow>
         try_then (is_blacklisted env running) (\<lambda>b.
           if b then ok ThisIsRollback
           else try_then (ignore_result (on_io env RemoveBackup (\<lambda>w. w\<lparr>backup_link := None\<rparr>))) (\<lambda>_.
             try_then (with_state (\<lambda>w.
                 if backup_link w \<noteq> None then fail ''failed to backup running version for rollback''
                 else with_msg ''failed to backup running version for rollback''
                        (on_io env LinkBackup (\<lambda>w. w\<lparr>backup_link := Some running\<rparr>))))
               (\<lambda>_. ok (BackupDone running)))))"

definition preinstall :: "install_env \<Rightarrow> exe_place \<Rightarrow> backup_status install_action" where
  "preinstall env exe = try_then (move_bundle_to_install_path env exe) (\<lambda>_. backup_running_version env)"

section \<open>Installation\<close>

definition BV_CHECK_INTERVAL :: nat where "BV_CHECK_INTERVAL = 100"
definition HEALTH_CHECK_TIMEOUT :: nat where "HEALTH_CHECK_TIMEOUT = 180000"
definition PREPARE_FOR_UPDATE_TIMEOUT :: nat where "PREPARE_FOR_UPDATE_TIMEOUT = 180000"

definition request :: "(nat \<Rightarrow> string + service_status) \<Rightarrow> service_status install_action" where
  "request reply w = (reply (bv_calls w), w\<lparr>bv_calls := Suc (bv_calls w)\<rparr>)"

definition request_with_retry :: "(nat \<Rightarrow> string + service_status) \<Rightarrow> service_status install_action" where
  "request_with_retry reply = with_retry (request reply) (\<lambda>d w. w\<lparr>now_ms := now_ms w + unat d\<rparr>)"

lemma request_time: "request_with_retry reply w = (r, w') \<Longrightarrow> now_ms w \<le> now_ms w'"
proof -
  have "keeps (\<lambda>v. now_ms w \<le> now_ms v) (request_with_retry reply)"
    unfolding request_with_retry_def with_retry_def with_retry_limit_def
    by (rule keeps_selective_retry_loop) (auto simp: keeps_def request_def)
  then show "request_with_retry reply w = (r, w') \<Longrightarrow> now_ms w \<le> now_ms w'"
    using keepsD_eq [of "\<lambda>v. now_ms w \<le> now_ms v" _ w] by simp
qed

text \<open>The loop both \<open>prepare_running\<close> and \<open>health_check\<close> are: until the wanted answer or the timeout.\<close>

function wait_for_status ::
  "(nat \<Rightarrow> string + service_status) \<Rightarrow> service_status \<Rightarrow> string \<Rightarrow> nat \<Rightarrow> nat \<Rightarrow> unit install_action" where
  "wait_for_status reply wanted what timeout since w =
     (let (r, w') = request_with_retry reply w
      in if r = Inr wanted then (Inr (), w')
         else if timeout < now_ms w' - since then (Inl what, w')
         else wait_for_status reply wanted what timeout since (w'\<lparr>now_ms := now_ms w' + BV_CHECK_INTERVAL\<rparr>))"
  by pat_completeness auto
termination
  by (relation "measure (\<lambda>(reply, wanted, what, timeout, since, w). Suc (timeout + since) - now_ms w)")
     (auto simp: BV_CHECK_INTERVAL_def dest: request_time [OF sym])

declare wait_for_status.simps [simp del]

definition prepare_running :: "install_env \<Rightarrow> backup_status \<Rightarrow> unit install_action" where
  "prepare_running env backup =
     (if \<not> svc_active env then ok ()
      else case backup of
        BackupDone _ \<Rightarrow> with_state (\<lambda>w.
          wait_for_status (start_update_reply env) StatusUpdating ''prepare running BV for update failed''
            PREPARE_FOR_UPDATE_TIMEOUT (now_ms w))
      | _ \<Rightarrow> ok ())"

definition link_one :: "install_env \<Rightarrow> (string \<Rightarrow> install_world \<Rightarrow> install_world) \<Rightarrow>
    (string \<Rightarrow> install_world \<Rightarrow> install_world) \<Rightarrow> (string \<Rightarrow> install_world \<Rightarrow> bool) \<Rightarrow> string \<Rightarrow> unit install_action" where
  "link_one env take_off put present name =
     try_then (ignore_result (on_io env (RemoveLink name) (take_off name))) (\<lambda>_. with_state (\<lambda>w.
       if present name w then fail (''failed to link '' @ name)
       else with_msg (''failed to link '' @ name) (on_io env (LinkFile name) (put name))))"

definition link_bin :: "install_env \<Rightarrow> string \<Rightarrow> unit install_action" where
  "link_bin env = link_one env (\<lambda>n w. w\<lparr>system_bins := system_bins w - {n}\<rparr>) (\<lambda>n w. w\<lparr>system_bins := insert n (system_bins w)\<rparr>)
     (\<lambda>n w. n \<in> system_bins w)"

definition link_service :: "install_env \<Rightarrow> string \<Rightarrow> unit install_action" where
  "link_service env = link_one env (\<lambda>n w. w\<lparr>system_services := system_services w - {n}\<rparr>)
     (\<lambda>n w. w\<lparr>system_services := insert n (system_services w)\<rparr>) (\<lambda>n w. n \<in> system_services w)"

definition COMPLETION_FILES :: "string list" where
  "COMPLETION_FILES = [''bv.bash'', ''_bv'', ''nib.bash'', ''_nib'']"

definition link_completion :: "install_env \<Rightarrow> package \<Rightarrow> string \<Rightarrow> unit install_action" where
  "link_completion env b name =
     (if name \<in> set (package_completions b)
      then ignore_result (on_io env (LinkCompletion name) (\<lambda>w. w\<lparr>completions := insert name (completions w)\<rparr>))
      else ok ())"

definition install_this_version :: "install_env \<Rightarrow> unit install_action" where
  "install_this_version env =
     try_then (ignore_result (on_io env RemoveCurrent (\<lambda>w. w\<lparr>current_link := None\<rparr>))) (\<lambda>_.
     try_then (with_state (\<lambda>w.
         if current_link w \<noteq> None then fail ''failed to switch current version''
         else with_msg ''failed to switch current version''
                (on_io env LinkCurrent (\<lambda>w. w\<lparr>current_link := Some (this_version env)\<rparr>)))) (\<lambda>_.
     with_state (\<lambda>w.
       case map_of (versions w) (this_version env) of
         None \<Rightarrow> fail ''failed to get list of installed files in blockvisor/bin''
       | Some b \<Rightarrow> steps [
           with_msg ''failed to get list of installed files in blockvisor/bin'' (on_io env ListBins (\<lambda>w. w)),
           for_each (link_bin env) (package_bins b),
           with_msg ''failed to get list of installed files in blockvisor/services'' (on_io env ListServices (\<lambda>w. w)),
           for_each (link_service env) (package_services b),
           for_each (link_completion env b) COMPLETION_FILES])))"

text \<open>The configuration is copied into the directory the backup link names.\<close>

definition backup_and_migrate_bv_data :: "install_env \<Rightarrow> backup_status \<Rightarrow> unit install_action" where
  "backup_and_migrate_bv_data env backup =
     (case backup of
        BackupDone _ \<Rightarrow> with_state (\<lambda>w.
          case (host_config w, backup_link w) of
            (Some c, Some v) \<Rightarrow>
              with_msg ''failed to copy bv config'' (on_io env CopyConfig
                (\<lambda>w. w\<lparr>versions := map_entry_at v (\<lambda>b. b\<lparr>package_config := Some c\<rparr>) (versions w)\<rparr>))
          | _ \<Rightarrow> fail ''failed to copy bv config'')
      | _ \<Rightarrow> ok ())"

definition restart_and_reenable_blockvisor :: "install_env \<Rightarrow> backup_status \<Rightarrow> unit install_action" where
  "restart_and_reenable_blockvisor env backup = steps [
     ignore_result (svc env SvcReload),
     with_msg ''Failed to stop blockvisor service'' (svc env SvcStop),
     sleep_ms 2000,
     with_msg ''Failed to backup and migrate blockvisor data'' (backup_and_migrate_bv_data env backup),
     sleep_ms 1000,
     with_msg ''Failed to start blockvisor service with new version'' (svc env SvcStart),
     with_msg ''Failed to enable blockvisor service'' (svc env SvcEnable)]"

definition health_check :: "install_env \<Rightarrow> unit install_action" where
  "health_check env = with_state (\<lambda>w.
     wait_for_status (health_reply env) StatusOk ''installed BV health check failed'' HEALTH_CHECK_TIMEOUT (now_ms w))"

definition install :: "install_env \<Rightarrow> backup_status \<Rightarrow> unit install_action" where
  "install env backup = steps [
     prepare_running env backup, install_this_version env, restart_and_reenable_blockvisor env backup, health_check env]"

definition cleanup_entry :: "install_env \<Rightarrow> string \<Rightarrow> (install_world \<Rightarrow> install_world) \<Rightarrow> unit install_action" where
  "cleanup_entry env name f = ignore_result (on_io env (RemoveEntry name) f)"

text \<open>The entries of the installation directory are the versions, the links and the lock file.\<close>

definition install_cleanup :: "install_env \<Rightarrow> unit install_action" where
  "install_cleanup env =
     try_then (with_msg ''failed to get cleanup list'' (on_io env ListInstallDir (\<lambda>w. w))) (\<lambda>_. with_state (\<lambda>w. steps [
       for_each (\<lambda>v. if v = this_version env then ok ()
                     else cleanup_entry env v (\<lambda>w. w\<lparr>versions := AList.delete v (versions w)\<rparr>)) (map fst (versions w)),
       cleanup_entry env ''backup'' (\<lambda>w. w\<lparr>backup_link := None\<rparr>),
       cleanup_entry env ''.lock'' (\<lambda>w. w\<lparr>install_lock := False\<rparr>)]))"

section \<open>Failure\<close>

datatype install_error =
    AlreadyRunning
  | RefusedVersion
  | NotPossible string
  | NotBlacklisted string
  | RolledBack string
  | RollbackFailed string
  | NeedsManualFix string
  | InstallationFailed string

definition blacklist_this_version :: "install_env \<Rightarrow> unit install_action" where
  "blacklist_this_version env =
     on_io env AppendBlacklist (\<lambda>w. w\<lparr>blacklist := Some (unwrap_or (blacklist w) [] @ this_version env @ [CHR 0x0A])\<rparr>)"

definition rollback_bv_data :: "install_env \<Rightarrow> unit install_action" where
  "rollback_bv_data env = with_state (\<lambda>w.
     case backup_link w of
       None \<Rightarrow> ok ()
     | Some v \<Rightarrow>
         (case map_of (versions w) v of
            None \<Rightarrow> ok ()
          | Some b \<Rightarrow>
              (case package_config b of
                 None \<Rightarrow> ok ()
               | Some c \<Rightarrow> on_io env RestoreConfig (\<lambda>w. w\<lparr>host_config := Some c\<rparr>))))"

text \<open>A process is started and waited for: it could not be launched, or it ends with an exit code or a signal.\<close>

type_synonym launch_fn = "string \<Rightarrow> install_world \<Rightarrow> (string + nat option) \<times> install_world"

definition run_backup_installer :: "launch_fn \<Rightarrow> unit install_action" where
  "run_backup_installer launch = with_state (\<lambda>w.
     case backup_link w of
       None \<Rightarrow> fail ''no backup found''
     | Some v \<Rightarrow>
         (case map_of (versions w) v of
            None \<Rightarrow> fail ''no backup found''
          | Some b \<Rightarrow>
              if \<not> package_installer b then fail ''no backup found''
              else try_then (with_msg ''failed to launch backup installer'' (launch v)) (\<lambda>code.
                case code of
                  None \<Rightarrow> fail ''failed to get backup installer exit status code''
                | Some n \<Rightarrow> if n = 0 then ok () else fail (''backup installer failed with exit code '' @ show_nat n))))"

definition rollback :: "install_env \<Rightarrow> launch_fn \<Rightarrow> unit install_action" where
  "rollback env launch = steps [
     with_msg ''failed to stop broken installation - can't continue rollback'' (svc env SvcStop),
     sleep_ms 2000,
     with_msg ''failed to rollback BV data'' (rollback_bv_data env),
     with_state (\<lambda>w. if root_lock w then ignore_result (on_io env RemoveRootLock (\<lambda>w. w\<lparr>root_lock := False\<rparr>)) else ok ()),
     run_backup_installer launch]"

definition handle_broken_installation ::
  "install_env \<Rightarrow> launch_fn \<Rightarrow> backup_status \<Rightarrow> string \<Rightarrow> (install_world, install_error, unit) action" where
  "handle_broken_installation env launch backup err =
     try_then (map_error NotBlacklisted (blacklist_this_version env)) (\<lambda>_.
       case backup of
         BackupDone _ \<Rightarrow> try_then (map_error RollbackFailed (rollback env launch)) (\<lambda>_. fail (RolledBack err))
       | ThisIsRollback \<Rightarrow> fail (NeedsManualFix err)
       | NothingToBackup \<Rightarrow> fail (InstallationFailed err))"

definition install_run :: "install_env \<Rightarrow> launch_fn \<Rightarrow> exe_place \<Rightarrow> (install_world, install_error, unit) action" where
  "install_run env launch exe =
     try_then (map_error NotPossible (is_blacklisted env (this_version env))) (\<lambda>b.
     if b then fail RefusedVersion
     else try_then (case host_meets_requirements env of Inl e \<Rightarrow> fail (NotPossible e) | Inr _ \<Rightarrow> ok ()) (\<lambda>_.
       try_then (map_error NotPossible (preinstall env exe)) (\<lambda>backup.
         match_result (install env backup) (handle_broken_installation env launch backup)
           (\<lambda>_. ignore_result (install_cleanup env)))))"

section \<open>The program\<close>

text \<open>\<open>LockFile::lock\<close>, the run, and the drop of the lock file.\<close>

definition acquire_lock :: "install_env \<Rightarrow> (install_world, install_error, unit) action" where
  "acquire_lock env = with_state (\<lambda>w.
     if install_lock w then fail AlreadyRunning
     else map_error NotPossible (on_io env CreateLock (\<lambda>w. w\<lparr>install_lock := True\<rparr>)))"

definition installer_main :: "install_env \<Rightarrow> launch_fn \<Rightarrow> exe_place \<Rightarrow> (install_world, install_error, unit) action" where
  "installer_main env launch exe =
     try_then (acquire_lock env) (\<lambda>_ w.
       let (r, t) = (case config_error env of
              Some e \<Rightarrow> (Inl (NotPossible e), w)
            | None \<Rightarrow> install_run env launch exe w)
       in (r, t\<lparr>install_lock := False\<rparr>))"

text \<open>
  The installer of each version is this program. A failing one starts the installer of the version
  before it; \<open>depth\<close> bounds how many there are.
\<close>

fun installer_process :: "(string \<Rightarrow> install_env) \<Rightarrow> nat \<Rightarrow> launch_fn" where
  "installer_process envs 0 version w = (Inl ''not launched'', w)"
| "installer_process envs (Suc depth) version w =
     (let (r, t) = installer_main (envs version) (installer_process envs depth) InThisVersion w
      in (Inr (Some (case r of Inl _ \<Rightarrow> 1 | Inr _ \<Rightarrow> 0)), t))"

section \<open>What the operations keep\<close>

lemma keeps_on_io [keeps_rules]: "(\<And>w. I w \<Longrightarrow> I (f w)) \<Longrightarrow> keeps I (on_io env op f)"
  by (simp add: on_io_def keeps_def split: option.split)

lemma keeps_with_msg [keeps_rules]: "keeps I m \<Longrightarrow> keeps I (with_msg what m)"
  by (simp add: with_msg_def keeps_map_error)

lemma keeps_svc [keeps_rules]: "(\<And>w cs. I w \<Longrightarrow> I (w\<lparr>svc_calls := cs\<rparr>)) \<Longrightarrow> keeps I (svc env c)"
  unfolding svc_def by (intro keeps_rules) simp_all

lemma keeps_sleep [keeps_rules]: "(\<And>w n. I w \<Longrightarrow> I (w\<lparr>now_ms := n\<rparr>)) \<Longrightarrow> keeps I (sleep_ms d)"
  unfolding sleep_ms_def by (intro keeps_rules) simp_all

lemma keeps_request [keeps_rules]:
  assumes "\<And>w n. I w \<Longrightarrow> I (w\<lparr>now_ms := n\<rparr>)" and "\<And>w n. I w \<Longrightarrow> I (w\<lparr>bv_calls := n\<rparr>)"
  shows "keeps I (request_with_retry reply)"
  unfolding request_with_retry_def with_retry_def with_retry_limit_def
  using assms by (intro keeps_selective_retry_loop) (simp_all add: keeps_def request_def)

lemma keeps_wait [keeps_rules]:
  assumes "\<And>w n. I w \<Longrightarrow> I (w\<lparr>now_ms := n\<rparr>)" and "\<And>w n. I w \<Longrightarrow> I (w\<lparr>bv_calls := n\<rparr>)"
  shows "keeps I (wait_for_status reply wanted what timeout since)"
proof (rule keepsI)
  fix w assume "I w"
  then show "I (snd (wait_for_status reply wanted what timeout since w))"
  proof (induction reply wanted what timeout since w rule: wait_for_status.induct)
    case (1 reply wanted what timeout since w)
    obtain r w' where r: "request_with_retry reply w = (r, w')" by (cases "request_with_retry reply w")
    have "I w'"
      using keepsD_eq [OF keeps_request [OF assms] 1(2) r] .
    with 1(1) [OF r [symmetric] refl] assms(1) show ?case
      by (subst wait_for_status.simps) (simp add: r)
  qed
qed

lemmas install_unfold = install_def prepare_running_def install_this_version_def link_bin_def link_service_def link_one_def
  link_completion_def restart_and_reenable_blockvisor_def backup_and_migrate_bv_data_def health_check_def steps_simps prod.case

definition guarded :: "string option \<Rightarrow> install_world \<Rightarrow> bool" where
  "guarded b w \<longleftrightarrow> install_lock w \<and> blacklist w = b"

lemma install_keeps: "keeps (guarded b) (install env backup)"
proof (cases backup)
  case (BackupDone v)
  then show ?thesis
    unfolding install_unfold by (simp only: backup_status.case) (intro keeps_rules; simp add: guarded_def)
next
  case NothingToBackup
  then show ?thesis
    unfolding install_unfold by (simp only: backup_status.case) (intro keeps_rules; simp add: guarded_def)
next
  case ThisIsRollback
  then show ?thesis
    unfolding install_unfold by (simp only: backup_status.case) (intro keeps_rules; simp add: guarded_def)
qed

lemma preinstall_keeps: "keeps (guarded b) (preinstall env exe)"
proof -
  have "keeps (guarded b) (move_bundle_to_install_path env exe)"
    by (cases exe; simp add: move_bundle_to_install_path_def case_prod_beta)
       (intro keeps_rules; simp add: guarded_def set_version_def)+
  moreover have "keeps (guarded b) (backup_running_version env)"
    unfolding backup_running_version_def is_blacklisted_def by (intro keeps_rules) (simp_all add: guarded_def)
  ultimately show ?thesis
    unfolding preinstall_def by (intro keeps_rules)
qed

section \<open>A run of the installer\<close>

lemma install_run_cases:
  assumes "install_run env launch exe w = (r, t)"
  obtains (refused) "r = Inl RefusedVersion" and "t = w" and "is_blacklisted env (this_version env) w = (Inr True, w)"
  | (impossible) e where "r = Inl (NotPossible e)"
  | (installed) backup u v where "is_blacklisted env (this_version env) w = (Inr False, w)"
      and "preinstall env exe w = (Inr backup, u)" and "install env backup u = (Inr (), v)"
      and "r = Inr ()" and "t = snd (install_cleanup env v)"
  | (failed) backup u err v where "preinstall env exe w = (Inr backup, u)" and "install env backup u = (Inl err, v)"
      and "handle_broken_installation env launch backup err v = (r, t)"
proof -
  have pure: "is_blacklisted env (this_version env) w = (q, w') \<Longrightarrow> w' = w" for q w'
    by (auto simp: is_blacklisted_def split: option.splits)
  show thesis
    using assms that pure
    by (auto simp: install_run_def try_then_def map_error_def match_result_def split: prod.splits sum.splits if_splits)
qed

lemma guarded_after: "keeps (guarded b) m \<Longrightarrow> guarded b w \<Longrightarrow> m w = (r, t) \<Longrightarrow> guarded b t"
  by (rule keepsD_eq)

text \<open>While the lock file is there, no installer gets anywhere.\<close>

lemma locked_installer:
  assumes "install_lock w"
  shows "\<exists>r. installer_process envs n v w = (r, w) \<and> r \<noteq> Inr (Some 0)"
  using assms by (cases n) (simp_all add: installer_main_def acquire_lock_def try_then_def)

lemma locked_backup_installer:
  assumes "install_lock w"
  shows "\<exists>e. run_backup_installer (installer_process envs n) w = (Inl e, w)"
proof (cases "backup_link w")
  case (Some v)
  obtain r where "installer_process envs n v w = (r, w)" "r \<noteq> Inr (Some 0)"
    using locked_installer [OF assms] by blast
  with Some show ?thesis
    by (cases r) (auto simp: run_backup_installer_def with_msg_def map_error_def try_then_def split: option.split)
qed (simp add: run_backup_installer_def)

lemma locked_rollback:
  assumes "install_lock w" and "rollback env (installer_process envs n) w = (r, t)"
  shows "(\<exists>e. r = Inl e) \<and> blacklist t = blacklist w \<and> last (svc_calls t) = SvcStop"
proof -
  let ?I = "\<lambda>u. install_lock u \<and> blacklist u = blacklist w \<and> last (svc_calls u) = SvcStop"
  let ?stop = "with_msg ''failed to stop broken installation - can't continue rollback'' (svc env SvcStop)"
  let ?backup_run = "run_backup_installer (installer_process envs n)"
  let ?rest = "steps [sleep_ms 2000, with_msg ''failed to rollback BV data'' (rollback_bv_data env),
     with_state (\<lambda>w. if root_lock w then ignore_result (on_io env RemoveRootLock (\<lambda>w. w\<lparr>root_lock := False\<rparr>)) else ok ())]"
  have parts: "rollback env (installer_process envs n) = try_then ?stop (\<lambda>_. try_then ?rest (\<lambda>_. steps [?backup_run]))"
    by (simp add: rollback_def try_then_assoc)
  obtain q u where u: "?stop w = (q, u)" by (cases "?stop w")
  with assms(1) have "?I u"
    by (auto simp: with_msg_def svc_def try_then_def map_error_def split: option.splits)
  have "keeps ?I ?rest"
    unfolding rollback_bv_data_def steps_simps by (intro keeps_rules) simp_all
  obtain q' v where rest: "?rest u = (q', v)" by (cases "?rest u")
  with \<open>keeps ?I ?rest\<close> \<open>?I u\<close> have "?I v" by (rule keepsD_eq)
  from locked_backup_installer [of v envs n] \<open>?I v\<close> obtain e where "?backup_run v = (Inl e, v)" by blast
  with u rest assms(2) \<open>?I u\<close> \<open>?I v\<close> show ?thesis
    unfolding parts by (cases q; cases q') (auto simp: try_then_def)
qed

lemma locked_broken:
  assumes "install_lock w" and "handle_broken_installation env (installer_process envs n) backup err w = (r, t)"
  shows "(\<forall>e. r \<noteq> Inl (RolledBack e)) \<and> (\<forall>m. r = Inl (RollbackFailed m) \<longrightarrow>
     last (svc_calls t) = SvcStop \<and> (\<exists>text. blacklist t = Some text \<and> contains text (this_version env)))"
proof -
  obtain q u where u: "blacklist_this_version env w = (q, u)" by (cases "blacklist_this_version env w")
  show ?thesis
  proof (cases q)
    case (Inl e)
    with u assms(2) show ?thesis
      by (auto simp: handle_broken_installation_def try_then_def map_error_def)
  next
    case (Inr x)
    with u assms(1) have lock: "install_lock u" and listed: "\<exists>text. blacklist u = Some text \<and> contains text (this_version env)"
      by (auto simp: blacklist_this_version_def on_io_def contains_def sublist_appendI split: option.splits)
    obtain q' v where v: "rollback env (installer_process envs n) u = (q', v)"
      by (cases "rollback env (installer_process envs n) u")
    from locked_rollback [OF lock v] listed u v Inr assms(2) show ?thesis
      by (cases backup) (auto simp: handle_broken_installation_def try_then_def map_error_def)
  qed
qed

text \<open>
  C31: A failed installation never reports that it rolled back: the backup installer it starts finds the
  lock file of the installer that waits for it and gives up, because the rollback removes a lock file
  of the same name from another directory. When the rollback fails, the service has been stopped and
  the version that is installed is on the blacklist.
\<close>

theorem rollback_never_succeeds:
  assumes "installer_main env (installer_process envs n) exe w = (r, t)"
  shows "(\<forall>e. r \<noteq> Inl (RolledBack e)) \<and> (\<forall>m. r = Inl (RollbackFailed m) \<longrightarrow>
     last (svc_calls t) = SvcStop \<and> (\<exists>text. blacklist t = Some text \<and> contains text (this_version env)))"
proof -
  obtain q u where u: "acquire_lock env w = (q, u)" by (cases "acquire_lock env w")
  show ?thesis
  proof (cases q)
    case (Inl e)
    with u assms show ?thesis
      by (auto simp: installer_main_def acquire_lock_def on_io_def map_error_def try_then_def split: if_splits option.splits)
  next
    case (Inr x)
    then have "guarded (blacklist u) u"
      using u by (auto simp: acquire_lock_def on_io_def map_error_def guarded_def split: if_splits option.splits)
    show ?thesis
    proof (cases "config_error env")
      case (Some e)
      with u Inr assms show ?thesis by (auto simp: installer_main_def try_then_def)
    next
      case None
      obtain v where v: "install_run env (installer_process envs n) exe u = (r, v)" and t: "t = v\<lparr>install_lock := False\<rparr>"
        using assms u Inr None by (auto simp: installer_main_def try_then_def split: prod.splits)
      from v show ?thesis
      proof (cases rule: install_run_cases)
        case (failed backup a err b)
        from guarded_after [OF preinstall_keeps \<open>guarded (blacklist u) u\<close> failed(1)]
        have "install_lock b"
          using guarded_after [OF install_keeps _ failed(2)] by (auto simp: guarded_def)
        from locked_broken [OF this failed(3)] t show ?thesis by simp
      qed simp_all
    qed
  qed
qed

section \<open>Successful and refused installations\<close>

lemma link_one_Inr:
  assumes "link_bin env n w = (Inr (), t)"
  shows "t = w\<lparr>system_bins := insert n (system_bins w)\<rparr>"
  using assms
  by (auto simp: link_bin_def link_one_def on_io_def with_msg_def map_error_def try_then_def split: option.splits if_splits)

lemma link_service_Inr:
  assumes "link_service env n w = (Inr (), t)"
  shows "t = w\<lparr>system_services := insert n (system_services w)\<rparr>"
  using assms
  by (auto simp: link_service_def link_one_def on_io_def with_msg_def map_error_def try_then_def split: option.splits if_splits)

lemma link_bins_Inr:
  "for_each (link_bin env) ns w = (Inr (), t) \<Longrightarrow> t = w\<lparr>system_bins := set ns \<union> system_bins w\<rparr>"
proof (induction ns arbitrary: w)
  case (Cons n ns)
  then have "for_each (link_bin env) ns (w\<lparr>system_bins := insert n (system_bins w)\<rparr>) = (Inr (), t)"
    by (auto simp: try_then_Inr_iff dest!: link_one_Inr)
  from Cons.IH [OF this] show ?case by simp
qed simp

lemma link_services_Inr:
  "for_each (link_service env) ns w = (Inr (), t) \<Longrightarrow> t = w\<lparr>system_services := set ns \<union> system_services w\<rparr>"
proof (induction ns arbitrary: w)
  case (Cons n ns)
  then have "for_each (link_service env) ns (w\<lparr>system_services := insert n (system_services w)\<rparr>) = (Inr (), t)"
    by (auto simp: try_then_Inr_iff dest!: link_service_Inr)
  from Cons.IH [OF this] show ?case by simp
qed simp

text \<open>The version \<open>v\<close> is current, and its programs and services are linked into the system.\<close>

definition in_place :: "string \<Rightarrow> install_world \<Rightarrow> bool" where
  "in_place v w \<longleftrightarrow> current_link w = Some v \<and>
     (\<exists>p. map_of (versions w) v = Some p \<and> set (package_bins p) \<subseteq> system_bins w \<and> set (package_services p) \<subseteq> system_services w)"

lemma on_io_same: "on_io env op (\<lambda>w. w) w = (r, t) \<Longrightarrow> t = w"
  by (auto simp: on_io_def split: option.splits)

lemma with_msg_Inr: "with_msg what m w = (Inr x, t) \<longleftrightarrow> m w = (Inr x, t)"
  by (simp add: with_msg_def)

lemma completions_in_place: "keeps (in_place v) (for_each (link_completion env p) ns)"
  unfolding link_completion_def by (intro keeps_rules) (simp_all add: in_place_def)

lemma install_this_version_in_place:
  assumes "install_this_version env w = (Inr (), t)"
  shows "in_place (this_version env) t"
proof -
  let ?v = "this_version env"
  from assms obtain u p a b where u: "current_link u = Some ?v" and p: "map_of (versions u) ?v = Some p"
    and a: "for_each (link_bin env) (package_bins p) u = (Inr (), a)"
    and b: "for_each (link_service env) (package_services p) a = (Inr (), b)"
    and t: "for_each (link_completion env p) COMPLETION_FILES b = (Inr (), t)"
  proof -
    have same: "on_io env op (\<lambda>w. w) w = (Inr (), w') \<longleftrightarrow> io_error env op = None \<and> w' = w" for op w w'
      by (auto simp: on_io_def split: option.splits)
    let ?w = "(snd (on_io env RemoveCurrent (\<lambda>w. w\<lparr>current_link := None\<rparr>) w))\<lparr>current_link := Some ?v\<rparr>"
    from assms obtain q where "map_of (versions ?w) ?v = Some q"
      "\<exists>a b. for_each (link_bin env) (package_bins q) ?w = (Inr (), a) \<and> for_each (link_service env) (package_services q) a = (Inr (), b) \<and>
        for_each (link_completion env q) COMPLETION_FILES b = (Inr (), t)"
      unfolding install_this_version_def
      by (cases "io_error env LinkCurrent"; cases "map_of (versions w) ?v"; cases "io_error env RemoveCurrent")
         (auto simp: try_then_Inr_iff with_msg_Inr same on_io_def [of env RemoveCurrent] on_io_def [of env LinkCurrent]
           split: if_splits)
    with that [of ?w q] show thesis by auto
  qed
  let ?u = "u\<lparr>system_bins := set (package_bins p) \<union> system_bins u, system_services := set (package_services p) \<union> system_services u\<rparr>"
  from t link_bins_Inr [OF a] link_services_Inr [OF b] have "for_each (link_completion env p) COMPLETION_FILES ?u = (Inr (), t)"
    by simp
  moreover have "in_place ?v ?u"
    using u p by (simp add: in_place_def)
  ultimately show ?thesis
    using keepsD_eq [OF completions_in_place] by blast
qed

lemma restart_Inr:
  assumes "restart_and_reenable_blockvisor env backup w = (Inr (), t)"
  shows "\<exists>before. svc_calls t = before @ [SvcReload, SvcStop, SvcStart, SvcEnable]"
proof -
  have svc: "svc_calls b = svc_calls a @ [c]" if "svc env c a = (r, b)" for r c a b
    using that by (auto simp: svc_def try_then_def split: option.splits)
  have data: "svc_calls b = svc_calls a" if "backup_and_migrate_bv_data env backup a = (r, b)" for r a b
    using that by (auto simp: backup_and_migrate_bv_data_def on_io_def with_msg_def map_error_def
        split: backup_status.splits option.splits)
  have reload: "svc_calls (snd (svc env SvcReload a)) = svc_calls a @ [SvcReload]" for a
    using svc [of SvcReload a] by (cases "svc env SvcReload a") simp
  from assms show ?thesis
    by (auto simp: restart_and_reenable_blockvisor_def try_then_Inr_iff with_msg_Inr sleep_ms_def reload dest!: svc data)
qed

lemma restart_in_place: "keeps (in_place v) (restart_and_reenable_blockvisor env backup)"
proof -
  have "keeps (in_place v) (backup_and_migrate_bv_data env backup)"
    by (cases backup; simp add: backup_and_migrate_bv_data_def)
       (intro keeps_rules; auto simp: in_place_def map_of_map_entry_at)+
  then show ?thesis
    unfolding restart_and_reenable_blockvisor_def steps_simps by (intro keeps_rules) (simp_all add: in_place_def)
qed

lemma wait_reached:
  "wait_for_status reply wanted what timeout since w = (Inr (), t) \<Longrightarrow> \<exists>k. reply k = Inr wanted"
proof (induction reply wanted what timeout since w rule: wait_for_status.induct)
  case (1 reply wanted what timeout since w)
  obtain r w' where r: "request_with_retry reply w = (r, w')" by (cases "request_with_retry reply w")
  show ?case
  proof (cases "r = Inr wanted")
    case True
    with r have "\<exists>s. request reply s = (Inr wanted, w')"
      unfolding request_with_retry_def with_retry_def with_retry_limit_def by (auto dest: selective_retry_loop_Inr)
    then show ?thesis by (auto simp: request_def)
  next
    case False
    with 1(2) r have "\<not> timeout < now_ms w' - since"
      and "wait_for_status reply wanted what timeout since (w'\<lparr>now_ms := now_ms w' + BV_CHECK_INTERVAL\<rparr>) = (Inr (), t)"
      by (subst (asm) wait_for_status.simps; simp split: if_splits)+
    with 1(1) [OF r [symmetric] refl False] show ?thesis by blast
  qed
qed

lemma health_keeps: "keeps (\<lambda>w. in_place v w \<and> svc_calls w = cs) (health_check env)"
  unfolding health_check_def by (intro keeps_rules) (simp_all add: in_place_def)

lemma cleanup_keeps: "keeps (\<lambda>w. in_place (this_version env) w \<and> svc_calls w = cs) (install_cleanup env)"
proof -
  have entry: "keeps I (cleanup_entry env n f)" if "\<And>w. I w \<Longrightarrow> I (f w)" for I n f
    unfolding cleanup_entry_def using that by (intro keeps_rules)
  have "keeps (\<lambda>w. in_place (this_version env) w \<and> svc_calls w = cs)
     (if v = this_version env then ok () else cleanup_entry env v (\<lambda>w. w\<lparr>versions := AList.delete v (versions w)\<rparr>))" for v
    by (cases "v = this_version env") (auto simp: in_place_def delete_conv' intro!: keeps_rules entry)
  then have each: "keeps (\<lambda>w. in_place (this_version env) w \<and> svc_calls w = cs)
     (for_each (\<lambda>v. if v = this_version env then ok () else cleanup_entry env v (\<lambda>w. w\<lparr>versions := AList.delete v (versions w)\<rparr>)) vs)" for vs
    by (rule keeps_for_each)
  show ?thesis
    unfolding install_cleanup_def steps_simps
    by (intro keeps_try_then keeps_with_msg keeps_on_io keeps_with_state keeps_ok each entry) (auto simp: in_place_def)
qed

lemma install_Inr:
  assumes "install env backup w = (Inr (), t)"
  shows "in_place (this_version env) t \<and> (\<exists>before. svc_calls t = before @ [SvcReload, SvcStop, SvcStart, SvcEnable]) \<and>
    (\<exists>k. health_reply env k = Inr StatusOk)"
proof -
  from assms obtain u v a where u: "install_this_version env a = (Inr (), u)"
    and v: "restart_and_reenable_blockvisor env backup u = (Inr (), v)" and t: "health_check env v = (Inr (), t)"
    by (auto simp: install_def try_then_Inr_iff)
  from keepsD_eq [OF restart_in_place install_this_version_in_place [OF u] v] have "in_place (this_version env) v" .
  with keepsD_eq [OF health_keeps [of "this_version env" "svc_calls v"] _ t] restart_Inr [OF v] t show ?thesis
    by (auto simp: health_check_def dest: wait_reached)
qed

text \<open>
  C32: An installer that ends with success was not on the blacklist, has made its version the current one
  with all its programs and services linked into the system, has stopped, started and enabled the
  service in this order, has seen it answer that it is well, and has given the lock back.
\<close>

theorem installed_version_is_in_place:
  assumes "installer_main env launch exe w = (Inr (), t)"
  shows "in_place (this_version env) t \<and> (\<exists>before. svc_calls t = before @ [SvcReload, SvcStop, SvcStart, SvcEnable]) \<and>
    (\<exists>k. health_reply env k = Inr StatusOk) \<and> (\<forall>text. blacklist w = Some text \<longrightarrow> \<not> contains text (this_version env)) \<and>
    \<not> install_lock t"
proof -
  obtain u v where u: "acquire_lock env w = (Inr (), u)" and v: "install_run env launch exe u = (Inr (), v)"
    and t: "t = v\<lparr>install_lock := False\<rparr>"
  proof -
    from assms obtain u where u: "acquire_lock env w = (Inr (), u)"
      and body: "(let (r, t) = (case config_error env of Some e \<Rightarrow> (Inl (NotPossible e), u) | None \<Rightarrow> install_run env launch exe u)
        in (r, t\<lparr>install_lock := False\<rparr>)) = (Inr (), t)"
      by (auto simp: installer_main_def try_then_Inr_iff)
    with that show thesis
      by (cases "config_error env"; cases "install_run env launch exe u") auto
  qed
  have black: "blacklist u = blacklist w"
    using u by (auto simp: acquire_lock_def on_io_def split: if_splits option.splits)
  from v show ?thesis
  proof (cases rule: install_run_cases)
    case (installed backup a b)
    obtain q where "install_cleanup env b = (q, v)"
      using installed(5) by (cases "install_cleanup env b") simp
    from keepsD_eq [OF cleanup_keeps [of env "svc_calls b"] _ this] install_Inr [OF installed(3)]
    have "in_place (this_version env) v" "svc_calls v = svc_calls b" by simp_all
    with install_Inr [OF installed(3)] t installed(1) black show ?thesis
      by (auto simp: in_place_def is_blacklisted_def split: option.splits)
  next
    case (failed backup a err b)
    then show ?thesis
      by (auto simp: handle_broken_installation_def try_then_def split: prod.splits sum.splits backup_status.splits)
  qed simp_all
qed

lemma blacklisted_is_refused:
  assumes "blacklist w = Some text" and "contains text (this_version env)" and "\<not> install_lock w"
    and "io_error env ReadBlacklist = None" and "io_error env CreateLock = None" and "config_error env = None"
  shows "installer_main env launch exe w = (Inl RefusedVersion, w)"
  using assms
  by (cases w) (simp add: installer_main_def acquire_lock_def on_io_def map_error_def try_then_def install_run_def is_blacklisted_def)

text \<open>
  C33: After a first installation failed, every version whose number occurs within the failed one is
  refused as well: the blacklist is searched as text.
\<close>

theorem failed_version_blocks_others:
  assumes "installer_main env launch exe w = (Inl (InstallationFailed e), t)"
    and "contains (this_version env) (this_version env')"
    and "io_error env' ReadBlacklist = None" and "io_error env' CreateLock = None" and "config_error env' = None"
  shows "installer_main env' launch' exe' t = (Inl RefusedVersion, t)"
proof -
  obtain u v where v: "install_run env launch exe u = (Inl (InstallationFailed e), v)" and t: "t = v\<lparr>install_lock := False\<rparr>"
    using assms(1)
    by (auto simp: installer_main_def acquire_lock_def on_io_def map_error_def try_then_def
        split: prod.splits option.splits if_splits)
  from v obtain listed where "blacklist t = Some listed" "contains listed (this_version env)"
  proof (cases rule: install_run_cases)
    case (failed backup a err b)
    then obtain old where "blacklist v = Some (old @ this_version env @ [CHR 0x0A])"
      by (auto simp: handle_broken_installation_def blacklist_this_version_def on_io_def try_then_def map_error_def
          split: prod.splits sum.splits backup_status.splits option.splits)
    with t that show ?thesis by (simp add: contains_def sublist_appendI)
  qed simp_all
  moreover from this(2) assms(2) have "contains listed (this_version env')"
    unfolding contains_def by (rule sublist_order.order_trans [rotated])
  ultimately show ?thesis
    using blacklisted_is_refused [of t _ env'] assms(3-5) t by simp
qed

section \<open>Examples\<close>

text \<open>Version 1.1.10 does not start; the others do.\<close>

definition example_install_env :: "string \<Rightarrow> install_env" where
  "example_install_env v =
     \<lparr>this_version = v, io_error = (\<lambda>_. None), config_error = None, host_meets_requirements = Inr (),
      move_dir = (\<lambda>b _. (None, Some b)), svc_result = (\<lambda>_ c. if c = SvcStart \<and> v = ''1.1.10'' then Some ''exit 1'' else None),
      svc_active = True, start_update_reply = (\<lambda>_. Inr StatusUpdating), health_reply = (\<lambda>_. Inr StatusOk)\<rparr>"

definition example_package :: package where
  "example_package =
     \<lparr>package_installer = True, package_bins = [''bv'', ''nib''], package_services = [''blockvisor.service''],
      package_completions = [''_bv''], package_config = None\<rparr>"

definition example_host :: "string option \<Rightarrow> install_world" where
  "example_host v =
     \<lparr>versions = (case v of None \<Rightarrow> [] | Some v \<Rightarrow> [(v, example_package)]), current_link = v, backup_link = None, blacklist = None,
      install_lock = False, root_lock = False, system_bins = {}, system_services = {}, completions = {}, host_config = Some ''{}'',
      svc_calls = [], now_ms = 0, bv_calls = 0\<rparr>"

lemmas run_defs = installer_main_def acquire_lock_def install_run_def is_blacklisted_def preinstall_def move_bundle_to_install_path_def
  backup_running_version_def get_running_version_def install_unfold on_io_def with_msg_def map_error_def svc_def sleep_ms_def
  try_then_def match_result_def set_version_def COMPLETION_FILES_def wait_for_status.simps request_with_retry_def request_def
  with_retry_def with_retry_limit_def selective_retry_loop.simps handle_broken_installation_def blacklist_this_version_def rollback_def rollback_bv_data_def
  run_backup_installer_def map_entry_at_def install_cleanup_def cleanup_entry_def example_install_env_def example_host_def
  example_package_def

lemma show_one: "show_nat (Suc 0) = ''1''"
  by code_simp

lemma example_upgrade:
  "fst (installer_main (example_install_env ''1.1.10'') (installer_process example_install_env 2) (InBundle example_package)
      (example_host (Some ''1.0.0''))) = Inl (RollbackFailed ''backup installer failed with exit code 1'')"
  by (simp add: run_defs numeral_2_eq_2 show_one)

theorem rollback_never_succeeds_witness:
  "case installer_main (example_install_env ''1.1.10'') (installer_process example_install_env 2) (InBundle example_package)
      (example_host (Some ''1.0.0'')) of (r, t) \<Rightarrow>
     r = Inl (RollbackFailed ''backup installer failed with exit code 1'') \<and> last (svc_calls t) = SvcStop"
proof -
  obtain t where run: "installer_main (example_install_env ''1.1.10'') (installer_process example_install_env 2) (InBundle example_package)
      (example_host (Some ''1.0.0'')) = (Inl (RollbackFailed ''backup installer failed with exit code 1''), t)"
    using example_upgrade by (metis prod.collapse)
  from rollback_never_succeeds [OF this] run show ?thesis by simp
qed

lemma example_install:
  "fst (installer_main (example_install_env ''1.1.0'') (installer_process example_install_env 2) (InBundle example_package)
      (example_host (Some ''1.0.0''))) = Inr ()"
  by (simp add: run_defs)

theorem installed_version_is_in_place_witness:
  "in_place ''1.1.0'' (snd (installer_main (example_install_env ''1.1.0'') (installer_process example_install_env 2) (InBundle example_package)
      (example_host (Some ''1.0.0''))))"
proof -
  obtain t where run: "installer_main (example_install_env ''1.1.0'') (installer_process example_install_env 2) (InBundle example_package)
      (example_host (Some ''1.0.0'')) = (Inr (), t)"
    using example_install by (metis prod.collapse)
  moreover have "this_version (example_install_env ''1.1.0'') = ''1.1.0''"
    by (simp add: example_install_env_def)
  ultimately show ?thesis
    using installed_version_is_in_place [OF run] by simp
qed

lemma example_first_install:
  "fst (installer_main (example_install_env ''1.1.10'') (installer_process example_install_env 2) (InBundle example_package)
      (example_host None)) = Inl (InstallationFailed ''Failed to start blockvisor service with new version: exit 1'')"
  by (simp add: run_defs)

theorem failed_version_blocks_others_witness:
  "case installer_main (example_install_env ''1.1.10'') (installer_process example_install_env 2) (InBundle example_package) (example_host None) of
     (_, t) \<Rightarrow> fst (installer_main (example_install_env ''1.1.1'') (installer_process example_install_env 2) (InBundle example_package) t) =
       Inl RefusedVersion"
proof -
  obtain t where run: "installer_main (example_install_env ''1.1.10'') (installer_process example_install_env 2) (InBundle example_package)
      (example_host None) = (Inl (InstallationFailed ''Failed to start blockvisor service with new version: exit 1''), t)"
    using example_first_install by (metis prod.collapse)
  have "contains (this_version (example_install_env ''1.1.10'')) (this_version (example_install_env ''1.1.1''))"
    unfolding example_install_env_def by code_simp
  from failed_version_blocks_others [OF run this] run show ?thesis
    by (simp add: example_install_env_def)
qed

end
