(* ===== verification/Self_Update.thy ===== *)
theory Self_Update
  imports Prelude
begin

text \<open>
  The self updater of the daemon (\<open>bv/src/self_updater.rs\<close>) with the random wait of \<open>bv/src/utils.rs\<close>: it
  asks which versions there are and starts the installer of those that are newer. Versions are those of
  the \<open>semver\<close> crate: their type, order, parser and printer are parameters.
\<close>

section \<open>State\<close>

record update_world =
  uw_latest :: string
    \<comment> \<open>the version installed last, as far as the updater knows\<close>
  uw_started :: "string list"
    \<comment> \<open>versions whose installers were started\<close>
  uw_blacklist :: "string option"
  uw_requests :: nat

record 'v update_env =
  parse_semver :: "string \<Rightarrow> string + 'v"
  show_semver :: "'v \<Rightarrow> string"
  major :: "'v \<Rightarrow> nat"
  bundle_connect_error :: "nat \<Rightarrow> string option"
  list_bundles :: "nat \<Rightarrow> string + string list"
  blacklist_error :: "string option"
  fetch_error :: "nat \<Rightarrow> string \<Rightarrow> string option"
    \<comment> \<open>retrieving the address, the download, unpacking and starting the installer\<close>

type_synonym 'a update_action = "(update_world, string, 'a) action"

section \<open>Operations\<close>

fun parse_versions :: "'v update_env \<Rightarrow> string list \<Rightarrow> string + 'v list" where
  "parse_versions env [] = Inr []"
| "parse_versions env (s # ss) =
     and_then (parse_semver env s) (\<lambda>v. and_then (parse_versions env ss) (\<lambda>vs. Inr (v # vs)))"

definition next_request :: "unit update_action" where
  "next_request = update_state (\<lambda>w. w\<lparr>uw_requests := Suc (uw_requests w)\<rparr>)"

definition get_versions :: "('v :: linorder) update_env \<Rightarrow> 'v list update_action" where
  "get_versions env = with_state (\<lambda>w.
     try_then next_request (\<lambda>_.
       case bundle_connect_error env (uw_requests w) of
         Some e \<Rightarrow> fail (''cannot connect to bundle service: '' @ e)
       | None \<Rightarrow>
           (case list_bundles env (uw_requests w) of
              Inl e \<Rightarrow> fail (''cannot list bundle versions: '' @ e)
            | Inr ids \<Rightarrow>
                (case parse_versions env ids of
                   Inl e \<Rightarrow> fail (''invalid version format, expected semver: '' @ e)
                 | Inr vs \<Rightarrow> ok (sort vs)))))"

definition version_blacklisted :: "'v update_env \<Rightarrow> string \<Rightarrow> bool update_action" where
  "version_blacklisted env v = with_state (\<lambda>w.
     case uw_blacklist w of
       None \<Rightarrow> ok False
     | Some content \<Rightarrow> (case blacklist_error env of
                        Some e \<Rightarrow> fail (''failed to read blacklist: '' @ e)
                      | None \<Rightarrow> ok (contains content v)))"

definition download_and_install :: "'v update_env \<Rightarrow> string \<Rightarrow> unit update_action" where
  "download_and_install env v = with_state (\<lambda>w.
     try_then next_request (\<lambda>_.
       case fetch_error env (uw_requests w) v of
         Some e \<Rightarrow> fail e
       | None \<Rightarrow> update_state (\<lambda>w. w\<lparr>uw_started := uw_started w @ [v]\<rparr>)))"

text \<open>One turn of the loop: \<open>installed\<close> is the version from before the loop.\<close>

definition consider_version :: "('v :: linorder) update_env \<Rightarrow> 'v \<Rightarrow> 'v \<Rightarrow> unit update_action" where
  "consider_version env installed v =
     (let s = show_semver env v
      in if major env v = major env installed \<and> installed < v
         then try_then (version_blacklisted env s) (\<lambda>b.
                if b then ok ()
                else steps [download_and_install env s, update_state (\<lambda>w. w\<lparr>uw_latest := s\<rparr>)])
         else ok ())"

text \<open>\<open>pop\<close> takes the versions from the end of the sorted vector.\<close>

definition check_for_update :: "('v :: linorder) update_env \<Rightarrow> unit update_action" where
  "check_for_update env =
     try_then (map_error (\<lambda>e. ''cannot get latest versions: '' @ e) (get_versions env)) (\<lambda>vs. with_state (\<lambda>w.
       case parse_semver env (uw_latest w) of
         Inl e \<Rightarrow> fail e
       | Inr installed \<Rightarrow> for_each (consider_version env installed) (rev vs)))"

text \<open>
  The wait between checks: the interval in seconds and a random part below half of it. A range that is
  empty makes the random generator panic.
\<close>

definition with_jitter :: "(nat \<Rightarrow> nat) \<Rightarrow> nat \<Rightarrow> nat option" where
  "with_jitter rng base = (if base div 2 = 0 then None else Some (base + rng (base div 2)))"

text \<open>The loop of the updater over what the run flag says before each turn: the waits, or a panic.\<close>

fun update_rounds :: "('v :: linorder) update_env \<Rightarrow> nat \<Rightarrow> ((nat \<Rightarrow> nat) \<times> bool) list \<Rightarrow> update_world \<Rightarrow> (nat list option) \<times> update_world" where
  "update_rounds env interval [] w = (Some [], w)"
| "update_rounds env interval ((rng, run) # rounds) w =
     (if \<not> run then (Some [], w)
      else let w' = snd (check_for_update env w)
           in case with_jitter rng interval of
                None \<Rightarrow> (None, w')
              | Some d \<Rightarrow> (let (ds, t) = update_rounds env interval rounds w' in (map_option ((#) d) ds, t)))"

section \<open>Which installers are started\<close>

definition candidate :: "('v :: linorder) update_env \<Rightarrow> update_world \<Rightarrow> 'v \<Rightarrow> 'v \<Rightarrow> bool" where
  "candidate env w installed v \<longleftrightarrow> major env v = major env installed \<and> installed < v \<and>
     (\<forall>content. uw_blacklist w = Some content \<longrightarrow> \<not> contains content (show_semver env v))"

text \<open>The outcome of a loop over the candidates \<open>cs\<close>: the first \<open>k\<close> were started, all of them on success.\<close>

definition started_first :: "'v update_env \<Rightarrow> 'v list \<Rightarrow> update_world \<Rightarrow> bool \<Rightarrow> update_world \<Rightarrow> bool" where
  "started_first env cs w finished t \<longleftrightarrow> (\<exists>k \<le> length cs.
     uw_started t = uw_started w @ map (show_semver env) (take k cs) \<and> uw_blacklist t = uw_blacklist w \<and>
     uw_latest t = (if k = 0 then uw_latest w else show_semver env (cs ! (k - 1))) \<and> (finished \<longrightarrow> k = length cs))"

lemma started_none: "uw_started t = uw_started w \<Longrightarrow> uw_blacklist t = uw_blacklist w \<Longrightarrow> uw_latest t = uw_latest w \<Longrightarrow>
    started_first env cs w (cs = []) t"
  by (force simp: started_first_def)

lemma started_none_failed: "uw_started t = uw_started w \<Longrightarrow> uw_blacklist t = uw_blacklist w \<Longrightarrow> uw_latest t = uw_latest w \<Longrightarrow>
    started_first env cs w False t"
  by (force simp: started_first_def)

lemma started_requests: "started_first env cs (w\<lparr>uw_requests := n\<rparr>) = started_first env cs w"
  by (intro ext) (simp add: started_first_def)

lemma started_Cons:
  assumes "started_first env cs w' f t" and "uw_started w' = uw_started w @ [show_semver env c]"
    and "uw_blacklist w' = uw_blacklist w" and "uw_latest w' = show_semver env c"
  shows "started_first env (c # cs) w f t"
proof -
  from assms(1) obtain k where "k \<le> length cs" "uw_started t = uw_started w' @ map (show_semver env) (take k cs)"
    "uw_blacklist t = uw_blacklist w'" "uw_latest t = (if k = 0 then uw_latest w' else show_semver env (cs ! (k - 1)))" "f \<longrightarrow> k = length cs"
    by (auto simp: started_first_def)
  with assms(2-4) show ?thesis
    unfolding started_first_def by (intro exI [of _ "Suc k"]) (auto simp: nth_Cons')
qed

lemma consider_cases:
  assumes "consider_version env installed v w = (r, t)"
  shows "(r = Inr () \<and> \<not> candidate env w installed v \<and> t = w) \<or>
    (\<exists>e. r = Inl e \<and> uw_started t = uw_started w \<and> uw_blacklist t = uw_blacklist w \<and> uw_latest t = uw_latest w) \<or>
    (r = Inr () \<and> candidate env w installed v \<and> uw_started t = uw_started w @ [show_semver env v] \<and>
     uw_blacklist t = uw_blacklist w \<and> uw_latest t = show_semver env v)"
  using assms
  by (auto simp: consider_version_def candidate_def version_blacklisted_def download_and_install_def next_request_def
      try_then_def Let_def split: if_splits option.splits)

lemma candidate_cong: "uw_blacklist t = uw_blacklist w \<Longrightarrow> candidate env t = candidate env w"
  by (intro ext) (simp add: candidate_def)

lemma candidate_requests: "candidate env (w\<lparr>uw_requests := n\<rparr>) = candidate env w"
  by (rule candidate_cong) simp

lemma consider_all:
  assumes "for_each (consider_version env installed) vs w = (r, t)"
  shows "started_first env (filter (candidate env w installed) vs) w (r = Inr ()) t"
  using assms
proof (induction vs arbitrary: w)
  case Nil
  then show ?case using started_none [of t w env "[]"] by simp
next
  case (Cons v vs)
  obtain q u where u: "consider_version env installed v w = (q, u)" by (cases "consider_version env installed v w")
  from consider_cases [OF this] show ?case
  proof (elim disjE conjE exE)
    assume "q = Inr ()" "\<not> candidate env w installed v" "u = w"
    with u Cons show ?thesis by (simp add: try_then_def)
  next
    fix e assume "q = Inl e" "uw_started u = uw_started w" "uw_blacklist u = uw_blacklist w" "uw_latest u = uw_latest w"
    with u Cons.prems show ?thesis by (auto simp: try_then_def intro: started_none_failed)
  next
    assume new: "q = Inr ()" "candidate env w installed v" "uw_started u = uw_started w @ [show_semver env v]"
      "uw_blacklist u = uw_blacklist w" "uw_latest u = show_semver env v"
    with u Cons.prems have "for_each (consider_version env installed) vs u = (r, t)" by (simp add: try_then_def)
    from Cons.IH [OF this] have "started_first env (filter (candidate env w installed) vs) u (r = Inr ()) t"
      by (simp only: candidate_cong [OF new(4)])
    from started_Cons [OF this new(3-5)] new(2) show ?thesis by simp
  qed
qed

text \<open>
  C34: A check starts the installers of the newer versions of the same major number that are not on the
  blacklist, from the newest to the oldest and all of them when nothing fails: the last one started,
  which the updater then takes for the installed version, is the oldest of them.
\<close>

theorem updates_run_from_newest_to_oldest:
  assumes "check_for_update env w = (r, t)" and "bundle_connect_error env (uw_requests w) = None" and "list_bundles env (uw_requests w) = Inr ids"
    and "parse_versions env ids = Inr vs" and "parse_semver env (uw_latest w) = Inr installed"
  shows "started_first env (rev (sort (filter (candidate env w installed) vs))) w (r = Inr ()) t"
proof -
  have "check_for_update env w = for_each (consider_version env installed) (rev (sort vs)) (w\<lparr>uw_requests := Suc (uw_requests w)\<rparr>)"
    using assms(2-5) by (simp add: check_for_update_def get_versions_def next_request_def try_then_def map_error_def)
  with assms(1) have "for_each (consider_version env installed) (rev (sort vs)) (w\<lparr>uw_requests := Suc (uw_requests w)\<rparr>) = (r, t)"
    by simp
  from consider_all [OF this]
  have "started_first env (filter (candidate env w installed) (rev (sort vs))) (w\<lparr>uw_requests := Suc (uw_requests w)\<rparr>) (r = Inr ()) t"
    by (simp only: candidate_requests)
  moreover have "filter (candidate env w installed) (rev (sort vs)) = rev (sort (filter (candidate env w installed) vs))"
    by (simp add: rev_filter [symmetric] filter_sort)
  ultimately show ?thesis
    by (simp only: started_requests)
qed

text \<open>Versions as numbers: the updater of 10 sees 11 and 12.\<close>

definition example_update_env :: "nat update_env" where
  "example_update_env =
     \<lparr>parse_semver = (\<lambda>s. case parse_usize s of None \<Rightarrow> Inl s | Some n \<Rightarrow> Inr n), show_semver = show_nat, major = (\<lambda>_. 1),
      bundle_connect_error = (\<lambda>_. None),
      list_bundles = (\<lambda>_. Inr [''11'', ''12'', ''9'']), blacklist_error = None, fetch_error = (\<lambda>_ _. None)\<rparr>"

definition example_update_world :: update_world where
  "example_update_world = \<lparr>uw_latest = ''10'', uw_started = [], uw_blacklist = None, uw_requests = 0\<rparr>"

theorem updates_run_from_newest_to_oldest_witness:
  "case check_for_update example_update_env example_update_world of
     (r, t) \<Rightarrow> r = Inr () \<and> uw_started t = [''12'', ''11''] \<and> uw_latest t = ''11''"
proof -
  have printed: "show_nat 9 = ''9''" "show_nat 10 = ''10''" "show_nat 11 = ''11''" "show_nat 12 = ''12''"
    by code_simp+
  have parse: "parse_usize ''9'' = Some 9" "parse_usize ''10'' = Some 10" "parse_usize ''11'' = Some 11" "parse_usize ''12'' = Some 12"
    using parse_show_nat [of 9] parse_show_nat [of 10] parse_show_nat [of 11] parse_show_nat [of 12] by (simp_all add: printed)
  have listed: "get_versions example_update_env example_update_world = (Inr [9, 11, 12], example_update_world\<lparr>uw_requests := 1\<rparr>)"
    by (simp add: get_versions_def next_request_def try_then_def parse example_update_env_def example_update_world_def)
  have step: "\<exists>t. consider_version example_update_env 10 v w = (Inr (), t) \<and> uw_blacklist t = None" if "uw_blacklist w = None" for v w
    using that
    by (auto simp: consider_version_def version_blacklisted_def download_and_install_def next_request_def try_then_def
        example_update_env_def Let_def)
  have loop: "\<exists>t. for_each (consider_version example_update_env 10) vs w = (Inr (), t)" if "uw_blacklist w = None" for vs w
    using that
  proof (induction vs arbitrary: w)
    case (Cons v vs)
    from step [OF Cons.prems, of v] Cons.IH show ?case by (auto simp: try_then_def)
  qed simp
  have "parse_semver example_update_env (uw_latest (example_update_world\<lparr>uw_requests := 1\<rparr>)) = Inr 10"
    "uw_blacklist (example_update_world\<lparr>uw_requests := 1\<rparr>) = None"
    by (simp_all add: example_update_env_def example_update_world_def parse)
  from loop [OF this(2), of "[12, 11, 9]"] this(1) listed
  obtain t where t: "check_for_update example_update_env example_update_world = (Inr (), t)"
    by (auto simp: check_for_update_def try_then_def map_error_def)
  have ids: "bundle_connect_error example_update_env (uw_requests example_update_world) = None"
    "list_bundles example_update_env (uw_requests example_update_world) = Inr [''11'', ''12'', ''9'']"
    by (simp_all add: example_update_env_def)
  have versions: "parse_versions example_update_env [''11'', ''12'', ''9''] = Inr [11, 12, 9]"
    "parse_semver example_update_env (uw_latest example_update_world) = Inr 10"
    by (simp_all add: example_update_env_def example_update_world_def parse)
  have run: "started_first example_update_env (rev (sort (filter (candidate example_update_env example_update_world 10) [11, 12, 9])))
      example_update_world (Inr () = (Inr () :: string + unit)) t"
    by (rule updates_run_from_newest_to_oldest [OF t ids versions])
  have "rev (sort (filter (candidate example_update_env example_update_world 10) [11, 12, 9])) = [12, 11]"
    by (simp add: candidate_def example_update_env_def example_update_world_def)
  from run [unfolded this] have "started_first example_update_env [12, 11] example_update_world True t" by simp
  with t printed show ?thesis
    by (auto simp: started_first_def example_update_env_def example_update_world_def)
qed

section \<open>The wait\<close>

lemma with_jitter_bounds:
  assumes "with_jitter rng base = Some d" and "\<And>n. 0 < n \<Longrightarrow> rng n < n"
  shows "base \<le> d \<and> d < base + base div 2"
  using assms(1) assms(2) [of "base div 2"] by (auto simp: with_jitter_def split: if_splits)

lemma short_interval_panics: "base < 2 \<Longrightarrow> with_jitter rng base = None"
  by (simp add: with_jitter_def)

end
