(* ===== verification/Net_Conf.thy ===== *)
theory Net_Conf
  imports Prelude
begin

text \<open>
  The network configuration of a host (\<open>bv/src/bv_config.rs\<close>): detecting the gateway, the address of the
  host and the addresses for nodes from the routing table, and overriding them by text. Addresses are
  words of their width, read by the parser of the standard library; networks and ranges of addresses
  come from the crates \<open>cidr_utils\<close> and \<open>ipnet\<close>, which are parameters.
\<close>

section \<open>Addresses and their text\<close>

datatype ip_addr = V4 "32 word" | V6 "128 word"

text \<open>\<open>char::to_digit\<close> for radix 10 and 16.\<close>

definition digit_of :: "nat \<Rightarrow> char \<Rightarrow> nat option" where
  "digit_of radix c =
     (let n = (of_char c :: nat);
          v = (if 48 \<le> n \<and> n \<le> 57 then n - 48 else if 97 \<le> n \<and> n \<le> 102 then n - 87 else if 65 \<le> n \<and> n \<le> 70 then n - 55 else 99)
      in if v < radix then Some v else None)"

text \<open>The digits at the front: \<open>None\<close> when there are more than \<open>limit\<close>; else value, number and rest.\<close>

fun read_digits :: "nat \<Rightarrow> nat \<Rightarrow> nat \<Rightarrow> nat \<Rightarrow> string \<Rightarrow> (nat \<times> nat \<times> string) option" where
  "read_digits radix limit acc k [] = Some (acc, k, [])"
| "read_digits radix limit acc k (c # cs) =
     (case digit_of radix c of
        None \<Rightarrow> Some (acc, k, c # cs)
      | Some d \<Rightarrow> if limit < Suc k then None else read_digits radix limit (radix * acc + d) (Suc k) cs)"

definition read_number :: "nat \<Rightarrow> nat \<Rightarrow> bool \<Rightarrow> nat \<Rightarrow> string \<Rightarrow> (nat \<times> string) option" where
  "read_number radix limit zero_prefix bound s =
     (case read_digits radix limit 0 0 s of
        None \<Rightarrow> None
      | Some (v, k, rest) \<Rightarrow>
          if k = 0 \<or> \<not> zero_prefix \<and> take 1 s = ''0'' \<and> 1 < k \<or> bound \<le> v then None else Some (v, rest))"

definition read_separated :: "char \<Rightarrow> nat \<Rightarrow> (string \<Rightarrow> ('a \<times> string) option) \<Rightarrow> string \<Rightarrow> ('a \<times> string) option" where
  "read_separated sep i p s =
     (if i = 0 then p s else case s of [] \<Rightarrow> None | c # cs \<Rightarrow> if c = sep then p cs else None)"

fun read_octets :: "nat \<Rightarrow> nat \<Rightarrow> string \<Rightarrow> (nat list \<times> string) option" where
  "read_octets 0 i s = Some ([], s)"
| "read_octets (Suc n) i s =
     (case read_separated (CHR ''.'') i (read_number 10 3 False 256) s of
        None \<Rightarrow> None
      | Some (v, rest) \<Rightarrow> map_option (apfst ((#) v)) (read_octets n (Suc i) rest))"

definition from_groups :: "nat \<Rightarrow> nat list \<Rightarrow> nat" where
  "from_groups base gs = fold (\<lambda>g v. base * v + g) gs 0"

definition read_ipv4 :: "string \<Rightarrow> (nat \<times> string) option" where
  "read_ipv4 s = map_option (apfst (from_groups 256)) (read_octets 4 0 s)"

text \<open>Groups of an IPv6 address, of which the last two may be written as an IPv4 address.\<close>

fun read_groups :: "nat \<Rightarrow> nat \<Rightarrow> string \<Rightarrow> nat list \<times> bool \<times> string" where
  "read_groups 0 i s = ([], False, s)"
| "read_groups (Suc n) i s =
     (case (if 0 < n then read_separated (CHR '':'') i read_ipv4 s else None) of
        Some (v, rest) \<Rightarrow> ([v div 65536, v mod 65536], True, rest)
      | None \<Rightarrow>
          (case read_separated (CHR '':'') i (read_number 16 4 True 65536) s of
             Some (g, rest) \<Rightarrow> (let (gs, v4, rest') = read_groups n (Suc i) rest in (g # gs, v4, rest'))
           | None \<Rightarrow> ([], False, s)))"

definition read_ipv6 :: "string \<Rightarrow> (nat \<times> string) option" where
  "read_ipv6 s =
     (let (head, v4, rest) = read_groups 8 0 s
      in if length head = 8 then Some (from_groups 65536 head, rest)
         else if v4 \<or> take 2 rest \<noteq> ''::'' then None
         else let (tail, _, rest') = read_groups (8 - (length head + 1)) 0 (drop 2 rest)
              in Some (from_groups 65536 (head @ replicate (8 - length head - length tail) 0 @ tail), rest'))"

definition parse_ip :: "string \<Rightarrow> ip_addr option" where
  "parse_ip s =
     (case read_ipv4 s of
        Some (v, rest) \<Rightarrow> if rest = [] then Some (V4 (of_nat v)) else None
      | None \<Rightarrow>
          (case read_ipv6 s of
             Some (v, rest) \<Rightarrow> if rest = [] then Some (V6 (of_nat v)) else None
           | None \<Rightarrow> None))"

definition bad_address :: string where "bad_address = ''invalid IP address syntax''"

section \<open>Routes, networks and errors\<close>

record ip_route =
  rt_dst :: "string option"
  rt_gateway :: "string option"
  rt_dev :: "string option"
  rt_prefsrc :: "string option"
  rt_protocol :: "string option"

text \<open>A network: its first address and the length of its prefix.\<close>

datatype ip_cidr = CidrV4 "32 word" nat | CidrV6 "128 word" nat

fun get_bits :: "ip_cidr \<Rightarrow> nat" where
  "get_bits (CidrV4 _ b) = b"
| "get_bits (CidrV6 _ b) = b"

datatype network_detection_error =
    DefaultRouteNotFound "string list"
  | DefaultRouteGatewayMissing string
  | InvalidGatewayIp string string
  | InterfaceConfigNotFound string "string list" "string list"
  | InterfacePrefSrcMissing string string
  | InvalidHostIp string string
  | InvalidCidr string string
  | JsonParseError string

datatype net_error = Detection network_detection_error | Message string | Context string net_error

record net_env =
  parse_cidr :: "string \<Rightarrow> string + ip_cidr"
  cidr_iter :: "ip_cidr \<Rightarrow> ip_addr list"
  range_v4 :: "32 word \<Rightarrow> 32 word \<Rightarrow> ip_addr list"
  range_v6 :: "128 word \<Rightarrow> 128 word \<Rightarrow> ip_addr list"
  debug_text :: "string option \<Rightarrow> string"
    \<comment> \<open>the \<open>Debug\<close> text of an optional string\<close>
  show_ip :: "ip_addr \<Rightarrow> string"

record net_conf =
  gateway_ip :: ip_addr
  host_ip :: ip_addr
  prefix_bits :: nat
  available_ips :: "ip_addr list"

record host_network =
  hn_host_ip :: ip_addr
  hn_cidr :: ip_cidr
  hn_prefix :: nat

section \<open>Detection\<close>

definition route_text :: "net_env \<Rightarrow> ip_route \<Rightarrow> string" where
  "route_text env r = ''dst: '' @ debug_text env (rt_dst r) @ '', dev: '' @ debug_text env (rt_dev r) @ '', protocol: '' @
     debug_text env (rt_protocol r)"

definition extract_gateway :: "net_env \<Rightarrow> ip_route list \<Rightarrow> network_detection_error + ip_addr" where
  "extract_gateway env routes =
     (case find (\<lambda>r. rt_dst r = Some ''default'') routes of
        None \<Rightarrow> Inl (DefaultRouteNotFound (map the (filter (\<lambda>d. d \<noteq> None) (map rt_dst routes))))
      | Some r \<Rightarrow>
          (case rt_gateway r of
             None \<Rightarrow> Inl (DefaultRouteGatewayMissing (route_text env r))
           | Some s \<Rightarrow> (case parse_ip s of None \<Rightarrow> Inl (InvalidGatewayIp s bad_address) | Some ip \<Rightarrow> Inr ip)))"

definition is_ok :: "'e + 'a \<Rightarrow> bool" where
  "is_ok r = (case r of Inl _ \<Rightarrow> False | Inr _ \<Rightarrow> True)"

definition is_dev_ip :: "net_env \<Rightarrow> ip_route \<Rightarrow> string \<Rightarrow> bool" where
  "is_dev_ip env r dev \<longleftrightarrow> rt_dev r = Some dev \<and>
     (case rt_dst r of None \<Rightarrow> False | Some d \<Rightarrow> d \<noteq> ''default'' \<and> is_ok (parse_cidr env d)) \<and>
     rt_prefsrc r \<noteq> None \<and> rt_protocol r = Some ''kernel''"

definition host_network_of :: "net_env \<Rightarrow> string \<Rightarrow> ip_route \<Rightarrow> string \<Rightarrow> network_detection_error + host_network" where
  "host_network_of env dev r dst =
     (case parse_cidr env dst of
        Inl e \<Rightarrow> Inl (InvalidCidr dst e)
      | Inr c \<Rightarrow>
          (case rt_prefsrc r of
             None \<Rightarrow> Inl (InterfacePrefSrcMissing dev (route_text env r))
           | Some s \<Rightarrow>
               (case parse_ip s of
                  None \<Rightarrow> Inl (InvalidHostIp s bad_address)
                | Some ip \<Rightarrow> Inr \<lparr>hn_host_ip = ip, hn_cidr = c, hn_prefix = get_bits c\<rparr>)))"

text \<open>The loop with the interfaces and routes it has seen; the interfaces are a set in any order.\<close>

fun search_routes :: "net_env \<Rightarrow> string \<Rightarrow> string list \<Rightarrow> string list \<Rightarrow> ip_route list \<Rightarrow> network_detection_error + host_network" where
  "search_routes env dev devs searched [] = Inl (InterfaceConfigNotFound dev devs searched)"
| "search_routes env dev devs searched (r # rs) =
     (let devs' = (case rt_dev r of None \<Rightarrow> devs | Some d \<Rightarrow> List.insert d devs)
      in if is_dev_ip env r dev
         then (case rt_dst r of
                 Some dst \<Rightarrow> host_network_of env dev r dst
               | None \<Rightarrow> search_routes env dev devs' searched rs)
         else search_routes env dev devs'
                (if rt_dev r = Some dev
                 then searched @ [''dst: '' @ debug_text env (rt_dst r) @ '', prefsrc: '' @ debug_text env (rt_prefsrc r) @
                        '', protocol: '' @ debug_text env (rt_protocol r)]
                 else searched) rs)"

definition extract_host_network :: "net_env \<Rightarrow> ip_route list \<Rightarrow> string \<Rightarrow> network_detection_error + host_network" where
  "extract_host_network env routes dev = search_routes env dev [] [] routes"

fun ips_from_range :: "net_env \<Rightarrow> ip_addr \<Rightarrow> ip_addr \<Rightarrow> net_error + ip_addr list" where
  "ips_from_range env (V4 a) (V4 b) = Inr (range_v4 env a b)"
| "ips_from_range env (V6 a) (V6 b) = Inr (range_v6 env a b)"
| "ips_from_range env a b = Inl (Message (''invalid ip range: ('' @ show_ip env a @ '', '' @ show_ip env b))"

text \<open>What is left of the iterator after the first and the last address are taken off.\<close>

definition usable :: "nat \<Rightarrow> 'a list \<Rightarrow> 'a list" where
  "usable bits ips = (if bits \<le> 30 then butlast (tl ips) else ips)"

definition calculate_available_ips :: "net_env \<Rightarrow> host_network \<Rightarrow> ip_addr \<Rightarrow> net_error + ip_addr list" where
  "calculate_available_ips env hn gateway =
     (case usable (hn_prefix hn) (cidr_iter env (hn_cidr hn)) of
        first # second # others \<Rightarrow>
          map_sum (\<lambda>e. e) (filter (\<lambda>ip. ip \<noteq> hn_host_ip hn \<and> ip \<noteq> gateway)) (ips_from_range env first (last (second # others)))
      | _ \<Rightarrow> Inr [])"

definition from_json :: "net_env \<Rightarrow> string + ip_route list \<Rightarrow> string \<Rightarrow> net_error + net_conf" where
  "from_json env json dev =
     (case json of
        Inl e \<Rightarrow> Inl (Detection (JsonParseError e))
      | Inr routes \<Rightarrow>
          (case extract_gateway env routes of
             Inl e \<Rightarrow> Inl (Context ''Failed to extract gateway IP from routing information'' (Detection e))
           | Inr gateway \<Rightarrow>
               (case extract_host_network env routes dev of
                  Inl e \<Rightarrow> Inl (Context (''Failed to extract host network configuration for interface '' @ quoted dev) (Detection e))
                | Inr hn \<Rightarrow>
                    (case calculate_available_ips env hn gateway of
                       Inl e \<Rightarrow> Inl (Context ''Failed to calculate available IP addresses'' e)
                     | Inr ips \<Rightarrow> Inr \<lparr>gateway_ip = gateway, host_ip = hn_host_ip hn, prefix_bits = hn_prefix hn, available_ips = ips\<rparr>))))"

section \<open>Overrides\<close>

type_synonym 'a conf_action = "(net_conf, net_error, 'a) action"

definition override_host_ip :: "string \<Rightarrow> unit conf_action" where
  "override_host_ip value =
     (case parse_ip value of
        None \<Rightarrow> fail (Context (''invalid host ip '' @ quoted value) (Message bad_address))
      | Some ip \<Rightarrow> update_state (\<lambda>c. c\<lparr>host_ip := ip\<rparr>))"

definition override_gateway_ip :: "string \<Rightarrow> unit conf_action" where
  "override_gateway_ip value =
     (case parse_ip value of
        None \<Rightarrow> fail (Context (''invalid gateway ip '' @ quoted value) (Message bad_address))
      | Some ip \<Rightarrow> update_state (\<lambda>c. c\<lparr>gateway_ip := ip\<rparr>))"

definition range_bound :: "string \<Rightarrow> string \<Rightarrow> net_error + ip_addr" where
  "range_bound item s =
     (case parse_ip s of
        None \<Rightarrow> Inl (Context (''invalid ip range '' @ quoted item) (Message bad_address))
      | Some ip \<Rightarrow> Inr ip)"

definition range_item :: "net_env \<Rightarrow> string \<Rightarrow> net_error + ip_addr list" where
  "range_item env item =
     (case split_on (CHR ''-'') item of
        a # b # others \<Rightarrow>
          and_then (range_bound item a) (\<lambda>ip_from.
          and_then (range_bound item b) (\<lambda>ip_to.
            if others \<noteq> [] then Inl (Message (''invalid ip range '' @ quoted item)) else ips_from_range env ip_from ip_to))
      | _ \<Rightarrow> Inl (Context (''invalid ip range '' @ quoted item) (Message ''missing to'')))"

text \<open>The addresses one item of the list stands for.\<close>

definition item_ips :: "net_env \<Rightarrow> string \<Rightarrow> net_error + ip_addr list" where
  "item_ips env item =
     (if CHR ''/'' \<in> set item
      then (case parse_cidr env item of
              Inl e \<Rightarrow> Inl (Context (''cannot parse '' @ quoted item @ '' as cidr'') (Message e))
            | Inr c \<Rightarrow> Inr (usable (get_bits c) (cidr_iter env c)))
      else if CHR ''-'' \<in> set item then range_item env item
      else (case parse_ip item of
              None \<Rightarrow> Inl (Context (''invalid ip provided '' @ quoted item) (Message bad_address))
            | Some ip \<Rightarrow> Inr [ip]))"

definition add_item :: "net_env \<Rightarrow> string \<Rightarrow> unit conf_action" where
  "add_item env item =
     (case item_ips env item of
        Inl e \<Rightarrow> fail e
      | Inr ips \<Rightarrow> update_state (\<lambda>c. c\<lparr>available_ips := available_ips c @ ips\<rparr>))"

definition override_ips :: "net_env \<Rightarrow> string \<Rightarrow> unit conf_action" where
  "override_ips env value = steps [
     update_state (\<lambda>c. c\<lparr>available_ips := []\<rparr>),
     for_each (add_item env) (split_on (CHR '','') value),
     update_state (\<lambda>c. c\<lparr>available_ips := filter (\<lambda>ip. ip \<noteq> host_ip c \<and> ip \<noteq> gateway_ip c) (available_ips c)\<rparr>)]"

section \<open>The addresses that are found\<close>

text \<open>Consecutive addresses.\<close>

definition addresses :: "('a :: len) word \<Rightarrow> nat \<Rightarrow> 'a word list" where
  "addresses n k = map (\<lambda>i. n + of_nat i) [0..<k]"

fun network_size :: "ip_cidr \<Rightarrow> nat" where
  "network_size (CidrV4 _ b) = 2 ^ (32 - b)"
| "network_size (CidrV6 _ b) = 2 ^ (128 - b)"

text \<open>A network lies within the address space.\<close>

fun cidr_wf :: "ip_cidr \<Rightarrow> bool" where
  "cidr_wf (CidrV4 n b) \<longleftrightarrow> b \<le> 32 \<and> unat n + 2 ^ (32 - b) \<le> 2 ^ 32"
| "cidr_wf (CidrV6 n b) \<longleftrightarrow> b \<le> 128 \<and> unat n + 2 ^ (128 - b) \<le> 2 ^ 128"

fun network_ips :: "ip_cidr \<Rightarrow> ip_addr list" where
  "network_ips (CidrV4 n b) = map V4 (addresses n (2 ^ (32 - b)))"
| "network_ips (CidrV6 n b) = map V6 (addresses n (2 ^ (128 - b)))"

text \<open>
  What is relied on of the two crates: networks lie within the address space, iterating over one visits
  its addresses in order, and a range is everything from its first to its last address, both included.
\<close>

definition ip_crates_ok :: "net_env \<Rightarrow> bool" where
  "ip_crates_ok env \<longleftrightarrow>
     (\<forall>s c. parse_cidr env s = Inr c \<longrightarrow> cidr_wf c) \<and> (\<forall>c. cidr_wf c \<longrightarrow> cidr_iter env c = network_ips c) \<and>
     (\<forall>a b. a \<le> b \<longrightarrow> range_v4 env a b = map V4 (addresses a (Suc (unat b - unat a)))) \<and>
     (\<forall>a b. a \<le> b \<longrightarrow> range_v6 env a b = map V6 (addresses a (Suc (unat b - unat a))))"

lemma length_addresses [simp]: "length (addresses n k) = k"
  by (simp add: addresses_def)

lemma unat_nth_address:
  fixes n :: "('a :: len) word"
  assumes "i < k" and "unat n + k \<le> 2 ^ LENGTH('a)"
  shows "unat (n + of_nat i) = unat n + i"
proof -
  have "i < 2 ^ LENGTH('a)" using assms by linarith
  then have "unat (of_nat i :: 'a word) = i" by (simp add: unat_of_nat take_bit_nat_eq_self)
  with assms show ?thesis by (simp add: unat_word_ariths)
qed

lemma set_addresses:
  fixes n :: "('a :: len) word"
  assumes "unat n + k \<le> 2 ^ LENGTH('a)"
  shows "set (addresses n k) = {a. unat n \<le> unat a \<and> unat a < unat n + k}"
proof (intro equalityI subsetI)
  fix a assume "a \<in> set (addresses n k)"
  then obtain i where "i < k" "a = n + of_nat i" by (auto simp: addresses_def)
  with unat_nth_address [OF this(1) assms] show "a \<in> {a. unat n \<le> unat a \<and> unat a < unat n + k}" by simp
next
  fix a :: "'a word" assume a: "a \<in> {a. unat n \<le> unat a \<and> unat a < unat n + k}"
  let ?i = "unat a - unat n"
  have "?i < k" using a by auto
  with unat_nth_address [OF this assms] a have "unat (n + of_nat ?i) = unat a" by simp
  then have "a = n + of_nat ?i" by (simp add: word_unat_eq_iff)
  with \<open>?i < k\<close> show "a \<in> set (addresses n k)" unfolding addresses_def by force
qed

lemma distinct_addresses:
  fixes n :: "('a :: len) word"
  assumes "unat n + k \<le> 2 ^ LENGTH('a)"
  shows "distinct (addresses n k)"
proof -
  have "inj_on (\<lambda>i. n + of_nat i) {0..<k}"
    using unat_nth_address [OF _ assms] by (intro inj_onI) (metis add_left_cancel atLeastLessThan_iff)
  then show ?thesis by (simp add: addresses_def distinct_map)
qed

lemma inner_addresses: "butlast (tl (addresses n k)) = addresses (n + 1) (k - 2)"
proof (cases k)
  case (Suc m)
  have "tl (addresses n (Suc m)) = addresses (n + 1) m"
    unfolding addresses_def by (simp add: upt_conv_Cons map_Suc_upt [symmetric] comp_def add.assoc del: upt_Suc)
  moreover have "butlast (addresses (n + 1) m) = addresses (n + 1) (m - 1)"
    by (cases m) (simp_all add: addresses_def)
  ultimately show ?thesis by (simp add: Suc)
qed (simp add: addresses_def)

text \<open>The range from the first to the last of at least two consecutive addresses is all of them.\<close>

lemma range_of_ends:
  fixes n :: "('a :: len) word"
  assumes "unat n + k \<le> 2 ^ LENGTH('a)" and "addresses n k = first # second # others"
  shows "first \<le> last (second # others) \<and> addresses first (Suc (unat (last (second # others)) - unat first)) = addresses n k"
proof -
  have "length (addresses n k) = Suc (Suc (length others))" by (simp only: assms(2) list.size)
  then have k: "2 \<le> k" by simp
  have first: "first = n"
    using assms(2) k by (cases k) (auto simp: addresses_def upt_conv_Cons simp del: upt_Suc)
  have "last (second # others) = last (addresses n k)"
    using assms(2) by simp
  also have "\<dots> = n + of_nat (k - 1)"
    using k by (cases k) (auto simp: addresses_def)
  finally have last: "unat (last (second # others)) = unat n + (k - 1)"
    using unat_nth_address [of "k - 1" k n] assms(1) k by simp
  then have "first \<le> last (second # others)"
    by (simp add: first word_le_nat_alt)
  with last k show ?thesis by (simp add: first)
qed

lemma usable_addresses:
  fixes n :: "('a :: len) word"
  assumes "unat n + 2 ^ m \<le> 2 ^ LENGTH('a)" and "b \<le> 30 \<Longrightarrow> 2 \<le> m"
  shows "\<exists>n' k. usable b (addresses n (2 ^ m)) = addresses n' k \<and> unat n' + k \<le> 2 ^ LENGTH('a) \<and> (k < 2 \<longleftrightarrow> 30 < b \<and> m = 0) \<and>
    set (addresses n' k) = {a. if b \<le> 30 then unat n < unat a \<and> unat a + 1 < unat n + 2 ^ m else unat n \<le> unat a \<and> unat a < unat n + 2 ^ m}"
proof (cases "b \<le> 30")
  case True
  then have "(2 :: nat) ^ 2 \<le> 2 ^ m" using assms(2) by (intro power_increasing) auto
  then have four: "(4 :: nat) \<le> 2 ^ m" by simp
  have "unat (n + 1) = unat n + 1"
    using unat_nth_address [of 1 "2 ^ m" n] four assms(1) by simp
  moreover from this four assms(1) have bound: "unat (n + 1) + (2 ^ m - 2) \<le> 2 ^ LENGTH('a)" by linarith
  ultimately have "set (addresses (n + 1) (2 ^ m - 2)) = {a. unat n < unat a \<and> unat a + 1 < unat n + 2 ^ m}"
    using four unfolding set_addresses [OF bound] by auto
  with True bound four show ?thesis
    by (intro exI [of _ "n + 1"] exI [of _ "2 ^ m - 2"]) (auto simp: usable_def inner_addresses)
next
  case False
  have "(2 :: nat) ^ m < 2 \<longleftrightarrow> m = 0" by (cases m) auto
  with False assms(1) set_addresses [OF assms(1)] show ?thesis
    by (intro exI [of _ n] exI [of _ "2 ^ m"]) (auto simp: usable_def)
qed

text \<open>
  The addresses of a network nodes may get: without the base and the broadcast address for prefixes up
  to 30, and none when the network is a single address.
\<close>

fun assignable :: "ip_cidr \<Rightarrow> ip_addr set" where
  "assignable (CidrV4 n b) = V4 ` {a. if b \<le> 30 then unat n < unat a \<and> unat a + 1 < unat n + 2 ^ (32 - b)
     else b < 32 \<and> unat n \<le> unat a \<and> unat a < unat n + 2 ^ (32 - b)}"
| "assignable (CidrV6 n b) = V6 ` {a. if b \<le> 30 then unat n < unat a \<and> unat a + 1 < unat n + 2 ^ (128 - b)
     else b < 128 \<and> unat n \<le> unat a \<and> unat a < unat n + 2 ^ (128 - b)}"

lemma usable_map: "usable b (map f xs) = map f (usable b xs)"
  by (simp add: usable_def map_butlast map_tl)

lemma free_addresses:
  fixes n :: "('a :: len) word"
  assumes mk: "inj mk" and fits: "unat n + 2 ^ m \<le> 2 ^ LENGTH('a)" "b \<le> 30 \<Longrightarrow> 2 \<le> m"
    and iter: "cidr_iter env (hn_cidr hn) = map mk (addresses n (2 ^ m))" and bits: "hn_prefix hn = b"
    and range: "\<And>x y. x \<le> y \<Longrightarrow> ips_from_range env (mk x) (mk y) = Inr (map mk (addresses x (Suc (unat y - unat x))))"
    and calculated: "calculate_available_ips env hn gw = Inr ips"
  shows "set ips = mk ` {a. if b \<le> 30 then unat n < unat a \<and> unat a + 1 < unat n + 2 ^ m
      else 0 < m \<and> unat n \<le> unat a \<and> unat a < unat n + 2 ^ m} - {hn_host_ip hn, gw} \<and> distinct ips"
proof -
  from usable_addresses [OF fits] obtain n' k where nk: "usable b (addresses n (2 ^ m)) = addresses n' k"
    and bound: "unat n' + k \<le> 2 ^ LENGTH('a)" and short: "k < 2 \<longleftrightarrow> 30 < b \<and> m = 0"
    and all: "set (addresses n' k) = {a. if b \<le> 30 then unat n < unat a \<and> unat a + 1 < unat n + 2 ^ m
      else unat n \<le> unat a \<and> unat a < unat n + 2 ^ m}"
    by blast
  have inner: "usable (hn_prefix hn) (cidr_iter env (hn_cidr hn)) = map mk (addresses n' k)"
    using iter bits nk by (simp add: usable_map)
  show ?thesis
  proof (cases "k < 2")
    case True
    then have "length (addresses n' k) < 2" by simp
    then have "ips = []"
      using inner calculated by (cases "addresses n' k" rule: remdups_adj.cases) (auto simp: calculate_available_ips_def)
    with True short show ?thesis by auto
  next
    case False
    then have "\<not> length (addresses n' k) < 2" by simp
    then obtain first second others where ends: "addresses n' k = first # second # others"
      by (cases "addresses n' k" rule: remdups_adj.cases) auto
    note between = range_of_ends [OF bound ends]
    have "last (mk second # map mk others) = mk (last (second # others))"
      by (simp add: last_map)
    with inner ends calculated range [of first "last (second # others)"] between
    have "ips = filter (\<lambda>ip. ip \<noteq> hn_host_ip hn \<and> ip \<noteq> gw) (map mk (addresses n' k))"
      by (simp add: calculate_available_ips_def)
    with all distinct_addresses [OF bound] False short mk show ?thesis
      by (auto simp: distinct_map inj_on_subset intro!: distinct_filter)
  qed
qed

lemma calculate_assignable:
  assumes "ip_crates_ok env" and "cidr_wf c" and "calculate_available_ips env hn gw = Inr ips" and "hn_cidr hn = c" and "hn_prefix hn = get_bits c"
  shows "set ips = assignable c - {hn_host_ip hn, gw} \<and> distinct ips"
proof (cases c)
  case (CidrV4 n b)
  with assms have "set ips = V4 ` {a. if b \<le> 30 then unat n < unat a \<and> unat a + 1 < unat n + 2 ^ (32 - b)
      else 0 < 32 - b \<and> unat n \<le> unat a \<and> unat a < unat n + 2 ^ (32 - b)} - {hn_host_ip hn, gw} \<and> distinct ips"
    by (intro free_addresses [where env = env]) (auto simp: inj_def ip_crates_ok_def)
  with CidrV4 show ?thesis by (simp cong: if_cong)
next
  case (CidrV6 n b)
  with assms have "set ips = V6 ` {a. if b \<le> 30 then unat n < unat a \<and> unat a + 1 < unat n + 2 ^ (128 - b)
      else 0 < 128 - b \<and> unat n \<le> unat a \<and> unat a < unat n + 2 ^ (128 - b)} - {hn_host_ip hn, gw} \<and> distinct ips"
    by (intro free_addresses [where env = env]) (auto simp: inj_def ip_crates_ok_def)
  with CidrV6 show ?thesis by (simp cong: if_cong)
qed

lemma search_found:
  "search_routes env dev devs searched rs = Inr hn \<Longrightarrow>
     \<exists>r dst c s. r \<in> set rs \<and> is_dev_ip env r dev \<and> rt_dst r = Some dst \<and> parse_cidr env dst = Inr c \<and>
       rt_prefsrc r = Some s \<and> parse_ip s = Some (hn_host_ip hn) \<and> hn_cidr hn = c \<and> hn_prefix hn = get_bits c"
proof (induction env dev devs searched rs rule: search_routes.induct)
  case (2 env dev devs searched r rs)
  show ?case
  proof (cases "is_dev_ip env r dev")
    case True
    then obtain dst where "rt_dst r = Some dst" by (auto simp: is_dev_ip_def split: option.splits)
    with True 2(3) show ?thesis
      by (intro exI [of _ r]) (auto simp: host_network_of_def split: sum.splits option.splits)
  next
    case False
    with 2 show ?thesis by (auto simp: Let_def)
  qed
qed simp

text \<open>
  C35: Detection that succeeds has the address and the network of a kernel route of the interface, the
  gateway of the default route, and the addresses for nodes are exactly those of the network without
  the host, the gateway and, for prefixes of at most 30 bits, its first and last address, each once.
\<close>

theorem detected_ips_are_the_free_ones:
  assumes "from_json env (Inr routes) dev = Inr nc" and "ip_crates_ok env"
  shows "\<exists>r dst c s. r \<in> set routes \<and> is_dev_ip env r dev \<and> rt_dst r = Some dst \<and> parse_cidr env dst = Inr c \<and>
    rt_prefsrc r = Some s \<and> parse_ip s = Some (host_ip nc) \<and> prefix_bits nc = get_bits c \<and>
    set (available_ips nc) = assignable c - {host_ip nc, gateway_ip nc} \<and> distinct (available_ips nc)"
proof -
  obtain hn gw ips where hn: "extract_host_network env routes dev = Inr hn"
    and ips: "calculate_available_ips env hn gw = Inr ips"
    and nc: "nc = \<lparr>gateway_ip = gw, host_ip = hn_host_ip hn, prefix_bits = hn_prefix hn, available_ips = ips\<rparr>"
    using assms(1) by (auto simp: from_json_def split: sum.splits)
  from search_found [OF hn [unfolded extract_host_network_def]] obtain r dst c s
    where found: "r \<in> set routes" "is_dev_ip env r dev" "rt_dst r = Some dst" "parse_cidr env dst = Inr c"
      "rt_prefsrc r = Some s" "parse_ip s = Some (hn_host_ip hn)" "hn_cidr hn = c" "hn_prefix hn = get_bits c"
    by blast
  then have "cidr_wf c" using assms(2) by (auto simp: ip_crates_ok_def)
  from calculate_assignable [OF assms(2) this ips found(7,8)] found nc show ?thesis
    by (intro exI [of _ r] exI [of _ dst] exI [of _ c] exI [of _ s]) simp
qed

text \<open>An interface route always has a \<open>prefsrc\<close>: the error for a missing one cannot occur.\<close>

lemma prefsrc_is_never_missing: "extract_host_network env routes dev \<noteq> Inl (InterfacePrefSrcMissing d t)"
proof -
  have "search_routes env dev devs searched rs \<noteq> Inl (InterfacePrefSrcMissing d t)" for devs searched rs
  proof (induction env dev devs searched rs rule: search_routes.induct)
    case (2 env dev devs searched r rs)
    then show ?case
      by (auto simp: Let_def host_network_of_def is_dev_ip_def split: option.splits sum.splits)
  qed simp
  then show ?thesis by (simp add: extract_host_network_def)
qed

text \<open>Overriding the addresses: on success all items without host and gateway, each as often as it is named.\<close>

lemma add_items_Inr:
  "for_each (add_item env) items c = (Inr (), t) \<Longrightarrow>
     \<exists>ipss. map (item_ips env) items = map Inr ipss \<and> t = c\<lparr>available_ips := available_ips c @ concat ipss\<rparr>"
proof (induction items arbitrary: c)
  case (Cons item items)
  then obtain ips where "item_ips env item = Inr ips"
    and rest: "for_each (add_item env) items (c\<lparr>available_ips := available_ips c @ ips\<rparr>) = (Inr (), t)"
    by (cases "item_ips env item") (auto simp: try_then_Inr_iff add_item_def [of env item])
  with Cons.IH [OF rest] obtain ipss where "map (item_ips env) items = map Inr ipss"
    "t = c\<lparr>available_ips := (available_ips c @ ips) @ concat ipss\<rparr>" by auto
  with \<open>item_ips env item = Inr ips\<close> show ?case by (intro exI [of _ "ips # ipss"]) simp
qed simp

lemma override_ips_Inr:
  assumes "override_ips env value c = (Inr (), t)"
  shows "\<exists>ipss. map (item_ips env) (split_on (CHR '','') value) = map Inr ipss \<and>
    t = c\<lparr>available_ips := filter (\<lambda>ip. ip \<noteq> host_ip c \<and> ip \<noteq> gateway_ip c) (concat ipss)\<rparr>"
proof -
  from assms obtain u where u: "for_each (add_item env) (split_on (CHR '','') value) (c\<lparr>available_ips := []\<rparr>) = (Inr (), u)"
    and t: "t = u\<lparr>available_ips := filter (\<lambda>ip. ip \<noteq> host_ip u \<and> ip \<noteq> gateway_ip u) (available_ips u)\<rparr>"
    by (auto simp: override_ips_def try_then_Inr_iff)
  from add_items_Inr [OF u] t show ?thesis by auto
qed

section \<open>Example\<close>

definition example_net_env :: net_env where
  "example_net_env =
     \<lparr>parse_cidr = (\<lambda>s. if s = ''10.0.0.0/30'' then Inr (CidrV4 0x0A000000 30) else Inl ''not a network''),
      cidr_iter = network_ips,
      range_v4 = (\<lambda>a b. map V4 (addresses a (Suc (unat b - unat a)))), range_v6 = (\<lambda>a b. map V6 (addresses a (Suc (unat b - unat a)))),
      debug_text = (\<lambda>s. case s of None \<Rightarrow> ''None'' | Some s \<Rightarrow> s), show_ip = (\<lambda>_. [])\<rparr>"

definition example_routes :: "ip_route list" where
  "example_routes =
     [\<lparr>rt_dst = Some ''default'', rt_gateway = Some ''10.0.1.1'', rt_dev = Some ''br0'', rt_prefsrc = None, rt_protocol = Some ''static''\<rparr>,
      \<lparr>rt_dst = Some ''10.0.0.0/30'', rt_gateway = None, rt_dev = Some ''br0'', rt_prefsrc = Some ''10.0.0.1'', rt_protocol = Some ''kernel''\<rparr>]"

lemma example_crates_ok: "ip_crates_ok example_net_env"
  by (auto simp: ip_crates_ok_def example_net_env_def split: if_splits)

lemma example_addresses: "parse_ip ''10.0.1.1'' = Some (V4 0x0A000101)" "parse_ip ''10.0.0.1'' = Some (V4 0x0A000001)"
proof -
  have digits: "digit_of 10 (CHR ''0'') = Some 0" "digit_of 10 (CHR ''1'') = Some 1" "digit_of 10 (CHR ''.'') = None"
    by (simp_all add: digit_of_def)
  have four: "read_octets 4 = read_octets (Suc (Suc (Suc (Suc 0))))"
    by (simp add: numeral_eq_Suc)
  show "parse_ip ''10.0.1.1'' = Some (V4 0x0A000101)" "parse_ip ''10.0.0.1'' = Some (V4 0x0A000001)"
    by (simp_all add: parse_ip_def read_ipv4_def four read_separated_def read_number_def digits from_groups_def)
qed

lemma example_detected:
  "from_json example_net_env (Inr example_routes) ''br0'' =
     Inr \<lparr>gateway_ip = V4 0x0A000101, host_ip = V4 0x0A000001, prefix_bits = 30, available_ips = [V4 0x0A000002]\<rparr>"
proof -
  have "usable 30 (network_ips (CidrV4 0x0A000000 30)) = [V4 0x0A000001, V4 0x0A000002]"
    by (simp add: usable_def addresses_def upt_rec)
  moreover have "range_v4 example_net_env 0x0A000001 0x0A000002 = [V4 0x0A000001, V4 0x0A000002]"
    by (simp add: example_net_env_def addresses_def upt_rec)
  moreover have "parse_cidr example_net_env ''10.0.0.0/30'' = Inr (CidrV4 0x0A000000 30)" "cidr_iter example_net_env = network_ips"
    by (simp_all add: example_net_env_def)
  ultimately show ?thesis
    by (simp add: from_json_def extract_gateway_def example_routes_def example_addresses extract_host_network_def is_dev_ip_def
        is_ok_def host_network_of_def calculate_available_ips_def)
qed

theorem detected_ips_are_the_free_ones_witness:
  "case from_json example_net_env (Inr example_routes) ''br0'' of
     Inl _ \<Rightarrow> False
   | Inr nc \<Rightarrow> available_ips nc = [V4 0x0A000002] \<and> (\<exists>c. set (available_ips nc) = assignable c - {host_ip nc, gateway_ip nc})"
proof -
  from detected_ips_are_the_free_ones [OF example_detected example_crates_ok]
  have "\<exists>c. set [V4 0x0A000002] = assignable c - {V4 0x0A000001, V4 0x0A000101}"
    by (simp only: net_conf.simps) blast
  then show ?thesis by (simp add: example_detected)
qed

end
