(* ===== verification/Api_Client.thy ===== *)
theory Api_Client
  imports Babel_Service
begin

text \<open>
  Calls to the remote API (\<open>bv/src/services/mod.rs\<close>, \<open>bv/src/api_config.rs\<close> and the shared configuration of
  \<open>bv/src/bv_config.rs\<close>): the token and its refresh, the retries, and the discovery of service addresses.
  The server, the clock, and what the crates read from a token are parameters.
\<close>

section \<open>State and environment\<close>

record api_world =
  aw_token :: string
  aw_refresh_token :: string
  aw_mqtt_url :: "string option"
  aw_client :: string
    \<comment> \<open>the token the connected client sends\<close>
  aw_now :: int
    \<comment> \<open>seconds\<close>
  aw_calls :: nat
  aw_refreshes :: nat
    \<comment> \<open>requests for a new token\<close>
  aw_saves :: nat

record api_env =
  decode_exp :: "string \<Rightarrow> string + int"
    \<comment> \<open>base64, JSON and time stamp of the payload of a token\<close>
  refresh_reply :: "nat \<Rightarrow> string \<Rightarrow> string \<Rightarrow> rpc_status + string \<times> string"
  refresh_stuck :: "nat \<Rightarrow> bool"
    \<comment> \<open>the whole request for a token takes more than a minute\<close>
  save_error :: "nat \<Rightarrow> string option"
  url_error :: "string option"
  meanwhile :: "api_world \<Rightarrow> api_world"
    \<comment> \<open>what other tasks do to the shared configuration between the check and the lock\<close>

type_synonym 'a api_action = "(api_world, rpc_status, 'a) action"

definition sleep_api :: "64 word \<Rightarrow> api_world \<Rightarrow> api_world" where
  "sleep_api ms w = w\<lparr>aw_now := aw_now w + int (unat ms) div 1000\<rparr>"

section \<open>Tokens\<close>

definition unauthenticated :: "string \<Rightarrow> rpc_status" where
  "unauthenticated msg = \<lparr>rpc_code = CodeUnauthenticated, rpc_message = msg\<rparr>"

text \<open>The middle section of the token holds when it expires.\<close>

definition expiration :: "api_env \<Rightarrow> string \<Rightarrow> rpc_status + int" where
  "expiration env token =
     (case split_on (CHR ''.'') token of
        _ # middle # _ \<Rightarrow> (case decode_exp env middle of Inl e \<Rightarrow> Inl (unauthenticated e) | Inr t \<Rightarrow> Inr t)
      | _ \<Rightarrow> Inl (unauthenticated ''Can't parse token''))"

definition expired :: "api_env \<Rightarrow> int \<Rightarrow> string \<Rightarrow> rpc_status + bool" where
  "expired env now token = and_then (expiration env token) (\<lambda>exp. Inr (exp < now - 30))"

definition token_expired :: "api_env \<Rightarrow> bool api_action" where
  "token_expired env = with_state (\<lambda>w. case expired env (aw_now w) (aw_token w) of Inl e \<Rightarrow> fail e | Inr b \<Rightarrow> ok b)"

definition request_refresh_token :: "api_env \<Rightarrow> (string \<times> string) api_action" where
  "request_refresh_token env =
     with_retry (\<lambda>w. (refresh_reply env (aw_refreshes w) (aw_token w) (aw_refresh_token w), w\<lparr>aw_refreshes := Suc (aw_refreshes w)\<rparr>))
       sleep_api"

definition refresh_token :: "api_env \<Rightarrow> unit api_action" where
  "refresh_token env = with_state (\<lambda>w.
     if refresh_stuck env (aw_refreshes w)
     then try_then (ignore_result (request_refresh_token env)) (\<lambda>_.
            fail \<lparr>rpc_code = CodeDeadlineExceeded, rpc_message = ''refresh token request has stacked for more than 60s''\<rparr>)
     else try_then (request_refresh_token env) (\<lambda>(token, refresh).
            update_state (\<lambda>w. w\<lparr>aw_token := token, aw_refresh_token := refresh\<rparr>)))"

definition save_config :: "api_env \<Rightarrow> unit api_action" where
  "save_config env = with_state (\<lambda>w.
     case save_error env (aw_saves w) of
       Some e \<Rightarrow> fail (internal_status (''failed to save token: '' @ e))
     | None \<Rightarrow> update_state (\<lambda>w. w\<lparr>aw_saves := Suc (aw_saves w)\<rparr>))"

definition current_token :: "api_env \<Rightarrow> string api_action" where
  "current_token env = with_state (\<lambda>w0.
     try_then (token_expired env) (\<lambda>b.
       if b
       then try_then (update_state (meanwhile env)) (\<lambda>_.
            try_then (token_expired env) (\<lambda>still.
            try_then (if still then refresh_token env else ok ()) (\<lambda>_. with_state (\<lambda>w.
              try_then (save_config env) (\<lambda>_. ok (aw_token w))))))
       else ok (aw_token w0)))"

section \<open>Calls\<close>

text \<open>\<open>connect_to_api_service\<close>, which also is \<open>ApiClient::build\<close> and \<open>ApiClient::refresh\<close>.\<close>

definition connect :: "api_env \<Rightarrow> unit api_action" where
  "connect env =
     (case url_error env of
        Some e \<Rightarrow> fail (internal_status e)
      | None \<Rightarrow> try_then (current_token env) (\<lambda>token. update_state (\<lambda>w. w\<lparr>aw_client := token\<rparr>)))"

definition API_NON_RETRIABLE :: "rpc_code list" where
  "API_NON_RETRIABLE =
     [CodeUnauthenticated, CodeInvalidArgument, CodeUnimplemented, CodePermissionDenied, CodeNotFound, CodeAlreadyExists]"

definition TOKEN_EXPIRED_MESSAGE :: string where "TOKEN_EXPIRED_MESSAGE = ''TOKEN_EXPIRED''"

text \<open>A server answers a call from the token it comes with, the time and the number of the call.\<close>

type_synonym 'a server = "string \<Rightarrow> int \<Rightarrow> nat \<Rightarrow> rpc_status + 'a"

definition api_call :: "'a server \<Rightarrow> 'a api_action" where
  "api_call server w = (server (aw_client w) (aw_now w) (aw_calls w), w\<lparr>aw_calls := Suc (aw_calls w)\<rparr>)"

definition retried_call :: "'a server \<Rightarrow> 'a api_action" where
  "retried_call server =
     selective_retry_loop (api_call server) (\<lambda>e. rpc_code e \<in> set API_NON_RETRIABLE) sleep_api 3 500 0"

definition api_with_retry :: "api_env \<Rightarrow> 'a server \<Rightarrow> 'a api_action" where
  "api_with_retry env server =
     match_result (retried_call server)
       (\<lambda>e. if rpc_code e = CodeUnauthenticated \<and> contains (rpc_message e) TOKEN_EXPIRED_MESSAGE
            then try_then (connect env) (\<lambda>_. retried_call server)
            else fail e)
       ok"

text \<open>
  \<open>connect_with_discovery\<close>: when the connector fails the addresses are asked for and it is tried again;
  the errors are texts there.
\<close>

definition connect_with_discovery ::
  "api_env \<Rightarrow> string server \<Rightarrow> (api_world, string, 'a) action \<Rightarrow> (rpc_status \<Rightarrow> string) \<Rightarrow> (api_world, string, 'a) action" where
  "connect_with_discovery env discovery connector status_text =
     match_result connector
       (\<lambda>_. try_then (map_error status_text (connect env)) (\<lambda>_.
            try_then (map_error (\<lambda>e. ''get service urls failed: '' @ status_text e) (api_with_retry env discovery)) (\<lambda>url.
            try_then (update_state (\<lambda>w. w\<lparr>aw_mqtt_url := Some url\<rparr>)) (\<lambda>_. connector))))
       ok"

section \<open>Expired tokens\<close>

text \<open>A server that keeps to the time in the token refuses it from that time on.\<close>

definition refuses_expired :: "api_env \<Rightarrow> 'a server \<Rightarrow> bool" where
  "refuses_expired env server \<longleftrightarrow> (\<forall>token now k exp. expiration env token = Inr exp \<longrightarrow> exp \<le> now \<longrightarrow>
     (\<exists>e. server token now k = Inl e \<and> rpc_code e = CodeUnauthenticated \<and> contains (rpc_message e) TOKEN_EXPIRED_MESSAGE))"

lemma refused_call:
  assumes "server (aw_client w) (aw_now w) (aw_calls w) = Inl e" and "rpc_code e = CodeUnauthenticated"
  shows "retried_call server w = (Inl e, w\<lparr>aw_calls := Suc (aw_calls w)\<rparr>)"
  using assms unfolding retried_call_def
  by (subst selective_retry_loop.simps) (simp add: api_call_def API_NON_RETRIABLE_def)

text \<open>
  C36: From the moment a token expires until half a minute later every call fails, although each failure
  leads to a new connection: the margin of the check is added on the wrong side, so the expired token
  counts as valid, no new one is asked for, and the second attempt sends the same token again.
\<close>

theorem expired_token_is_sent_again:
  assumes "refuses_expired env server" and "aw_client w = aw_token w" and "expiration env (aw_token w) = Inr exp"
    and "exp \<le> aw_now w" and "aw_now w \<le> exp + 30"
  shows "\<exists>e. api_with_retry env server w = (Inl e, w\<lparr>aw_calls := (if url_error env = None then 2 else 1) + aw_calls w\<rparr>) \<and>
    (url_error env = None \<longrightarrow> rpc_code e = CodeUnauthenticated)"
proof -
  let ?w1 = "w\<lparr>aw_calls := Suc (aw_calls w)\<rparr>"
  obtain e1 where e1: "server (aw_client w) (aw_now w) (aw_calls w) = Inl e1" "rpc_code e1 = CodeUnauthenticated"
      "contains (rpc_message e1) TOKEN_EXPIRED_MESSAGE"
    using assms(1-4) unfolding refuses_expired_def by metis
  obtain e2 where e2: "server (aw_client w) (aw_now w) (Suc (aw_calls w)) = Inl e2" "rpc_code e2 = CodeUnauthenticated"
    using assms(1-4) unfolding refuses_expired_def by metis
  have valid: "token_expired env ?w1 = (Inr False, ?w1)"
    using assms(3,5) by (simp add: token_expired_def expired_def)
  have same: "?w1\<lparr>aw_client := aw_token w\<rparr> = ?w1"
    using assms(2) by simp
  show ?thesis
  proof (cases "url_error env")
    case None
    then have "connect env ?w1 = (Inr (), ?w1)"
      using valid same by (simp add: connect_def current_token_def try_then_def)
    moreover have "retried_call server ?w1 = (Inl e2, ?w1\<lparr>aw_calls := Suc (aw_calls ?w1)\<rparr>)"
      by (rule refused_call) (simp_all add: e2)
    ultimately have "api_with_retry env server w = (Inl e2, w\<lparr>aw_calls := 2 + aw_calls w\<rparr>)"
      using refused_call [of server w, OF e1(1,2)] e1(2,3) by (simp add: api_with_retry_def match_result_def try_then_def)
    with None e2 show ?thesis by auto
  next
    case (Some x)
    then have "api_with_retry env server w = (Inl (internal_status x), w\<lparr>aw_calls := 1 + aw_calls w\<rparr>)"
      using refused_call [of server w, OF e1(1,2)] e1(2,3) by (simp add: api_with_retry_def match_result_def try_then_def connect_def)
    with Some show ?thesis by auto
  qed
qed

text \<open>Later than that the token is refreshed, and the second attempt sends the new one.\<close>

lemma old_token_is_refreshed:
  assumes "aw_client w = aw_token w" and "expiration env (aw_token w) = Inr exp" and "exp + 30 < aw_now w"
    and "server (aw_token w) (aw_now w) (aw_calls w) = Inl e" and "rpc_code e = CodeUnauthenticated"
    and "contains (rpc_message e) TOKEN_EXPIRED_MESSAGE" and "meanwhile env = (\<lambda>w. w)" and "url_error env = None"
    and "\<not> refresh_stuck env (aw_refreshes w)" and "save_error env (aw_saves w) = None"
    and "refresh_reply env (aw_refreshes w) (aw_token w) (aw_refresh_token w) = Inr (token, refresh)"
    and "server token (aw_now w) (Suc (aw_calls w)) = Inr x"
  shows "\<exists>t. api_with_retry env server w = (Inr x, t) \<and> aw_token t = token \<and> aw_client t = token"
proof -
  let ?w1 = "w\<lparr>aw_calls := Suc (aw_calls w)\<rparr>"
  have old: "token_expired env ?w1 = (Inr True, ?w1)"
    using assms(2,3) by (simp add: token_expired_def expired_def)
  have "request_refresh_token env ?w1 = (Inr (token, refresh), ?w1\<lparr>aw_refreshes := Suc (aw_refreshes w)\<rparr>)"
    unfolding request_refresh_token_def with_retry_def with_retry_limit_def
    using assms(11) by (subst selective_retry_loop.simps) simp
  with old assms(7-10) have "\<exists>v. connect env ?w1 = (Inr (), v) \<and> aw_token v = token \<and> aw_client v = token \<and>
      aw_calls v = Suc (aw_calls w) \<and> aw_now v = aw_now w"
    by (simp add: connect_def current_token_def try_then_def refresh_token_def save_config_def)
  then obtain v where v: "connect env ?w1 = (Inr (), v)" "aw_token v = token" "aw_client v = token" "aw_calls v = Suc (aw_calls w)"
      "aw_now v = aw_now w" by blast
  have "retried_call server v = (Inr x, v\<lparr>aw_calls := Suc (aw_calls v)\<rparr>)"
    unfolding retried_call_def using v assms(12) by (subst selective_retry_loop.simps) (simp add: api_call_def)
  with v assms(1,4-6) show ?thesis
    using refused_call [of server w e] by (simp add: api_with_retry_def match_result_def try_then_def)
qed

text \<open>A token that expired ten seconds ago.\<close>

definition example_api_env :: api_env where
  "example_api_env =
     \<lparr>decode_exp = (\<lambda>_. Inr 1000), refresh_reply = (\<lambda>_ _ _. Inr (''h.n.s'', ''r'')), refresh_stuck = (\<lambda>_. False),
      save_error = (\<lambda>_. None), url_error = None, meanwhile = (\<lambda>w. w)\<rparr>"

definition example_server :: "unit server" where
  "example_server token now k = (if 1000 \<le> now then Inl (unauthenticated ''TOKEN_EXPIRED'') else Inr ())"

definition example_api_world :: api_world where
  "example_api_world =
     \<lparr>aw_token = ''h.p.s'', aw_refresh_token = ''r'', aw_mqtt_url = None, aw_client = ''h.p.s'', aw_now = 1010, aw_calls = 0,
      aw_refreshes = 0, aw_saves = 0\<rparr>"

theorem expired_token_is_sent_again_witness:
  "case api_with_retry example_api_env example_server example_api_world of
     (r, t) \<Rightarrow> (\<exists>e. r = Inl e \<and> rpc_code e = CodeUnauthenticated) \<and> aw_calls t = 2 \<and> aw_refreshes t = 0"
proof -
  have "contains TOKEN_EXPIRED_MESSAGE TOKEN_EXPIRED_MESSAGE"
    by (simp add: contains_def)
  then have "refuses_expired example_api_env example_server"
    by (auto simp: refuses_expired_def example_server_def example_api_env_def expiration_def unauthenticated_def TOKEN_EXPIRED_MESSAGE_def
        split: list.splits)
  moreover have "aw_client example_api_world = aw_token example_api_world" "aw_now example_api_world = 1010"
    "expiration example_api_env (aw_token example_api_world) = Inr 1000"
    by (simp_all add: example_api_world_def example_api_env_def expiration_def)
  ultimately obtain e where "api_with_retry example_api_env example_server example_api_world =
      (Inl e, example_api_world\<lparr>aw_calls := (if url_error example_api_env = None then 2 else 1) + aw_calls example_api_world\<rparr>)"
    "url_error example_api_env = None \<longrightarrow> rpc_code e = CodeUnauthenticated"
    using expired_token_is_sent_again [of example_api_env example_server example_api_world 1000] by auto
  then show ?thesis
    by (simp add: example_api_env_def example_api_world_def)
qed

end
