(* ===== verification/Spec2Isabelle.thy ===== *)
theory Spec2Isabelle
  imports Archive_Roundtrip Plugin_Properties Manager_Invariants Run_Flag
    Host_Files Host_Install Self_Update Net_Conf Api_Client
begin

text \<open>
  Verification of the blockvisor node runtime.

  The program. A host runs the daemon of crate \<open>bv\<close>, which keeps blockchain nodes in containers.
  Inside each container runs Babel (crate \<open>babel\<close>), which runs the jobs of the node: its services,
  shell commands, and the download and upload of protocol data as chunked archives. A plugin, a script
  in the language Rhai (crate \<open>babel_api\<close>), says which jobs a node has. The daemon runs the plugin; what
  the plugin asks for goes over gRPC to Babel, to the scheduler or to the remote API. Crate \<open>bv_utils\<close>
  holds what the others share.

  Conventions. A method that returns \<open>Result\<close> and changes its state is an action (\<open>Prelude\<close>): a function
  from a state to a sum (\<open>Inl\<close> the error) and the state it leaves, also after an error; \<open>?\<close> is
  \<open>try_then\<close>. What the code cannot decide itself (operating system, clock, remote services, third-party
  crates) is a field of an environment record or a parameter; where a property relies on documented
  behaviour of it, a named predicate states that behaviour and the witness of the property instantiates
  it. Integers that can wrap are words; the others are naturals bounded where the code bounds them.
  Hash maps are association lists with the library's \<open>AList.update\<close>; paths are strings.

  Archives and transfers
    \<^item> \<open>Engine\<close> (\<open>babel_api/src/engine.rs\<close>): chunks, slots, manifests, job configurations and statuses.
    \<^item> \<open>Transfers\<close> (\<open>babel/src/jobs.rs\<close>, \<open>job_runner.rs\<close>, \<open>compression.rs\<close>): the files transfers keep and the
      interface of compression; locale \<open>coder\<close>, interpreted on \<open>NoCoder\<close>.
    \<^item> \<open>Backoff\<close> (\<open>bv_utils/src/lib.rs\<close>, \<open>babel/src/utils.rs\<close>, \<open>job_runner.rs\<close>, \<open>run_sh_job.rs\<close>): the retry
      macros (at most three retries with doubling delays) and the restart loops of archive and shell jobs.
    \<^item> \<open>Download_Chunk\<close>, \<open>Download_Writer\<close>, \<open>Download\<close>, \<open>Multi_Download\<close> (\<open>babel/src/download_job.rs\<close>): one chunk
      in parts and its distribution over destinations (locale \<open>splitter\<close>), the writer with its bounded set
      of open files, the parallel downloads (locales \<open>launcher\<close> and \<open>progressing_launcher\<close>, interpreted on
      both kinds of downloader), and the download of several clients.
    \<^item> \<open>Upload_Manifest\<close>, \<open>Upload\<close> (\<open>babel/src/upload_job.rs\<close>, \<open>utils.rs\<close>): the split of source files into
      chunks, the reader of a chunk, the parallel uploads and the multi-client upload.
    \<^item> \<open>Archive_Roundtrip\<close>: the runs of the chunk uploader, the chunk downloader and the writer together
      restore the source files; the store between them is known by a contract.

  Jobs of a node
    \<^item> \<open>Jobs\<close> (\<open>babel/src/jobs.rs\<close>, \<open>job_runner.rs\<close>): job records, logs, status and configuration files,
      cleanup, and the lock that makes a job run one time only.
    \<^item> \<open>Jobs_Manager\<close> (\<open>babel/src/jobs_manager.rs\<close>): the registry, every client request, the reports of the
      runner processes and the passes of the manager loop. \<open>manager_step\<close> interleaves them with the
      deaths of runners, what runners write to their files, and restarts of Babel from the files and the
      live runners; \<open>manager_reachable\<close> is what they reach from any disk with at most one runner per job.
    \<^item> \<open>Job_Confs\<close>: only a creation changes the configuration of a job in the registry.
    \<^item> \<open>Plugin_Config\<close>, \<open>Multi_Client\<close> (\<open>babel_api/src/plugin_config.rs\<close>,
      \<open>babel/src/multi_client_integration.rs\<close>): the plugin configuration, its validations, the job
      configurations built from it, and the choice of clients.
    \<^item> \<open>Binary_Stream\<close>, \<open>Babel_Service\<close> (\<open>babel/src/babel_service.rs\<close>): files sent in parts with a checksum and
      the gRPC handlers of Babel on the jobs manager and the files of the node.

  The plugin
    \<^item> \<open>Rhai_Plugin\<close> (\<open>babel_api/src/rhai_plugin.rs\<close>): the default \<open>init\<close> and \<open>upload\<close>, reload, and calls of
      script functions. The interpreter is a library: a script is a record of what calling it does.
    \<^item> \<open>Plugin_Plan\<close>: the jobs a default \<open>init\<close> or \<open>upload\<close> is meant to make, as a list; locale \<open>job_engine\<close> states what
      the plugin relies on of an engine, and that the default functions then carry out their plan.
    \<^item> \<open>Babel_Engine\<close> (\<open>bv/src/babel_engine.rs\<close>): the engine of a node: requests of the plugin carried out over a
      connection that may lose calls and replies, with passes of the jobs manager in between.
    \<^item> \<open>Engine_Plan\<close> interprets \<open>job_engine\<close> on this engine; \<open>Plugin_Properties\<close> has the properties that span
      plugin, engine, service and jobs manager.

  The host
    \<^item> \<open>Run_Flag\<close> (\<open>bv_utils/src/run_flag.rs\<close>): shutdown flags, their clones and children.
    \<^item> \<open>Cpu_Registry\<close>, \<open>Firewall\<close> (\<open>bv/src/cpu_registry.rs\<close>, \<open>firewall.rs\<close>, \<open>ufw_wrapper.rs\<close>): the free cores (locale
      \<open>pool\<close>) and the firewall rules of a node.
    \<^item> \<open>Node_State\<close>, \<open>Node\<close>, \<open>Node_Cores\<close> (\<open>bv/src/node_state.rs\<close>, \<open>node.rs\<close>): a node from creation to deletion, with
      the steps of an upgrade and their rollback; no operation of a node multiplies cores.
    \<^item> \<open>Scheduler\<close> (\<open>bv/src/scheduler.rs\<close>), \<open>Host_Platform\<close> (\<open>linux_platform.rs\<close>, \<open>apptainer_platform.rs\<close>).
    \<^item> \<open>Nodes_Manager\<close>, \<open>Manager_Invariants\<close> (\<open>bv/src/nodes_manager.rs\<close>): all requests to the daemon, and the
      invariants over every sequence of them but the rename of a broken node (its own step relation).
    \<^item> \<open>Host_Files\<close> (\<open>bv/src/utils.rs\<close>), \<open>Host_Install\<close> (\<open>installer.rs\<close>, \<open>bin/installer.rs\<close>,
      \<open>bv_utils/src/lock_file.rs\<close>), \<open>Self_Update\<close> (\<open>self_updater.rs\<close>): a careful save with every state of the disk
      it passes, the installer with its rollback to the installer of the version before, and the updater.
    \<^item> \<open>Net_Conf\<close> (\<open>bv/src/bv_config.rs\<close>): the addresses of the host and those free for nodes.
    \<^item> \<open>Api_Client\<close> (\<open>bv/src/services/mod.rs\<close>, \<open>api_config.rs\<close>): tokens and the calls that need them.

  What is proved. The properties carry their numbers in the text before them. Transfers: an archive
  survives upload and download, chunks are downloaded exactly once, the writer applies what it receives
  and keeps its bound, the loops end. Jobs: at most one runner per job, dependencies decide starts,
  stops are durable, one-time jobs run once. Plugin: a successful \<open>init\<close> or \<open>upload\<close> leaves its plan in the registry;
  validation accepts exactly the well-formed configurations. Host: no core is given twice, names
  identify nodes, upgrades succeed or roll back, the firewall decides like its configuration, scheduled
  tasks are called once per occurrence, a careful save loses nothing, an installation that succeeds is in
  place, and the addresses detected for nodes are the free ones of the network. Several properties state behaviour that is surprising; they are
  named after it.

  Loops and bounds. Every loop is a total function: recursion on its data, a measure, or a bound from the
  code (three retries, sixty seconds of waiting for a shutdown, the rules \<open>ufw\<close> can number, three minutes
  of waiting for a service to become healthy). Loops over
  the answers of a server recurse on the remaining size of the chunk. There is no fuel that can run out
  unnoticed: where a bound ends a loop the code itself gives up there.

  Not modelled: parsing and printing of JSON and command lines, logging, the text of most Display
  implementations, the interpreter of Rhai and the table of functions registered with it, the template
  engine, container and process control by external tools, the gRPC transport and the remote API, the
  image builder \<open>nib\<close>, the snapshot tools, and metrics. Asynchronous code is modelled at the granularity
  of its critical sections: the jobs manager, the nodes manager and the registry serve one request at
  a time under their locks, and what runs in between is a step of its own.
\<close>

end
